(* ===== verification/Prelude.thy ===== *)
theory Prelude
  imports Main "HOL-Library.Word"
begin

text \<open>
  Shared vocabulary of the development: results, the byte-string operations of Rust's
  \<^verbatim>\<open>str\<close> that the modelled code uses, and the rewrite rules about them.

  A Rust \<^verbatim>\<open>String\<close> is modelled as an Isabelle \<^typ>\<open>string\<close> holding its UTF-8 bytes, one
  \<^typ>\<open>char\<close> per byte. Every delimiter the modelled code searches for is ASCII, so a
  search on bytes and a search on code points find the same places.
\<close>

named_theorems path_simps \<open>rewriting virtual paths to their component lists\<close>
named_theorems run_simps \<open>running effectful code on a world\<close>
named_theorems emits_intro \<open>introduction rules for the request logic of effectful code\<close>

type_synonym byte = "8 word"
type_synonym u32 = "32 word"
type_synonym u64 = "64 word"

section \<open>Results\<close>

fun map_err :: "('e \<Rightarrow> 'f) \<Rightarrow> 'e + 'a \<Rightarrow> 'f + 'a" where
  "map_err f (Inl e) = Inl (f e)"
| "map_err f (Inr x) = Inr x"

fun is_ok :: "'e + 'a \<Rightarrow> bool" where
  "is_ok (Inl e) = False"
| "is_ok (Inr x) = True"

fun ok_option :: "'e + 'a \<Rightarrow> 'a option" where
  "ok_option (Inl e) = None"
| "ok_option (Inr x) = Some x"

lemma map_err_Inr [simp]: "map_err f r = Inr x \<longleftrightarrow> r = Inr x"
  by (cases r) auto

lemma map_err_Inl: "map_err f r = Inl e \<longleftrightarrow> (\<exists>d. r = Inl d \<and> e = f d)"
  by (cases r) auto

lemma ok_option_Some [simp]: "ok_option r = Some x \<longleftrightarrow> r = Inr x"
  by (cases r) auto

lemma is_ok_iff: "is_ok r \<longleftrightarrow> (\<exists>x. r = Inr x)"
  by (cases r) auto

section \<open>Splitting and joining\<close>

text \<open>\<^verbatim>\<open>str::split(char)\<close>: the pieces between separators, never an empty list.\<close>

fun split_on :: "char \<Rightarrow> string \<Rightarrow> string list" where
  "split_on c [] = [[]]"
| "split_on c (x # xs) =
     (if x = c then [] # split_on c xs
      else (case split_on c xs of [] \<Rightarrow> [[x]] | y # ys \<Rightarrow> (x # y) # ys))"

text \<open>\<^verbatim>\<open>[String]::join\<close>.\<close>

fun join_with :: "string \<Rightarrow> string list \<Rightarrow> string" where
  "join_with sep [] = []"
| "join_with sep [x] = x"
| "join_with sep (x # y # ys) = x @ sep @ join_with sep (y # ys)"

text \<open>\<^verbatim>\<open>str::split_once(char)\<close>.\<close>

fun split_once :: "char \<Rightarrow> string \<Rightarrow> (string \<times> string) option" where
  "split_once c [] = None"
| "split_once c (x # xs) =
     (if x = c then Some ([], xs)
      else map_option (\<lambda>(a, b). (x # a, b)) (split_once c xs))"

definition ends_with_char :: "char \<Rightarrow> string \<Rightarrow> bool" where
  "ends_with_char c s \<longleftrightarrow> s \<noteq> [] \<and> last s = c"

definition starts_with_char :: "char \<Rightarrow> string \<Rightarrow> bool" where
  "starts_with_char c s \<longleftrightarrow> s \<noteq> [] \<and> hd s = c"

text \<open>Substring test, \<^verbatim>\<open>str::contains(&str)\<close>.\<close>

fun contains_str :: "string \<Rightarrow> string \<Rightarrow> bool" where
  "contains_str needle [] = (needle = [])"
| "contains_str needle (x # xs) =
     (take (length needle) (x # xs) = needle \<or> contains_str needle xs)"

lemma split_on_not_Nil [simp]: "split_on c s \<noteq> []"
  by (induction s) (auto split: list.splits)

lemma split_on_no_sep:
  "c \<notin> set s \<Longrightarrow> split_on c s = [s]"
  by (induction s) auto

lemma split_on_append:
  "c \<notin> set a \<Longrightarrow> split_on c (a @ c # b) = a # split_on c b"
  by (induction a) auto

lemma split_on_pieces: "x \<in> set (split_on c s) \<Longrightarrow> c \<notin> set x"
  by (induction s arbitrary: x) (auto split: list.splits if_splits)

lemma split_on_subset: "x \<in> set (split_on c s) \<Longrightarrow> set x \<subseteq> set s"
proof (induction s arbitrary: x)
  case Nil
  then show ?case by simp
next
  case (Cons a s)
  obtain y ys where s: "split_on c s = y # ys"
    by (cases "split_on c s") auto
  with Cons.IH have "set y \<subseteq> set s" and "\<And>z. z \<in> set ys \<Longrightarrow> set z \<subseteq> set s"
    by auto
  with Cons.prems s show ?case by (fastforce split: if_splits)
qed

lemma join_split: "join_with [c] (split_on c s) = s"
proof (induction s)
  case Nil
  then show ?case by simp
next
  case (Cons a s)
  then show ?case
    by (cases "split_on c s"; cases "tl (split_on c s)") auto
qed

lemma split_join:
  "ps \<noteq> [] \<Longrightarrow> \<forall>p \<in> set ps. c \<notin> set p \<Longrightarrow> split_on c (join_with [c] ps) = ps"
  by (induction ps rule: induct_list012) (auto simp: split_on_append split_on_no_sep)

lemma split_once_None: "split_once c s = None \<longleftrightarrow> c \<notin> set s"
  by (induction s) auto

lemma split_once_Some:
  "split_once c s = Some (a, b) \<longleftrightarrow> s = a @ c # b \<and> c \<notin> set a"
proof (induction s arbitrary: a)
  case Nil
  then show ?case by simp
next
  case (Cons x s)
  then show ?case by (cases a) auto
qed

text \<open>Decimal digits, as \<^verbatim>\<open>Display\<close> prints an unsigned integer.\<close>

fun decimal :: "nat \<Rightarrow> string" where
  "decimal n =
     (if n < 10 then [char_of (48 + n)]
      else decimal (n div 10) @ [char_of (48 + n mod 10)])"

declare decimal.simps [simp del]

section \<open>Lists\<close>

lemma butlast_set: "x \<in> set (butlast xs) \<Longrightarrow> x \<in> set xs"
  by (rule in_set_butlastD)

lemma take_drop_prefix: "take (length a) b = a \<longleftrightarrow> (\<exists>c. b = a @ c)"
  by (metis append_eq_conv_conj append_take_drop_id)

text \<open>\<^verbatim>\<open>Iterator::find_map\<close> with the position of the hit.\<close>

fun find_map_index :: "nat \<Rightarrow> ('a \<Rightarrow> 'b option) \<Rightarrow> 'a list \<Rightarrow> (nat \<times> 'b) option" where
  "find_map_index i f [] = None"
| "find_map_index i f (x # xs) =
     (case f x of Some y \<Rightarrow> Some (i, y) | None \<Rightarrow> find_map_index (Suc i) f xs)"

lemma find_map_index_None:
  "find_map_index i f xs = None \<longleftrightarrow> (\<forall>x \<in> set xs. f x = None)"
  by (induction xs arbitrary: i) (auto split: option.splits)

lemma find_map_index_Some:
  "find_map_index i f xs = Some (j, y) \<Longrightarrow>
     i \<le> j \<and> j < i + length xs \<and> f (xs ! (j - i)) = Some y \<and>
     (\<forall>k < j - i. f (xs ! k) = None)"
proof (induction xs arbitrary: i)
  case Nil
  then show ?case by simp
next
  case (Cons x xs)
  show ?case
  proof (cases "f x")
    case None
    with Cons.prems have "find_map_index (Suc i) f xs = Some (j, y)" by simp
    note ih = Cons.IH [OF this]
    then have j: "j - i = Suc (j - Suc i)" by linarith
    with ih None have "\<forall>k < j - i. f ((x # xs) ! k) = None"
      by (auto simp: nth_Cons split: nat.splits)
    with ih j show ?thesis by auto
  next
    case (Some z)
    with Cons.prems show ?thesis by simp
  qed
qed

section \<open>Bytes\<close>

definition bytes_of :: "string \<Rightarrow> byte list" where
  "bytes_of s = map (\<lambda>c. word_of_nat (of_char c)) s"

definition string_of :: "byte list \<Rightarrow> string" where
  "string_of bs = map (\<lambda>b. char_of (unat b)) bs"

lemma string_of_bytes_of [simp]: "string_of (bytes_of s) = s"
proof -
  have "char_of (unat (word_of_nat (of_char c) :: byte)) = c" for c :: char
  proof -
    have "of_char c < (256 :: nat)" by simp
    then show ?thesis by (simp add: unat_of_nat take_bit_nat_def)
  qed
  then show ?thesis by (simp add: string_of_def bytes_of_def o_def map_idI)
qed

lemma length_bytes_of [simp]: "length (bytes_of s) = length s"
  by (simp add: bytes_of_def)

lemma length_string_of [simp]: "length (string_of bs) = length bs"
  by (simp add: string_of_def)

text \<open>
  Well-formed UTF-8 as \<^verbatim>\<open>core::str::from_utf8\<close> checks it (Unicode table 3-7): the second
  byte of a sequence has a range that depends on the first, the rest are continuations.
\<close>

definition in_range :: "nat \<Rightarrow> nat \<Rightarrow> char \<Rightarrow> bool" where
  "in_range lo hi c \<longleftrightarrow> lo \<le> of_char c \<and> of_char c \<le> hi"

fun utf8_tail :: "nat \<Rightarrow> string \<Rightarrow> string option" where
  "utf8_tail 0 s = Some s"
| "utf8_tail (Suc n) [] = None"
| "utf8_tail (Suc n) (c # s) = (if in_range 128 191 c then utf8_tail n s else None)"

lemma utf8_tail_length: "utf8_tail n s = Some r \<Longrightarrow> length r \<le> length s"
  by (induction n s rule: utf8_tail.induct) (auto split: if_splits)

definition utf8_lead :: "char \<Rightarrow> (nat \<times> nat \<times> nat) option" where
  "utf8_lead c =
     (let n = of_char c :: nat in
      if 194 \<le> n \<and> n \<le> 223 then Some (128, 191, 0)
      else if n = 224 then Some (160, 191, 1)
      else if n = 237 then Some (128, 159, 1)
      else if 225 \<le> n \<and> n \<le> 239 then Some (128, 191, 1)
      else if n = 240 then Some (144, 191, 2)
      else if 241 \<le> n \<and> n \<le> 243 then Some (128, 191, 2)
      else if n = 244 then Some (128, 143, 2)
      else None)"

function valid_utf8 :: "string \<Rightarrow> bool" where
  "valid_utf8 [] = True"
| "valid_utf8 (c # s) =
     (if in_range 0 127 c then valid_utf8 s
      else (case utf8_lead c of
              None \<Rightarrow> False
            | Some (lo, hi, k) \<Rightarrow>
                (case s of
                   [] \<Rightarrow> False
                 | d # s' \<Rightarrow>
                     in_range lo hi d \<and>
                     (case utf8_tail k s' of None \<Rightarrow> False | Some r \<Rightarrow> valid_utf8 r))))"
  by pat_completeness auto
termination
  by (relation "measure length") (auto dest: utf8_tail_length)

lemma valid_utf8_bits [code]:
  "valid_utf8 [] = True"
  "valid_utf8 (Char b0 b1 b2 b3 b4 b5 b6 b7 # s) =
     (if \<not> b7 then valid_utf8 s
      else (case utf8_lead (Char b0 b1 b2 b3 b4 b5 b6 b7) of
              None \<Rightarrow> False
            | Some (lo, hi, k) \<Rightarrow>
                (case s of
                   [] \<Rightarrow> False
                 | d # s' \<Rightarrow>
                     in_range lo hi d \<and>
                     (case utf8_tail k s' of None \<Rightarrow> False | Some r \<Rightarrow> valid_utf8 r))))"
proof -
  have "in_range 0 127 (Char b0 b1 b2 b3 b4 b5 b6 b7) \<longleftrightarrow> \<not> b7"
    by (cases b0; cases b1; cases b2; cases b3; cases b4; cases b5; cases b6; cases b7;
        simp add: in_range_def)
  then show "valid_utf8 (Char b0 b1 b2 b3 b4 b5 b6 b7 # s) =
     (if \<not> b7 then valid_utf8 s
      else (case utf8_lead (Char b0 b1 b2 b3 b4 b5 b6 b7) of
              None \<Rightarrow> False
            | Some (lo, hi, k) \<Rightarrow>
                (case s of
                   [] \<Rightarrow> False
                 | d # s' \<Rightarrow>
                     in_range lo hi d \<and>
                     (case utf8_tail k s' of None \<Rightarrow> False | Some r \<Rightarrow> valid_utf8 r))))"
    by (simp cong: if_cong)
qed simp

lemma valid_utf8_ascii: "\<forall>c \<in> set s. in_range 0 127 c \<Longrightarrow> valid_utf8 s"
  by (induction s) auto

end
