(* ===== verification/Virtual_Path.thy ===== *)
theory Virtual_Path
  imports Prelude
begin

text \<open>
  The virtual path grammar (\<^verbatim>\<open>brush-vfs/src/path.rs\<close>): what a path may contain, how
  \<^verbatim>\<open>..\<close> is resolved lexically, and the operations on normalised paths.

  Unicode normalisation comes from the crate \<^verbatim>\<open>unicode_normalization\<close> and case mapping from
  the Unicode tables of the standard library, neither of which is in the repository: they are
  the fields of a record that the definitions take as an argument, and \<open>nfc_ok\<close> is what the
  code relies on about normalisation.
\<close>

section \<open>Unicode tables\<close>

record unicode =
  nfc :: "string \<Rightarrow> string"
  nfc_quick :: "string \<Rightarrow> bool"
  to_lower :: "string \<Rightarrow> string"

text \<open>ASCII characters that canonical composition neither produces nor consumes.\<close>

definition delimiters :: "char list" where
  "delimiters = [CHR ''/'', CHR 0x5C, CHR '':'', CHR ''.'', CHR '' '', CHR 0x00]"

definition ascii_alnum :: "char \<Rightarrow> bool" where
  "ascii_alnum c \<longleftrightarrow>
     in_range 48 57 c \<or> in_range 65 90 c \<or> in_range 97 122 c"

text \<open>
  The facts of Unicode Annex 15 the grammar relies on: the quick check is sound, NFC is
  idempotent, erases nothing, treats each delimiter as a boundary and never creates one, leaves
  ASCII text alone, and no other string normalises to an ASCII alphanumeric one (the Kelvin sign, which normalises
  to \<^verbatim>\<open>K\<close>, is why that letter is excluded).
\<close>

definition nfc_ok :: "unicode \<Rightarrow> bool" where
  "nfc_ok u \<longleftrightarrow>
     (\<forall>s. nfc_quick u s \<longrightarrow> nfc u s = s) \<and>
     (\<forall>s. nfc u (nfc u s) = nfc u s) \<and>
     (\<forall>s. nfc u s = [] \<longrightarrow> s = []) \<and>
     (\<forall>c a b. c \<in> set delimiters \<longrightarrow> nfc u (a @ c # b) = nfc u a @ c # nfc u b) \<and>
     (\<forall>c s. c \<in> set delimiters \<longrightarrow> c \<in> set (nfc u s) \<longrightarrow> c \<in> set s) \<and>
     (\<forall>s. list_all (\<lambda>c. ascii_alnum c \<and> c \<noteq> CHR ''K'') (nfc u s) \<longrightarrow> nfc u s = s) \<and>
     (\<forall>s. list_all (in_range 0 127) s \<longrightarrow> nfc u s = s)"

text \<open>A concrete instance, exact on ASCII text, that witnesses and examples evaluate with.\<close>

definition lower_char :: "char \<Rightarrow> char" where
  "lower_char c = (if in_range 65 90 c then char_of (of_char c + 32 :: nat) else c)"

text \<open>The same on the bits of the character, which is what evaluation uses.\<close>

lemma lower_char_bits [code]:
  "lower_char (Char b0 b1 b2 b3 b4 b5 b6 b7) =
     (if \<not> b7 \<and> b6 \<and> \<not> b5 \<and> (b0 \<or> b1 \<or> b2 \<or> b3 \<or> b4) \<and> \<not> (b4 \<and> b3 \<and> (b2 \<or> b1 \<and> b0))
      then Char b0 b1 b2 b3 b4 True b6 b7 else Char b0 b1 b2 b3 b4 b5 b6 b7)"
  by (cases b0; cases b1; cases b2; cases b3; cases b4; cases b5; cases b6; cases b7;
      simp add: lower_char_def in_range_def char_of_def bit_Suc_0_iff)

definition ascii_unicode :: unicode where
  "ascii_unicode = \<lparr> nfc = (\<lambda>s. s), nfc_quick = (\<lambda>s. True), to_lower = map lower_char \<rparr>"

lemma nfc_ok_ascii [simp]: "nfc_ok ascii_unicode"
  by (simp add: nfc_ok_def ascii_unicode_def)

section \<open>Errors and data\<close>

datatype path_error =
    Escape
  | Backslash
  | Colon string
  | ReservedName string
  | TrailingDotOrSpace string
  | InteriorNul
  | Empty

definition RESERVED_NAMES :: "string list" where
  "RESERVED_NAMES =
     [''con'', ''prn'', ''aux'', ''nul'', ''com0'', ''com1'', ''com2'', ''com3'', ''com4'',
      ''com5'', ''com6'', ''com7'', ''com8'', ''com9'', ''lpt0'', ''lpt1'', ''lpt2'', ''lpt3'',
      ''lpt4'', ''lpt5'', ''lpt6'', ''lpt7'', ''lpt8'', ''lpt9'']"

datatype virtual_path = VirtualPath (inner: string)

section \<open>Operations\<close>

definition root :: virtual_path where
  "root = VirtualPath ''/''"

text \<open>\<^verbatim>\<open>str::eq_ignore_ascii_case\<close>.\<close>

definition eq_ignore_ascii_case :: "string \<Rightarrow> string \<Rightarrow> bool" where
  "eq_ignore_ascii_case a b \<longleftrightarrow> map lower_char a = map lower_char b"

definition stem :: "string \<Rightarrow> string" where
  "stem c = (case split_once CHR ''.'' c of None \<Rightarrow> c | Some (s, _) \<Rightarrow> s)"

definition reserved :: "string \<Rightarrow> bool" where
  "reserved s \<longleftrightarrow> list_ex (\<lambda>r. eq_ignore_ascii_case s r) RESERVED_NAMES"

lemma reserved_names_lower: "list_all (\<lambda>r. map lower_char r = r) RESERVED_NAMES"
  by code_simp

lemma reserved_lowered [code]: "reserved s \<longleftrightarrow> map lower_char s \<in> set RESERVED_NAMES"
  using reserved_names_lower
  unfolding reserved_def eq_ignore_ascii_case_def list_ex_iff list_all_iff by metis

definition validate_component :: "unicode \<Rightarrow> string \<Rightarrow> path_error + string" where
  "validate_component u c =
     (if CHR '':'' \<in> set c then Inl (Colon c)
      else if ends_with_char CHR ''.'' c \<or> ends_with_char CHR '' '' c
      then Inl (TrailingDotOrSpace c)
      else if reserved (stem c) then Inl (ReservedName c)
      else Inr (if nfc_quick u c then c else nfc u c))"

definition components :: "virtual_path \<Rightarrow> string list" where
  "components p = filter (\<lambda>c. c \<noteq> []) (split_on CHR ''/'' (inner p))"

definition is_root :: "virtual_path \<Rightarrow> bool" where
  "is_root p \<longleftrightarrow> inner p = ''/''"

text \<open>The loop over \<^verbatim>\<open>path.split('/')\<close>, with the stack of components so far.\<close>

fun resolve_loop :: "unicode \<Rightarrow> string list \<Rightarrow> string list \<Rightarrow> path_error + string list" where
  "resolve_loop u comps [] = Inr comps"
| "resolve_loop u comps (raw # rest) =
     (if raw = [] \<or> raw = ''.'' then resolve_loop u comps rest
      else if raw = ''..''
      then (if comps = [] then Inl Escape else resolve_loop u (butlast comps) rest)
      else (case validate_component u raw of
              Inl e \<Rightarrow> Inl e
            | Inr c \<Rightarrow> resolve_loop u (comps @ [c]) rest))"

definition render :: "string list \<Rightarrow> string" where
  "render comps = (if comps = [] then ''/'' else concat (map (\<lambda>c. CHR ''/'' # c) comps))"

definition resolve :: "unicode \<Rightarrow> virtual_path \<Rightarrow> string \<Rightarrow> path_error + virtual_path" where
  "resolve u base path =
     (if path = [] then Inl Empty
      else if CHR 0x00 \<in> set path then Inl InteriorNul
      else if CHR 0x5C \<in> set path then Inl Backslash
      else (case resolve_loop u (if starts_with_char CHR ''/'' path then [] else components base)
                   (split_on CHR ''/'' path) of
              Inl e \<Rightarrow> Inl e
            | Inr comps \<Rightarrow> Inr (VirtualPath (render comps))))"

definition new :: "unicode \<Rightarrow> string \<Rightarrow> path_error + virtual_path" where
  "new u path = resolve u root path"

text \<open>The text before the last slash, \<^verbatim>\<open>inner.get(..inner.rfind('/')?)\<close>.\<close>

definition before_last_slash :: "string \<Rightarrow> string option" where
  "before_last_slash s =
     (case dropWhile (\<lambda>c. c \<noteq> CHR ''/'') (rev s) of [] \<Rightarrow> None | _ # r \<Rightarrow> Some (rev r))"

definition parent :: "virtual_path \<Rightarrow> virtual_path option" where
  "parent p =
     (if is_root p then None
      else map_option (\<lambda>s. VirtualPath (if s = [] then ''/'' else s))
             (before_last_slash (inner p)))"

definition file_name :: "virtual_path \<Rightarrow> string option" where
  "file_name p = (if components p = [] then None else Some (last (components p)))"

text \<open>\<^verbatim>\<open>prefix.all(|p| ours.next() == Some(p))\<close>.\<close>

fun all_next :: "string list \<Rightarrow> string list \<Rightarrow> bool" where
  "all_next ours [] = True"
| "all_next [] (p # ps) = False"
| "all_next (x # ours) (p # ps) = (x = p \<and> all_next ours ps)"

definition starts_with :: "virtual_path \<Rightarrow> virtual_path \<Rightarrow> bool" where
  "starts_with p prefix \<longleftrightarrow>
     (if is_root prefix then True else all_next (components p) (components prefix))"

definition strip_prefix :: "virtual_path \<Rightarrow> virtual_path \<Rightarrow> string list option" where
  "strip_prefix p prefix =
     (if \<not> starts_with p prefix then None
      else Some (drop (length (components prefix)) (components p)))"

definition fold_for_collision :: "unicode \<Rightarrow> string \<Rightarrow> string" where
  "fold_for_collision u c = to_lower u (nfc u c)"

text \<open>\<^verbatim>\<open>OsStr::to_str\<close> on a directory entry's name.\<close>

definition nameable :: "string \<Rightarrow> string option" where
  "nameable name = (if valid_utf8 name then Some name else None)"

section \<open>The invariant of a virtual path\<close>

definition plain_component :: "string \<Rightarrow> bool" where
  "plain_component c \<longleftrightarrow> c \<noteq> [] \<and> c \<noteq> ''.'' \<and> c \<noteq> ''..'' \<and> CHR ''/'' \<notin> set c"

definition wf_component :: "unicode \<Rightarrow> string \<Rightarrow> bool" where
  "wf_component u c \<longleftrightarrow>
     c \<noteq> [] \<and> CHR ''/'' \<notin> set c \<and> CHR 0x5C \<notin> set c \<and> CHR '':'' \<notin> set c \<and>
     CHR 0x00 \<notin> set c \<and> last c \<noteq> CHR ''.'' \<and> last c \<noteq> CHR '' '' \<and>
     \<not> reserved (stem c) \<and> nfc u c = c"

definition wf_path :: "unicode \<Rightarrow> virtual_path \<Rightarrow> bool" where
  "wf_path u p \<longleftrightarrow>
     list_all (wf_component u) (components p) \<and> inner p = render (components p)"

lemma wf_component_plain: "wf_component u c \<Longrightarrow> plain_component c"
  by (auto simp: wf_component_def plain_component_def)

lemma split_render:
  "\<forall>c \<in> set cs. CHR ''/'' \<notin> set c \<Longrightarrow>
     split_on CHR ''/'' (concat (map (\<lambda>c. CHR ''/'' # c) cs)) =
     (if cs = [] then [[]] else [] # cs)"
proof (induction cs)
  case Nil
  then show ?case by simp
next
  case (Cons c cs)
  then show ?case
    by (cases cs) (auto simp: split_on_append split_on_no_sep)
qed

lemma components_render [path_simps]:
  "\<forall>c \<in> set cs. c \<noteq> [] \<and> CHR ''/'' \<notin> set c \<Longrightarrow> components (VirtualPath (render cs)) = cs"
proof -
  assume a: "\<forall>c \<in> set cs. c \<noteq> [] \<and> CHR ''/'' \<notin> set c"
  then have "filter (\<lambda>c. c \<noteq> []) cs = cs" by (auto intro: filter_True)
  with a show ?thesis
    by (auto simp: components_def render_def split_render)
qed

lemma components_root [simp, path_simps]: "components root = []"
  by (simp add: components_def root_def)

lemma wf_root [simp]: "wf_path u root"
  by (simp add: wf_path_def) (simp add: root_def render_def)

lemma is_root_root [simp]: "is_root root"
  by (simp add: is_root_def root_def)

lemma wf_path_render:
  "list_all (wf_component u) cs \<Longrightarrow> wf_path u (VirtualPath (render cs))"
  by (auto simp: wf_path_def list_all_iff path_simps wf_component_def)

lemma wf_path_eqI:
  "wf_path u p \<Longrightarrow> wf_path u q \<Longrightarrow> components p = components q \<Longrightarrow> p = q"
  by (metis virtual_path.expand wf_path_def)

lemma wf_path_inner: "wf_path u p \<Longrightarrow> p = VirtualPath (render (components p))"
  by (cases p) (simp add: wf_path_def)

lemma wf_path_components: "wf_path u p \<Longrightarrow> c \<in> set (components p) \<Longrightarrow> wf_component u c"
  by (simp add: wf_path_def list_all_iff)

lemma render_Nil_iff: "\<forall>c \<in> set cs. c \<noteq> [] \<Longrightarrow> render cs = ''/'' \<longleftrightarrow> cs = []"
  by (cases cs) (auto simp: render_def)

lemma is_root_iff [path_simps]: "wf_path u p \<Longrightarrow> is_root p \<longleftrightarrow> components p = []"
proof -
  assume w: "wf_path u p"
  then have "\<forall>c \<in> set (components p). c \<noteq> []"
    by (auto dest: wf_path_components simp: wf_component_def)
  with w show ?thesis
    by (simp add: is_root_def wf_path_def render_Nil_iff)
qed

lemma is_root_components: "is_root p \<Longrightarrow> components p = []"
  by (simp add: is_root_def components_def)

section \<open>Validation keeps the invariant\<close>

lemma nfc_okD:
  assumes "nfc_ok u"
  shows "nfc_quick u s \<Longrightarrow> nfc u s = s"
    and "nfc u (nfc u s) = nfc u s"
    and "nfc u s = [] \<Longrightarrow> s = []"
    and "c \<in> set delimiters \<Longrightarrow> nfc u (a @ c # b) = nfc u a @ c # nfc u b"
    and "c \<in> set delimiters \<Longrightarrow> c \<in> set (nfc u s) \<Longrightarrow> c \<in> set s"
    and "list_all (\<lambda>c. ascii_alnum c \<and> c \<noteq> CHR ''K'') (nfc u s) \<Longrightarrow> nfc u s = s"
    and "list_all (in_range 0 127) s \<Longrightarrow> nfc u s = s"
  using assms unfolding nfc_ok_def by blast+

lemma validate_component_nfc:
  "nfc_ok u \<Longrightarrow> validate_component u c = Inr d \<Longrightarrow> d = nfc u c"
  by (auto simp: validate_component_def nfc_okD(1) split: if_splits)

text \<open>A delimiter ends the normal form only where it ended the original.\<close>

lemma nfc_last:
  assumes u: "nfc_ok u" and d: "d \<in> set delimiters" and c: "c \<noteq> []" and l: "last c \<noteq> d"
  shows "last (nfc u c) \<noteq> d"
proof
  assume last: "last (nfc u c) = d"
  have "nfc u c \<noteq> []" using nfc_okD(3) [OF u] c by blast
  with last have "d \<in> set (nfc u c)" by (metis last_in_set)
  with d have "d \<in> set c" by (rule nfc_okD(5) [OF u])
  then obtain a b where ab: "c = a @ d # b" and nb: "d \<notin> set b"
    by (metis split_list_last)
  with l have b: "b \<noteq> []" by auto
  then have b': "nfc u b \<noteq> []" using nfc_okD(3) [OF u] by blast
  have "nfc u c = nfc u a @ d # nfc u b"
    using ab nfc_okD(4) [OF u d] by simp
  with b' have "last (nfc u c) = last (nfc u b)" by simp
  with last b' have "d \<in> set (nfc u b)" by (metis last_in_set)
  with nb show False using nfc_okD(5) [OF u d] by blast
qed

lemma stem_nfc:
  assumes u: "nfc_ok u"
  shows "stem (nfc u c) = nfc u (stem c)"
proof (cases "split_once CHR ''.'' c")
  case None
  then have "CHR ''.'' \<notin> set c" by (simp add: split_once_None)
  then have "CHR ''.'' \<notin> set (nfc u c)"
    using nfc_okD(5) [OF u, of "CHR ''.''"] by (auto simp: delimiters_def)
  then have "split_once CHR ''.'' (nfc u c) = None"
    by (simp add: split_once_None)
  with None show ?thesis by (simp add: stem_def)
next
  case (Some ab)
  obtain a b where ab: "ab = (a, b)" by (cases ab)
  with Some have c: "c = a @ CHR ''.'' # b" and na: "CHR ''.'' \<notin> set a"
    by (simp_all add: split_once_Some)
  have "nfc u c = nfc u a @ CHR ''.'' # nfc u b"
    unfolding c by (rule nfc_okD(4) [OF u]) (simp add: delimiters_def)
  moreover have "CHR ''.'' \<notin> set (nfc u a)"
    using na nfc_okD(5) [OF u, of "CHR ''.''"] by (auto simp: delimiters_def)
  ultimately have "split_once CHR ''.'' (nfc u c) = Some (nfc u a, nfc u b)"
    by (simp add: split_once_Some)
  with Some ab show ?thesis by (simp add: stem_def)
qed

lemma lower_char_K: "lower_char CHR ''K'' = CHR ''k''"
  by code_simp

lemma lower_char_alnum:
  "in_range 97 122 (lower_char c) \<or> in_range 48 57 (lower_char c) \<Longrightarrow>
     lower_char c \<noteq> CHR ''k'' \<Longrightarrow> ascii_alnum c \<and> c \<noteq> CHR ''K''"
  using lower_char_K
  by (cases "c = CHR ''K''") (auto simp: lower_char_def ascii_alnum_def in_range_def split: if_splits)

lemma reserved_ascii:
  assumes "reserved s"
  shows "list_all (\<lambda>c. ascii_alnum c \<and> c \<noteq> CHR ''K'') s"
proof -
  have names: "\<forall>r \<in> set RESERVED_NAMES. \<forall>c \<in> set r.
      lower_char c = c \<and> (in_range 97 122 c \<or> in_range 48 57 c) \<and> c \<noteq> CHR ''k''"
    by (simp add: RESERVED_NAMES_def in_range_def lower_char_def)
  from assms obtain r where r: "r \<in> set RESERVED_NAMES" and e: "eq_ignore_ascii_case s r"
    by (auto simp: reserved_def list_ex_iff)
  have "ascii_alnum c \<and> c \<noteq> CHR ''K''" if "c \<in> set s" for c
  proof -
    from that have "lower_char c \<in> lower_char ` set s" by simp
    also have "lower_char ` set s = lower_char ` set r"
      using e by (metis eq_ignore_ascii_case_def list.set_map)
    finally obtain d where "d \<in> set r" and "lower_char c = lower_char d" by blast
    with names r show ?thesis using lower_char_alnum [of c] by metis
  qed
  then show ?thesis by (simp add: list_all_iff)
qed

lemma reserved_nfc: "nfc_ok u \<Longrightarrow> reserved (nfc u s) \<Longrightarrow> nfc u s = s"
  by (rule nfc_okD(6)) (auto dest: reserved_ascii)

text \<open>What the grammar promises of an accepted component.\<close>

lemma validate_component_wf:
  assumes u: "nfc_ok u" and v: "validate_component u c = Inr d"
    and c: "c \<noteq> []" "CHR ''/'' \<notin> set c" "CHR 0x5C \<notin> set c" "CHR 0x00 \<notin> set c"
  shows "wf_component u d"
proof -
  have d: "d = nfc u c" using validate_component_nfc [OF u v] .
  from v have colon: "CHR '':'' \<notin> set c"
    and dot: "last c \<noteq> CHR ''.''" and space: "last c \<noteq> CHR '' ''"
    and res: "\<not> reserved (stem c)"
    using c(1) by (auto simp: validate_component_def ends_with_char_def split: if_splits)
  have "\<not> reserved (stem d)"
    using res reserved_nfc [OF u, of "stem c"] by (auto simp: d stem_nfc [OF u])
  moreover have "x \<notin> set d" if "x \<in> set delimiters" "x \<notin> set c" for x
    using nfc_okD(5) [OF u that(1)] that(2) d by blast
  moreover have "last d \<noteq> x" if "x \<in> set delimiters" "last c \<noteq> x" for x
    using nfc_last [OF u that(1) c(1) that(2)] d by simp
  ultimately show ?thesis
    using c colon dot space nfc_okD(2,3) [OF u] d
    by (auto simp: wf_component_def delimiters_def)
qed

text \<open>Validation accepts a well-formed component unchanged.\<close>

lemma validate_wf_component: "wf_component u c \<Longrightarrow> validate_component u c = Inr c"
  by (auto simp: wf_component_def validate_component_def ends_with_char_def)

definition raw_ok :: "string \<Rightarrow> bool" where
  "raw_ok c \<longleftrightarrow> CHR ''/'' \<notin> set c \<and> CHR 0x5C \<notin> set c \<and> CHR 0x00 \<notin> set c"

lemma resolve_loop_wf:
  "nfc_ok u \<Longrightarrow> list_all (wf_component u) comps \<Longrightarrow> list_all raw_ok raws \<Longrightarrow>
     resolve_loop u comps raws = Inr out \<Longrightarrow> list_all (wf_component u) out"
proof (induction u comps raws rule: resolve_loop.induct)
  case (1 u comps)
  then show ?case by simp
next
  case (2 u comps raw rest)
  from "2.prems"(2) have but: "list_all (wf_component u) (butlast comps)"
    by (auto simp: list_all_iff dest: in_set_butlastD)
  consider (noop) "raw = [] \<or> raw = ''.''" | (up) "raw = ''..''"
    | (name) "raw \<noteq> []" "raw \<noteq> ''.''" "raw \<noteq> ''..''" by blast
  then show ?case
  proof cases
    case noop
    with "2.IH"(1) "2.prems" show ?thesis by auto
  next
    case up
    with "2.IH"(2) "2.prems" but show ?thesis by (auto split: if_splits)
  next
    case name
    with "2.prems" obtain d where v: "validate_component u raw = Inr d"
      and l: "resolve_loop u (comps @ [d]) rest = Inr out"
      by (auto split: sum.splits)
    have "wf_component u d"
      using validate_component_wf [OF "2.prems"(1) v] name "2.prems"(3)
      by (simp add: raw_ok_def)
    with "2.IH"(3) name v l "2.prems" show ?thesis by auto
  qed
qed

lemma split_raw_ok:
  "CHR 0x5C \<notin> set s \<Longrightarrow> CHR 0x00 \<notin> set s \<Longrightarrow> list_all raw_ok (split_on CHR ''/'' s)"
  using split_on_pieces split_on_subset by (fastforce simp: list_all_iff raw_ok_def)

lemma wf_path_list_all: "wf_path u p \<Longrightarrow> list_all (wf_component u) (components p)"
  by (simp add: wf_path_def)

lemma resolve_Inr:
  "resolve u base path = Inr p \<longleftrightarrow>
     path \<noteq> [] \<and> CHR 0x00 \<notin> set path \<and> CHR 0x5C \<notin> set path \<and>
     (\<exists>comps. resolve_loop u (if starts_with_char CHR ''/'' path then [] else components base)
                 (split_on CHR ''/'' path) = Inr comps \<and> p = VirtualPath (render comps))"
  by (auto simp: resolve_def split: sum.splits)

lemma resolve_wf_path:
  assumes "nfc_ok u" and "wf_path u base" and "resolve u base path = Inr p"
  shows "wf_path u p"
proof -
  from assms(3) obtain comps where
    l: "resolve_loop u (if starts_with_char CHR ''/'' path then [] else components base)
          (split_on CHR ''/'' path) = Inr comps"
    and p: "p = VirtualPath (render comps)"
    and "CHR 0x00 \<notin> set path" "CHR 0x5C \<notin> set path"
    by (auto simp: resolve_Inr)
  then have "list_all raw_ok (split_on CHR ''/'' path)" by (simp add: split_raw_ok)
  moreover have "list_all (wf_component u)
      (if starts_with_char CHR ''/'' path then [] else components base)"
    using wf_path_list_all [OF assms(2)] by simp
  ultimately have "list_all (wf_component u) comps"
    using resolve_loop_wf assms(1) l by blast
  then show ?thesis unfolding p by (rule wf_path_render)
qed

lemma resolve_components:
  assumes "nfc_ok u" and "wf_path u base" and "resolve u base path = Inr p"
  shows "resolve_loop u (if starts_with_char CHR ''/'' path then [] else components base)
           (split_on CHR ''/'' path) = Inr (components p)"
proof -
  from assms(3) obtain comps where
    l: "resolve_loop u (if starts_with_char CHR ''/'' path then [] else components base)
          (split_on CHR ''/'' path) = Inr comps"
    and p: "p = VirtualPath (render comps)"
    by (auto simp: resolve_Inr)
  have "inner p = render (components p)"
    using resolve_wf_path [OF assms] by (simp add: wf_path_def)
  have "list_all (wf_component u) comps"
  proof (rule resolve_loop_wf [OF assms(1) _ _ l])
    show "list_all (wf_component u)
        (if starts_with_char CHR ''/'' path then [] else components base)"
      using wf_path_list_all [OF assms(2)] by simp
    show "list_all raw_ok (split_on CHR ''/'' path)"
      using assms(3) by (intro split_raw_ok) (auto simp: resolve_Inr)
  qed
  then have "components p = comps"
    unfolding p by (intro components_render) (auto simp: list_all_iff wf_component_def)
  with l show ?thesis by simp
qed

section \<open>Prefixes and parents\<close>

lemma all_next_iff: "all_next xs ys \<longleftrightarrow> (\<exists>rest. xs = ys @ rest)"
  by (induction xs ys rule: all_next.induct) auto

lemma starts_with_components:
  "starts_with p q \<longleftrightarrow> (\<exists>rest. components p = components q @ rest)"
  by (simp add: starts_with_def all_next_iff is_root_components)

lemma strip_prefix_Some [path_simps]:
  "strip_prefix p q = Some rest \<longleftrightarrow> components p = components q @ rest"
  by (auto simp: strip_prefix_def starts_with_components)

lemma strip_prefix_None: "strip_prefix p q = None \<longleftrightarrow> \<not> starts_with p q"
  by (simp add: strip_prefix_def)

lemma before_last_slash_append:
  "CHR ''/'' \<notin> set c \<Longrightarrow> before_last_slash (s @ CHR ''/'' # c) = Some s"
proof -
  assume c: "CHR ''/'' \<notin> set c"
  have "dropWhile (\<lambda>x. x \<noteq> CHR ''/'') (rev c @ CHR ''/'' # rev s) = CHR ''/'' # rev s"
    using c by (subst dropWhile_append2) auto
  then show ?thesis by (simp add: before_last_slash_def)
qed

lemma parent_render:
  assumes "\<forall>c \<in> set (cs @ [c]). c \<noteq> [] \<and> CHR ''/'' \<notin> set c"
  shows "parent (VirtualPath (render (cs @ [c]))) = Some (VirtualPath (render cs))"
proof -
  have inner: "render (cs @ [c]) = concat (map ((#) CHR ''/'') cs) @ CHR ''/'' # c"
    by (simp add: render_def)
  have "render (cs @ [c]) \<noteq> ''/''"
    using assms render_Nil_iff [of "cs @ [c]"] by simp
  then have "\<not> is_root (VirtualPath (render (cs @ [c])))" by (simp add: is_root_def)
  moreover have "before_last_slash (render (cs @ [c])) = Some (concat (map ((#) CHR ''/'') cs))"
    unfolding inner using assms by (intro before_last_slash_append) simp
  moreover have "concat (map ((#) CHR ''/'') cs) = [] \<longleftrightarrow> cs = []"
    by (cases cs) auto
  ultimately show ?thesis by (simp add: parent_def render_def)
qed

lemma parent_wf:
  assumes "wf_path u p" and "components p \<noteq> []"
  obtains q where "parent p = Some q" "wf_path u q" "components q = butlast (components p)"
proof -
  let ?cs = "butlast (components p)"
  have cs: "components p = ?cs @ [last (components p)]" using assms(2) by simp
  have wf: "\<forall>c \<in> set (components p). wf_component u c"
    using assms(1) by (auto dest: wf_path_components)
  then have plain: "\<forall>c \<in> set (?cs @ [last (components p)]). c \<noteq> [] \<and> CHR ''/'' \<notin> set c"
    using cs by (metis wf_component_def)
  have wf': "list_all (wf_component u) ?cs"
    using wf by (auto simp: list_all_iff dest: in_set_butlastD)
  have "parent p = Some (VirtualPath (render ?cs))"
    using parent_render [OF plain] wf_path_inner [OF assms(1)] cs by metis
  moreover have "wf_path u (VirtualPath (render ?cs))" by (rule wf_path_render [OF wf'])
  moreover have "components (VirtualPath (render ?cs)) = ?cs"
    using plain by (intro components_render) auto
  ultimately show thesis by (rule that)
qed

lemma parent_None: "wf_path u p \<Longrightarrow> parent p = None \<longleftrightarrow> components p = []"
  using parent_wf [of u p] by (auto simp: parent_def is_root_iff [symmetric] split: if_splits)

section \<open>Resolving in steps\<close>

lemma resolve_loop_append:
  "resolve_loop u comps (a @ b) =
     (case resolve_loop u comps a of Inl e \<Rightarrow> Inl e | Inr cs \<Rightarrow> resolve_loop u cs b)"
  by (induction u comps a rule: resolve_loop.induct) (auto split: sum.splits)

lemma split_on_append_sep: "split_on c (a @ c # b) = split_on c a @ split_on c b"
  by (induction a) (auto split: list.splits simp: Cons_eq_append_conv)

lemma resolve_loop_wf_names:
  "list_all (wf_component u) cs \<Longrightarrow> resolve_loop u comps cs = Inr (comps @ cs)"
proof (induction cs arbitrary: comps)
  case Nil
  then show ?case by simp
next
  case (Cons c cs)
  then have "plain_component c" and "validate_component u c = Inr c"
    by (auto simp: wf_component_plain validate_wf_component)
  with Cons show ?case by (simp add: plain_component_def)
qed

text \<open>One well-formed name extends the path by exactly that name.\<close>

lemma wf_component_raw: "wf_component u c \<Longrightarrow> raw_ok c"
  by (auto simp: wf_component_def raw_ok_def)

lemma resolve_name:
  assumes "wf_path u p" and "wf_component u c"
  shows "resolve u p c = Inr (VirtualPath (render (components p @ [c])))"
proof -
  have c: "c \<noteq> []" "CHR 0x00 \<notin> set c" "CHR 0x5C \<notin> set c" "CHR ''/'' \<notin> set c"
    using assms(2) by (auto simp: wf_component_def)
  moreover from c have "\<not> starts_with_char CHR ''/'' c"
    by (cases c) (auto simp: starts_with_char_def)
  ultimately show ?thesis
    using assms(2) resolve_loop_wf_names [of u "[c]" "components p"]
    by (simp add: resolve_def split_on_no_sep)
qed

text \<open>A rendered path resolves to itself from anywhere.\<close>

lemma resolve_inner:
  assumes "wf_path u p"
  shows "resolve u base (inner p) = Inr p"
proof -
  let ?cs = "components p"
  have wf: "\<forall>c \<in> set ?cs. wf_component u c" using assms by (auto dest: wf_path_components)
  have inner: "inner p = render ?cs" using assms by (simp add: wf_path_def)
  have noslash: "\<forall>c \<in> set ?cs. CHR ''/'' \<notin> set c" using wf by (auto simp: wf_component_def)
  have split: "split_on CHR ''/'' (inner p) = (if ?cs = [] then [[], []] else [] # ?cs)"
    unfolding inner using split_render [OF noslash] by (simp add: render_def)
  have "resolve_loop u [] (split_on CHR ''/'' (inner p)) = Inr ?cs"
    using resolve_loop_wf_names [of u ?cs "[]"] wf_path_list_all [OF assms] by (simp add: split)
  moreover have "starts_with_char CHR ''/'' (inner p)"
    unfolding inner by (cases ?cs) (auto simp: render_def starts_with_char_def)
  moreover have "CHR 0x00 \<notin> set (inner p)" "CHR 0x5C \<notin> set (inner p)"
    unfolding inner using wf by (auto simp: render_def wf_component_def)
  ultimately have "resolve u base (inner p) = Inr (VirtualPath (render ?cs))"
    by (auto simp: resolve_def starts_with_char_def)
  then show ?thesis using wf_path_inner [OF assms] by simp
qed

section \<open>A second reading of lexical resolution\<close>

text \<open>
  The reference reads the pieces from the right: every \<^verbatim>\<open>..\<close> cancels the next name that is
  still standing to its left, and what is left over is taken off the base.
\<close>

fun cancel :: "(string \<Rightarrow> string) \<Rightarrow> string list \<Rightarrow> nat \<times> string list" where
  "cancel norm [] = (0, [])"
| "cancel norm (raw # rest) =
     (let (k, kept) = cancel norm rest in
      if raw = [] \<or> raw = ''.'' then (k, kept)
      else if raw = ''..'' then (Suc k, kept)
      else if 0 < k then (k - 1, kept)
      else (0, norm raw # kept))"

definition lexical :: "(string \<Rightarrow> string) \<Rightarrow> string list \<Rightarrow> string list \<Rightarrow> string list option" where
  "lexical norm base raws =
     (let (k, kept) = cancel norm raws in
      if length base < k then None else Some (take (length base - k) base @ kept))"

definition piece_ok :: "unicode \<Rightarrow> string \<Rightarrow> bool" where
  "piece_ok u raw \<longleftrightarrow> raw = [] \<or> raw = ''.'' \<or> raw = ''..'' \<or> is_ok (validate_component u raw)"

lemma lexical_up:
  "comps \<noteq> [] \<Longrightarrow> lexical norm (butlast comps) rest = lexical norm comps (''..'' # rest)"
  by (cases comps rule: rev_cases; cases "cancel norm rest") (auto simp: lexical_def)

lemma lexical_name:
  assumes "raw \<noteq> []" "raw \<noteq> ''.''" "raw \<noteq> ''..''"
  shows "lexical norm (comps @ [norm raw]) rest = lexical norm comps (raw # rest)"
  using assms by (cases "cancel norm rest") (auto simp: lexical_def Suc_diff_le)

lemma resolve_loop_lexical:
  assumes "nfc_ok u" and "list_all (piece_ok u) raws"
  shows "resolve_loop u comps raws =
           (case lexical (nfc u) comps raws of None \<Rightarrow> Inl Escape | Some cs \<Rightarrow> Inr cs)"
  using assms(2)
proof (induction raws arbitrary: comps)
  case Nil
  then show ?case by (simp add: lexical_def)
next
  case (Cons raw rest)
  consider (noop) "raw = [] \<or> raw = ''.''" | (up) "raw = ''..''"
    | (name) "raw \<noteq> []" "raw \<noteq> ''.''" "raw \<noteq> ''..''" by blast
  then show ?case
  proof cases
    case noop
    with Cons show ?thesis by (auto simp: lexical_def)
  next
    case up
    with Cons show ?thesis
      by (cases "comps = []")
         (auto simp: lexical_up [symmetric], simp add: lexical_def split: prod.split)
  next
    case name
    with Cons.prems obtain d where v: "validate_component u raw = Inr d"
      by (auto simp: piece_ok_def is_ok_iff)
    then have "d = nfc u raw" by (rule validate_component_nfc [OF assms(1)])
    with name v Cons show ?thesis by (simp add: lexical_name)
  qed
qed

section \<open>Properties\<close>

text \<open>C29. Whatever string is resolved, against whatever well-formed base, an accepted result
  is absolute, is exactly the rendering of its components, and has only components that are
  plain names: no \<^verbatim>\<open>.\<close> or \<^verbatim>\<open>..\<close>, no separator of any host dialect, no colon, no NUL, no trailing
  dot or space, no reserved device name, and already in normal form C.\<close>

theorem resolve_stays_in_grammar:
  assumes "nfc_ok u" and "wf_path u base" and "resolve u base path = Inr p"
  shows "inner p = render (components p) \<and> starts_with_char CHR ''/'' (inner p) \<and>
    (\<forall>c \<in> set (components p). plain_component c \<and> CHR 0x5C \<notin> set c \<and> CHR '':'' \<notin> set c \<and>
       CHR 0x00 \<notin> set c \<and> last c \<noteq> CHR ''.'' \<and> last c \<noteq> CHR '' '' \<and>
       \<not> reserved (stem c) \<and> nfc u c = c)"
proof -
  have wf: "wf_path u p" by (rule resolve_wf_path [OF assms])
  then have inner: "inner p = render (components p)" by (simp add: wf_path_def)
  moreover have "starts_with_char CHR ''/'' (inner p)"
    unfolding inner by (cases "components p") (auto simp: render_def starts_with_char_def)
  ultimately show ?thesis
    using wf_path_components [OF wf] by (metis wf_component_def wf_component_plain)
qed

theorem resolve_stays_in_grammar_witness:
  "inner (VirtualPath ''/work/b'') = render (components (VirtualPath ''/work/b'')) \<and>
   starts_with_char CHR ''/'' (inner (VirtualPath ''/work/b'')) \<and>
   list_all (\<lambda>c. plain_component c \<and> CHR 0x5C \<notin> set c \<and> CHR '':'' \<notin> set c \<and>
       CHR 0x00 \<notin> set c \<and> last c \<noteq> CHR ''.'' \<and> last c \<noteq> CHR '' '' \<and>
       \<not> reserved (stem c) \<and> nfc ascii_unicode c = c) (components (VirtualPath ''/work/b''))"
  unfolding list_all_iff
proof (rule resolve_stays_in_grammar [OF nfc_ok_ascii wf_root])
  show "resolve ascii_unicode root ''/work/a/..//./b'' = Inr (VirtualPath ''/work/b'')"
    by code_simp
qed

text \<open>Printing and parsing are inverse: a well-formed path, written out and interpreted
  again from any base, is the same path.\<close>

theorem new_inner_roundtrip:
  assumes "wf_path u p"
  shows "new u (inner p) = Inr p \<and> resolve u base (inner p) = Inr p"
  using resolve_inner [OF assms] by (simp add: new_def)

theorem new_inner_roundtrip_witness:
  "new ascii_unicode (inner (VirtualPath ''/work/src'')) = Inr (VirtualPath ''/work/src'') \<and>
   resolve ascii_unicode (VirtualPath ''/tmp'') (inner (VirtualPath ''/work/src''))
     = Inr (VirtualPath ''/work/src'')"
  by (rule new_inner_roundtrip) code_simp

text \<open>C30. Lexical resolution agrees with reading the pieces from the right and cancelling:
  on a path whose names are all acceptable, the result is the base shortened by the
  uncancelled \<^verbatim>\<open>..\<close>s followed by the surviving names, and the only failure is an escape above
  the root, which happens exactly when there are more uncancelled \<^verbatim>\<open>..\<close>s than base components.\<close>

theorem resolve_lexical:
  assumes "nfc_ok u" and "path \<noteq> []" and "CHR 0x00 \<notin> set path" and "CHR 0x5C \<notin> set path"
    and "list_all (piece_ok u) (split_on CHR ''/'' path)"
  shows "resolve u base path =
    (case lexical (nfc u) (if starts_with_char CHR ''/'' path then [] else components base)
            (split_on CHR ''/'' path) of
       None \<Rightarrow> Inl Escape
     | Some cs \<Rightarrow> Inr (VirtualPath (render cs)))"
  using assms by (auto simp: resolve_def resolve_loop_lexical split: option.split)

theorem resolve_lexical_witness:
  "resolve ascii_unicode (VirtualPath ''/a/b'') ''../x/../../y'' =
    (case lexical (nfc ascii_unicode)
            (if starts_with_char CHR ''/'' ''../x/../../y'' then []
             else components (VirtualPath ''/a/b''))
            (split_on CHR ''/'' ''../x/../../y'') of
       None \<Rightarrow> Inl Escape
     | Some cs \<Rightarrow> Inr (VirtualPath (render cs)))"
  by (rule resolve_lexical [OF nfc_ok_ascii]) code_simp+

text \<open>Resolution composes: resolving \<^verbatim>\<open>p/r\<close> in one go is resolving \<^verbatim>\<open>p\<close> and then the relative
  \<^verbatim>\<open>r\<close> from there, errors included, so a working directory may be changed in steps.\<close>

theorem resolve_in_steps:
  assumes "nfc_ok u" and "wf_path u base" and "resolve u base p = Inr q"
    and "r \<noteq> []" and "\<not> starts_with_char CHR ''/'' r"
  shows "resolve u base (p @ CHR ''/'' # r) = resolve u q r"
proof -
  have p: "p \<noteq> []" "CHR 0x00 \<notin> set p" "CHR 0x5C \<notin> set p"
    using assms(3) by (auto simp: resolve_Inr)
  have "resolve_loop u (if starts_with_char CHR ''/'' p then [] else components base)
          (split_on CHR ''/'' p) = Inr (components q)"
    by (rule resolve_components [OF assms(1-3)])
  with p assms(4,5) show ?thesis
    by (auto simp: resolve_def split_on_append_sep resolve_loop_append starts_with_char_def)
qed

theorem resolve_in_steps_witness:
  "resolve ascii_unicode root (''/work/src'' @ CHR ''/'' # ''../lib'')
     = resolve ascii_unicode (VirtualPath ''/work/src'') ''../lib''"
  by (rule resolve_in_steps [OF nfc_ok_ascii wf_root]) code_simp+

text \<open>Prefix tests compare whole components: \<^verbatim>\<open>strip_prefix\<close> answers exactly when the
  components of the prefix begin those of the path, with exactly the rest, and
  \<^verbatim>\<open>starts_with\<close> agrees with it.\<close>

theorem strip_prefix_spec:
  "(strip_prefix p q = Some rest \<longleftrightarrow> components p = components q @ rest) \<and>
   (starts_with p q \<longleftrightarrow> strip_prefix p q \<noteq> None)"
  by (simp add: strip_prefix_Some strip_prefix_None)

text \<open>Every path but the root is its parent extended by its file name; the root has neither.\<close>

theorem parent_file_name:
  assumes "wf_path u p"
  shows "(if is_root p then parent p = None \<and> file_name p = None
          else \<exists>q c. parent p = Some q \<and> wf_path u q \<and> file_name p = Some c \<and>
                 components p = components q @ [c] \<and> resolve u q c = Inr p)"
proof (cases "is_root p")
  case True
  then show ?thesis by (simp add: parent_def file_name_def is_root_components)
next
  case False
  then have ne: "components p \<noteq> []" using is_root_iff [OF assms] by simp
  obtain q where q: "parent p = Some q" "wf_path u q" "components q = butlast (components p)"
    using parent_wf [OF assms ne] by blast
  let ?c = "last (components p)"
  have cs: "components p = components q @ [?c]" using ne q(3) by simp
  have "wf_component u ?c" by (rule wf_path_components [OF assms last_in_set [OF ne]])
  from resolve_name [OF q(2) this] cs have "resolve u q ?c = Inr p"
    using wf_path_inner [OF assms] by simp
  with q cs False ne show ?thesis by (auto simp: file_name_def)
qed

theorem parent_file_name_witness:
  "(if is_root (VirtualPath ''/a/b'')
    then parent (VirtualPath ''/a/b'') = None \<and> file_name (VirtualPath ''/a/b'') = None
    else \<exists>q c. parent (VirtualPath ''/a/b'') = Some q \<and> wf_path ascii_unicode q \<and>
           file_name (VirtualPath ''/a/b'') = Some c \<and>
           components (VirtualPath ''/a/b'') = components q @ [c] \<and>
           resolve ascii_unicode q c = Inr (VirtualPath ''/a/b''))"
  by (rule parent_file_name) code_simp

end
