(* ===== verification/Host_Interface.thy ===== *)
theory Host_Interface
  imports Virtual_Path
begin

text \<open>
  The boundary between the namespace and the host. Below it lie the crates \<^verbatim>\<open>cap-std\<close>,
  \<^verbatim>\<open>cap-primitives\<close>, \<^verbatim>\<open>cap-fs-ext\<close> and the kernel: none is in the repository, so the host is
  a record of functions that answer requests on an arbitrary world, and every definition
  above takes that record as an argument. No fact about the answers is assumed.

  Effectful code is a function from the world to its result, the requests it made, in order,
  and the world after. The request log is what the confinement theorems are about: they hold
  for every host and every world, whatever the host answers.

  A directory handle carries its provenance: the mount directory it started from and the
  names it was opened by, with the number the host gave it. That is what a capability is,
  and it makes "this request stays beneath that mount" a property of the request alone.
\<close>

section \<open>I/O errors\<close>

text \<open>The \<^verbatim>\<open>std::io::ErrorKind\<close>s the code tells apart; \<open>OtherKind\<close> is \<^verbatim>\<open>ErrorKind::Other\<close>,
  \<open>Uncategorized\<close> any kind the code never names.\<close>

datatype error_kind =
    NotFound | PermissionDenied | AlreadyExists | InvalidInput | InvalidData | NotADirectory
  | IsADirectory | CrossesDevices | BrokenPipe | Interrupted | WouldBlock | TimedOut
  | ConnectionRefused | OutOfMemory | Unsupported | OtherKind | Uncategorized

text \<open>The message of an error the code makes itself: fixed text with the virtual path it names,
  or the display of a grammar error.\<close>

datatype message = Text string | TextPath string virtual_path | PathMessage path_error

text \<open>\<open>OsError\<close> is an error with an operating-system code, \<open>Custom\<close> one the code built.\<close>

datatype io_error = OsError int error_kind | Custom error_kind message

primrec kind :: "io_error \<Rightarrow> error_kind" where
  "kind (OsError code k) = k"
| "kind (Custom k m) = k"

section \<open>Metadata, open options, handles\<close>

datatype file_type =
    RegularFile | Directory | SymbolicLink | BlockDevice | CharDevice | Fifo | Socket

record metadata =
  md_type :: file_type
  md_mode :: u32
  md_len :: u64
  md_dev :: u64
  md_ino :: u64
  md_uid :: u32
  md_gid :: u32

text \<open>\<^verbatim>\<open>cap_std::fs::OpenOptions\<close>, as \<^verbatim>\<open>OpenMode::to_cap_std\<close> fills it in.\<close>

record open_options =
  oo_read :: bool
  oo_write :: bool
  oo_append :: bool
  oo_create :: bool
  oo_create_new :: bool
  oo_truncate :: bool
  oo_custom_flags :: int
  oo_mode :: "u32 option"

record access_modes =
  readable :: bool
  writable :: bool
  executable :: bool

type_synonym rel_path = "string list"
type_synonym host_path = "string list"

datatype dir_handle =
    MountDir nat
  | OpenedDir dir_handle rel_path nat
  | ClonedDir dir_handle nat

datatype file_handle =
    DirAsFile dir_handle
  | OpenedFile dir_handle rel_path open_options nat
  | EntryFile dir_handle string nat

primrec dir_origin :: "dir_handle \<Rightarrow> nat" where
  "dir_origin (MountDir n) = n"
| "dir_origin (OpenedDir d r n) = dir_origin d"
| "dir_origin (ClonedDir d n) = dir_origin d"

section \<open>Requests\<close>

type_synonym time = int

datatype (plugins only: code size) request =
    SymlinkMetadata dir_handle rel_path
  | PathMetadata dir_handle rel_path
  | Exists dir_handle rel_path
  | DirMetadata dir_handle
  | OpenDir dir_handle rel_path
  | TryClone dir_handle
  | ReadLinkContents dir_handle rel_path
  | OpenFile dir_handle rel_path open_options
  | OpenEntryNoFollow dir_handle string
  | FileMetadata file_handle
  | AccessCheck dir_handle rel_path access_modes
  | ReadEntries dir_handle
  | CreateDirAll dir_handle rel_path
  | CreateDir dir_handle rel_path
  | CreateDirWith dir_handle rel_path u32 bool
  | RemoveFile dir_handle rel_path
  | RemoveDir dir_handle rel_path
  | RemoveDirAll dir_handle rel_path
  | Rename dir_handle rel_path dir_handle rel_path
  | SetTimes dir_handle rel_path time time
  | SetSymlinkTimes dir_handle rel_path time time
  | SetPermissions dir_handle rel_path u32
  | CopyFile dir_handle rel_path dir_handle rel_path
  | HardLink dir_handle rel_path dir_handle rel_path
  | MakeSymlink dir_handle string rel_path
  | ReadToEnd file_handle
  | WriteAll file_handle string
  | Canonicalize host_path
  | OpenAmbientDir host_path
  | ClockNow
  | SleepMillis nat
  | SocketAccept nat
  | SocketPeerPid nat
  | SocketSend nat "byte list" "nat list"
  | SocketConnect string
  | SocketReceive nat nat nat
  | SocketBind string
  | SocketNonblocking nat
  | HostMkdir string u32 bool
  | HostUnlink string
  | HostRmdir string
  | HostExists host_path
  | HostIsFile host_path
  | HostCreateDirAll host_path
  | HostReadString host_path
  | HostWrite host_path string
  | CurrentExe
  | SpawnChild string "string list" bool "(string \<times> string) list"
  | ChildStdin nat string
  | ChildStdout nat
  | ChildStderr nat
  | ChildWait nat
  | WallClock
  | RandomU64

record 'w host =
  h_unit :: "'w \<Rightarrow> request \<Rightarrow> (io_error + unit) \<times> 'w"
  h_bool :: "'w \<Rightarrow> request \<Rightarrow> (io_error + bool) \<times> 'w"
  h_num :: "'w \<Rightarrow> request \<Rightarrow> (io_error + nat) \<times> 'w"
  h_meta :: "'w \<Rightarrow> request \<Rightarrow> (io_error + metadata) \<times> 'w"
  h_bytes :: "'w \<Rightarrow> request \<Rightarrow> (io_error + string) \<times> 'w"
  h_names :: "'w \<Rightarrow> request \<Rightarrow> (io_error + (io_error + string) list) \<times> 'w"
  h_path :: "'w \<Rightarrow> request \<Rightarrow> (io_error + host_path) \<times> 'w"
  h_int :: "'w \<Rightarrow> request \<Rightarrow> (io_error + int) \<times> 'w"
  h_message :: "'w \<Rightarrow> request \<Rightarrow> (io_error + byte list \<times> nat list) \<times> 'w"

section \<open>Effectful code\<close>

type_synonym ('w, 'a) io = "'w \<Rightarrow> (io_error + 'a) \<times> request list \<times> 'w"

definition ok :: "'a \<Rightarrow> ('w, 'a) io" where
  "ok x = (\<lambda>w. (Inr x, [], w))"

definition fail :: "io_error \<Rightarrow> ('w, 'a) io" where
  "fail e = (\<lambda>w. (Inl e, [], w))"

text \<open>Rust's \<^verbatim>\<open>?\<close>: go on with the value, or return the error.\<close>

definition try_then :: "('w, 'a) io \<Rightarrow> ('a \<Rightarrow> ('w, 'b) io) \<Rightarrow> ('w, 'b) io" where
  "try_then m f =
     (\<lambda>w. case m w of
            (Inl e, qs, w') \<Rightarrow> (Inl e, qs, w')
          | (Inr x, qs, w') \<Rightarrow> (case f x w' of (r, qs', w'') \<Rightarrow> (r, qs @ qs', w'')))"

text \<open>A call whose \<^verbatim>\<open>Result\<close> is inspected rather than propagated.\<close>

definition attempt :: "('w, 'a) io \<Rightarrow> ('w, io_error + 'a) io" where
  "attempt m = (\<lambda>w. case m w of (r, qs, w') \<Rightarrow> (Inr r, qs, w'))"

definition lift_result :: "io_error + 'a \<Rightarrow> ('w, 'a) io" where
  "lift_result r = (\<lambda>w. (r, [], w))"

definition call :: "('w \<Rightarrow> request \<Rightarrow> (io_error + 'a) \<times> 'w) \<Rightarrow> request \<Rightarrow> ('w, 'a) io" where
  "call f q = (\<lambda>w. case f w q of (r, w') \<Rightarrow> (r, [q], w'))"

text \<open>Requests that answer with a handle name it by its provenance.\<close>

definition open_dir_at :: "'w host \<Rightarrow> dir_handle \<Rightarrow> rel_path \<Rightarrow> ('w, dir_handle) io" where
  "open_dir_at H d r =
     try_then (call (h_num H) (OpenDir d r)) (\<lambda>n. ok (OpenedDir d r n))"

definition clone_dir :: "'w host \<Rightarrow> dir_handle \<Rightarrow> ('w, dir_handle) io" where
  "clone_dir H d = try_then (call (h_num H) (TryClone d)) (\<lambda>n. ok (ClonedDir d n))"

definition open_file_at ::
  "'w host \<Rightarrow> dir_handle \<Rightarrow> rel_path \<Rightarrow> open_options \<Rightarrow> ('w, file_handle) io" where
  "open_file_at H d r opts =
     try_then (call (h_num H) (OpenFile d r opts)) (\<lambda>n. ok (OpenedFile d r opts n))"

definition open_entry :: "'w host \<Rightarrow> dir_handle \<Rightarrow> string \<Rightarrow> ('w, file_handle) io" where
  "open_entry H d name =
     try_then (call (h_num H) (OpenEntryNoFollow d name)) (\<lambda>n. ok (EntryFile d name n))"

primrec result :: "(io_error + 'a) \<times> request list \<times> 'w \<Rightarrow> io_error + 'a" where
  "result (r, x) = r"

definition requests :: "(io_error + 'a) \<times> request list \<times> 'w \<Rightarrow> request list" where
  "requests t = fst (snd t)"

lemma requests_simp [simp]: "requests (r, qs, w) = qs"
  by (simp add: requests_def)

lemma ok_run [run_simps]: "ok x w = (Inr x, [], w)"
  by (simp add: ok_def)

lemma fail_run [run_simps]: "fail e w = (Inl e, [], w)"
  by (simp add: fail_def)

lemma lift_result_run [run_simps]: "lift_result r w = (r, [], w)"
  by (simp add: lift_result_def)

lemma try_then_ok [simp]: "try_then (ok x) f = f x"
  by (rule ext) (simp add: try_then_def ok_def split: prod.split)

lemma try_then_fail [simp]: "try_then (fail e) f = fail e"
  by (rule ext) (simp add: try_then_def fail_def)

section \<open>The request logic\<close>

text \<open>
  \<open>emits P m Q\<close>: run from any world, every request of \<open>m\<close> satisfies \<open>P\<close> and a successful
  result satisfies \<open>Q\<close>.
\<close>

definition emits :: "(request \<Rightarrow> bool) \<Rightarrow> ('w, 'a) io \<Rightarrow> ('a \<Rightarrow> bool) \<Rightarrow> bool" where
  "emits P m Q \<longleftrightarrow>
     (\<forall>w. list_all P (requests (m w)) \<and> (\<forall>x. result (m w) = Inr x \<longrightarrow> Q x))"

lemma emits_ok [emits_intro]: "Q x \<Longrightarrow> emits P (ok x) Q"
  by (simp add: emits_def run_simps)

lemma emits_fail [emits_intro]: "emits P (fail e) Q"
  by (simp add: emits_def run_simps)

lemma emits_if:
  "(b \<Longrightarrow> emits P m Q) \<Longrightarrow> (\<not> b \<Longrightarrow> emits P n Q) \<Longrightarrow> emits P (if b then m else n) Q"
  by simp

lemma emits_lift_result [emits_intro]: "(\<And>x. r = Inr x \<Longrightarrow> Q x) \<Longrightarrow> emits P (lift_result r) Q"
  by (simp add: emits_def run_simps)

lemma emits_call [emits_intro]: "P q \<Longrightarrow> emits P (call f q) (\<lambda>x. True)"
  by (auto simp: emits_def call_def split: prod.split)

lemma emits_try_then:
  assumes m: "emits P m R" and f: "\<And>x. R x \<Longrightarrow> emits P (f x) Q"
  shows "emits P (try_then m f) Q"
  unfolding emits_def
proof
  fix w
  obtain r qs w' where mw: "m w = (r, qs, w')" by (cases "m w") auto
  from m mw have qs: "list_all P qs" and R: "\<And>x. r = Inr x \<Longrightarrow> R x"
    unfolding emits_def by (metis requests_simp, metis result.simps)
  show "list_all P (requests (try_then m f w)) \<and>
        (\<forall>x. result (try_then m f w) = Inr x \<longrightarrow> Q x)"
  proof (cases r)
    case (Inl e)
    with mw qs show ?thesis by (simp add: try_then_def)
  next
    case (Inr x)
    obtain r' qs' w'' where fx: "f x w' = (r', qs', w'')" by (cases "f x w'") auto
    with f [OF R [OF Inr]] have "list_all P qs'" and "\<And>y. r' = Inr y \<Longrightarrow> Q y"
      unfolding emits_def by (metis requests_simp, metis result.simps)
    with mw Inr fx qs show ?thesis by (simp add: try_then_def)
  qed
qed

lemma emits_attempt: "emits P m R \<Longrightarrow> emits P (attempt m) (\<lambda>r. \<forall>x. r = Inr x \<longrightarrow> R x)"
  by (auto simp: emits_def attempt_def split: prod.split dest: spec)
     (metis requests_simp, metis result.simps)

lemma emits_mono:
  "emits P m Q \<Longrightarrow> (\<And>q. P q \<Longrightarrow> P' q) \<Longrightarrow> (\<And>x. Q x \<Longrightarrow> Q' x) \<Longrightarrow> emits P' m Q'"
  by (auto simp: emits_def list_all_iff)

lemma emits_weaken: "emits P m Q \<Longrightarrow> emits P m (\<lambda>x. True)"
  by (simp add: emits_def)

lemma emits_requests: "emits P m Q \<Longrightarrow> q \<in> set (requests (m w)) \<Longrightarrow> P q"
  by (auto simp: emits_def list_all_iff)

lemma emits_open_dir_at:
  "P (OpenDir d r) \<Longrightarrow> (\<And>n. Q (OpenedDir d r n)) \<Longrightarrow> emits P (open_dir_at H d r) Q"
  unfolding open_dir_at_def by (rule emits_try_then [OF emits_call]) (auto intro: emits_intro)

lemma emits_clone_dir:
  "P (TryClone d) \<Longrightarrow> (\<And>n. Q (ClonedDir d n)) \<Longrightarrow> emits P (clone_dir H d) Q"
  unfolding clone_dir_def by (rule emits_try_then [OF emits_call]) (auto intro: emits_intro)

lemma emits_open_file_at:
  "P (OpenFile d r opts) \<Longrightarrow> (\<And>n. Q (OpenedFile d r opts n)) \<Longrightarrow>
     emits P (open_file_at H d r opts) Q"
  unfolding open_file_at_def by (rule emits_try_then [OF emits_call]) (auto intro: emits_intro)

lemma emits_open_entry:
  "P (OpenEntryNoFollow d c) \<Longrightarrow> (\<And>n. Q (EntryFile d c n)) \<Longrightarrow> emits P (open_entry H d c) Q"
  unfolding open_entry_def by (rule emits_try_then [OF emits_call]) (auto intro: emits_intro)

text \<open>The same rules in continuation form, which is the shape the modelled code has.\<close>

lemma emits_try_attempt:
  assumes "emits P m R" and "\<And>e. emits P (f (Inl e)) Q" and "\<And>x. R x \<Longrightarrow> emits P (f (Inr x)) Q"
  shows "emits P (try_then (attempt m) f) Q"
proof (rule emits_try_then [OF emits_attempt [OF assms(1)]])
  fix r :: "io_error + 'b" assume "\<forall>x. r = Inr x \<longrightarrow> R x"
  with assms(2,3) show "emits P (f r) Q" by (cases r) auto
qed

lemma emits_try_call:
  "P q \<Longrightarrow> (\<And>x. emits P (f x) Q) \<Longrightarrow> emits P (try_then (call g q) f) Q"
  by (rule emits_try_then [OF emits_call])

lemma emits_attempt_call:
  "P q \<Longrightarrow> (\<And>r. emits P (f r) Q) \<Longrightarrow> emits P (try_then (attempt (call g q)) f) Q"
  by (rule emits_try_attempt [OF emits_call])

lemma emits_result: "emits P m Q \<Longrightarrow> result (m w) = Inr x \<Longrightarrow> Q x"
  by (auto simp: emits_def)

lemma emits_call_any: "P q \<Longrightarrow> (\<And>x. Q x) \<Longrightarrow> emits P (call f q) Q"
  by (rule emits_mono [OF emits_call])

section \<open>A host for examples\<close>

text \<open>Everything exists, everything succeeds, every directory is empty: enough for a closed
  instance of a theorem to have a host to run on. No theorem about all hosts uses it.\<close>

definition plain_metadata :: "file_type \<Rightarrow> metadata" where
  "plain_metadata ty =
     \<lparr> md_type = ty, md_mode = 0, md_len = 0, md_dev = 0, md_ino = 0, md_uid = 0, md_gid = 0 \<rparr>"

definition still_host :: "unit host" where
  "still_host =
     \<lparr> h_unit = (\<lambda>w q. (Inr (), w)), h_bool = (\<lambda>w q. (Inr True, w)), h_num = (\<lambda>w q. (Inr 7, w)),
       h_meta = (\<lambda>w q. (Inr (plain_metadata Directory), w)), h_bytes = (\<lambda>w q. (Inr [], w)),
       h_names = (\<lambda>w q. (Inr [], w)),
       h_path = (\<lambda>w q. (case q of Canonicalize p \<Rightarrow> Inr p | _ \<Rightarrow> Inr [], w)),
       h_int = (\<lambda>w q. (Inr 7, w)), h_message = (\<lambda>w q. (Inr ([], []), w)) \<rparr>"

end
