(* ===== verification/Mount_Table.thy ===== *)
theory Mount_Table
  imports Host_Interface
begin

text \<open>
  The mount table (\<^verbatim>\<open>brush-vfs/src/mount.rs\<close>): how a virtual path finds the host directory
  that governs it, how a table is built from host directories, and how it is lent to a child
  process and rebuilt there.

  A reference to a mount, which the code compares with \<^verbatim>\<open>ptr::eq\<close>, is its index in the table.
  Canonical host paths are lists of components below the host root.
\<close>

section \<open>Data\<close>

datatype access = ReadOnly | ReadWrite

definition is_writable :: "access \<Rightarrow> bool" where
  "is_writable a \<longleftrightarrow> (case a of ReadWrite \<Rightarrow> True | ReadOnly \<Rightarrow> False)"

datatype mount_error =
    PathE path_error
  | HostDir host_path io_error
  | DuplicateMountPoint string
  | CollidingMountPoints string string
  | OverlappingHostDirs host_path host_path

record mount =
  m_at :: virtual_path
  m_dir :: dir_handle
  m_host_path :: "host_path option"
  m_canonical :: "host_path option"
  m_access :: access
  m_shadows_nested :: bool

record mount_table =
  mounts :: "mount list"

definition empty_table :: mount_table where
  "empty_table = \<lparr> mounts = [] \<rparr>"

section \<open>Lookup\<close>

definition mt_resolve :: "mount_table \<Rightarrow> virtual_path \<Rightarrow> (nat \<times> string list) option" where
  "mt_resolve t p = find_map_index 0 (\<lambda>m. strip_prefix p (m_at m)) (mounts t)"

definition has_mount_below :: "mount_table \<Rightarrow> virtual_path \<Rightarrow> bool" where
  "has_mount_below t p \<longleftrightarrow> list_ex (\<lambda>m. m_at m \<noteq> p \<and> starts_with (m_at m) p) (mounts t)"

section \<open>Construction\<close>

definition depth_key :: "mount \<Rightarrow> int" where
  "depth_key m = - int (length (components (m_at m)))"

definition from_mounts :: "mount list \<Rightarrow> mount_table" where
  "from_mounts ms =
     (let sorted = sort_key depth_key ms;
          nested = map (\<lambda>outer. list_ex (\<lambda>inner. m_at inner \<noteq> m_at outer \<and>
                                   starts_with (m_at inner) (m_at outer)) sorted) sorted
      in \<lparr> mounts = map (\<lambda>(m, b). m\<lparr>m_shadows_nested := b\<rparr>) (zip sorted nested) \<rparr>)"

definition mount_key :: "unicode \<Rightarrow> virtual_path \<Rightarrow> string" where
  "mount_key u p = join_with ''/'' (map (fold_for_collision u) (components p))"

fun check_points ::
  "unicode \<Rightarrow> (string \<rightharpoonup> string) \<Rightarrow> virtual_path list \<Rightarrow> mount_error + unit" where
  "check_points u seen [] = Inr ()"
| "check_points u seen (p # ps) =
     (case seen (mount_key u p) of
        Some first \<Rightarrow>
          (if first = inner p then Inl (DuplicateMountPoint (inner p))
           else Inl (CollidingMountPoints first (inner p)))
      | None \<Rightarrow> check_points u (seen(mount_key u p \<mapsto> inner p)) ps)"

definition check_mount_points :: "unicode \<Rightarrow> virtual_path list \<Rightarrow> mount_error + unit" where
  "check_mount_points u ps = check_points u Map.empty ps"

type_synonym builder = "(virtual_path \<times> host_path \<times> access) list"

definition builder_mount ::
  "unicode \<Rightarrow> builder \<Rightarrow> string \<Rightarrow> host_path \<Rightarrow> access \<Rightarrow> mount_error + builder" where
  "builder_mount u b at host acc =
     (case new u at of Inl e \<Rightarrow> Inl (PathE e) | Inr p \<Rightarrow> Inr (b @ [(p, host, acc)]))"

text \<open>\<^verbatim>\<open>Path::starts_with\<close> on canonical host paths.\<close>

definition path_starts_with :: "host_path \<Rightarrow> host_path \<Rightarrow> bool" where
  "path_starts_with p q \<longleftrightarrow> take (length q) p = q"

fun canonicalize_all :: "'w host \<Rightarrow> host_path list \<Rightarrow> ('w, mount_error + host_path list) io" where
  "canonicalize_all H [] = ok (Inr [])"
| "canonicalize_all H (p # ps) =
     try_then (attempt (call (h_path H) (Canonicalize p))) (\<lambda>r.
       case r of
         Inl e \<Rightarrow> ok (Inl (HostDir p e))
       | Inr c \<Rightarrow> try_then (canonicalize_all H ps) (\<lambda>rs.
           ok (case rs of Inl e \<Rightarrow> Inl e | Inr cs \<Rightarrow> Inr (c # cs))))"

definition overlaps :: "host_path list \<Rightarrow> (host_path \<times> host_path) list" where
  "overlaps cs =
     map (\<lambda>(i, j). (cs ! j, cs ! i))
       (filter (\<lambda>(i, j). i \<noteq> j \<and> path_starts_with (cs ! j) (cs ! i))
         (List.product [0..<length cs] [0..<length cs]))"

fun open_mounts ::
  "'w host \<Rightarrow> ((virtual_path \<times> host_path \<times> access) \<times> host_path) list \<Rightarrow>
   ('w, mount_error + mount list) io" where
  "open_mounts H [] = ok (Inr [])"
| "open_mounts H (((at, host, acc), canonical) # rest) =
     try_then (attempt (call (h_num H) (OpenAmbientDir canonical))) (\<lambda>r.
       case r of
         Inl e \<Rightarrow> ok (Inl (HostDir canonical e))
       | Inr n \<Rightarrow> try_then (open_mounts H rest) (\<lambda>ms.
           ok (case ms of
                 Inl e \<Rightarrow> Inl e
               | Inr ms \<Rightarrow>
                   Inr (\<lparr> m_at = at, m_dir = MountDir n, m_host_path = Some host,
                          m_canonical = Some canonical, m_access = acc,
                          m_shadows_nested = False \<rparr> # ms))))"

definition build :: "'w host \<Rightarrow> unicode \<Rightarrow> builder \<Rightarrow> ('w, mount_error + mount_table) io" where
  "build H u entries =
     (case check_mount_points u (map fst entries) of
        Inl e \<Rightarrow> ok (Inl e)
      | Inr _ \<Rightarrow>
          try_then (canonicalize_all H (map (\<lambda>(at, host, acc). host) entries)) (\<lambda>r.
            case r of
              Inl e \<Rightarrow> ok (Inl e)
            | Inr canonical \<Rightarrow>
                (case overlaps canonical of
                   (inside, outside) # _ \<Rightarrow> ok (Inl (OverlappingHostDirs inside outside))
                 | [] \<Rightarrow>
                     try_then (open_mounts H (zip entries canonical)) (\<lambda>ms.
                       ok (case ms of Inl e \<Rightarrow> Inl e | Inr ms \<Rightarrow> Inr (from_mounts ms))))))"

section \<open>Lending to a child\<close>

definition lend_to_child :: "mount_table \<Rightarrow> (virtual_path \<times> access \<times> dir_handle) list" where
  "lend_to_child t = map (\<lambda>m. (m_at m, m_access m, m_dir m)) (mounts t)"

fun parse_entries ::
  "unicode \<Rightarrow> (string \<times> access \<times> nat) list \<Rightarrow>
   mount_error + (virtual_path \<times> access \<times> nat) list" where
  "parse_entries u [] = Inr []"
| "parse_entries u ((at, acc, fd) # rest) =
     (case new u at of
        Inl e \<Rightarrow> Inl (PathE e)
      | Inr p \<Rightarrow> (case parse_entries u rest of Inl e \<Rightarrow> Inl e | Inr ps \<Rightarrow> Inr ((p, acc, fd) # ps)))"

definition from_child_handles ::
  "unicode \<Rightarrow> (string \<times> access \<times> nat) list \<Rightarrow> mount_error + mount_table" where
  "from_child_handles u entries =
     (case parse_entries u entries of
        Inl e \<Rightarrow> Inl e
      | Inr parsed \<Rightarrow>
          (case check_mount_points u (map fst parsed) of
             Inl e \<Rightarrow> Inl e
           | Inr _ \<Rightarrow>
               Inr (from_mounts (map (\<lambda>(at, acc, fd).
                 \<lparr> m_at = at, m_dir = MountDir fd, m_host_path = None, m_canonical = None,
                   m_access = acc, m_shadows_nested = False \<rparr>) parsed))))"

section \<open>What a lookup promises its clients\<close>

text \<open>
  The interface the filesystem operations use: a lookup names a mount of the table and
  splits the path at the mount point. Everything a client proves about the remaining
  components follows from that.
\<close>

locale namespace_resolver =
  fixes lookup :: "'t \<Rightarrow> virtual_path \<Rightarrow> (nat \<times> string list) option"
    and point :: "'t \<Rightarrow> nat \<Rightarrow> virtual_path"
    and size_of :: "'t \<Rightarrow> nat"
  assumes lookup_point:
    "lookup t p = Some (i, rest) \<Longrightarrow>
       i < size_of t \<and> components p = components (point t i) @ rest"
begin

lemma lookup_below: "lookup t p = Some (i, rest) \<Longrightarrow> starts_with p (point t i)"
  by (auto dest: lookup_point simp: starts_with_components)

lemma rest_wf:
  "wf_path u p \<Longrightarrow> lookup t p = Some (i, rest) \<Longrightarrow> list_all (wf_component u) rest"
  by (auto dest!: lookup_point wf_path_list_all)

lemma rest_plain:
  "wf_path u p \<Longrightarrow> lookup t p = Some (i, rest) \<Longrightarrow> list_all plain_component rest"
  by (drule (1) rest_wf) (auto simp: list_all_iff wf_component_plain)

lemma rest_determines:
  "wf_path u p \<Longrightarrow> wf_path u q \<Longrightarrow> lookup t p = Some (i, rest) \<Longrightarrow>
     lookup t q = Some (i, rest) \<Longrightarrow> p = q"
  by (auto dest!: lookup_point intro: wf_path_eqI)

end

lemma mt_resolve_Some:
  "mt_resolve t p = Some (i, rest) \<Longrightarrow>
     i < length (mounts t) \<and> components p = components (m_at (mounts t ! i)) @ rest \<and>
     (\<forall>k < i. \<not> starts_with p (m_at (mounts t ! k)))"
  unfolding mt_resolve_def
  by (drule find_map_index_Some) (auto simp: strip_prefix_Some strip_prefix_None)

lemma mt_resolve_None:
  "mt_resolve t p = None \<longleftrightarrow> (\<forall>m \<in> set (mounts t). \<not> starts_with p (m_at m))"
  by (simp add: mt_resolve_def find_map_index_None strip_prefix_None)

interpretation mt: namespace_resolver mt_resolve "\<lambda>t i. m_at (mounts t ! i)"
    "\<lambda>t. length (mounts t)"
  by unfold_locales (auto dest: mt_resolve_Some)

section \<open>Invariants of a built table\<close>

definition nested_below :: "mount list \<Rightarrow> mount \<Rightarrow> bool" where
  "nested_below ms outer \<longleftrightarrow>
     (\<exists>inner \<in> set ms. m_at inner \<noteq> m_at outer \<and> starts_with (m_at inner) (m_at outer))"

definition table_ok :: "mount_table \<Rightarrow> bool" where
  "table_ok t \<longleftrightarrow> sorted (map depth_key (mounts t)) \<and>
     (\<forall>m \<in> set (mounts t). m_shadows_nested m = nested_below (mounts t) m)"

text \<open>What a mount is apart from the derived flag.\<close>

definition mount_core :: "mount \<Rightarrow> mount" where
  "mount_core m = m\<lparr>m_shadows_nested := False\<rparr>"

lemma mount_core_simps [simp]:
  "m_at (mount_core m) = m_at m" "m_dir (mount_core m) = m_dir m"
  "m_access (mount_core m) = m_access m" "m_host_path (mount_core m) = m_host_path m"
  "m_canonical (mount_core m) = m_canonical m"
  by (simp_all add: mount_core_def)

lemma from_mounts_eq:
  "mounts (from_mounts ms) =
     map (\<lambda>m. m\<lparr>m_shadows_nested := nested_below (sort_key depth_key ms) m\<rparr>)
       (sort_key depth_key ms)"
  by (simp add: from_mounts_def Let_def zip_map2 zip_same_conv_map nested_below_def
      list_ex_iff Bex_def)

lemma nested_below_cong:
  "set (map m_at ms) = set (map m_at ns) \<Longrightarrow> nested_below ms m = nested_below ns m"
proof -
  assume s: "set (map m_at ms) = set (map m_at ns)"
  have points: "nested_below xs m \<longleftrightarrow>
          (\<exists>p \<in> m_at ` set xs. p \<noteq> m_at m \<and> starts_with p (m_at m))" for xs
    by (auto simp: nested_below_def)
  from s show ?thesis by (simp only: points list.set_map)
qed

lemma nested_below_at: "m_at m = m_at n \<Longrightarrow> nested_below ms m = nested_below ms n"
  by (simp add: nested_below_def)

lemma map_at_from_mounts: "map m_at (mounts (from_mounts ms)) = map m_at (sort_key depth_key ms)"
  by (simp add: from_mounts_eq o_def)

lemma set_at_from_mounts: "m_at ` set (mounts (from_mounts ms)) = m_at ` set ms"
  by (metis map_at_from_mounts list.set_map set_sort)

lemma table_ok_from_mounts: "table_ok (from_mounts ms)"
  unfolding table_ok_def
proof
  have "map depth_key (mounts (from_mounts ms)) = map depth_key (sort_key depth_key ms)"
    by (simp add: from_mounts_eq o_def depth_key_def)
  then show "sorted (map depth_key (mounts (from_mounts ms)))" by simp
  show "\<forall>m \<in> set (mounts (from_mounts ms)).
          m_shadows_nested m = nested_below (mounts (from_mounts ms)) m"
  proof
    fix m assume "m \<in> set (mounts (from_mounts ms))"
    then obtain n where n: "m = n\<lparr>m_shadows_nested := nested_below (sort_key depth_key ms) n\<rparr>"
      by (auto simp: from_mounts_eq)
    have "nested_below (mounts (from_mounts ms)) m = nested_below (sort_key depth_key ms) m"
      by (rule nested_below_cong) (simp only: map_at_from_mounts)
    also have "\<dots> = nested_below (sort_key depth_key ms) n"
      by (rule nested_below_at) (simp add: n)
    finally show "m_shadows_nested m = nested_below (mounts (from_mounts ms)) m"
      by (simp add: n)
  qed
qed

section \<open>Longest match\<close>

lemma sorted_depth:
  assumes "sorted (map depth_key ms)" and "i \<le> k" and "k < length ms"
  shows "length (components (m_at (ms ! k))) \<le> length (components (m_at (ms ! i)))"
proof -
  have "map depth_key ms ! i \<le> map depth_key ms ! k"
    using assms by (intro sorted_nth_mono) auto
  with assms show ?thesis by (simp add: depth_key_def)
qed

lemma mt_resolve_longest:
  assumes "table_ok t" and r: "mt_resolve t p = Some (i, rest)"
    and m: "m \<in> set (mounts t)" "starts_with p (m_at m)"
  shows "length (components (m_at m)) \<le> length (components (m_at (mounts t ! i)))"
proof -
  obtain k where k: "k < length (mounts t)" "m = mounts t ! k"
    using m(1) by (auto simp: in_set_conv_nth)
  have "i \<le> k"
    using mt_resolve_Some [OF r] m(2) k(2) by (meson leI)
  with assms(1) k show ?thesis by (auto simp: table_ok_def intro: sorted_depth)
qed

section \<open>What the checks of a builder establish\<close>

lemma check_points_ok:
  "check_points u seen ps = Inr () \<Longrightarrow>
     distinct (map (mount_key u) ps) \<and> (\<forall>p \<in> set ps. seen (mount_key u p) = None)"
proof (induction u seen ps rule: check_points.induct)
  case (1 u seen)
  then show ?case by simp
next
  case (2 u seen p ps)
  then have none: "seen (mount_key u p) = None"
    and rest: "check_points u (seen(mount_key u p \<mapsto> inner p)) ps = Inr ()"
    by (auto split: option.splits if_splits)
  from "2.IH" [OF none rest]
  have d: "distinct (map (mount_key u) ps)"
    and n: "\<forall>q \<in> set ps. (seen(mount_key u p \<mapsto> inner p)) (mount_key u q) = None"
    by auto
  from n have "\<forall>q \<in> set ps. mount_key u q \<noteq> mount_key u p \<and> seen (mount_key u q) = None"
    by (auto split: if_splits)
  with d none show ?case by auto
qed

lemma check_points_complete:
  "distinct (map (mount_key u) ps) \<Longrightarrow> \<forall>p \<in> set ps. seen (mount_key u p) = None \<Longrightarrow>
     check_points u seen ps = Inr ()"
proof (induction u seen ps rule: check_points.induct)
  case (1 u seen)
  then show ?case by simp
next
  case (2 u seen p ps)
  then have none: "seen (mount_key u p) = None" by simp
  have "check_points u (seen(mount_key u p \<mapsto> inner p)) ps = Inr ()"
  proof (rule "2.IH" [OF none])
    show "distinct (map (mount_key u) ps)" using "2.prems" by simp
    show "\<forall>q \<in> set ps. (seen(mount_key u p \<mapsto> inner p)) (mount_key u q) = None"
      using "2.prems" by (auto dest: sym)
  qed
  with none show ?case by simp
qed

lemma check_mount_points_iff:
  "check_mount_points u ps = Inr () \<longleftrightarrow> distinct (map (mount_key u) ps)"
  using check_points_ok [of u Map.empty ps] check_points_complete [of u ps Map.empty]
  by (auto simp: check_mount_points_def)

lemma overlaps_Nil:
  "overlaps cs = [] \<longleftrightarrow>
     (\<forall>i < length cs. \<forall>j < length cs. i \<noteq> j \<longrightarrow> \<not> path_starts_with (cs ! j) (cs ! i))"
  by (simp add: overlaps_def filter_empty_conv Ball_def) blast

lemma canonicalize_all_length:
  "emits (\<lambda>q. True) (canonicalize_all H ps) (\<lambda>r. \<forall>cs. r = Inr cs \<longrightarrow> length cs = length ps)"
proof (induction ps)
  case Nil
  show ?case by (auto intro: emits_ok)
next
  case (Cons p ps)
  show ?case
    unfolding canonicalize_all.simps
  proof (rule emits_attempt_call, rule TrueI)
    fix r
    show "emits (\<lambda>q. True)
       (case r of Inl e \<Rightarrow> ok (Inl (HostDir p e))
        | Inr c \<Rightarrow> try_then (canonicalize_all H ps)
            (\<lambda>rs. ok (case rs of Inl e \<Rightarrow> Inl e | Inr cs \<Rightarrow> Inr (c # cs))))
       (\<lambda>r. \<forall>cs. r = Inr cs \<longrightarrow> length cs = length (p # ps))"
      by (cases r) (auto intro!: emits_ok emits_try_then [OF Cons.IH] split: sum.splits)
  qed
qed

definition opened_entry :: "(virtual_path \<times> host_path \<times> access) \<times> host_path \<Rightarrow> mount \<Rightarrow> bool" where
  "opened_entry e m \<longleftrightarrow>
     m_at m = fst (fst e) \<and> m_canonical m = Some (snd e) \<and>
     m_host_path m = Some (fst (snd (fst e))) \<and> m_access m = snd (snd (fst e))"

definition opened_as ::
  "((virtual_path \<times> host_path \<times> access) \<times> host_path) list \<Rightarrow> mount list \<Rightarrow> bool" where
  "opened_as es ms \<longleftrightarrow> list_all2 opened_entry es ms"

lemma open_mounts_spec:
  "emits (\<lambda>q. True) (open_mounts H es) (\<lambda>r. \<forall>ms. r = Inr ms \<longrightarrow> opened_as es ms)"
proof (induction H es rule: open_mounts.induct)
  case (1 H)
  show ?case by (auto intro: emits_ok simp: opened_as_def)
next
  case (2 H at host acc canonical rest)
  show ?case
    unfolding open_mounts.simps
    by (rule emits_attempt_call, rule TrueI, rename_tac r, case_tac r)
       (auto intro!: emits_ok emits_try_then [OF "2.IH"]
        simp: opened_as_def opened_entry_def split: sum.splits)
qed

lemma from_mounts_member:
  "m \<in> set (mounts (from_mounts ms)) \<Longrightarrow> \<exists>n \<in> set ms. mount_core m = mount_core n"
  by (auto simp: from_mounts_eq mount_core_def)

lemma mount_core_eqD:
  "mount_core m = mount_core n \<Longrightarrow>
     m_at m = m_at n \<and> m_canonical m = m_canonical n \<and> m_access m = m_access n \<and>
     m_host_path m = m_host_path n \<and> m_dir m = m_dir n"
  by (metis mount_core_simps)

text \<open>What a successful \<open>build\<close> went through.\<close>

definition built_from :: "unicode \<Rightarrow> builder \<Rightarrow> mount_table \<Rightarrow> bool" where
  "built_from u entries t \<longleftrightarrow>
     (\<exists>cs ms. distinct (map (mount_key u \<circ> fst) entries) \<and> length cs = length entries \<and>
        overlaps cs = [] \<and> opened_as (zip entries cs) ms \<and> t = from_mounts ms)"

lemma build_from:
  "emits (\<lambda>q. True) (build H u entries) (\<lambda>r. \<forall>t. r = Inr t \<longrightarrow> built_from u entries t)"
proof (cases "check_mount_points u (map fst entries)")
  case (Inl e)
  then show ?thesis by (auto simp: build_def intro: emits_ok)
next
  case (Inr x)
  then have d: "distinct (map (mount_key u \<circ> fst) entries)"
    using check_mount_points_iff [of u "map fst entries"] by (simp add: o_def)
  have final: "emits (\<lambda>q. True) (try_then (open_mounts H (zip entries cs))
          (\<lambda>ms. ok (case ms of Inl e \<Rightarrow> Inl e | Inr ms \<Rightarrow> Inr (from_mounts ms))))
          (\<lambda>r. \<forall>t. r = Inr t \<longrightarrow> built_from u entries t)"
    if "length cs = length entries" "overlaps cs = []" for cs
    by (rule emits_try_then [OF open_mounts_spec])
       (use that d in \<open>auto intro!: emits_ok simp: built_from_def split: sum.splits\<close>)
  show ?thesis
    unfolding build_def Inr sum.case
    by (rule emits_try_then [OF canonicalize_all_length])
       (auto intro!: emits_ok final split: sum.splits list.splits)
qed

lemma build_from_result: "result (build H u entries w) = Inr (Inr t) \<Longrightarrow> built_from u entries t"
  using emits_result [OF build_from [of H u entries], of w "Inr t"] by simp

lemma opened_as_nth:
  assumes "opened_as (zip es cs) ms" and "length cs = length es" and "m \<in> set ms"
  obtains i where "i < length es" "m_at m = fst (es ! i)" "m_canonical m = Some (cs ! i)"
proof -
  from assms(3) obtain i where i: "i < length ms" "m = ms ! i" by (auto simp: in_set_conv_nth)
  have "length es = length ms"
    using list_all2_lengthD [OF assms(1) [unfolded opened_as_def]] assms(2) by simp
  with list_all2_nthD2 [OF assms(1) [unfolded opened_as_def] i(1)] i(2) assms(2) i(1)
  show thesis by (intro that [of i]) (auto simp: opened_entry_def)
qed

lemma opened_as_set:
  assumes "opened_as (zip es cs) ms" and "length cs = length es"
  shows "(\<lambda>m. (m_at m, m_host_path m, m_access m)) ` set ms =
         (\<lambda>(at, host, acc). (at, Some host, acc)) ` set es"
proof -
  have "map (\<lambda>m. (m_at m, m_host_path m, m_access m)) ms =
        map (\<lambda>e. (fst (fst e), Some (fst (snd (fst e))), snd (snd (fst e)))) (zip es cs)"
    using assms(1) unfolding opened_as_def
    by (induction rule: list_all2_induct) (auto simp: opened_entry_def)
  also have "\<dots> = map (\<lambda>(at, host, acc). (at, Some host, acc)) (map fst (zip es cs))"
    by (simp add: split_def)
  also have "map fst (zip es cs) = es" using assms(2) by simp
  finally have "set (map (\<lambda>m. (m_at m, m_host_path m, m_access m)) ms) =
      set (map (\<lambda>(at, host, acc). (at, Some host, acc)) es)" by (rule arg_cong)
  then show ?thesis by (simp only: set_map)
qed

lemma from_mounts_image:
  assumes "\<And>m b. f (m\<lparr>m_shadows_nested := b\<rparr>) = f m"
  shows "f ` set (mounts (from_mounts ms)) = f ` set ms"
proof -
  have "map f (mounts (from_mounts ms)) = map f (sort_key depth_key ms)"
    by (simp add: from_mounts_eq o_def assms)
  then show ?thesis by (metis list.set_map set_sort)
qed

section \<open>Properties\<close>

text \<open>C31. Lookup is longest match. In any table the constructor builds, a path resolves to a
  mount whose point is a component prefix of it, with exactly the remaining components, and
  no other mount containing the path has a longer mount point; a path resolves to nothing only
  when no mount contains it. The nesting flag of each mount is set exactly when another mount
  point lies strictly beneath it.\<close>

theorem from_mounts_longest_match:
  "(case mt_resolve (from_mounts ms) p of
      None \<Rightarrow> \<forall>m \<in> set ms. \<not> starts_with p (m_at m)
    | Some (i, rest) \<Rightarrow>
        i < length ms \<and>
        components p = components (m_at (mounts (from_mounts ms) ! i)) @ rest \<and>
        (\<forall>m \<in> set ms. starts_with p (m_at m) \<longrightarrow>
           length (components (m_at m))
             \<le> length (components (m_at (mounts (from_mounts ms) ! i))))) \<and>
   (\<forall>m \<in> set (mounts (from_mounts ms)). m_shadows_nested m = nested_below ms m)"
proof
  have at: "m_at ` set (mounts (from_mounts ms)) = m_at ` set ms" by (rule set_at_from_mounts)
  have len: "length (mounts (from_mounts ms)) = length ms" by (simp add: from_mounts_eq)
  show "\<forall>m \<in> set (mounts (from_mounts ms)). m_shadows_nested m = nested_below ms m"
    using table_ok_from_mounts [of ms] at nested_below_cong [of "mounts (from_mounts ms)" ms]
    by (auto simp: table_ok_def)
  show "case mt_resolve (from_mounts ms) p of
      None \<Rightarrow> \<forall>m \<in> set ms. \<not> starts_with p (m_at m)
    | Some (i, rest) \<Rightarrow>
        i < length ms \<and>
        components p = components (m_at (mounts (from_mounts ms) ! i)) @ rest \<and>
        (\<forall>m \<in> set ms. starts_with p (m_at m) \<longrightarrow>
           length (components (m_at m))
             \<le> length (components (m_at (mounts (from_mounts ms) ! i))))"
  proof (cases "mt_resolve (from_mounts ms) p")
    case None
    then have "\<forall>m \<in> set (mounts (from_mounts ms)). \<not> starts_with p (m_at m)"
      by (simp add: mt_resolve_None)
    with at None show ?thesis by (auto simp: image_iff) (metis imageE imageI)
  next
    case (Some ir)
    obtain i rest where ir: "ir = (i, rest)" by (cases ir)
    with Some have r: "mt_resolve (from_mounts ms) p = Some (i, rest)" by simp
    have "length (components (m_at m)) \<le> length (components (m_at (mounts (from_mounts ms) ! i)))"
      if "m \<in> set ms" "starts_with p (m_at m)" for m
    proof -
      from that(1) at obtain n where n: "n \<in> set (mounts (from_mounts ms))" "m_at n = m_at m"
        by (metis imageE imageI)
      with mt_resolve_longest [OF table_ok_from_mounts r n(1)] that(2) show ?thesis by simp
    qed
    with mt_resolve_Some [OF r] len Some ir show ?thesis by auto
  qed
qed

text \<open>C32. A table that \<open>build\<close> returns, on any host, has mount points that are pairwise
  distinct even after case and form folding; the canonical host directories of different
  mounts are never nested in one another; every mount remembers its host directory; and the
  mounts are exactly the entries that were asked for.\<close>

theorem build_disjoint:
  assumes "result (build H u entries w) = Inr (Inr t)"
  shows "distinct (map (mount_key u \<circ> fst) entries) \<and> table_ok t \<and>
    (\<lambda>m. (m_at m, m_host_path m, m_access m)) ` set (mounts t) =
      (\<lambda>(at, host, acc). (at, Some host, acc)) ` set entries \<and>
    (\<forall>m \<in> set (mounts t). \<forall>n \<in> set (mounts t). m_at m \<noteq> m_at n \<longrightarrow>
       (\<exists>c d. m_canonical m = Some c \<and> m_canonical n = Some d \<and>
          \<not> path_starts_with c d \<and> \<not> path_starts_with d c))"
proof -
  from build_from_result [OF assms] obtain cs ms where
    d: "distinct (map (mount_key u \<circ> fst) entries)" and len: "length cs = length entries"
    and ov: "overlaps cs = []" and op: "opened_as (zip entries cs) ms" and t: "t = from_mounts ms"
    by (auto simp: built_from_def)
  have "(\<lambda>m. (m_at m, m_host_path m, m_access m)) ` set (mounts t) =
        (\<lambda>m. (m_at m, m_host_path m, m_access m)) ` set ms"
    unfolding t by (rule from_mounts_image) simp
  also have "\<dots> = (\<lambda>(at, host, acc). (at, Some host, acc)) ` set entries"
    by (rule opened_as_set [OF op len])
  finally have img: "(\<lambda>m. (m_at m, m_host_path m, m_access m)) ` set (mounts t) =
        (\<lambda>(at, host, acc). (at, Some host, acc)) ` set entries" .
  have "\<exists>c d. m_canonical m = Some c \<and> m_canonical n = Some d \<and>
          \<not> path_starts_with c d \<and> \<not> path_starts_with d c"
    if mn: "m \<in> set (mounts t)" "n \<in> set (mounts t)" and ne: "m_at m \<noteq> m_at n" for m n
  proof -
    from mn obtain m' n' where m': "m' \<in> set ms" "mount_core m = mount_core m'"
      and n': "n' \<in> set ms" "mount_core n = mount_core n'"
      using from_mounts_member t by blast
    obtain i where i: "i < length entries" "m_at m' = fst (entries ! i)"
        "m_canonical m' = Some (cs ! i)"
      using opened_as_nth [OF op len m'(1)] .
    obtain j where j: "j < length entries" "m_at n' = fst (entries ! j)"
        "m_canonical n' = Some (cs ! j)"
      using opened_as_nth [OF op len n'(1)] .
    have "i \<noteq> j" using i(2) j(2) ne m'(2) n'(2) by (metis mount_core_eqD)
    with ov i(1) j(1) len have "\<not> path_starts_with (cs ! i) (cs ! j)"
      "\<not> path_starts_with (cs ! j) (cs ! i)"
      by (auto simp: overlaps_Nil)
    with i(3) j(3) m'(2) n'(2) show ?thesis by (metis mount_core_eqD)
  qed
  with d img show ?thesis by (simp add: t table_ok_from_mounts)
qed

text \<open>A project namespace: the tree writable, a directory inside it shadowed read-only.\<close>

definition demo_entries :: builder where
  "demo_entries =
     [(VirtualPath ''/work'', [''p''], ReadWrite), (VirtualPath ''/work/.git'', [''e''], ReadOnly)]"

definition demo_mount :: "string \<Rightarrow> string \<Rightarrow> nat \<Rightarrow> access \<Rightarrow> bool \<Rightarrow> mount" where
  "demo_mount at host n acc nested =
     \<lparr> m_at = VirtualPath at, m_dir = MountDir n, m_host_path = Some [host],
       m_canonical = Some [host], m_access = acc, m_shadows_nested = nested \<rparr>"

definition demo_table :: mount_table where
  "demo_table =
     \<lparr> mounts = [demo_mount ''/work/.git'' ''e'' 7 ReadOnly False,
                 demo_mount ''/work'' ''p'' 7 ReadWrite True] \<rparr>"

theorem from_mounts_longest_match_witness:
  "(case mt_resolve (from_mounts (mounts demo_table)) (VirtualPath ''/work/src/lib.rs'') of
      None \<Rightarrow> \<forall>m \<in> set (mounts demo_table). \<not> starts_with (VirtualPath ''/work/src/lib.rs'') (m_at m)
    | Some (i, rest) \<Rightarrow>
        i < length (mounts demo_table) \<and>
        components (VirtualPath ''/work/src/lib.rs'') =
          components (m_at (mounts (from_mounts (mounts demo_table)) ! i)) @ rest \<and>
        (\<forall>m \<in> set (mounts demo_table). starts_with (VirtualPath ''/work/src/lib.rs'') (m_at m) \<longrightarrow>
           length (components (m_at m))
             \<le> length (components (m_at (mounts (from_mounts (mounts demo_table)) ! i))))) \<and>
   list_all (\<lambda>m. m_shadows_nested m = nested_below (mounts demo_table) m)
     (mounts (from_mounts (mounts demo_table)))"
  unfolding list_all_iff
  by (rule from_mounts_longest_match)

theorem build_disjoint_witness:
  "distinct (map (mount_key ascii_unicode \<circ> fst) demo_entries) \<and> table_ok demo_table \<and>
    (\<lambda>m. (m_at m, m_host_path m, m_access m)) ` set (mounts demo_table) =
      (\<lambda>(at, host, acc). (at, Some host, acc)) ` set demo_entries \<and>
    list_all (\<lambda>m. \<forall>n \<in> set (mounts demo_table). m_at m \<noteq> m_at n \<longrightarrow>
       (\<exists>c d. m_canonical m = Some c \<and> m_canonical n = Some d \<and>
          \<not> path_starts_with c d \<and> \<not> path_starts_with d c)) (mounts demo_table)"
  unfolding list_all_iff
proof (rule build_disjoint)
  show "result (build still_host ascii_unicode demo_entries ()) = Inr (Inr demo_table)"
    by code_simp
qed

lemma find_map_index_map: "find_map_index i f (map g xs) = find_map_index i (f \<circ> g) xs"
  by (induction xs arbitrary: i) (auto split: option.splits)

lemma mt_resolve_points:
  "mt_resolve t p = find_map_index 0 (strip_prefix p) (map m_at (mounts t))"
  by (simp add: mt_resolve_def find_map_index_map o_def)

lemma parse_entries_wf:
  "\<forall>(p, acc, fd) \<in> set ps. wf_path u p \<Longrightarrow>
     parse_entries u (map (\<lambda>(p, acc, fd). (inner p, acc, fd)) ps) = Inr ps"
  by (induction ps) (auto simp: new_def resolve_inner)

lemma lend_rebuild_same:
  assumes "table_ok t" and "\<forall>m \<in> set (mounts t). wf_path u (m_at m)"
    and "distinct (map (mount_key u \<circ> m_at) (mounts t))" and "length fds = length (mounts t)"
  shows "\<exists>t'. from_child_handles u
      (map (\<lambda>((p, acc, d), fd). (inner p, acc, fd)) (zip (lend_to_child t) fds)) = Inr t' \<and>
    map (\<lambda>m. (m_at m, m_access m, m_shadows_nested m)) (mounts t') =
      map (\<lambda>m. (m_at m, m_access m, m_shadows_nested m)) (mounts t) \<and>
    mt_resolve t' = mt_resolve t \<and>
    map m_dir (mounts t') = map MountDir fds \<and>
    (\<forall>m \<in> set (mounts t'). m_host_path m = None \<and> m_canonical m = None)"
proof -
  let ?ps = "map (\<lambda>(m, fd). (m_at m, m_access m, fd)) (zip (mounts t) fds)"
  let ?child = "\<lambda>(p, acc, fd). \<lparr> m_at = p, m_dir = MountDir fd, m_host_path = None,
      m_canonical = None, m_access = acc, m_shadows_nested = False \<rparr>"
  let ?nest = "\<lambda>p. \<exists>inner \<in> set (mounts t). m_at inner \<noteq> p \<and> starts_with (m_at inner) p"
  define ns where "ns = map ?child ?ps"
  have fst: "map fst (zip (mounts t) fds) = mounts t" and snd: "map snd (zip (mounts t) fds) = fds"
    using assms(4) by simp_all
  have entries: "map (\<lambda>((p, acc, d), fd). (inner p, acc, fd)) (zip (lend_to_child t) fds) =
      map (\<lambda>(p, acc, fd). (inner p, acc, fd)) ?ps"
    by (simp add: lend_to_child_def zip_map1 split_def o_def)
  have parsed: "parse_entries u (map (\<lambda>(p, acc, fd). (inner p, acc, fd)) ?ps) = Inr ?ps"
    by (rule parse_entries_wf) (use assms(2) in \<open>auto dest: set_zip_leftD\<close>)
  have points: "map fst ?ps = map m_at (mounts t)"
    by (subst fst [symmetric]) (simp add: split_def o_def)
  have "check_mount_points u (map fst ?ps) = Inr ()"
    unfolding points check_mount_points_iff using assms(3) by simp
  with parsed have child: "from_child_handles u
      (map (\<lambda>((p, acc, d), fd). (inner p, acc, fd)) (zip (lend_to_child t) fds)) =
      Inr (from_mounts ns)"
    unfolding entries by (simp add: from_child_handles_def ns_def del: map_map)
  have at: "map m_at ns = map m_at (mounts t)" and acc: "map m_access ns = map m_access (mounts t)"
    and dirs: "map m_dir ns = map MountDir fds"
    unfolding ns_def
    by (subst (2) fst [symmetric], simp add: split_def o_def)+
       (subst (2) snd [symmetric], simp add: split_def o_def)
  have nohost: "\<forall>m \<in> set ns. m_host_path m = None \<and> m_canonical m = None"
    by (auto simp: ns_def)
  have "map depth_key ns = map (\<lambda>p. - int (length (components p))) (map m_at ns)"
    by (simp add: depth_key_def o_def)
  also have "\<dots> = map depth_key (mounts t)"
    unfolding at by (simp add: depth_key_def o_def)
  finally have sorted: "sort_key depth_key ns = ns"
    using assms(1) by (intro sort_key_id_if_sorted) (simp add: table_ok_def)
  have "nested_below ns m = nested_below (mounts t) m" for m
    by (rule nested_below_cong) (simp only: at)
  then have mounts: "mounts (from_mounts ns) =
      map (\<lambda>m. m\<lparr>m_shadows_nested := ?nest (m_at m)\<rparr>) ns"
    unfolding from_mounts_eq sorted by (simp add: nested_below_def)
  have triples: "map (\<lambda>m. (m_at m, m_access m, g (m_at m))) xs =
      map (\<lambda>(p, a). (p, a, g p)) (zip (map m_at xs) (map m_access xs))" for g xs
    by (induction xs) auto
  have "map (\<lambda>m. (m_at m, m_access m, m_shadows_nested m)) (mounts t) =
      map (\<lambda>m. (m_at m, m_access m, ?nest (m_at m))) (mounts t)"
    using assms(1) by (simp add: table_ok_def nested_below_def)
  also have "\<dots> = map (\<lambda>m. (m_at m, m_access m, ?nest (m_at m))) ns"
    by (simp only: triples [of ?nest "mounts t"] triples [of ?nest ns] at acc)
  finally have core: "map (\<lambda>m. (m_at m, m_access m, m_shadows_nested m)) (mounts (from_mounts ns)) =
      map (\<lambda>m. (m_at m, m_access m, m_shadows_nested m)) (mounts t)"
    by (simp add: mounts o_def)
  have "map m_at (mounts (from_mounts ns)) = map m_at (mounts t)"
    using at by (simp add: mounts o_def)
  then have "mt_resolve (from_mounts ns) = mt_resolve t"
    by (intro ext) (simp add: mt_resolve_points)
  with child core dirs nohost mounts show ?thesis by (auto simp: o_def)
qed

text \<open>A table survives being lent and rebuilt: given one received descriptor per mount, the
  child's table has the same mount points in the same order, with the same access and the same
  nesting flags, resolves every path as the parent's does, and holds no host path.\<close>

theorem lend_rebuild:
  assumes "table_ok t" and "\<forall>m \<in> set (mounts t). wf_path u (m_at m)"
    and "distinct (map (mount_key u \<circ> m_at) (mounts t))" and "length fds = length (mounts t)"
  shows "\<exists>t'. from_child_handles u
      (map (\<lambda>((p, acc, d), fd). (inner p, acc, fd)) (zip (lend_to_child t) fds)) = Inr t' \<and>
    map (\<lambda>m. (m_at m, m_access m, m_shadows_nested m)) (mounts t') =
      map (\<lambda>m. (m_at m, m_access m, m_shadows_nested m)) (mounts t) \<and>
    mt_resolve t' = mt_resolve t \<and>
    map m_dir (mounts t') = map MountDir fds \<and>
    (\<forall>m \<in> set (mounts t'). m_host_path m = None \<and> m_canonical m = None)"
  by (rule lend_rebuild_same [OF assms])

theorem lend_rebuild_witness:
  "\<exists>t'. from_child_handles ascii_unicode
      (map (\<lambda>((p, acc, d), fd). (inner p, acc, fd)) (zip (lend_to_child demo_table) [3, 4])) = Inr t' \<and>
    map (\<lambda>m. (m_at m, m_access m, m_shadows_nested m)) (mounts t') =
      map (\<lambda>m. (m_at m, m_access m, m_shadows_nested m)) (mounts demo_table) \<and>
    mt_resolve t' = mt_resolve demo_table \<and>
    map m_dir (mounts t') = map MountDir [3, 4] \<and>
    (\<forall>m \<in> set (mounts t'). m_host_path m = None \<and> m_canonical m = None)"
  by (rule lend_rebuild) code_simp+

end
