(* ===== verification/Vfs.thy ===== *)
theory Vfs
  imports Mount_Table
begin

unbundle bit_operations_syntax

text \<open>
  The filesystem over the virtual namespace (\<^verbatim>\<open>brush-vfs/src/fs.rs\<close>): how a path is located,
  symlinks included, and every operation on it. Each operation is the whole method: its
  resolution, its guards in the code's order, and the requests it makes of the host.

  The Unix branches are modelled, with Linux's \<^verbatim>\<open>ELOOP\<close> and \<^verbatim>\<open>O_NONBLOCK\<close>.
\<close>

section \<open>Constants and errors\<close>

definition MAX_SYMLINK_HOPS :: nat where
  "MAX_SYMLINK_HOPS = 40"

definition SYMLINK_LOOP_MESSAGE :: string where
  "SYMLINK_LOOP_MESSAGE = ''too many levels of symbolic links''"

definition ELOOP :: int where
  "ELOOP = 40"

definition O_NONBLOCK :: int where
  "O_NONBLOCK = 2048"

definition symlink_loop_error :: io_error where
  "symlink_loop_error = OsError ELOOP Uncategorized"

text \<open>\<^verbatim>\<open>Error::to_string\<close> as far as the code inspects it: the text it put there itself.\<close>

fun message_text :: "message \<Rightarrow> string" where
  "message_text (Text s) = s"
| "message_text (TextPath s p) = s @ inner p"
| "message_text (PathMessage e) = []"

definition is_symlink_loop :: "io_error \<Rightarrow> bool" where
  "is_symlink_loop e =
     (case e of
        OsError code k \<Rightarrow> code = ELOOP
      | Custom k m \<Rightarrow> k = OtherKind \<and> contains_str SYMLINK_LOOP_MESSAGE (message_text m))"

definition not_found :: "virtual_path \<Rightarrow> io_error" where
  "not_found p = Custom NotFound (TextPath ''no such file or directory: '' p)"

definition read_only :: "virtual_path \<Rightarrow> io_error" where
  "read_only p = Custom PermissionDenied (TextPath ''read-only mount: '' p)"

definition invalid_path :: "path_error \<Rightarrow> io_error" where
  "invalid_path e = Custom InvalidInput (PathMessage e)"

section \<open>Open modes\<close>

record open_mode =
  om_read :: bool
  om_write :: bool
  om_append :: bool
  om_create :: bool
  om_create_new :: bool
  om_truncate :: bool
  om_nofollow :: bool
  om_nonblock :: bool
  om_mode :: "u32 option"
  om_custom_flags :: int

definition mode_default :: open_mode where
  "mode_default =
     \<lparr> om_read = False, om_write = False, om_append = False, om_create = False,
       om_create_new = False, om_truncate = False, om_nofollow = False, om_nonblock = False,
       om_mode = None, om_custom_flags = 0 \<rparr>"

definition mode_read :: open_mode where
  "mode_read = mode_default\<lparr>om_read := True\<rparr>"

definition mode_write :: open_mode where
  "mode_write = mode_default\<lparr>om_write := True, om_create := True, om_truncate := True\<rparr>"

definition mode_append :: open_mode where
  "mode_append = mode_default\<lparr>om_append := True, om_create := True\<rparr>"

definition with_read :: "open_mode \<Rightarrow> bool \<Rightarrow> open_mode" where
  "with_read m yes = m\<lparr>om_read := yes\<rparr>"

definition with_write :: "open_mode \<Rightarrow> bool \<Rightarrow> open_mode" where
  "with_write m yes = m\<lparr>om_write := yes\<rparr>"

definition with_append :: "open_mode \<Rightarrow> bool \<Rightarrow> open_mode" where
  "with_append m yes = m\<lparr>om_append := yes\<rparr>"

definition with_create :: "open_mode \<Rightarrow> bool \<Rightarrow> open_mode" where
  "with_create m yes = m\<lparr>om_create := yes\<rparr>"

definition with_create_new :: "open_mode \<Rightarrow> bool \<Rightarrow> open_mode" where
  "with_create_new m yes = m\<lparr>om_create_new := yes\<rparr>"

definition with_truncate :: "open_mode \<Rightarrow> bool \<Rightarrow> open_mode" where
  "with_truncate m yes = m\<lparr>om_truncate := yes\<rparr>"

definition with_nofollow :: "open_mode \<Rightarrow> bool \<Rightarrow> open_mode" where
  "with_nofollow m yes = m\<lparr>om_nofollow := yes\<rparr>"

definition with_custom_flags :: "open_mode \<Rightarrow> int \<Rightarrow> open_mode" where
  "with_custom_flags m flags = m\<lparr>om_custom_flags := flags\<rparr>"

definition with_mode :: "open_mode \<Rightarrow> u32 \<Rightarrow> open_mode" where
  "with_mode m mode = m\<lparr>om_mode := Some mode\<rparr>"

definition with_nonblock :: "open_mode \<Rightarrow> bool \<Rightarrow> open_mode" where
  "with_nonblock m yes = m\<lparr>om_nonblock := yes\<rparr>"

definition is_write :: "open_mode \<Rightarrow> bool" where
  "is_write m \<longleftrightarrow> om_write m \<or> om_append m \<or> om_create m \<or> om_create_new m \<or> om_truncate m"

definition to_cap_std :: "open_mode \<Rightarrow> open_options" where
  "to_cap_std m =
     (let extra = om_custom_flags m;
          extra = (if om_nonblock m then extra OR O_NONBLOCK else extra)
      in \<lparr> oo_read = om_read m, oo_write = om_write m, oo_append = om_append m,
           oo_create = om_create m, oo_create_new = om_create_new m, oo_truncate = om_truncate m,
           oo_custom_flags = (if extra \<noteq> 0 then extra else 0), oo_mode = om_mode m \<rparr>)"

definition opts_write :: "open_options \<Rightarrow> bool" where
  "opts_write o' \<longleftrightarrow>
     oo_write o' \<or> oo_append o' \<or> oo_create o' \<or> oo_create_new o' \<or> oo_truncate o'"

lemma opts_write_to_cap_std [simp]: "opts_write (to_cap_std m) = is_write m"
  by (simp add: opts_write_def to_cap_std_def is_write_def Let_def)

lemma is_write_read [simp]: "\<not> is_write mode_read" "\<not> is_write (with_nonblock mode_read b)"
  by (simp_all add: is_write_def mode_read_def mode_default_def with_nonblock_def)

section \<open>File facts\<close>

record file_facts =
  ff_is_dir :: bool
  ff_is_file :: bool
  ff_is_symlink :: bool
  ff_len :: u64
  ff_is_block_device :: bool
  ff_is_char_device :: bool
  ff_is_fifo :: bool
  ff_is_socket :: bool
  ff_is_setuid :: bool
  ff_is_setgid :: bool
  ff_is_sticky :: bool
  ff_uid_gid :: "u32 \<times> u32"
  ff_dev_ino :: "(u64 \<times> u64) option"

definition facts_from_metadata :: "metadata \<Rightarrow> file_facts" where
  "facts_from_metadata md =
     \<lparr> ff_is_dir = (md_type md = Directory), ff_is_file = (md_type md = RegularFile),
       ff_is_symlink = (md_type md = SymbolicLink), ff_len = md_len md,
       ff_is_block_device = (md_type md = BlockDevice),
       ff_is_char_device = (md_type md = CharDevice), ff_is_fifo = (md_type md = Fifo),
       ff_is_socket = (md_type md = Socket),
       ff_is_setuid = (md_mode md AND 0x800 \<noteq> 0), ff_is_setgid = (md_mode md AND 0x400 \<noteq> 0),
       ff_is_sticky = (md_mode md AND 0x200 \<noteq> 0), ff_uid_gid = (md_uid md, md_gid md),
       ff_dev_ino = Some (md_dev md, md_ino md) \<rparr>"

section \<open>Locating a path\<close>

record located =
  l_mount :: nat
  l_relative :: rel_path
  l_vpath :: virtual_path

definition mount_of :: "mount_table \<Rightarrow> located \<Rightarrow> mount" where
  "mount_of t l = mounts t ! l_mount l"

definition locate_exact :: "mount_table \<Rightarrow> virtual_path \<Rightarrow> io_error + located" where
  "locate_exact t p =
     (case mt_resolve t p of
        None \<Rightarrow> Inl (not_found p)
      | Some (i, rest) \<Rightarrow> Inr \<lparr> l_mount = i, l_relative = rest, l_vpath = p \<rparr>)"

definition read_link_contents :: "'w host \<Rightarrow> mount \<Rightarrow> rel_path \<Rightarrow> ('w, string) io" where
  "read_link_contents H m r =
     try_then (clone_dir H (m_dir m)) (\<lambda>d. call (h_bytes H) (ReadLinkContents d r))"

definition is_link_answer :: "io_error + metadata \<Rightarrow> bool" where
  "is_link_answer r = (case r of Inr md \<Rightarrow> md_type md = SymbolicLink | Inl e \<Rightarrow> False)"

text \<open>The handle the walk may probe from: the cursor, while it is in the candidate's mount.\<close>

definition descent :: "(nat \<times> dir_handle) option \<Rightarrow> nat \<Rightarrow> dir_handle option" where
  "descent cursor i = (case cursor of Some (j, d) \<Rightarrow> if j = i then Some d else None | None \<Rightarrow> None)"

definition parent_or_root :: "virtual_path \<Rightarrow> virtual_path" where
  "parent_or_root p = (case parent p of Some q \<Rightarrow> q | None \<Rightarrow> root)"

text \<open>\<open>pending\<close> is the code's stack with its top first.\<close>

function locate_loop ::
  "'w host \<Rightarrow> unicode \<Rightarrow> mount_table \<Rightarrow> virtual_path \<Rightarrow> bool \<Rightarrow> virtual_path \<Rightarrow> string list \<Rightarrow>
   nat \<Rightarrow> (nat \<times> dir_handle) option \<Rightarrow> ('w, located) io" where
  "locate_loop H u t path follow resolved [] hops cursor =
     lift_result (locate_exact t resolved)"
| "locate_loop H u t path follow resolved (component # pending) hops cursor =
     (case resolve u resolved component of
        Inl e \<Rightarrow> fail (invalid_path e)
      | Inr candidate \<Rightarrow>
          (let is_final = (pending = []) in
           case locate_exact t candidate of
             Inl e \<Rightarrow>
               (if \<not> is_final \<and> \<not> is_root candidate \<and> has_mount_below t candidate
                then locate_loop H u t path follow candidate pending hops None
                else fail e)
           | Inr located \<Rightarrow>
               (let m = mount_of t located; d = descent cursor (l_mount located) in
                try_then
                  (attempt (call (h_meta H)
                     (case d of Some c \<Rightarrow> SymlinkMetadata c [component]
                              | None \<Rightarrow> SymlinkMetadata (m_dir m) (l_relative located))))
                  (\<lambda>md.
                     if is_link_answer md \<and> (\<not> is_final \<or> follow) then
                       (if Suc hops > MAX_SYMLINK_HOPS
                        then fail (Custom OtherKind (TextPath (SYMLINK_LOOP_MESSAGE @ '': '') path))
                        else
                          try_then (read_link_contents H m (l_relative located)) (\<lambda>target.
                            if \<not> valid_utf8 target
                            then fail (Custom InvalidData
                                   (TextPath ''symlink target is not valid UTF-8: '' path))
                            else
                              locate_loop H u t path follow
                                (if starts_with_char CHR ''/'' target then root
                                 else parent_or_root candidate)
                                (filter (\<lambda>c. c \<noteq> []) (split_on CHR ''/'' target) @ pending)
                                (Suc hops) None))
                     else if is_final then locate_loop H u t path follow candidate [] hops None
                     else
                       try_then
                         (attempt
                            (case d of Some c \<Rightarrow> open_dir_at H c [component]
                                     | None \<Rightarrow> open_dir_at H (m_dir m) (l_relative located)))
                         (\<lambda>opened.
                            locate_loop H u t path follow candidate pending hops
                              (case opened of Inr h \<Rightarrow> Some (l_mount located, h)
                                            | Inl e \<Rightarrow> None))))))"
  by pat_completeness auto
termination
  by (relation "measures [\<lambda>(H, u, t, path, follow, resolved, pending, hops, cursor).
                            Suc MAX_SYMLINK_HOPS - hops,
                          \<lambda>(H, u, t, path, follow, resolved, pending, hops, cursor).
                            length pending]")
     (auto simp: MAX_SYMLINK_HOPS_def)

declare locate_loop.simps [simp del]

definition locate ::
  "'w host \<Rightarrow> unicode \<Rightarrow> mount_table \<Rightarrow> virtual_path \<Rightarrow> bool \<Rightarrow> ('w, located) io" where
  "locate H u t path follow = locate_loop H u t path follow root (components path) 0 None"

definition locate_follow ::
  "'w host \<Rightarrow> unicode \<Rightarrow> mount_table \<Rightarrow> virtual_path \<Rightarrow> ('w, located) io" where
  "locate_follow H u t path = locate H u t path True"

text \<open>The fast path in one step, and the careful walk where it does not apply.\<close>

definition at_path ::
  "'w host \<Rightarrow> unicode \<Rightarrow> mount_table \<Rightarrow> virtual_path \<Rightarrow> bool \<Rightarrow> (located \<Rightarrow> ('w, 'a) io) \<Rightarrow>
   ('w, 'a) io" where
  "at_path H u t path follow op =
     (case locate_exact t path of
        Inl e \<Rightarrow> fail e
      | Inr direct \<Rightarrow>
          (let careful = try_then (locate H u t path follow) op in
           if \<not> m_shadows_nested (mount_of t direct)
           then try_then (attempt (op direct)) (\<lambda>r.
                  case r of
                    Inl e \<Rightarrow> if kind e = PermissionDenied then careful else fail e
                  | Inr x \<Rightarrow> ok x)
           else careful))"

section \<open>Guards and link targets\<close>

definition require_writable :: "mount_table \<Rightarrow> located \<Rightarrow> io_error + unit" where
  "require_writable t l =
     (if is_writable (m_access (mount_of t l)) then Inr () else Inl (read_only (l_vpath l)))"

text \<open>\<^verbatim>\<open>Path::parent\<close> on a relative path: nothing above the empty path.\<close>

definition rel_parent :: "rel_path \<Rightarrow> rel_path" where
  "rel_parent r = butlast r"

fun depth_walk :: "nat \<Rightarrow> string list \<Rightarrow> bool" where
  "depth_walk depth [] = True"
| "depth_walk depth (c # cs) =
     (if c = [] \<or> c = ''.'' then depth_walk depth cs
      else if c = ''..'' then (case depth of 0 \<Rightarrow> False | Suc d \<Rightarrow> depth_walk d cs)
      else depth_walk (Suc depth) cs)"

definition stored_target_stays_in_mount :: "rel_path \<Rightarrow> string \<Rightarrow> bool" where
  "stored_target_stays_in_mount link stored =
     (if starts_with_char CHR ''/'' stored then False
      else depth_walk (length (rel_parent link)) (split_on CHR ''/'' stored))"

fun shared_prefix :: "rel_path \<Rightarrow> rel_path \<Rightarrow> nat" where
  "shared_prefix (a # as) (b # bs) = (if a = b then Suc (shared_prefix as bs) else 0)"
| "shared_prefix _ _ = 0"

definition relative_from :: "rel_path \<Rightarrow> rel_path \<Rightarrow> string" where
  "relative_from link target =
     (let link_dir = rel_parent link; shared = shared_prefix link_dir target;
          parts = replicate (length link_dir - shared) ''..'' @ drop shared target
      in if parts = [] then ''.'' else join_with ''/'' parts)"

section \<open>Operations\<close>

definition vfs_facts ::
  "'w host \<Rightarrow> unicode \<Rightarrow> mount_table \<Rightarrow> virtual_path \<Rightarrow> bool \<Rightarrow> ('w, file_facts option) io" where
  "vfs_facts H u t path follow =
     try_then (attempt (at_path H u t path follow (\<lambda>l.
       try_then
         (let d = m_dir (mount_of t l) in
          if l_relative l = [] then call (h_meta H) (DirMetadata d)
          else if follow then call (h_meta H) (PathMetadata d (l_relative l))
          else call (h_meta H) (SymlinkMetadata d (l_relative l)))
         (\<lambda>md. ok (facts_from_metadata md)))))
       (\<lambda>r. ok (ok_option r))"

definition vfs_exists ::
  "'w host \<Rightarrow> unicode \<Rightarrow> mount_table \<Rightarrow> virtual_path \<Rightarrow> ('w, bool) io" where
  "vfs_exists H u t path = try_then (vfs_facts H u t path True) (\<lambda>f. ok (f \<noteq> None))"

definition vfs_is_symlink ::
  "'w host \<Rightarrow> unicode \<Rightarrow> mount_table \<Rightarrow> virtual_path \<Rightarrow> ('w, bool) io" where
  "vfs_is_symlink H u t path =
     try_then (vfs_facts H u t path False)
       (\<lambda>f. ok (case f of None \<Rightarrow> False | Some f \<Rightarrow> ff_is_symlink f))"

definition vfs_open_with ::
  "'w host \<Rightarrow> unicode \<Rightarrow> mount_table \<Rightarrow> virtual_path \<Rightarrow> open_mode \<Rightarrow> ('w, file_handle) io" where
  "vfs_open_with H u t path mode =
     try_then (if om_nofollow mode then vfs_is_symlink H u t path else ok False) (\<lambda>link.
       if link then fail symlink_loop_error
       else at_path H u t path True (\<lambda>l.
         if \<not> is_writable (m_access (mount_of t l)) \<and> is_write mode
         then fail (read_only (l_vpath l))
         else open_file_at H (m_dir (mount_of t l)) (l_relative l) (to_cap_std mode)))"

definition vfs_open ::
  "'w host \<Rightarrow> unicode \<Rightarrow> mount_table \<Rightarrow> virtual_path \<Rightarrow> ('w, file_handle) io" where
  "vfs_open H u t path = vfs_open_with H u t path mode_read"

definition vfs_create ::
  "'w host \<Rightarrow> unicode \<Rightarrow> mount_table \<Rightarrow> virtual_path \<Rightarrow> ('w, file_handle) io" where
  "vfs_create H u t path = vfs_open_with H u t path mode_write"

definition vfs_metadata ::
  "'w host \<Rightarrow> unicode \<Rightarrow> mount_table \<Rightarrow> virtual_path \<Rightarrow> ('w, metadata) io" where
  "vfs_metadata H u t path =
     at_path H u t path True (\<lambda>l.
       try_then
         (let d = m_dir (mount_of t l) in
          if l_relative l = [] then try_then (clone_dir H d) (\<lambda>c. ok (DirAsFile c))
          else try_then (call (h_meta H) (PathMetadata d (l_relative l))) (\<lambda>md.
            if md_type md = Directory
            then try_then (open_dir_at H d (l_relative l)) (\<lambda>c. ok (DirAsFile c))
            else open_file_at H d (l_relative l) (to_cap_std (with_nonblock mode_read True))))
         (\<lambda>f. call (h_meta H) (FileMetadata f)))"

definition symlink_metadata_at :: "'w host \<Rightarrow> dir_handle \<Rightarrow> string \<Rightarrow> ('w, metadata) io" where
  "symlink_metadata_at H d name =
     (if CHR 0x00 \<in> set name
      then fail (Custom InvalidInput (Text ''directory entry name contains an interior NUL''))
      else try_then (open_entry H d name) (\<lambda>f. call (h_meta H) (FileMetadata f)))"

definition vfs_symlink_metadata ::
  "'w host \<Rightarrow> unicode \<Rightarrow> mount_table \<Rightarrow> virtual_path \<Rightarrow> ('w, metadata) io" where
  "vfs_symlink_metadata H u t path =
     try_then (locate H u t path False) (\<lambda>l.
       let d = m_dir (mount_of t l) in
       if l_relative l = []
       then try_then (clone_dir H d) (\<lambda>c. call (h_meta H) (FileMetadata (DirAsFile c)))
       else try_then
         (if rel_parent (l_relative l) \<noteq> [] then open_dir_at H d (rel_parent (l_relative l))
          else clone_dir H d)
         (\<lambda>p. symlink_metadata_at H p (last (l_relative l))))"

definition vfs_access ::
  "'w host \<Rightarrow> unicode \<Rightarrow> mount_table \<Rightarrow> virtual_path \<Rightarrow> access_modes \<Rightarrow> ('w, bool) io" where
  "vfs_access H u t path modes =
     try_then (attempt (at_path H u t path True (\<lambda>l.
       if writable modes \<and> \<not> is_writable (m_access (mount_of t l))
       then fail (read_only (l_vpath l))
       else try_then (clone_dir H (m_dir (mount_of t l))) (\<lambda>d.
         call (h_unit H) (AccessCheck d (l_relative l) modes)))))
       (\<lambda>r. ok (is_ok r))"

definition vfs_canonicalize ::
  "'w host \<Rightarrow> unicode \<Rightarrow> mount_table \<Rightarrow> virtual_path \<Rightarrow> ('w, virtual_path) io" where
  "vfs_canonicalize H u t path = try_then (locate_follow H u t path) (\<lambda>l. ok (l_vpath l))"

definition vfs_host_path ::
  "'w host \<Rightarrow> unicode \<Rightarrow> mount_table \<Rightarrow> virtual_path \<Rightarrow> ('w, host_path) io" where
  "vfs_host_path H u t path =
     try_then (locate_follow H u t path) (\<lambda>l.
       case m_canonical (mount_of t l) of
         None \<Rightarrow> fail (Custom InvalidInput
                   (Text ''this namespace was received as capabilities and has no host paths''))
       | Some r \<Rightarrow> ok (r @ l_relative l))"

definition vfs_read_link ::
  "'w host \<Rightarrow> unicode \<Rightarrow> mount_table \<Rightarrow> virtual_path \<Rightarrow> ('w, string) io" where
  "vfs_read_link H u t path =
     at_path H u t path False (\<lambda>l. read_link_contents H (mount_of t l) (l_relative l))"

text \<open>The entries are read until the first that fails; a name that is not UTF-8 is left out.\<close>

fun collect_names :: "(io_error + string) list \<Rightarrow> io_error + string list" where
  "collect_names [] = Inr []"
| "collect_names (Inl e # rest) = Inl e"
| "collect_names (Inr name # rest) =
     (case collect_names rest of
        Inl e \<Rightarrow> Inl e
      | Inr names \<Rightarrow> Inr (case nameable name of Some n \<Rightarrow> n # names | None \<Rightarrow> names))"

definition entry_names_of :: "'w host \<Rightarrow> dir_handle \<Rightarrow> ('w, string list) io" where
  "entry_names_of H d =
     try_then (call (h_names H) (ReadEntries d)) (\<lambda>es. lift_result (collect_names es))"

definition vfs_read_dir_names ::
  "'w host \<Rightarrow> unicode \<Rightarrow> mount_table \<Rightarrow> virtual_path \<Rightarrow> ('w, string list) io" where
  "vfs_read_dir_names H u t path =
     at_path H u t path True (\<lambda>l.
       try_then
         (if l_relative l = [] then clone_dir H (m_dir (mount_of t l))
          else open_dir_at H (m_dir (mount_of t l)) (l_relative l))
         (entry_names_of H))"

text \<open>\<^verbatim>\<open>locate_dir\<close> and \<^verbatim>\<open>Vfs::open_dir\<close>: the one place a directory capability is minted.\<close>

definition locate_dir ::
  "'w host \<Rightarrow> unicode \<Rightarrow> mount_table \<Rightarrow> virtual_path \<Rightarrow> ('w, dir_handle \<times> bool) io" where
  "locate_dir H u t path =
     try_then (locate_follow H u t path) (\<lambda>l.
       try_then
         (if l_relative l = [] then clone_dir H (m_dir (mount_of t l))
          else open_dir_at H (m_dir (mount_of t l)) (l_relative l))
         (\<lambda>d. ok (d, is_writable (m_access (mount_of t l)))))"

section \<open>Operations that change the filesystem\<close>

text \<open>The shape most of them share: locate without following, check the mount, act.\<close>

definition mutate_at ::
  "'w host \<Rightarrow> unicode \<Rightarrow> mount_table \<Rightarrow> virtual_path \<Rightarrow> bool \<Rightarrow>
   (dir_handle \<Rightarrow> rel_path \<Rightarrow> request) \<Rightarrow> ('w, unit) io" where
  "mutate_at H u t path follow q =
     at_path H u t path follow (\<lambda>l.
       try_then (lift_result (require_writable t l)) (\<lambda>_.
         call (h_unit H) (q (m_dir (mount_of t l)) (l_relative l))))"

definition vfs_create_dir_all where
  "vfs_create_dir_all H u t path = mutate_at H u t path False CreateDirAll"

definition vfs_remove_file where
  "vfs_remove_file H u t path = mutate_at H u t path False RemoveFile"

definition vfs_remove_dir where
  "vfs_remove_dir H u t path = mutate_at H u t path False RemoveDir"

definition vfs_remove_dir_all where
  "vfs_remove_dir_all H u t path = mutate_at H u t path False RemoveDirAll"

definition vfs_create_dir where
  "vfs_create_dir H u t path = mutate_at H u t path False CreateDir"

definition vfs_create_dir_with_mode where
  "vfs_create_dir_with_mode H u t path mode recursive =
     mutate_at H u t path False (\<lambda>d r. CreateDirWith d r mode recursive)"

definition vfs_set_times where
  "vfs_set_times H u t path atime mtime follow =
     mutate_at H u t path False
       (\<lambda>d r. if follow then SetTimes d r atime mtime else SetSymlinkTimes d r atime mtime)"

definition vfs_set_permissions where
  "vfs_set_permissions H u t path perm =
     mutate_at H u t path True (\<lambda>d r. SetPermissions d r perm)"

definition vfs_rename ::
  "'w host \<Rightarrow> unicode \<Rightarrow> mount_table \<Rightarrow> virtual_path \<Rightarrow> virtual_path \<Rightarrow> ('w, unit) io" where
  "vfs_rename H u t from to =
     try_then (locate H u t from False) (\<lambda>f.
     try_then (locate H u t to False) (\<lambda>g.
       if l_mount f \<noteq> l_mount g
       then fail (Custom CrossesDevices (Text (''rename across a mount boundary: ''
              @ inner (l_vpath f) @ '' to '' @ inner (l_vpath g))))
       else
         try_then (lift_result (require_writable t f)) (\<lambda>_.
         try_then (lift_result (require_writable t g)) (\<lambda>_.
         try_then (attempt (call (h_meta H)
           (SymlinkMetadata (m_dir (mount_of t f)) (l_relative f)))) (\<lambda>md.
         try_then
           (if is_link_answer md
            then try_then (read_link_contents H (mount_of t f) (l_relative f)) (\<lambda>stored.
              if \<not> valid_utf8 stored
              then fail (Custom InvalidData
                (Text ''the link being moved has a target that is not valid UTF-8''))
              else if \<not> stored_target_stays_in_mount (l_relative g) stored
              then fail (Custom InvalidInput
                (Text (''moving this link would point '' @ stored @ '' out of the mount'')))
              else ok ())
            else ok ())
           (\<lambda>_. call (h_unit H) (Rename (m_dir (mount_of t f)) (l_relative f)
                                   (m_dir (mount_of t g)) (l_relative g))))))))"

definition vfs_copy ::
  "'w host \<Rightarrow> unicode \<Rightarrow> mount_table \<Rightarrow> virtual_path \<Rightarrow> virtual_path \<Rightarrow> ('w, nat) io" where
  "vfs_copy H u t from to =
     try_then (locate_follow H u t from) (\<lambda>f.
     try_then (locate H u t to False) (\<lambda>g.
     try_then (lift_result (require_writable t g)) (\<lambda>_.
       call (h_num H) (CopyFile (m_dir (mount_of t f)) (l_relative f)
                         (m_dir (mount_of t g)) (l_relative g)))))"

definition vfs_hard_link ::
  "'w host \<Rightarrow> unicode \<Rightarrow> mount_table \<Rightarrow> virtual_path \<Rightarrow> virtual_path \<Rightarrow> ('w, unit) io" where
  "vfs_hard_link H u t original link =
     try_then (locate H u t original False) (\<lambda>f.
     try_then (locate H u t link False) (\<lambda>g.
       if l_mount f \<noteq> l_mount g
       then fail (Custom CrossesDevices (Text (''hard link across a mount boundary: ''
              @ inner (l_vpath f) @ '' to '' @ inner (l_vpath g))))
       else
         try_then (lift_result (require_writable t g)) (\<lambda>_.
           call (h_unit H) (HardLink (m_dir (mount_of t f)) (l_relative f)
                              (m_dir (mount_of t g)) (l_relative g)))))"

definition vfs_symlink ::
  "'w host \<Rightarrow> unicode \<Rightarrow> mount_table \<Rightarrow> virtual_path \<Rightarrow> string \<Rightarrow> ('w, unit) io" where
  "vfs_symlink H u t path target =
     try_then (locate H u t path False) (\<lambda>link.
     try_then (lift_result (require_writable t link)) (\<lambda>_.
     try_then (lift_result (map_err invalid_path
       (resolve u (parent_or_root (l_vpath link)) target))) (\<lambda>landing.
     try_then (lift_result (locate_exact t landing)) (\<lambda>lexical.
       if l_mount lexical \<noteq> l_mount link
       then fail (Custom InvalidInput
         (Text (''symlink target '' @ inner landing @ '' is in another mount'')))
       else
         try_then (locate H u t landing True) (\<lambda>followed.
           if l_mount followed \<noteq> l_mount link
           then fail (Custom InvalidInput
             (Text (''symlink target '' @ inner landing @ '' leads out of the mount'')))
           else
             (let stored = relative_from (l_relative link) (l_relative lexical) in
              if \<not> stored_target_stays_in_mount (l_relative link) stored
              then fail (Custom InvalidInput
                (Text (''symlink target '' @ inner landing @ '' leaves the mount when followed'')))
              else call (h_unit H)
                     (MakeSymlink (m_dir (mount_of t link)) stored (l_relative link))))))))"

section \<open>What a request may touch\<close>

text \<open>The directory handles a request acts on, with the path it gives each.\<close>

fun reads_at :: "request \<Rightarrow> (dir_handle \<times> rel_path) list" where
  "reads_at (SymlinkMetadata d r) = [(d, r)]"
| "reads_at (PathMetadata d r) = [(d, r)]"
| "reads_at (Exists d r) = [(d, r)]"
| "reads_at (DirMetadata d) = [(d, [])]"
| "reads_at (OpenDir d r) = [(d, r)]"
| "reads_at (TryClone d) = [(d, [])]"
| "reads_at (ReadLinkContents d r) = [(d, r)]"
| "reads_at (OpenFile d r opts) = (if opts_write opts then [] else [(d, r)])"
| "reads_at (OpenEntryNoFollow d c) = [(d, [c])]"
| "reads_at (AccessCheck d r modes) = (if writable modes then [] else [(d, r)])"
| "reads_at (ReadEntries d) = [(d, [])]"
| "reads_at (CopyFile d r d' r') = [(d, r)]"
| "reads_at (ReadToEnd (OpenedFile d r opts n)) = [(d, r)]"
| "reads_at _ = []"

fun writes_at :: "request \<Rightarrow> (dir_handle \<times> rel_path) list" where
  "writes_at (OpenFile d r opts) = (if opts_write opts then [(d, r)] else [])"
| "writes_at (AccessCheck d r modes) = (if writable modes then [(d, r)] else [])"
| "writes_at (CreateDirAll d r) = [(d, r)]"
| "writes_at (CreateDir d r) = [(d, r)]"
| "writes_at (CreateDirWith d r mode recursive) = [(d, r)]"
| "writes_at (RemoveFile d r) = [(d, r)]"
| "writes_at (RemoveDir d r) = [(d, r)]"
| "writes_at (RemoveDirAll d r) = [(d, r)]"
| "writes_at (Rename d r d' r') = [(d, r), (d', r')]"
| "writes_at (SetTimes d r a m) = [(d, r)]"
| "writes_at (SetSymlinkTimes d r a m) = [(d, r)]"
| "writes_at (SetPermissions d r mode) = [(d, r)]"
| "writes_at (CopyFile d r d' r') = [(d', r')]"
| "writes_at (HardLink d r d' r') = [(d, r), (d', r')]"
| "writes_at (MakeSymlink d stored r) = [(d, r)]"
| "writes_at (WriteAll (OpenedFile d r opts n) s) = [(d, r)]"
| "writes_at _ = []"

text \<open>A request that names a host path outright, which no operation of the namespace makes.\<close>

fun names_host_path :: "request \<Rightarrow> bool" where
  "names_host_path (Canonicalize p) = True"
| "names_host_path (OpenAmbientDir p) = True"
| "names_host_path (SocketConnect p) = True"
| "names_host_path (SocketBind p) = True"
| "names_host_path (HostMkdir p m r) = True"
| "names_host_path (HostUnlink p) = True"
| "names_host_path (HostRmdir p) = True"
| "names_host_path (HostExists hp) = True"
| "names_host_path (HostIsFile hp) = True"
| "names_host_path (HostCreateDirAll hp) = True"
| "names_host_path (HostReadString hp) = True"
| "names_host_path (HostWrite hp s) = True"
| "names_host_path CurrentExe = True"
| "names_host_path (SpawnChild launcher args cleared envs) = True"
| "names_host_path _ = False"

text \<open>A stored link the request would create, with the place it is put.\<close>

fun makes_link :: "request \<Rightarrow> (string \<times> rel_path) option" where
  "makes_link (MakeSymlink d stored r) = Some (stored, r)"
| "makes_link _ = None"

text \<open>The two directories a request would give one inode a name in.\<close>

fun relinks :: "request \<Rightarrow> (dir_handle \<times> dir_handle) option" where
  "relinks (Rename d r d' r') = Some (d, d')"
| "relinks (HardLink d r d' r') = Some (d, d')"
| "relinks _ = None"

definition some_writable :: "mount_table \<Rightarrow> bool" where
  "some_writable t \<longleftrightarrow> (\<exists>m \<in> set (mounts t). is_writable (m_access m))"

definition governed :: "mount_table \<Rightarrow> bool \<Rightarrow> dir_handle \<Rightarrow> bool" where
  "governed t w d \<longleftrightarrow>
     (\<exists>m \<in> set (mounts t). dir_origin d = dir_origin (m_dir m) \<and> (w \<longrightarrow> is_writable (m_access m)))"

definition probe_component :: "string \<Rightarrow> bool" where
  "probe_component c \<longleftrightarrow> c \<noteq> [] \<and> CHR ''/'' \<notin> set c"

text \<open>
  Every path is a sequence of plain names, save that the walk may probe or open one raw piece of
  a link target, which may be \<^verbatim>\<open>.\<close> or \<^verbatim>\<open>..\<close>, from the directory it has reached: the host refuses
  to leave a handle that way, and the model leaves its answer open.
\<close>

definition path_confined :: "request \<Rightarrow> rel_path \<Rightarrow> bool" where
  "path_confined q r \<longleftrightarrow> list_all plain_component r \<or>
     (\<exists>d c. (q = SymlinkMetadata d [c] \<or> q = OpenDir d [c]) \<and> r = [c] \<and> probe_component c)"

definition request_confined :: "mount_table \<Rightarrow> request \<Rightarrow> bool" where
  "request_confined t q \<longleftrightarrow>
     \<not> names_host_path q \<and>
     (\<forall>(d, r) \<in> set (reads_at q). governed t False d \<and> path_confined q r) \<and>
     (\<forall>(d, r) \<in> set (writes_at q). governed t True d \<and> list_all plain_component r) \<and>
     (case makes_link q of None \<Rightarrow> True | Some (stored, r) \<Rightarrow> stored_target_stays_in_mount r stored) \<and>
     (case relinks q of None \<Rightarrow> True | Some (d, d') \<Rightarrow> d = d')"

definition located_ok :: "unicode \<Rightarrow> mount_table \<Rightarrow> located \<Rightarrow> bool" where
  "located_ok u t l \<longleftrightarrow>
     wf_path u (l_vpath l) \<and> mt_resolve t (l_vpath l) = Some (l_mount l, l_relative l)"

lemma locate_exact_ok:
  "wf_path u p \<Longrightarrow> locate_exact t p = Inr l \<Longrightarrow> located_ok u t l \<and> l_vpath l = p"
  by (auto simp: locate_exact_def located_ok_def split: option.splits)

lemma located_ok_mount: "located_ok u t l \<Longrightarrow> mount_of t l \<in> set (mounts t)"
  by (auto simp: located_ok_def mount_of_def dest: mt.lookup_point)

lemma located_ok_governed: "located_ok u t l \<Longrightarrow> governed t False (m_dir (mount_of t l))"
  by (auto simp: governed_def dest: located_ok_mount)

lemma located_ok_governed_write:
  "located_ok u t l \<Longrightarrow> is_writable (m_access (mount_of t l)) \<Longrightarrow> governed t True (m_dir (mount_of t l))"
  by (auto simp: governed_def dest: located_ok_mount)

lemma located_ok_governed_if:
  "located_ok u t l \<Longrightarrow> (w \<Longrightarrow> is_writable (m_access (mount_of t l))) \<Longrightarrow>
     governed t w (m_dir (mount_of t l))"
  by (auto simp: governed_def dest: located_ok_mount)

lemma located_ok_plain: "located_ok u t l \<Longrightarrow> list_all plain_component (l_relative l)"
  by (auto simp: located_ok_def dest: mt.rest_plain)

lemma governed_child [simp]:
  "governed t w (OpenedDir d r n) = governed t w d" "governed t w (ClonedDir d n) = governed t w d"
  by (simp_all add: governed_def)

lemma governed_some_writable: "governed t True d \<Longrightarrow> some_writable t"
  by (auto simp: governed_def some_writable_def)

lemma path_confined_plain: "list_all plain_component r \<Longrightarrow> path_confined q r"
  by (simp add: path_confined_def)

lemma path_confined_probe:
  "probe_component c \<Longrightarrow> path_confined (SymlinkMetadata d [c]) [c]"
  "probe_component c \<Longrightarrow> path_confined (OpenDir d [c]) [c]"
  by (auto simp: path_confined_def)

section \<open>Locating stays confined\<close>

definition cursor_ok :: "mount_table \<Rightarrow> (nat \<times> dir_handle) option \<Rightarrow> bool" where
  "cursor_ok t cursor \<longleftrightarrow> (\<forall>i d. cursor = Some (i, d) \<longrightarrow> governed t False d)"

lemma cursor_ok_None [simp]: "cursor_ok t None"
  by (simp add: cursor_ok_def)

lemma cursor_ok_Some [simp]: "cursor_ok t (Some (i, d)) = governed t False d"
  by (simp add: cursor_ok_def)

lemma descent_governed: "cursor_ok t cursor \<Longrightarrow> descent cursor i = Some d \<Longrightarrow> governed t False d"
  by (auto simp: descent_def split: option.splits prod.splits if_splits)

lemma split_pieces_probe:
  "list_all probe_component (filter (\<lambda>c. c \<noteq> []) (split_on CHR ''/'' s))"
  by (auto simp: list_all_iff probe_component_def dest: split_on_pieces)

lemma plain_probe: "plain_component c \<Longrightarrow> probe_component c"
  by (simp add: plain_component_def probe_component_def)

lemma wf_path_probe: "wf_path u p \<Longrightarrow> list_all probe_component (components p)"
  by (auto simp: components_def intro: split_pieces_probe)

lemma wf_parent_or_root: "wf_path u p \<Longrightarrow> wf_path u (parent_or_root p)"
proof (cases "components p = []")
  case True
  assume "wf_path u p"
  with True have "parent p = None" by (simp add: parent_None)
  then show ?thesis by (simp add: parent_or_root_def)
next
  case False
  assume "wf_path u p"
  then obtain q where "parent p = Some q" "wf_path u q" using parent_wf [OF _ False] by metis
  then show ?thesis by (simp add: parent_or_root_def)
qed

text \<open>Locating asks and opens; it changes nothing.\<close>

definition query_confined :: "mount_table \<Rightarrow> request \<Rightarrow> bool" where
  "query_confined t q \<longleftrightarrow> request_confined t q \<and> writes_at q = []"

lemma read_link_contents_query:
  "located_ok u t l \<Longrightarrow>
     emits (query_confined t) (read_link_contents H (mount_of t l) (l_relative l)) (\<lambda>x. True)"
  unfolding read_link_contents_def
  by (rule emits_try_then [where R = "governed t False"], rule emits_clone_dir)
     (auto simp: query_confined_def request_confined_def path_confined_plain
           dest: located_ok_governed located_ok_plain intro!: emits_intro)

text \<open>The step of the walk once a candidate is located, given what the rest of the walk does.\<close>

lemma locate_probe_confined:
  assumes l: "located_ok u t l" and c: "cursor_ok t cursor" and p: "probe_component component"
  shows "query_confined t
     (case descent cursor (l_mount l) of Some c \<Rightarrow> SymlinkMetadata c [component]
        | None \<Rightarrow> SymlinkMetadata (m_dir (mount_of t l)) (l_relative l))"
  using l p descent_governed [OF c]
  by (auto simp: query_confined_def request_confined_def path_confined_plain path_confined_probe
           dest: located_ok_governed located_ok_plain split: option.splits)

lemma locate_open_confined:
  assumes l: "located_ok u t l" and c: "cursor_ok t cursor" and p: "probe_component component"
  shows "emits (query_confined t)
     (case descent cursor (l_mount l) of Some c \<Rightarrow> open_dir_at H c [component]
        | None \<Rightarrow> open_dir_at H (m_dir (mount_of t l)) (l_relative l)) (governed t False)"
proof (cases "descent cursor (l_mount l)")
  case None
  with located_ok_governed [OF l] located_ok_plain [OF l] show ?thesis
    by (simp add: query_confined_def request_confined_def path_confined_plain emits_open_dir_at)
next
  case (Some d)
  with c have "governed t False d" by (rule descent_governed)
  with Some p show ?thesis
    by (simp add: query_confined_def request_confined_def path_confined_probe emits_open_dir_at)
qed

text \<open>Induction along the walk: a step either shortens what is pending or follows a link.\<close>

lemma locate_induct [case_names finished step]:
  assumes "\<And>resolved hops cursor. P resolved [] hops cursor"
    and "\<And>resolved component pending hops cursor.
           (\<And>resolved' cursor'. P resolved' pending hops cursor') \<Longrightarrow>
           (\<And>resolved' pending' cursor'. hops < MAX_SYMLINK_HOPS \<Longrightarrow>
              P resolved' pending' (Suc hops) cursor') \<Longrightarrow>
           P resolved (component # pending) hops cursor"
  shows "P resolved pending hops cursor"
proof -
  have "\<forall>resolved pending cursor. P resolved pending h cursor" for h
  proof (induction "MAX_SYMLINK_HOPS - h" arbitrary: h rule: less_induct)
    case less
    have "P resolved pending h cursor" for resolved pending cursor
    proof (induction pending arbitrary: resolved cursor)
      case Nil
      show ?case by (rule assms(1))
    next
      case (Cons component pending)
      show ?case
        by (rule assms(2)) (use Cons.IH less in \<open>simp_all add: MAX_SYMLINK_HOPS_def\<close>)
    qed
    then show ?case by blast
  qed
  then show ?thesis by blast
qed

lemma locate_loop_query:
  assumes "nfc_ok u"
  shows "wf_path u resolved \<Longrightarrow> list_all probe_component pending \<Longrightarrow> cursor_ok t cursor \<Longrightarrow>
    emits (query_confined t) (locate_loop H u t path follow resolved pending hops cursor)
      (located_ok u t)"
proof (induction resolved pending hops cursor rule: locate_induct)
  case (finished resolved hops cursor)
  then show ?case
    unfolding locate_loop.simps by (intro emits_lift_result) (simp add: locate_exact_ok)
next
  case (step resolved component pending hops cursor)
  from step.prems have probe: "probe_component component" and rest: "list_all probe_component pending"
    by simp_all
  note ih = step.IH(1) [OF _ rest] and link = step.IH(2)
  show ?case
  proof (cases "resolve u resolved component")
    case (Inl e)
    then show ?thesis by (simp add: locate_loop.simps emits_fail)
  next
    case (Inr candidate)
    then have wf: "wf_path u candidate" by (rule resolve_wf_path [OF assms step.prems(1)])
    show ?thesis
    proof (cases "locate_exact t candidate")
      case (Inl e)
      with Inr show ?thesis by (simp add: locate_loop.simps emits_fail ih [OF wf])
    next
      case l: (Inr l)
      have ok: "located_ok u t l" using locate_exact_ok [OF wf l] ..
      note probe_ok = locate_probe_confined [OF ok step.prems(3) probe]
      have follow_link: "emits (query_confined t)
          (if Suc hops > MAX_SYMLINK_HOPS then fail e
           else try_then (read_link_contents H (mount_of t l) (l_relative l)) (\<lambda>target.
             if \<not> valid_utf8 target then fail e'
             else locate_loop H u t path follow
                    (if starts_with_char CHR ''/'' target then root else parent_or_root candidate)
                    (filter (\<lambda>c. c \<noteq> []) (split_on CHR ''/'' target) @ pending)
                    (Suc hops) None))
          (located_ok u t)" for e e'
      proof (cases "Suc hops > MAX_SYMLINK_HOPS")
        case True
        then show ?thesis by (simp add: emits_fail)
      next
        case False
        then have h: "hops < MAX_SYMLINK_HOPS" by simp
        show ?thesis
          using False wf rest
          by (auto intro!: emits_try_then [OF read_link_contents_query [OF ok]] emits_fail link [OF h]
              simp: wf_parent_or_root split_pieces_probe)
      qed
      have descend: "emits (query_confined t)
          (try_then (attempt (case descent cursor (l_mount l) of
                       Some c \<Rightarrow> open_dir_at H c [component]
                     | None \<Rightarrow> open_dir_at H (m_dir (mount_of t l)) (l_relative l)))
            (\<lambda>opened. locate_loop H u t path follow candidate pending hops
               (case opened of Inr h \<Rightarrow> Some (l_mount l, h) | Inl e \<Rightarrow> None)))
          (located_ok u t)"
        by (rule emits_try_attempt [OF locate_open_confined [OF ok step.prems(3) probe]])
           (simp_all add: ih [OF wf])
      have final: "pending = [] \<Longrightarrow> emits (query_confined t)
          (locate_loop H u t path follow candidate [] hops None) (located_ok u t)"
        using ih [OF wf, of None] by simp
      show ?thesis
        unfolding locate_loop.simps(2) Inr sum.case l Let_def
        by (rule emits_attempt_call, rule probe_ok)
           (rule emits_if, rule follow_link, rule emits_if, erule final, rule descend)
    qed
  qed
qed

lemma read_link_contents_confined:
  "located_ok u t l \<Longrightarrow>
     emits (request_confined t) (read_link_contents H (mount_of t l) (l_relative l)) (\<lambda>x. True)"
  by (rule emits_mono [OF read_link_contents_query]) (simp_all add: query_confined_def)

lemma locate_query:
  assumes "nfc_ok u" and "wf_path u path"
  shows "emits (query_confined t) (locate H u t path follow) (located_ok u t)"
  unfolding locate_def
  by (rule locate_loop_query [OF assms(1) wf_root wf_path_probe [OF assms(2)]]) simp

lemma locate_confined:
  assumes "nfc_ok u" and "wf_path u path"
  shows "emits (request_confined t) (locate H u t path follow) (located_ok u t)"
  by (rule emits_mono [OF locate_query [OF assms]]) (simp_all add: query_confined_def)

lemma at_path_emits:
  assumes "nfc_ok u" and "wf_path u path"
    and op: "\<And>l. located_ok u t l \<Longrightarrow> emits (request_confined t) (op l) Q"
  shows "emits (request_confined t) (at_path H u t path follow op) Q"
proof (cases "locate_exact t path")
  case (Inl e)
  then show ?thesis by (simp add: at_path_def emits_fail)
next
  case (Inr l)
  have careful: "emits (request_confined t) (try_then (locate H u t path follow) op) Q"
    by (rule emits_try_then [OF locate_confined [OF assms(1,2)] op])
  have "emits (request_confined t) (op l) Q"
    using locate_exact_ok [OF assms(2) Inr] op by blast
  then have "emits (request_confined t)
      (try_then (attempt (op l)) (\<lambda>r. case r of
         Inl e \<Rightarrow> if kind e = PermissionDenied then try_then (locate H u t path follow) op else fail e
       | Inr x \<Rightarrow> ok x)) Q"
    by (rule emits_try_attempt) (auto intro: careful emits_fail emits_ok)
  with Inr careful show ?thesis by (simp add: at_path_def Let_def)
qed

lemma require_writable_governed:
  "located_ok u t l \<Longrightarrow>
     emits P (lift_result (require_writable t l)) (\<lambda>_. governed t True (m_dir (mount_of t l)))"
  by (intro emits_lift_result)
     (auto simp: require_writable_def split: if_splits dest: located_ok_governed_write)

lemmas confined_request =
  request_confined_def path_confined_plain located_ok_governed located_ok_plain

section \<open>Every operation\<close>

datatype vfs_op =
    OpOpenWith virtual_path open_mode
  | OpMetadata virtual_path
  | OpSymlinkMetadata virtual_path
  | OpAccess virtual_path access_modes
  | OpFacts virtual_path bool
  | OpCanonicalize virtual_path
  | OpHostPath virtual_path
  | OpReadLink virtual_path
  | OpReadDirNames virtual_path
  | OpLocateDir virtual_path
  | OpCreateDirAll virtual_path
  | OpRemoveFile virtual_path
  | OpRemoveDir virtual_path
  | OpRemoveDirAll virtual_path
  | OpRename virtual_path virtual_path
  | OpCreateDir virtual_path
  | OpCreateDirWithMode virtual_path u32 bool
  | OpSetTimes virtual_path time time bool
  | OpSetPermissions virtual_path u32
  | OpCopy virtual_path virtual_path
  | OpHardLink virtual_path virtual_path
  | OpSymlink virtual_path string

fun op_paths :: "vfs_op \<Rightarrow> virtual_path list" where
  "op_paths (OpOpenWith p m) = [p]"
| "op_paths (OpMetadata p) = [p]"
| "op_paths (OpSymlinkMetadata p) = [p]"
| "op_paths (OpAccess p m) = [p]"
| "op_paths (OpFacts p f) = [p]"
| "op_paths (OpCanonicalize p) = [p]"
| "op_paths (OpHostPath p) = [p]"
| "op_paths (OpReadLink p) = [p]"
| "op_paths (OpReadDirNames p) = [p]"
| "op_paths (OpLocateDir p) = [p]"
| "op_paths (OpCreateDirAll p) = [p]"
| "op_paths (OpRemoveFile p) = [p]"
| "op_paths (OpRemoveDir p) = [p]"
| "op_paths (OpRemoveDirAll p) = [p]"
| "op_paths (OpRename p q) = [p, q]"
| "op_paths (OpCreateDir p) = [p]"
| "op_paths (OpCreateDirWithMode p m r) = [p]"
| "op_paths (OpSetTimes p a m f) = [p]"
| "op_paths (OpSetPermissions p m) = [p]"
| "op_paths (OpCopy p q) = [p, q]"
| "op_paths (OpHardLink p q) = [p, q]"
| "op_paths (OpSymlink p s) = [p]"

definition discard :: "('w, 'a) io \<Rightarrow> ('w, unit) io" where
  "discard m = try_then m (\<lambda>_. ok ())"

fun vfs_exec :: "'w host \<Rightarrow> unicode \<Rightarrow> mount_table \<Rightarrow> vfs_op \<Rightarrow> ('w, unit) io" where
  "vfs_exec H u t (OpOpenWith p m) = discard (vfs_open_with H u t p m)"
| "vfs_exec H u t (OpMetadata p) = discard (vfs_metadata H u t p)"
| "vfs_exec H u t (OpSymlinkMetadata p) = discard (vfs_symlink_metadata H u t p)"
| "vfs_exec H u t (OpAccess p m) = discard (vfs_access H u t p m)"
| "vfs_exec H u t (OpFacts p f) = discard (vfs_facts H u t p f)"
| "vfs_exec H u t (OpCanonicalize p) = discard (vfs_canonicalize H u t p)"
| "vfs_exec H u t (OpHostPath p) = discard (vfs_host_path H u t p)"
| "vfs_exec H u t (OpReadLink p) = discard (vfs_read_link H u t p)"
| "vfs_exec H u t (OpReadDirNames p) = discard (vfs_read_dir_names H u t p)"
| "vfs_exec H u t (OpLocateDir p) = discard (locate_dir H u t p)"
| "vfs_exec H u t (OpCreateDirAll p) = vfs_create_dir_all H u t p"
| "vfs_exec H u t (OpRemoveFile p) = vfs_remove_file H u t p"
| "vfs_exec H u t (OpRemoveDir p) = vfs_remove_dir H u t p"
| "vfs_exec H u t (OpRemoveDirAll p) = vfs_remove_dir_all H u t p"
| "vfs_exec H u t (OpRename p q) = vfs_rename H u t p q"
| "vfs_exec H u t (OpCreateDir p) = vfs_create_dir H u t p"
| "vfs_exec H u t (OpCreateDirWithMode p m r) = vfs_create_dir_with_mode H u t p m r"
| "vfs_exec H u t (OpSetTimes p a m f) = vfs_set_times H u t p a m f"
| "vfs_exec H u t (OpSetPermissions p m) = vfs_set_permissions H u t p m"
| "vfs_exec H u t (OpCopy p q) = discard (vfs_copy H u t p q)"
| "vfs_exec H u t (OpHardLink p q) = vfs_hard_link H u t p q"
| "vfs_exec H u t (OpSymlink p s) = vfs_symlink H u t p s"

lemma discard_emits: "emits P m Q \<Longrightarrow> emits P (discard m) (\<lambda>_. True)"
  unfolding discard_def by (erule emits_try_then) (simp add: emits_ok)

lemma vfs_facts_confined:
  assumes "nfc_ok u" and "wf_path u path"
  shows "emits (request_confined t) (vfs_facts H u t path follow) (\<lambda>_. True)"
  unfolding vfs_facts_def
  by (rule emits_try_attempt [OF at_path_emits [OF assms, where Q = "\<lambda>_. True"]])
     (auto simp: confined_request Let_def intro!: emits_ok emits_try_call)

lemma mutate_at_confined:
  assumes "nfc_ok u" and "wf_path u path"
    and "\<And>d r. governed t True d \<Longrightarrow> list_all plain_component r \<Longrightarrow> request_confined t (q d r)"
  shows "emits (request_confined t) (mutate_at H u t path follow q) (\<lambda>_. some_writable t)"
  unfolding mutate_at_def
  by (rule at_path_emits [OF assms(1,2)], rule emits_try_then, erule require_writable_governed)
     (rule emits_call_any, rule assms(3), assumption, erule located_ok_plain,
      erule governed_some_writable)

text \<open>A file the namespace opened: beneath a mount, a writable one if it was opened to write.\<close>

definition handle_ok :: "mount_table \<Rightarrow> bool \<Rightarrow> file_handle \<Rightarrow> bool" where
  "handle_ok t w f \<longleftrightarrow>
     (\<exists>d r opts n. f = OpenedFile d r opts n \<and> governed t w d \<and> list_all plain_component r)"

lemma vfs_open_with_confined:
  assumes "nfc_ok u" and "wf_path u path"
  shows "emits (request_confined t) (vfs_open_with H u t path mode)
    (handle_ok t (is_write mode))"
  unfolding vfs_open_with_def
proof (rule emits_try_then [where R = "\<lambda>_. True"])
  show "emits (request_confined t) (if om_nofollow mode then vfs_is_symlink H u t path else ok False)
          (\<lambda>_. True)"
    unfolding vfs_is_symlink_def
    by (intro emits_if emits_try_then [OF vfs_facts_confined [OF assms]]) (simp_all add: emits_ok)
  show "emits (request_confined t) (if link then fail symlink_loop_error
          else at_path H u t path True (\<lambda>l.
            if \<not> is_writable (m_access (mount_of t l)) \<and> is_write mode
            then fail (read_only (l_vpath l))
            else open_file_at H (m_dir (mount_of t l)) (l_relative l) (to_cap_std mode)))
          (handle_ok t (is_write mode))" for link
    by (rule emits_if, rule emits_fail, rule at_path_emits [OF assms], rule emits_if, rule emits_fail,
        rule emits_open_file_at)
       (auto simp: confined_request located_ok_governed_write handle_ok_def
             intro: located_ok_governed_if)
qed

lemma open_here_confined:
  assumes "located_ok u t l"
  shows "emits (request_confined t)
     (if l_relative l = [] then clone_dir H (m_dir (mount_of t l))
      else open_dir_at H (m_dir (mount_of t l)) (l_relative l)) (governed t False)"
  using located_ok_governed [OF assms] located_ok_plain [OF assms]
  by (intro emits_if emits_clone_dir emits_open_dir_at) (simp_all add: confined_request)

lemma entry_names_of_confined:
  "governed t False d \<Longrightarrow> emits (request_confined t) (entry_names_of H d) (\<lambda>_. True)"
  unfolding entry_names_of_def
  by (rule emits_try_call) (simp_all add: confined_request emits_lift_result)

lemma symlink_metadata_at_confined:
  "governed t False d \<Longrightarrow> plain_component c \<Longrightarrow>
     emits (request_confined t) (symlink_metadata_at H d c) (\<lambda>_. True)"
  unfolding symlink_metadata_at_def
  by (intro emits_if emits_fail emits_try_then [OF emits_open_entry [where Q = "\<lambda>_. True"]] emits_call)
     (simp_all add: confined_request)

lemma vfs_metadata_confined:
  assumes "nfc_ok u" and "wf_path u path"
  shows "emits (request_confined t) (vfs_metadata H u t path) (\<lambda>_. True)"
  unfolding vfs_metadata_def Let_def
proof (rule at_path_emits [OF assms], rule emits_try_then [where R = "\<lambda>_. True"])
  fix l assume l: "located_ok u t l"
  note g = located_ok_governed [OF l] and p = located_ok_plain [OF l]
  show "emits (request_confined t)
         (if l_relative l = [] then try_then (clone_dir H (m_dir (mount_of t l))) (\<lambda>c. ok (DirAsFile c))
          else try_then (call (h_meta H) (PathMetadata (m_dir (mount_of t l)) (l_relative l))) (\<lambda>md.
            if md_type md = Directory
            then try_then (open_dir_at H (m_dir (mount_of t l)) (l_relative l)) (\<lambda>c. ok (DirAsFile c))
            else open_file_at H (m_dir (mount_of t l)) (l_relative l)
                   (to_cap_std (with_nonblock mode_read True)))) (\<lambda>_. True)"
    using g p
    by (intro emits_if emits_try_call emits_open_file_at emits_ok
          emits_try_then [OF emits_open_dir_at [where Q = "\<lambda>_. True"]]
          emits_try_then [OF emits_clone_dir [where Q = "\<lambda>_. True"]])
       (simp_all add: confined_request)
  show "emits (request_confined t) (call (h_meta H) (FileMetadata f)) (\<lambda>_. True)" for f
    by (rule emits_call) (simp add: request_confined_def)
qed

lemma vfs_symlink_metadata_confined:
  assumes "nfc_ok u" and "wf_path u path"
  shows "emits (request_confined t) (vfs_symlink_metadata H u t path) (\<lambda>_. True)"
  unfolding vfs_symlink_metadata_def Let_def
proof (rule emits_try_then [OF locate_confined [OF assms]], rule emits_if)
  fix l assume l: "located_ok u t l"
  note g = located_ok_governed [OF l] and p = located_ok_plain [OF l]
  show "emits (request_confined t) (try_then (clone_dir H (m_dir (mount_of t l)))
          (\<lambda>c. call (h_meta H) (FileMetadata (DirAsFile c)))) (\<lambda>_. True)"
    using g by (intro emits_try_then [OF emits_clone_dir [where Q = "\<lambda>_. True"]] emits_call)
               (simp_all add: confined_request)
  assume ne: "l_relative l \<noteq> []"
  from p have parent: "list_all plain_component (rel_parent (l_relative l))"
    by (auto simp: list_all_iff rel_parent_def dest: in_set_butlastD)
  from p ne have name: "plain_component (last (l_relative l))"
    by (simp add: list_all_iff)
  have "emits (request_confined t)
      (if rel_parent (l_relative l) \<noteq> []
       then open_dir_at H (m_dir (mount_of t l)) (rel_parent (l_relative l))
       else clone_dir H (m_dir (mount_of t l))) (governed t False)"
    using g parent by (intro emits_if emits_open_dir_at emits_clone_dir) (simp_all add: confined_request)
  then show "emits (request_confined t) (try_then
      (if rel_parent (l_relative l) \<noteq> []
       then open_dir_at H (m_dir (mount_of t l)) (rel_parent (l_relative l))
       else clone_dir H (m_dir (mount_of t l)))
      (\<lambda>p. symlink_metadata_at H p (last (l_relative l)))) (\<lambda>_. True)"
    by (rule emits_try_then) (rule symlink_metadata_at_confined [OF _ name])
qed

lemma vfs_access_confined:
  assumes "nfc_ok u" and "wf_path u path"
  shows "emits (request_confined t) (vfs_access H u t path modes) (\<lambda>_. True)"
  unfolding vfs_access_def
proof (rule emits_try_attempt [OF at_path_emits [OF assms, where Q = "\<lambda>_. True"]], rule emits_if, rule emits_fail)
  fix l assume l: "located_ok u t l"
    and w: "\<not> (writable modes \<and> \<not> is_writable (m_access (mount_of t l)))"
  have "emits (request_confined t) (clone_dir H (m_dir (mount_of t l))) (governed t (writable modes))"
    using l w by (cases "writable modes"; intro emits_clone_dir)
      (auto simp: confined_request located_ok_governed_write)
  then show "emits (request_confined t) (try_then (clone_dir H (m_dir (mount_of t l)))
      (\<lambda>d. call (h_unit H) (AccessCheck d (l_relative l) modes))) (\<lambda>_. True)"
    by (rule emits_try_then)
       (rule emits_call, use l in \<open>auto simp: confined_request\<close>)
qed (simp_all add: emits_ok)

lemma locate_dir_confined:
  assumes "nfc_ok u" and "wf_path u path"
  shows "emits (request_confined t) (locate_dir H u t path) (\<lambda>(d, w). governed t w d)"
  unfolding locate_dir_def locate_follow_def
proof (rule emits_try_then [OF locate_confined [OF assms]])
  fix l assume l: "located_ok u t l"
  have w: "governed t (is_writable (m_access (mount_of t l))) (m_dir (mount_of t l))"
    using l by (cases "is_writable (m_access (mount_of t l))")
      (simp_all add: located_ok_governed_write located_ok_governed)
  have "emits (request_confined t)
     (if l_relative l = [] then clone_dir H (m_dir (mount_of t l))
      else open_dir_at H (m_dir (mount_of t l)) (l_relative l))
     (governed t (is_writable (m_access (mount_of t l))))"
    using w located_ok_governed [OF l] located_ok_plain [OF l]
    by (intro emits_if emits_clone_dir emits_open_dir_at) (simp_all add: confined_request)
  then show "emits (request_confined t)
     (try_then (if l_relative l = [] then clone_dir H (m_dir (mount_of t l))
                else open_dir_at H (m_dir (mount_of t l)) (l_relative l))
       (\<lambda>d. ok (d, is_writable (m_access (mount_of t l))))) (\<lambda>(d, w). governed t w d)"
    by (rule emits_try_then) (simp add: emits_ok)
qed

text \<open>The guard before a step that writes, in the shape the two-path operations have.\<close>

lemma emits_require_writable:
  "located_ok u t l \<Longrightarrow>
   (located_ok u t l \<Longrightarrow> governed t True (m_dir (mount_of t l)) \<Longrightarrow> emits P m Q) \<Longrightarrow>
     emits P (try_then (lift_result (require_writable t l)) (\<lambda>_. m)) Q"
  by (rule emits_try_then [OF require_writable_governed])

lemma emits_lift_then:
  "(\<And>x. r = Inr x \<Longrightarrow> emits P (f x) Q) \<Longrightarrow> emits P (try_then (lift_result r) f) Q"
  by (rule emits_try_then [OF emits_lift_result [where Q = "\<lambda>x. r = Inr x"]])

lemma rename_link_check_confined:
  "located_ok u t f \<Longrightarrow> emits (request_confined t)
     (if is_link_answer md
      then try_then (read_link_contents H (mount_of t f) (l_relative f)) (\<lambda>stored.
        if \<not> valid_utf8 stored then fail e
        else if \<not> stored_target_stays_in_mount (l_relative g) stored then fail (e' stored)
        else ok ())
      else ok ()) (\<lambda>_. True)"
  by (intro emits_if emits_try_then [OF read_link_contents_confined] emits_fail emits_ok) simp_all

lemma vfs_rename_confined:
  assumes "nfc_ok u" and "wf_path u from" and "wf_path u to"
  shows "emits (request_confined t) (vfs_rename H u t from to) (\<lambda>_. some_writable t)"
  unfolding vfs_rename_def
proof (rule emits_try_then [OF locate_confined [OF assms(1,2)]],
       rule emits_try_then [OF locate_confined [OF assms(1,3)]], rule emits_if, rule emits_fail,
       erule emits_require_writable, erule emits_require_writable,
       rule emits_attempt_call [OF _ emits_try_then [OF rename_link_check_confined]])
  fix f g assume f: "located_ok u t f" and g: "located_ok u t g"
    and same: "\<not> l_mount f \<noteq> l_mount g"
    and w: "governed t True (m_dir (mount_of t f))" "governed t True (m_dir (mount_of t g))"
  show "request_confined t (SymlinkMetadata (m_dir (mount_of t f)) (l_relative f))"
    using f by (simp add: confined_request)
  show "located_ok u t f" by (rule f)
  show "emits (request_confined t) (call (h_unit H) (Rename (m_dir (mount_of t f)) (l_relative f)
          (m_dir (mount_of t g)) (l_relative g))) (\<lambda>_. some_writable t)"
    by (rule emits_call_any)
       (use f g w same in \<open>simp_all add: confined_request mount_of_def governed_some_writable\<close>)
qed

lemma vfs_copy_confined:
  assumes "nfc_ok u" and "wf_path u from" and "wf_path u to"
  shows "emits (request_confined t) (vfs_copy H u t from to) (\<lambda>_. some_writable t)"
  unfolding vfs_copy_def locate_follow_def
  by (rule emits_try_then [OF locate_confined [OF assms(1,2)]],
      rule emits_try_then [OF locate_confined [OF assms(1,3)]], erule emits_require_writable,
      rule emits_call_any) (simp_all add: confined_request governed_some_writable)

lemma vfs_hard_link_confined:
  assumes "nfc_ok u" and "wf_path u from" and "wf_path u to"
  shows "emits (request_confined t) (vfs_hard_link H u t from to) (\<lambda>_. some_writable t)"
  unfolding vfs_hard_link_def
  by (rule emits_try_then [OF locate_confined [OF assms(1,2)]],
      rule emits_try_then [OF locate_confined [OF assms(1,3)]], rule emits_if, rule emits_fail,
      erule emits_require_writable, rule emits_call_any)
     (simp_all add: confined_request mount_of_def governed_some_writable)

lemma vfs_symlink_confined:
  assumes "nfc_ok u" and "wf_path u path"
  shows "emits (request_confined t) (vfs_symlink H u t path target) (\<lambda>_. some_writable t)"
  unfolding vfs_symlink_def Let_def
proof (rule emits_try_then [OF locate_confined [OF assms]], erule emits_require_writable,
       rule emits_lift_then, rule emits_lift_then, rule emits_if, rule emits_fail)
  fix link landing lexical
  assume l: "located_ok u t link" and w: "governed t True (m_dir (mount_of t link))"
    and landing: "map_err invalid_path (resolve u (parent_or_root (l_vpath link)) target) = Inr landing"
  from l have "wf_path u (l_vpath link)" by (simp add: located_ok_def)
  from resolve_wf_path [OF assms(1) wf_parent_or_root [OF this]] landing
  have wf: "wf_path u landing" by simp
  let ?stored = "relative_from (l_relative link) (l_relative lexical)"
  show "emits (request_confined t) (try_then (locate H u t landing True) (\<lambda>followed.
          if l_mount followed \<noteq> l_mount link
          then fail (Custom InvalidInput
            (Text (''symlink target '' @ inner landing @ '' leads out of the mount'')))
          else if \<not> stored_target_stays_in_mount (l_relative link) ?stored
          then fail (Custom InvalidInput
            (Text (''symlink target '' @ inner landing @ '' leaves the mount when followed'')))
          else call (h_unit H) (MakeSymlink (m_dir (mount_of t link)) ?stored (l_relative link))))
        (\<lambda>_. some_writable t)"
    by (rule emits_try_then [OF locate_confined [OF assms(1) wf]])
       (intro emits_if emits_fail emits_call_any;
        use l w in \<open>simp add: confined_request governed_some_writable\<close>)
qed

lemma vfs_canonicalize_confined:
  assumes "nfc_ok u" and "wf_path u path"
  shows "emits (request_confined t) (vfs_canonicalize H u t path) (wf_path u)"
  unfolding vfs_canonicalize_def locate_follow_def
  by (rule emits_try_then [OF locate_confined [OF assms]], rule emits_ok) (simp add: located_ok_def)

lemma vfs_host_path_confined:
  assumes "nfc_ok u" and "wf_path u path"
  shows "emits (request_confined t) (vfs_host_path H u t path)
    (\<lambda>p. \<exists>m \<in> set (mounts t). \<exists>c r. m_canonical m = Some c \<and> p = c @ r \<and> list_all plain_component r)"
  unfolding vfs_host_path_def locate_follow_def
proof (rule emits_try_then [OF locate_confined [OF assms]])
  fix l assume l: "located_ok u t l"
  show "emits (request_confined t)
     (case m_canonical (mount_of t l) of
        None \<Rightarrow> fail (Custom InvalidInput
                  (Text ''this namespace was received as capabilities and has no host paths''))
      | Some r \<Rightarrow> ok (r @ l_relative l))
     (\<lambda>p. \<exists>m \<in> set (mounts t). \<exists>c r. m_canonical m = Some c \<and> p = c @ r \<and> list_all plain_component r)"
    using located_ok_mount [OF l] located_ok_plain [OF l]
    by (cases "m_canonical (mount_of t l)") (auto intro!: emits_fail emits_ok)
qed

lemma vfs_read_link_confined:
  assumes "nfc_ok u" and "wf_path u path"
  shows "emits (request_confined t) (vfs_read_link H u t path) (\<lambda>_. True)"
  unfolding vfs_read_link_def by (rule at_path_emits [OF assms read_link_contents_confined])

lemma vfs_read_dir_names_confined:
  assumes "nfc_ok u" and "wf_path u path"
  shows "emits (request_confined t) (vfs_read_dir_names H u t path) (\<lambda>_. True)"
  unfolding vfs_read_dir_names_def
  by (rule at_path_emits [OF assms], rule emits_try_then, erule open_here_confined)
     (rule entry_names_of_confined)

lemmas vfs_confined =
  vfs_open_with_confined vfs_metadata_confined vfs_symlink_metadata_confined vfs_access_confined
  vfs_facts_confined vfs_canonicalize_confined vfs_host_path_confined vfs_read_link_confined
  vfs_read_dir_names_confined locate_dir_confined

lemmas vfs_mutations =
  vfs_create_dir_all_def vfs_remove_file_def vfs_remove_dir_def vfs_remove_dir_all_def
  vfs_create_dir_def vfs_create_dir_with_mode_def vfs_set_times_def vfs_set_permissions_def

fun op_writes :: "vfs_op \<Rightarrow> bool" where
  "op_writes (OpOpenWith p m) = is_write m"
| "op_writes (OpCreateDirAll p) = True"
| "op_writes (OpRemoveFile p) = True"
| "op_writes (OpRemoveDir p) = True"
| "op_writes (OpRemoveDirAll p) = True"
| "op_writes (OpRename p q) = True"
| "op_writes (OpCreateDir p) = True"
| "op_writes (OpCreateDirWithMode p m r) = True"
| "op_writes (OpSetTimes p a m f) = True"
| "op_writes (OpSetPermissions p m) = True"
| "op_writes (OpCopy p q) = True"
| "op_writes (OpHardLink p q) = True"
| "op_writes (OpSymlink p s) = True"
| "op_writes _ = False"

lemma vfs_open_with_writes:
  assumes "nfc_ok u" and "wf_path u path"
  shows "emits (request_confined t) (vfs_open_with H u t path mode)
    (\<lambda>_. is_write mode \<longrightarrow> some_writable t)"
  by (rule emits_mono [OF vfs_open_with_confined [OF assms]])
     (auto simp: handle_ok_def dest: governed_some_writable)

lemma discard_emits': "emits P m (\<lambda>_. B) \<Longrightarrow> emits P (discard m) (\<lambda>_. B)"
  unfolding discard_def by (erule emits_try_then) (simp add: emits_ok)

lemma vfs_exec_confined:
  assumes "nfc_ok u" and "\<forall>p \<in> set (op_paths c). wf_path u p"
  shows "emits (request_confined t) (vfs_exec H u t c) (\<lambda>_. op_writes c \<longrightarrow> some_writable t)"
proof -
  have mutate: "emits (request_confined t) (mutate_at H u t p follow q) (\<lambda>_. b \<longrightarrow> some_writable t)"
    if "wf_path u p" "\<And>d r. governed t True d \<Longrightarrow> list_all plain_component r \<Longrightarrow>
          request_confined t (q d r)" for p follow q b
    by (rule emits_mono [OF mutate_at_confined [OF assms(1) that]]) simp_all
  have reads: "emits (request_confined t) (discard m) (\<lambda>_. False \<longrightarrow> some_writable t)"
    if "emits (request_confined t) m Q" for m Q
    using discard_emits [OF that] by simp
  have writes: "emits (request_confined t) m (\<lambda>_. True \<longrightarrow> some_writable t)"
    if "emits (request_confined t) m (\<lambda>_. some_writable t)" for m
    using that by simp
  note here = assms(1)
  note queries = reads [OF vfs_metadata_confined [OF here]] reads [OF vfs_symlink_metadata_confined [OF here]]
    reads [OF vfs_access_confined [OF here]] reads [OF vfs_facts_confined [OF here]]
    reads [OF vfs_canonicalize_confined [OF here]] reads [OF vfs_host_path_confined [OF here]]
    reads [OF vfs_read_link_confined [OF here]] reads [OF vfs_read_dir_names_confined [OF here]]
    reads [OF locate_dir_confined [OF here]]
  note pairs = writes [OF vfs_rename_confined [OF here]] writes [OF vfs_hard_link_confined [OF here]]
    writes [OF discard_emits' [OF vfs_copy_confined [OF here]]]
    writes [OF vfs_symlink_confined [OF here]]
    discard_emits' [OF vfs_open_with_writes [OF here]]
  show ?thesis
    by (insert assms(2), cases c; simp only: vfs_exec.simps op_writes.simps vfs_mutations;
        ((rule queries | rule pairs | rule mutate); simp add: request_confined_def))
qed

section \<open>How many links a walk follows\<close>

fun is_read_link :: "request \<Rightarrow> bool" where
  "is_read_link (ReadLinkContents d r) = True"
| "is_read_link _ = False"

definition links_followed :: "request list \<Rightarrow> nat" where
  "links_followed qs = length (filter is_read_link qs)"

definition at_most :: "nat \<Rightarrow> ('w, 'a) io \<Rightarrow> bool" where
  "at_most n m \<longleftrightarrow> (\<forall>w. links_followed (requests (m w)) \<le> n)"

lemma links_followed_simps [simp]:
  "links_followed [] = 0" "links_followed (a @ b) = links_followed a + links_followed b"
  "links_followed (q # qs) = (if is_read_link q then 1 else 0) + links_followed qs"
  by (simp_all add: links_followed_def)

lemma at_most_ok [simp]: "at_most n (ok x)" "at_most n (fail e)" "at_most n (lift_result r)"
  by (simp_all add: at_most_def run_simps)

lemma at_most_call: "(is_read_link q \<Longrightarrow> 1 \<le> n) \<Longrightarrow> at_most n (call f q)"
  by (auto simp: at_most_def call_def split: prod.split)

lemma at_most_query [simp]: "\<not> is_read_link q \<Longrightarrow> at_most n (call f q)"
  by (rule at_most_call) simp

lemma at_most_if:
  "(b \<Longrightarrow> at_most n m) \<Longrightarrow> (\<not> b \<Longrightarrow> at_most n m') \<Longrightarrow> at_most n (if b then m else m')"
  by simp

lemma at_most_attempt [simp]: "at_most n (attempt m) = at_most n m"
proof -
  have "requests (attempt m w) = requests (m w)" for w
    by (simp add: attempt_def requests_def split: prod.split)
  then show ?thesis by (simp add: at_most_def)
qed

lemma at_most_try_then:
  assumes "at_most a m" and "\<And>x. at_most b (f x)" and "a + b \<le> n"
  shows "at_most n (try_then m f)"
  unfolding at_most_def
proof
  fix w
  obtain r qs w' where m: "m w = (r, qs, w')" by (cases "m w") auto
  with assms(1) have qs: "links_followed qs \<le> a" unfolding at_most_def by (metis requests_simp)
  show "links_followed (requests (try_then m f w)) \<le> n"
  proof (cases r)
    case (Inl e)
    with m qs assms(3) show ?thesis by (simp add: try_then_def)
  next
    case (Inr x)
    obtain r' qs' w'' where f: "f x w' = (r', qs', w'')" by (cases "f x w'") auto
    with assms(2) have "links_followed qs' \<le> b" unfolding at_most_def by (metis requests_simp)
    with m f qs Inr assms(3) show ?thesis by (simp add: try_then_def)
  qed
qed

lemma at_most_handles [simp]:
  "at_most n (open_dir_at H d r)" "at_most n (clone_dir H d)"
  unfolding open_dir_at_def clone_dir_def
  by - (rule at_most_try_then [where a = 0 and b = 0]; simp)+

lemma at_most_read_link: "at_most 1 (read_link_contents H m r)"
  unfolding read_link_contents_def
  by (rule at_most_try_then [where a = 0 and b = 1]) (simp_all add: at_most_call)

lemma at_most_mono: "at_most a m \<Longrightarrow> a \<le> n \<Longrightarrow> at_most n m"
  unfolding at_most_def using le_trans by blast

lemma locate_loop_at_most:
  "hops \<le> MAX_SYMLINK_HOPS \<Longrightarrow>
     at_most (MAX_SYMLINK_HOPS - hops) (locate_loop H u t path follow resolved pending hops cursor)"
proof (induction resolved pending hops cursor rule: locate_induct)
  case (finished resolved hops cursor)
  then show ?case by (simp add: locate_loop.simps)
next
  case (step resolved component pending hops cursor)
  note here = step.IH(1) [OF step.prems]
  show ?case
  proof (cases "resolve u resolved component")
    case (Inl e)
    then show ?thesis by (simp add: locate_loop.simps)
  next
    case (Inr candidate)
    show ?thesis
    proof (cases "locate_exact t candidate")
      case (Inl e)
      with Inr show ?thesis by (simp add: locate_loop.simps here)
    next
      case l: (Inr l)
      have follow_link: "at_most (MAX_SYMLINK_HOPS - hops)
          (if Suc hops > MAX_SYMLINK_HOPS then fail e
           else try_then (read_link_contents H (mount_of t l) (l_relative l)) (\<lambda>target.
             if \<not> valid_utf8 target then fail e'
             else locate_loop H u t path follow
                    (if starts_with_char CHR ''/'' target then root else parent_or_root candidate)
                    (filter (\<lambda>c. c \<noteq> []) (split_on CHR ''/'' target) @ pending)
                    (Suc hops) None))" for e e'
      proof (cases "Suc hops > MAX_SYMLINK_HOPS")
        case True
        then show ?thesis by simp
      next
        case False
        have "at_most (MAX_SYMLINK_HOPS - Suc hops)
            (if \<not> valid_utf8 target then fail e'
             else locate_loop H u t path follow resolved' pending' (Suc hops) None)"
          for target resolved' pending'
          using step.IH(2) [of resolved' pending' None] False by simp
        then have "at_most (MAX_SYMLINK_HOPS - hops)
            (try_then (read_link_contents H (mount_of t l) (l_relative l)) (\<lambda>target.
             if \<not> valid_utf8 target then fail e'
             else locate_loop H u t path follow
                    (if starts_with_char CHR ''/'' target then root else parent_or_root candidate)
                    (filter (\<lambda>c. c \<noteq> []) (split_on CHR ''/'' target) @ pending)
                    (Suc hops) None))"
          by (rule at_most_try_then [OF at_most_read_link]) (use False in simp)
        with False show ?thesis by simp
      qed
      have descend: "at_most (MAX_SYMLINK_HOPS - hops)
          (try_then (attempt (case descent cursor (l_mount l) of
                       Some c \<Rightarrow> open_dir_at H c [component]
                     | None \<Rightarrow> open_dir_at H (m_dir (mount_of t l)) (l_relative l)))
            (\<lambda>opened. locate_loop H u t path follow candidate pending hops
               (case opened of Inr h \<Rightarrow> Some (l_mount l, h) | Inl e \<Rightarrow> None)))"
        by (rule at_most_try_then [where a = 0, OF _ here]) (simp_all split: option.split)
      have final: "pending = [] \<Longrightarrow> at_most (MAX_SYMLINK_HOPS - hops)
          (locate_loop H u t path follow candidate [] hops None)"
        using here by simp
      show ?thesis
        unfolding locate_loop.simps(2) Inr sum.case l Let_def
        by (rule at_most_try_then [where a = 0 and b = "MAX_SYMLINK_HOPS - hops"],
            simp split: option.split)
           (rule at_most_if, rule follow_link, rule at_most_if, erule final, rule descend, simp)
    qed
  qed
qed

section \<open>The walk on a host without links\<close>

text \<open>No probe of the host answers with a symbolic link.\<close>

definition link_free :: "'w host \<Rightarrow> bool" where
  "link_free H \<longleftrightarrow>
     (\<forall>w d r. \<not> is_link_answer (fst (h_meta H w (SymlinkMetadata d r))))"

lemma result_attempt:
  "result (try_then (attempt m) f w) = (case m w of (r, qs, w') \<Rightarrow> result (f r w'))"
  by (cases "m w") (auto simp: try_then_def attempt_def split: prod.split)

text \<open>An unmounted proper prefix of a mounted path has a mount below it.\<close>

lemma prefix_mounted_or_above:
  assumes "mt_resolve t p = Some (i, rest)" and "components p = components q @ ext" and "ext \<noteq> []"
    and "mt_resolve t q = None"
  shows "has_mount_below t q"
proof -
  let ?m = "mounts t ! i"
  have m: "?m \<in> set (mounts t)" and c: "components p = components (m_at ?m) @ rest"
    using mt.lookup_point [OF assms(1)] by auto
  from m assms(4) have n: "\<not> starts_with q (m_at ?m)" by (simp add: mt_resolve_None)
  from c assms(2) have "components q @ ext = components (m_at ?m) @ rest" by simp
  then consider us where "components q = components (m_at ?m) @ us"
    | us where "components (m_at ?m) = components q @ us"
    unfolding append_eq_append_conv2 by metis
  then show ?thesis
  proof cases
    case 1
    with n show ?thesis by (simp add: starts_with_components)
  next
    case 2
    with n have "m_at ?m \<noteq> q" by (auto simp: starts_with_components)
    with 2 m show ?thesis
      by (auto simp: has_mount_below_def list_ex_iff starts_with_components)
  qed
qed

lemma locate_loop_link_free:
  assumes H: "link_free H"
  shows "wf_path u resolved \<Longrightarrow> list_all (wf_component u) pending \<Longrightarrow>
    p = VirtualPath (render (components resolved @ pending)) \<Longrightarrow>
    ok_option (result (locate_loop H u t path follow resolved pending hops cursor w)) =
      ok_option (locate_exact t p)"
proof (induction pending arbitrary: resolved cursor w)
  case Nil
  then have "p = resolved" using wf_path_inner [OF Nil(1)] by simp
  then show ?case by (simp add: locate_loop.simps run_simps)
next
  case (Cons component pending)
  let ?cand = "VirtualPath (render (components resolved @ [component]))"
  from Cons.prems have c: "wf_component u component" and rest: "list_all (wf_component u) pending"
    by simp_all
  have all: "list_all (wf_component u) (components resolved @ [component])"
    using c wf_path_list_all [OF Cons.prems(1)] by simp
  then have wf: "wf_path u ?cand" by (rule wf_path_render)
  have comps: "components ?cand = components resolved @ [component]"
    by (rule components_render) (use all in \<open>auto simp: list_all_iff wf_component_def\<close>)
  have res: "resolve u resolved component = Inr ?cand" by (rule resolve_name [OF Cons.prems(1) c])
  have p: "p = VirtualPath (render (components ?cand @ pending))"
    using Cons.prems(3) comps by simp
  have ih: "ok_option (result (locate_loop H u t path follow ?cand pending hops cursor' w')) =
      ok_option (locate_exact t p)" for cursor' w'
    by (rule Cons.IH [OF wf rest p])
  have noroot: "\<not> is_root ?cand" using is_root_iff [OF wf] comps by simp
  show ?case
  proof (cases "locate_exact t ?cand")
    case (Inl e)
    then have none: "mt_resolve t ?cand = None" by (auto simp: locate_exact_def split: option.splits)
    show ?thesis
    proof (cases "pending = []")
      case True
      with p wf_path_inner [OF wf] comps have "p = ?cand" by simp
      with Inl True res show ?thesis by (simp add: locate_loop.simps(2) run_simps)
    next
      case ne: False
      have pc: "components p = components ?cand @ pending"
        unfolding p using rest wf_path_list_all [OF wf]
        by (intro components_render) (auto simp: list_all_iff wf_component_def)
      show ?thesis
      proof (cases "has_mount_below t ?cand")
        case True
        with Inl ne res noroot ih show ?thesis by (simp add: locate_loop.simps(2))
      next
        case False
        have "mt_resolve t p = None"
          using prefix_mounted_or_above [OF _ pc ne none] False by (cases "mt_resolve t p") auto
        with False Inl ne res show ?thesis
          by (simp add: locate_loop.simps(2) run_simps locate_exact_def)
      qed
    qed
  next
    case (Inr l)
    let ?q = "case descent cursor (l_mount l) of Some c \<Rightarrow> SymlinkMetadata c [component]
           | None \<Rightarrow> SymlinkMetadata (m_dir (mount_of t l)) (l_relative l)"
    obtain md w' where md: "h_meta H w ?q = (md, w')" by (cases "h_meta H w ?q")
    have "\<not> is_link_answer (fst (h_meta H w ?q))"
      using H by (auto simp: link_free_def split: option.split)
    then have nolink: "\<not> is_link_answer md" by (simp add: md)
    have run: "call (h_meta H) ?q w = (md, [?q], w')" by (simp add: call_def md)
    show ?thesis
    proof (cases "pending = []")
      case True
      with ih [of None w'] nolink show ?thesis
        unfolding locate_loop.simps(2) res sum.case Inr Let_def result_attempt run prod.case by simp
    next
      case False
      with ih nolink show ?thesis
        unfolding locate_loop.simps(2) res sum.case Inr Let_def result_attempt run prod.case
        by (simp add: result_attempt split: prod.split)
    qed
  qed
qed

section \<open>Where a stored link target leads\<close>

text \<open>
  The host follows a stored target from the directory that holds the link, knowing nothing of
  mounts. The reference reading of a path (\<open>lexical\<close>) says where that is, or that it climbs out.
\<close>

definition host_follows :: "rel_path \<Rightarrow> string \<Rightarrow> rel_path option" where
  "host_follows link stored = lexical (\<lambda>c. c) (rel_parent link) (split_on CHR ''/'' stored)"

lemma depth_walk_lexical: "depth_walk (length base) ps \<longleftrightarrow> lexical (\<lambda>c. c) base ps \<noteq> None"
proof (induction ps arbitrary: base)
  case Nil
  then show ?case by (simp add: lexical_def)
next
  case (Cons c ps)
  consider (noop) "c = [] \<or> c = ''.''" | (up) "c = ''..''" | (name) "c \<noteq> []" "c \<noteq> ''.''" "c \<noteq> ''..''"
    by blast
  then show ?case
  proof cases
    case noop
    with Cons show ?thesis by (auto simp: lexical_def)
  next
    case up
    show ?thesis
    proof (cases base rule: rev_cases)
      case Nil
      with up show ?thesis by (simp add: lexical_def split: prod.split)
    next
      case (snoc b x)
      with up Cons.IH [of b] lexical_up [of base "\<lambda>c. c" ps] show ?thesis by simp
    qed
  next
    case name
    with Cons.IH [of "base @ [c]"] lexical_name [of c "\<lambda>c. c" base ps] show ?thesis by simp
  qed
qed

lemma stored_target_host_follows:
  "stored_target_stays_in_mount link stored \<longleftrightarrow>
     \<not> starts_with_char CHR ''/'' stored \<and> host_follows link stored \<noteq> None"
  by (auto simp: stored_target_stays_in_mount_def host_follows_def depth_walk_lexical)

lemma cancel_names: "list_all plain_component ds \<Longrightarrow> cancel (\<lambda>c. c) ds = (0, ds)"
  by (induction ds) (auto simp: plain_component_def)

lemma cancel_ups:
  "list_all plain_component ds \<Longrightarrow> cancel (\<lambda>c. c) (replicate k ''..'' @ ds) = (k, ds)"
  by (induction k) (auto simp: cancel_names)

lemma shared_prefix_take:
  "shared_prefix a b \<le> length a \<and> shared_prefix a b \<le> length b \<and>
   take (shared_prefix a b) a = take (shared_prefix a b) b"
  by (induction a b rule: shared_prefix.induct) auto

definition relative_parts :: "rel_path \<Rightarrow> rel_path \<Rightarrow> string list" where
  "relative_parts link target =
     replicate (length (rel_parent link) - shared_prefix (rel_parent link) target) ''..'' @
       drop (shared_prefix (rel_parent link) target) target"

lemma relative_from_parts:
  "relative_from link target =
     (if relative_parts link target = [] then ''.'' else join_with ''/'' (relative_parts link target))"
  by (simp only: relative_from_def relative_parts_def Let_def)

lemma relative_parts_names:
  assumes "list_all plain_component target" and "p \<in> set (relative_parts link target)"
  shows "p \<noteq> [] \<and> CHR ''/'' \<notin> set p"
proof -
  from assms(2) consider "p = ''..''" | "p \<in> set target"
    unfolding relative_parts_def set_append Un_iff using in_set_dropD in_set_replicate by metis
  then show ?thesis
    using assms(1) by cases (auto simp: list_all_iff plain_component_def)
qed

lemma relative_parts_lexical:
  assumes "list_all plain_component target"
  shows "lexical (\<lambda>c. c) (rel_parent link) (relative_parts link target) = Some target"
proof -
  let ?dir = "rel_parent link" let ?s = "shared_prefix ?dir target"
  note s = shared_prefix_take [of ?dir target]
  have down: "list_all plain_component (drop ?s target)"
    using assms by (auto simp: list_all_iff dest: in_set_dropD)
  have "lexical (\<lambda>c. c) ?dir (relative_parts link target) = Some (take ?s ?dir @ drop ?s target)"
    using s by (simp add: relative_parts_def lexical_def cancel_ups [OF down])
  also have "take ?s ?dir @ drop ?s target = target" using s by simp
  finally show ?thesis .
qed

lemma relative_from_follows:
  assumes "list_all plain_component target"
  shows "host_follows link (relative_from link target) = Some target"
proof (cases "relative_parts link target = []")
  case True
  with relative_parts_lexical [OF assms, of link]
  have "lexical (\<lambda>c. c) (rel_parent link) [''.''] = Some target" by (simp add: lexical_def)
  with True show ?thesis by (simp add: host_follows_def relative_from_parts)
next
  case False
  then have "split_on CHR ''/'' (join_with ''/'' (relative_parts link target)) =
      relative_parts link target"
    by (rule split_join) (simp add: relative_parts_names [OF assms])
  with False relative_parts_lexical [OF assms, of link] show ?thesis
    by (simp add: host_follows_def relative_from_parts)
qed

lemma join_not_absolute:
  assumes "p \<noteq> []" and "CHR ''/'' \<notin> set p"
  shows "\<not> starts_with_char CHR ''/'' (join_with ''/'' (p # ps))"
proof -
  have "\<exists>s. join_with ''/'' (p # ps) = p @ s" by (cases ps) simp_all
  then obtain s where s: "join_with ''/'' (p # ps) = p @ s" ..
  have "hd p \<noteq> CHR ''/''" using assms hd_in_set [of p] by metis
  with assms(1) show ?thesis unfolding s starts_with_char_def by (simp only: hd_append2 simp_thms)
qed

lemma relative_from_relative:
  assumes "list_all plain_component target"
  shows "\<not> starts_with_char CHR ''/'' (relative_from link target)"
proof (cases "relative_parts link target")
  case Nil
  then show ?thesis by (simp add: relative_from_parts starts_with_char_def)
next
  case (Cons p ps)
  with relative_parts_names [OF assms, of p link] have "p \<noteq> [] \<and> CHR ''/'' \<notin> set p" by simp
  with Cons join_not_absolute [of p ps] show ?thesis by (simp add: relative_from_parts)
qed

section \<open>What \<^verbatim>\<open>symlink\<close> stores\<close>

text \<open>A request to create a link is sound for a requested target when the host, following the
  stored text from the link's directory, reaches the directory entry the virtual target names.\<close>

definition link_faithful :: "unicode \<Rightarrow> mount_table \<Rightarrow> string \<Rightarrow> request \<Rightarrow> bool" where
  "link_faithful u t target q \<longleftrightarrow>
     (\<forall>d stored r. q = MakeSymlink d stored r \<longrightarrow>
        (\<exists>link landing i rest. mt_resolve t link = Some (i, r) \<and> d = m_dir (mounts t ! i) \<and>
           resolve u (parent_or_root link) target = Inr landing \<and>
           mt_resolve t landing = Some (i, rest) \<and>
           \<not> starts_with_char CHR ''/'' stored \<and> host_follows r stored = Some rest))"

lemma query_link_faithful: "query_confined t q \<Longrightarrow> link_faithful u t target q"
  by (cases q) (simp_all add: query_confined_def link_faithful_def)

lemma vfs_symlink_faithful:
  assumes "nfc_ok u" and "wf_path u path"
  shows "emits (link_faithful u t target) (vfs_symlink H u t path target) (\<lambda>_. True)"
proof -
  have loc: "emits (link_faithful u t target) (locate H u t p f) (located_ok u t)" if "wf_path u p" for p f
    by (rule emits_mono [OF locate_query [OF assms(1) that]]) (simp_all add: query_link_faithful)
  show ?thesis
    unfolding vfs_symlink_def Let_def
  proof (rule emits_try_then [OF loc [OF assms(2)]], erule emits_require_writable,
         rule emits_lift_then, rule emits_lift_then, rule emits_if, rule emits_fail)
    fix link landing lexical
    assume l: "located_ok u t link"
      and r: "map_err invalid_path (resolve u (parent_or_root (l_vpath link)) target) = Inr landing"
      and e: "locate_exact t landing = Inr lexical" and same: "\<not> l_mount lexical \<noteq> l_mount link"
    from l have "wf_path u (l_vpath link)" by (simp add: located_ok_def)
    from resolve_wf_path [OF assms(1) wf_parent_or_root [OF this]] r
    have wf: "wf_path u landing" by simp
    from locate_exact_ok [OF wf e] have x: "located_ok u t lexical" "l_vpath lexical = landing" by auto
    let ?stored = "relative_from (l_relative link) (l_relative lexical)"
    have "link_faithful u t target
        (MakeSymlink (m_dir (mount_of t link)) ?stored (l_relative link))"
      using l x same r relative_from_follows [OF located_ok_plain [OF x(1)], of "l_relative link"]
        relative_from_relative [OF located_ok_plain [OF x(1)], of "l_relative link"]
      by (auto simp: link_faithful_def located_ok_def mount_of_def)
    then show "emits (link_faithful u t target) (try_then (locate H u t landing True) (\<lambda>followed.
          if l_mount followed \<noteq> l_mount link
          then fail (Custom InvalidInput
            (Text (''symlink target '' @ inner landing @ '' leads out of the mount'')))
          else if \<not> stored_target_stays_in_mount (l_relative link) ?stored
          then fail (Custom InvalidInput
            (Text (''symlink target '' @ inner landing @ '' leaves the mount when followed'')))
          else call (h_unit H) (MakeSymlink (m_dir (mount_of t link)) ?stored (l_relative link))))
        (\<lambda>_. True)"
      by (intro emits_try_then [OF loc [OF wf]] emits_if emits_fail emits_call)
  qed
qed

section \<open>Properties\<close>

text \<open>C1. Confinement. Whatever the host answers, every request that any operation makes acts on a
  handle derived from a mount of the table, names paths made of plain components beneath it
  (the walk may also probe one raw piece of a link target), writes only where a mount is
  writable, names no host path, relinks only within one directory handle, and creates no link
  whose stored target climbs out of its mount.\<close>

theorem vfs_confinement:
  assumes "nfc_ok u" and "\<forall>p \<in> set (op_paths c). wf_path u p"
    and "q \<in> set (requests (vfs_exec H u t c w))"
  shows "request_confined t q"
  by (rule emits_requests [OF vfs_exec_confined [OF assms(1,2)] assms(3)])

theorem vfs_confinement_witness:
  "request_confined demo_table
     (Rename (MountDir 7) [''a''] (MountDir 7) [''b''])"
proof (rule vfs_confinement [OF nfc_ok_ascii])
  show "\<forall>p \<in> set (op_paths (OpRename (VirtualPath ''/work/a'') (VirtualPath ''/work/b''))).
          wf_path ascii_unicode p" by code_simp
  show "Rename (MountDir 7) [''a''] (MountDir 7) [''b''] \<in> set (requests
          (vfs_exec still_host ascii_unicode demo_table
             (OpRename (VirtualPath ''/work/a'') (VirtualPath ''/work/b'')) ()))" by code_simp
qed

text \<open>C4. A namespace with no writable mount cannot be changed: every operation that writes
  returns an error, and no operation at all makes a request that writes.\<close>

theorem read_only_namespace:
  assumes "nfc_ok u" and "\<forall>p \<in> set (op_paths c). wf_path u p" and "\<not> some_writable t"
  shows "(op_writes c \<longrightarrow> (\<exists>e. result (vfs_exec H u t c w) = Inl e)) \<and>
    (\<forall>q \<in> set (requests (vfs_exec H u t c w)). writes_at q = [])"
proof
  note e = vfs_exec_confined [OF assms(1,2), where t = t and H = H]
  show "op_writes c \<longrightarrow> (\<exists>e. result (vfs_exec H u t c w) = Inl e)"
    using emits_result [OF e, of w] assms(3) by (cases "result (vfs_exec H u t c w)") auto
  show "\<forall>q \<in> set (requests (vfs_exec H u t c w)). writes_at q = []"
  proof
    fix q assume "q \<in> set (requests (vfs_exec H u t c w))"
    then have "request_confined t q" by (rule emits_requests [OF e])
    with assms(3) show "writes_at q = []"
      by (cases "writes_at q") (auto simp: request_confined_def dest: governed_some_writable)
  qed
qed

definition frozen_table :: mount_table where
  "frozen_table = \<lparr> mounts = [demo_mount ''/work'' ''p'' 7 ReadOnly False] \<rparr>"

theorem read_only_namespace_witness:
  "(\<exists>e. result (vfs_exec still_host ascii_unicode frozen_table
             (OpRemoveFile (VirtualPath ''/work/a'')) ()) = Inl e) \<and>
    list_all (\<lambda>q. writes_at q = []) (requests (vfs_exec still_host ascii_unicode frozen_table
             (OpRemoveFile (VirtualPath ''/work/a'')) ()))"
proof -
  have "\<forall>p \<in> set (op_paths (OpRemoveFile (VirtualPath ''/work/a''))). wf_path ascii_unicode p"
    by code_simp
  moreover have "\<not> some_writable frozen_table" by code_simp
  ultimately show ?thesis
    using read_only_namespace [OF nfc_ok_ascii, of "OpRemoveFile (VirtualPath ''/work/a'')"
        frozen_table still_host "()"]
    by (simp add: list_all_iff del: vfs_exec.simps)
qed

text \<open>C33. A walk follows at most forty links, on any host and however the links are arranged:
  cycles end in an error rather than in a loop.\<close>

theorem locate_bounded:
  "links_followed (requests (locate H u t path follow w)) \<le> MAX_SYMLINK_HOPS"
proof -
  have "at_most (MAX_SYMLINK_HOPS - 0) (locate H u t path follow)"
    unfolding locate_def by (rule locate_loop_at_most) simp
  then show ?thesis by (simp add: at_most_def)
qed

text \<open>Where the host has no links the careful walk and the lexical lookup of the fast path
  agree: the same mount, the same relative path, and neither succeeds without the other.\<close>

theorem locate_agrees_with_lookup:
  assumes "link_free H" and "wf_path u path"
  shows "ok_option (result (locate H u t path follow w)) = ok_option (locate_exact t path)"
proof -
  have "path = VirtualPath (render (components root @ components path))"
    using wf_path_inner [OF assms(2)] by (simp add: components_def root_def)
  then show ?thesis
    unfolding locate_def
    by (rule locate_loop_link_free [OF assms(1) wf_root wf_path_list_all [OF assms(2)]])
qed

theorem locate_agrees_with_lookup_witness:
  "ok_option (result (locate still_host ascii_unicode demo_table (VirtualPath ''/work/.git/config'')
      True ())) = ok_option (locate_exact demo_table (VirtualPath ''/work/.git/config''))"
proof (rule locate_agrees_with_lookup)
  show "link_free still_host"
    by (simp add: link_free_def still_host_def is_link_answer_def plain_metadata_def)
  show "wf_path ascii_unicode (VirtualPath ''/work/.git/config'')" by code_simp
qed

text \<open>The check on a stored target is exact: it passes just when the target is relative and
  the host, following it from the directory of the link, never climbs above the mount's root.\<close>

theorem stored_target_check_exact:
  "stored_target_stays_in_mount link stored \<longleftrightarrow>
     \<not> starts_with_char CHR ''/'' stored \<and> host_follows link stored \<noteq> None"
  by (rule stored_target_host_follows)

text \<open>C3. A link created through the namespace means on the host what it meant in the namespace:
  its stored text is relative and leads, from the link's own directory, to exactly the place in
  the same mount that the requested target resolves to.\<close>

theorem symlink_means_the_same:
  assumes "nfc_ok u" and "wf_path u path"
    and "MakeSymlink d stored r \<in> set (requests (vfs_symlink H u t path target w))"
  shows "\<exists>link landing i rest. mt_resolve t link = Some (i, r) \<and> d = m_dir (mounts t ! i) \<and>
     resolve u (parent_or_root link) target = Inr landing \<and>
     mt_resolve t landing = Some (i, rest) \<and>
     \<not> starts_with_char CHR ''/'' stored \<and> host_follows r stored = Some rest"
  using emits_requests [OF vfs_symlink_faithful [OF assms(1,2)] assms(3)]
  by (simp add: link_faithful_def)

theorem symlink_means_the_same_witness:
  "\<exists>link landing i rest. mt_resolve demo_table link = Some (i, [''a'', ''l'']) \<and>
     MountDir 7 = m_dir (mounts demo_table ! i) \<and>
     resolve ascii_unicode (parent_or_root link) ''/work/b/c'' = Inr landing \<and>
     mt_resolve demo_table landing = Some (i, rest) \<and>
     \<not> starts_with_char CHR ''/'' ''../b/c'' \<and> host_follows [''a'', ''l''] ''../b/c'' = Some rest"
proof (rule symlink_means_the_same [OF nfc_ok_ascii])
  show "wf_path ascii_unicode (VirtualPath ''/work/a/l'')" by code_simp
  show "MakeSymlink (MountDir 7) ''../b/c'' [''a'', ''l''] \<in> set (requests
      (vfs_symlink still_host ascii_unicode demo_table (VirtualPath ''/work/a/l'') ''/work/b/c'' ()))"
    by code_simp
qed

section \<open>A final link the writers treat differently\<close>

text \<open>A host where the entry \<^verbatim>\<open>x\<close> of the project is a link to \<^verbatim>\<open>.git/config\<close>, which the
  namespace shadows with a read-only mount.\<close>

definition linked_host :: "unit host" where
  "linked_host = still_host\<lparr>
     h_meta := (\<lambda>w q. (Inr (plain_metadata
       (if q = SymlinkMetadata (MountDir 7) [''x''] \<or>
           q = SymlinkMetadata (OpenedDir (MountDir 7) [] 7) [''x'']
        then SymbolicLink else Directory)), w)),
     h_bytes := (\<lambda>w q. (Inr ''.git/config'', w))\<rparr>"

text \<open>Opening \<^verbatim>\<open>/work/x\<close> for writing is refused, since the walk follows the link into the
  read-only mount; copying to it, and setting times through it, hand the host the link's own name
  in the writable mount, which the host operation then follows on disk.\<close>

theorem final_link_write_divergence:
  "result (vfs_open_with linked_host ascii_unicode demo_table (VirtualPath ''/work/x'') mode_write ()) =
     Inl (read_only (VirtualPath ''/work/.git/config'')) \<and>
   CopyFile (MountDir 7) [''a''] (MountDir 7) [''x''] \<in> set (requests
     (vfs_copy linked_host ascii_unicode demo_table
        (VirtualPath ''/work/a'') (VirtualPath ''/work/x'') ())) \<and>
   SetTimes (MountDir 7) [''x''] 0 0 \<in> set (requests
     (vfs_set_times linked_host ascii_unicode demo_table (VirtualPath ''/work/x'') 0 0 True ()))"
  by code_simp

end
