(* ===== verification/Dir_Cap.thy ===== *)
theory Dir_Cap
  imports Vfs
begin

text \<open>
  A directory capability (\<^verbatim>\<open>brush-vfs/src/dir.rs\<close>): a handle with the write permission of the
  mount it descends from, every operation of which names a single component.

  The message of a rejected name holds the name itself in place of its debug form.
\<close>

section \<open>Data\<close>

record dir_cap =
  dc_inner :: dir_handle
  dc_writable :: bool

record file_identity =
  fi_device :: u64
  fi_file :: u64

definition component :: "string \<Rightarrow> io_error + string" where
  "component name =
     (if name = [] \<or> name = ''.'' \<or> name = ''..'' \<or> CHR ''/'' \<in> set name \<or> CHR 0x5C \<in> set name
      then Inl (Custom InvalidInput (Text (''not a single path component: '' @ name)))
      else Inr name)"

definition dir_read_only :: io_error where
  "dir_read_only = Custom PermissionDenied (Text ''read-only mount'')"

section \<open>Operations\<close>

definition vfs_open_dir ::
  "'w host \<Rightarrow> unicode \<Rightarrow> mount_table \<Rightarrow> virtual_path \<Rightarrow> ('w, dir_cap) io" where
  "vfs_open_dir H u t path =
     try_then (locate_dir H u t path) (\<lambda>(d, w). ok \<lparr> dc_inner = d, dc_writable = w \<rparr>)"

definition dir_try_clone :: "'w host \<Rightarrow> dir_cap \<Rightarrow> ('w, dir_cap) io" where
  "dir_try_clone H c =
     try_then (clone_dir H (dc_inner c)) (\<lambda>d. ok \<lparr> dc_inner = d, dc_writable = dc_writable c \<rparr>)"

definition dir_open_dir :: "'w host \<Rightarrow> dir_cap \<Rightarrow> string \<Rightarrow> ('w, dir_cap) io" where
  "dir_open_dir H c name =
     try_then (lift_result (component name)) (\<lambda>name.
     try_then (open_dir_at H (dc_inner c) [name]) (\<lambda>d.
       ok \<lparr> dc_inner = d, dc_writable = dc_writable c \<rparr>))"

definition dir_open_file :: "'w host \<Rightarrow> dir_cap \<Rightarrow> string \<Rightarrow> open_mode \<Rightarrow> ('w, file_handle) io" where
  "dir_open_file H c name mode =
     try_then (lift_result (component name)) (\<lambda>name.
       if is_write mode \<and> \<not> dc_writable c then fail dir_read_only
       else open_file_at H (dc_inner c) [name] (to_cap_std mode))"

definition dir_metadata :: "'w host \<Rightarrow> dir_cap \<Rightarrow> string \<Rightarrow> ('w, metadata) io" where
  "dir_metadata H c name =
     try_then (lift_result (component name)) (\<lambda>name.
     try_then
       (try_then (call (h_meta H) (PathMetadata (dc_inner c) [name])) (\<lambda>md.
          if md_type md = Directory
          then try_then (open_dir_at H (dc_inner c) [name]) (\<lambda>d. ok (DirAsFile d))
          else open_file_at H (dc_inner c) [name] (to_cap_std (with_nonblock mode_read True))))
       (\<lambda>f. call (h_meta H) (FileMetadata f)))"

definition dir_symlink_metadata :: "'w host \<Rightarrow> dir_cap \<Rightarrow> string \<Rightarrow> ('w, metadata) io" where
  "dir_symlink_metadata H c name =
     try_then (lift_result (component name)) (symlink_metadata_at H (dc_inner c))"

definition dir_self_metadata :: "'w host \<Rightarrow> dir_cap \<Rightarrow> ('w, metadata) io" where
  "dir_self_metadata H c =
     try_then (clone_dir H (dc_inner c)) (\<lambda>d. call (h_meta H) (FileMetadata (DirAsFile d)))"

definition identity_of :: "'w host \<Rightarrow> file_handle \<Rightarrow> ('w, file_identity) io" where
  "identity_of H f =
     try_then (call (h_meta H) (FileMetadata f)) (\<lambda>md.
       ok \<lparr> fi_device = md_dev md, fi_file = md_ino md \<rparr>)"

definition dir_identity :: "'w host \<Rightarrow> dir_cap \<Rightarrow> ('w, file_identity) io" where
  "dir_identity H c =
     try_then (clone_dir H (dc_inner c)) (\<lambda>d. identity_of H (DirAsFile d))"

definition dir_exists :: "'w host \<Rightarrow> dir_cap \<Rightarrow> string \<Rightarrow> ('w, bool) io" where
  "dir_exists H c name =
     (case component name of
        Inl e \<Rightarrow> ok False
      | Inr n \<Rightarrow> try_then (attempt (call (h_bool H) (Exists (dc_inner c) [n]))) (\<lambda>r.
          ok (case r of Inl e \<Rightarrow> False | Inr b \<Rightarrow> b)))"

definition dir_entry_names :: "'w host \<Rightarrow> dir_cap \<Rightarrow> ('w, string list) io" where
  "dir_entry_names H c = entry_names_of H (dc_inner c)"

text \<open>The shape the four changing operations share: the name, then the permission, then the call.\<close>

definition dir_mutate ::
  "'w host \<Rightarrow> dir_cap \<Rightarrow> string \<Rightarrow> (dir_handle \<Rightarrow> rel_path \<Rightarrow> request) \<Rightarrow> ('w, unit) io" where
  "dir_mutate H c name q =
     try_then (lift_result (component name)) (\<lambda>name.
       if \<not> dc_writable c then fail dir_read_only
       else call (h_unit H) (q (dc_inner c) [name]))"

definition dir_create_dir where
  "dir_create_dir H c name = dir_mutate H c name CreateDir"

definition dir_remove_file where
  "dir_remove_file H c name = dir_mutate H c name RemoveFile"

definition dir_remove_dir where
  "dir_remove_dir H c name = dir_mutate H c name RemoveDir"

definition dir_set_permissions where
  "dir_set_permissions H c name mode = dir_mutate H c name (\<lambda>d r. SetPermissions d r mode)"

section \<open>All operations on a capability\<close>

datatype dir_op =
    DirTryClone
  | DirOpenDir string
  | DirOpenFile string open_mode
  | DirMetadataOf string
  | DirSymlinkMetadata string
  | DirIdentity
  | DirSelfMetadata
  | DirExists string
  | DirEntryNames
  | DirCreateDir string
  | DirRemoveFile string
  | DirRemoveDir string
  | DirSetPermissions string u32

fun dir_exec :: "'w host \<Rightarrow> dir_cap \<Rightarrow> dir_op \<Rightarrow> ('w, unit) io" where
  "dir_exec H c DirTryClone = discard (dir_try_clone H c)"
| "dir_exec H c (DirOpenDir n) = discard (dir_open_dir H c n)"
| "dir_exec H c (DirOpenFile n m) = discard (dir_open_file H c n m)"
| "dir_exec H c (DirMetadataOf n) = discard (dir_metadata H c n)"
| "dir_exec H c (DirSymlinkMetadata n) = discard (dir_symlink_metadata H c n)"
| "dir_exec H c DirIdentity = discard (dir_identity H c)"
| "dir_exec H c DirSelfMetadata = discard (dir_self_metadata H c)"
| "dir_exec H c (DirExists n) = discard (dir_exists H c n)"
| "dir_exec H c DirEntryNames = discard (dir_entry_names H c)"
| "dir_exec H c (DirCreateDir n) = dir_create_dir H c n"
| "dir_exec H c (DirRemoveFile n) = dir_remove_file H c n"
| "dir_exec H c (DirRemoveDir n) = dir_remove_dir H c n"
| "dir_exec H c (DirSetPermissions n m) = dir_set_permissions H c n m"

text \<open>The capabilities a holder can come by: opened in a namespace, then cloned and descended.\<close>

inductive cap_reach :: "'w host \<Rightarrow> unicode \<Rightarrow> mount_table \<Rightarrow> dir_cap \<Rightarrow> bool"
  for H :: "'w host" and u :: unicode and t :: mount_table where
  opened: "wf_path u p \<Longrightarrow> result (vfs_open_dir H u t p w) = Inr c \<Longrightarrow> cap_reach H u t c"
| cloned: "cap_reach H u t c \<Longrightarrow> result (dir_try_clone H c w) = Inr d \<Longrightarrow> cap_reach H u t d"
| descended: "cap_reach H u t c \<Longrightarrow> result (dir_open_dir H c n w) = Inr d \<Longrightarrow> cap_reach H u t d"

text \<open>What a capability may ask: single plain names, on handles that started where it did, and no
  change unless it is writable.\<close>

definition cap_request :: "dir_cap \<Rightarrow> request \<Rightarrow> bool" where
  "cap_request c q \<longleftrightarrow>
     \<not> names_host_path q \<and> relinks q = None \<and> makes_link q = None \<and>
     (\<forall>(d, r) \<in> set (reads_at q @ writes_at q).
        dir_origin d = dir_origin (dc_inner c) \<and> length r \<le> 1 \<and> list_all plain_component r) \<and>
     (writes_at q \<noteq> [] \<longrightarrow> dc_writable c)"

definition cap_child :: "dir_cap \<Rightarrow> dir_cap \<Rightarrow> bool" where
  "cap_child c d \<longleftrightarrow> dir_origin (dc_inner d) = dir_origin (dc_inner c) \<and> dc_writable d = dc_writable c"

lemma component_plain: "component name = Inr n \<longleftrightarrow> n = name \<and> plain_component n \<and> CHR 0x5C \<notin> set n"
  by (auto simp: component_def plain_component_def)

lemma dir_try_clone_emits: "emits (cap_request c) (dir_try_clone H c) (cap_child c)"
  unfolding dir_try_clone_def
  by (rule emits_try_then, rule emits_clone_dir [where Q = "\<lambda>d. dir_origin d = dir_origin (dc_inner c)"])
     (simp_all add: cap_request_def cap_child_def emits_ok)

lemma dir_open_dir_emits: "emits (cap_request c) (dir_open_dir H c name) (cap_child c)"
  unfolding dir_open_dir_def
  by (rule emits_lift_then, rule emits_try_then,
      rule emits_open_dir_at [where Q = "\<lambda>d. dir_origin d = dir_origin (dc_inner c)"])
     (simp_all add: cap_request_def cap_child_def emits_ok component_plain)

lemma dir_open_file_emits: "emits (cap_request c) (dir_open_file H c name mode) (\<lambda>_. True)"
  unfolding dir_open_file_def
  by (rule emits_lift_then, rule emits_if, rule emits_fail, rule emits_open_file_at)
     (auto simp: cap_request_def component_plain)

lemma dir_metadata_emits: "emits (cap_request c) (dir_metadata H c name) (\<lambda>_. True)"
  unfolding dir_metadata_def
  by (intro emits_lift_then emits_try_then [where R = "\<lambda>_. True"] emits_call emits_if
        emits_open_dir_at emits_open_file_at emits_ok)
     (simp_all add: cap_request_def component_plain)

lemma symlink_metadata_at_emits:
  "plain_component n \<Longrightarrow> dir_origin d = dir_origin (dc_inner c) \<Longrightarrow>
     emits (cap_request c) (symlink_metadata_at H d n) (\<lambda>_. True)"
  unfolding symlink_metadata_at_def
  by (intro emits_if emits_fail emits_try_then [where R = "\<lambda>_. True"] emits_open_entry emits_call)
     (simp_all add: cap_request_def)

lemma dir_symlink_metadata_emits: "emits (cap_request c) (dir_symlink_metadata H c name) (\<lambda>_. True)"
  unfolding dir_symlink_metadata_def
  by (rule emits_lift_then, rule symlink_metadata_at_emits) (simp_all add: component_plain)

lemma dir_self_metadata_emits: "emits (cap_request c) (dir_self_metadata H c) (\<lambda>_. True)"
  unfolding dir_self_metadata_def
  by (intro emits_try_then [where R = "\<lambda>_. True"] emits_clone_dir emits_call)
     (simp_all add: cap_request_def)

lemma dir_identity_emits: "emits (cap_request c) (dir_identity H c) (\<lambda>_. True)"
  unfolding dir_identity_def identity_of_def
  by (intro emits_try_then [where R = "\<lambda>_. True"] emits_clone_dir emits_call emits_ok)
     (simp_all add: cap_request_def)

lemma dir_exists_emits: "emits (cap_request c) (dir_exists H c name) (\<lambda>_. True)"
proof (cases "component name")
  case (Inl e)
  then show ?thesis by (simp add: dir_exists_def emits_ok)
next
  case (Inr n)
  then have "plain_component n" using component_plain by blast
  then show ?thesis unfolding dir_exists_def Inr sum.case
    by (intro emits_attempt_call emits_ok) (simp_all add: cap_request_def)
qed

lemma dir_entry_names_emits: "emits (cap_request c) (dir_entry_names H c) (\<lambda>_. True)"
  unfolding dir_entry_names_def entry_names_of_def
  by (rule emits_try_call) (simp_all add: cap_request_def emits_lift_result)

lemma dir_mutate_emits:
  assumes "\<And>d n. dir_origin d = dir_origin (dc_inner c) \<Longrightarrow> plain_component n \<Longrightarrow> dc_writable c \<Longrightarrow>
             cap_request c (q d [n])"
  shows "emits (cap_request c) (dir_mutate H c name q) (\<lambda>_. dc_writable c)"
  unfolding dir_mutate_def
  by (rule emits_lift_then, rule emits_if, rule emits_fail, rule emits_call_any)
     (simp_all add: assms component_plain)

lemma dir_exec_emits: "emits (cap_request c) (dir_exec H c p) (\<lambda>_. True)"
proof -
  have mut: "emits (cap_request c) (dir_mutate H c n q) (\<lambda>_. True)"
    if "\<And>d n. dir_origin d = dir_origin (dc_inner c) \<Longrightarrow> plain_component n \<Longrightarrow> dc_writable c \<Longrightarrow>
             cap_request c (q d [n])" for n q
    by (rule emits_weaken, rule dir_mutate_emits, rule that)
  note queries = dir_try_clone_emits dir_open_dir_emits dir_open_file_emits dir_metadata_emits
    dir_symlink_metadata_emits dir_self_metadata_emits dir_identity_emits dir_exists_emits
    dir_entry_names_emits
  show ?thesis
    by (cases p; simp only: dir_exec.simps dir_create_dir_def dir_remove_file_def dir_remove_dir_def
          dir_set_permissions_def;
        (rule queries [THEN discard_emits] | rule mut; simp add: cap_request_def))
qed

lemma cap_reach_governed:
  assumes "cap_reach H u t c" and "nfc_ok u"
  shows "governed t (dc_writable c) (dc_inner c)"
  using assms(1)
proof induction
  case (opened p w c)
  have "emits (request_confined t) (vfs_open_dir H u t p)
          (\<lambda>c. governed t (dc_writable c) (dc_inner c))"
    unfolding vfs_open_dir_def
    by (rule emits_try_then [OF locate_dir_confined [OF assms(2) opened(1)]]) (auto intro: emits_ok)
  from emits_result [OF this opened(2)] show ?case .
next
  case (cloned c w d)
  from emits_result [OF dir_try_clone_emits cloned(2)] cloned.IH
  show ?case by (simp add: cap_child_def governed_def)
next
  case (descended c n w d)
  from emits_result [OF dir_open_dir_emits descended(2)] descended.IH
  show ?case by (simp add: cap_child_def governed_def)
qed

text \<open>What a governed capability asks is confined to the namespace.\<close>

lemma cap_request_confined:
  assumes q: "cap_request c q" and g: "governed t (dc_writable c) (dc_inner c)"
  shows "request_confined t q"
proof -
  have at: "dir_origin d = dir_origin (dc_inner c) \<and> list_all plain_component r"
    if "(d, r) \<in> set (reads_at q) \<union> set (writes_at q)" for d r
    using q that unfolding cap_request_def by fastforce
  have "governed t False d \<and> path_confined q r" if "(d, r) \<in> set (reads_at q)" for d r
    using at [of d r] that g by (auto simp: governed_def path_confined_def)
  moreover have "governed t True d \<and> list_all plain_component r" if "(d, r) \<in> set (writes_at q)" for d r
  proof -
    from that q have "dc_writable c" by (auto simp: cap_request_def)
    with at [of d r] that g show ?thesis by (auto simp: governed_def)
  qed
  ultimately show "request_confined t q"
    using q by (auto simp: request_confined_def cap_request_def)
qed

section \<open>Properties\<close>

text \<open>C34. A directory capability never gains authority. However it was come by, from a namespace
  through any sequence of clones and descents, each of its operations asks only about single
  plain names beneath handles of one mount, and makes a change only if that capability is
  writable and a mount it derives from is.\<close>

theorem capability_never_grows:
  assumes "nfc_ok u" and "cap_reach H u t c" and "q \<in> set (requests (dir_exec H c p w))"
  shows "request_confined t q \<and>
    (\<forall>(d, r) \<in> set (reads_at q @ writes_at q). length r \<le> 1 \<and> list_all plain_component r) \<and>
    (writes_at q \<noteq> [] \<longrightarrow> dc_writable c)"
proof -
  from emits_requests [OF dir_exec_emits assms(3)] have q: "cap_request c q" .
  with cap_request_confined [OF q cap_reach_governed [OF assms(2,1)]] show ?thesis
    by (auto simp: cap_request_def)
qed

theorem capability_never_grows_witness:
  "request_confined demo_table (RemoveFile (OpenedDir (ClonedDir (MountDir 7) 7) [''src''] 7) [''a'']) \<and>
    list_all (\<lambda>(d, r). length r \<le> 1 \<and> list_all plain_component r)
      (writes_at (RemoveFile (OpenedDir (ClonedDir (MountDir 7) 7) [''src''] 7) [''a''])) \<and>
    dc_writable \<lparr> dc_inner = OpenedDir (ClonedDir (MountDir 7) 7) [''src''] 7, dc_writable = True \<rparr>"
proof -
  have "cap_reach still_host ascii_unicode demo_table
      \<lparr> dc_inner = ClonedDir (MountDir 7) 7, dc_writable = True \<rparr>"
    by (rule opened [where p = "VirtualPath ''/work''" and w = "()"]) code_simp+
  then have c: "cap_reach still_host ascii_unicode demo_table
      \<lparr> dc_inner = OpenedDir (ClonedDir (MountDir 7) 7) [''src''] 7, dc_writable = True \<rparr>"
    by (rule descended [where n = "''src''" and w = "()"]) code_simp
  have q: "RemoveFile (OpenedDir (ClonedDir (MountDir 7) 7) [''src''] 7) [''a''] \<in> set (requests
      (dir_exec still_host \<lparr> dc_inner = OpenedDir (ClonedDir (MountDir 7) 7) [''src''] 7,
         dc_writable = True \<rparr> (DirRemoveFile ''a'') ()))"
    by code_simp
  from capability_never_grows [OF nfc_ok_ascii c q] show ?thesis by simp
qed

text \<open>The names a capability accepts are exactly the single components: anything else is
  refused before the host is asked, so a holder has no way to say "upward".\<close>

theorem component_exact:
  "(component name = Inr n \<longleftrightarrow> n = name \<and> plain_component name \<and> CHR 0x5C \<notin> set name) \<and>
   (\<not> is_ok (component name) \<longrightarrow> requests (dir_open_dir H c name w) = [] \<and>
      requests (dir_open_file H c name m w) = [] \<and> requests (dir_remove_file H c name w) = [])"
proof (intro conjI impI)
  show "component name = Inr n \<longleftrightarrow> n = name \<and> plain_component name \<and> CHR 0x5C \<notin> set name"
    by (auto simp: component_plain)
  assume "\<not> is_ok (component name)"
  then obtain e where e: "component name = Inl e" by (cases "component name") auto
  have "lift_result (Inl e) = fail e" by (simp add: lift_result_def fail_def)
  note refused = e this try_then_fail fail_run requests_simp
  show "requests (dir_open_dir H c name w) = []" by (simp only: dir_open_dir_def refused)
  show "requests (dir_open_file H c name m w) = []" by (simp only: dir_open_file_def refused)
  show "requests (dir_remove_file H c name w) = []"
    by (simp only: dir_remove_file_def dir_mutate_def refused)
qed

theorem component_exact_witness:
  "component ''src'' = Inr ''src'' \<and>
   requests (dir_open_dir still_host \<lparr> dc_inner = MountDir 7, dc_writable = True \<rparr> ''..'' ()) = [] \<and>
   requests (dir_open_file still_host \<lparr> dc_inner = MountDir 7, dc_writable = True \<rparr> ''..'' mode_write ()) = [] \<and>
   requests (dir_remove_file still_host \<lparr> dc_inner = MountDir 7, dc_writable = True \<rparr> ''..'' ()) = []"
proof -
  have "plain_component ''src'' \<and> CHR 0x5C \<notin> set ''src''" by code_simp
  then have a: "component ''src'' = Inr ''src''"
    by (simp only: component_exact [THEN conjunct1] simp_thms)
  have "\<not> is_ok (component ''..'')" by code_simp
  note b = component_exact [where name = "''..''", THEN conjunct2, THEN mp, OF this]
  show ?thesis by (simp only: a b simp_thms)
qed

text \<open>Descending by handle does not consult the mount table: from the writable project directory,
  the entry a read-only mount shadows is entered as a writable capability, while the same
  directory opened by its path is the read-only mount.\<close>

theorem descent_ignores_nested_mount:
  "result (vfs_open_dir still_host ascii_unicode demo_table (VirtualPath ''/work/.git'') ()) =
     Inr \<lparr> dc_inner = ClonedDir (MountDir 7) 7, dc_writable = False \<rparr> \<and>
   result (dir_open_dir still_host \<lparr> dc_inner = ClonedDir (MountDir 7) 7, dc_writable = True \<rparr>
       ''.git'' ()) =
     Inr \<lparr> dc_inner = OpenedDir (ClonedDir (MountDir 7) 7) [''.git''] 7, dc_writable = True \<rparr>"
  by code_simp

end
