(* ===== verification/Vfs_Session.thy ===== *)
theory Vfs_Session
  imports Dir_Cap
begin

text \<open>
  A session (\<^verbatim>\<open>brush-vfs/src/session.rs\<close>): one namespace and one working directory. The shared
  \<^verbatim>\<open>Arc<Vfs>\<close> is the mount table itself, since nothing changes a table once it is built; a method
  on \<^verbatim>\<open>&mut self\<close> returns the session after it, and on an error the caller keeps the one it had.
\<close>

record session =
  s_vfs :: mount_table
  s_cwd :: virtual_path

definition session_new :: "mount_table \<Rightarrow> session" where
  "session_new t = \<lparr> s_vfs = t, s_cwd = root \<rparr>"

definition session_default :: session where
  "session_default = session_new empty_table"

definition session_resolve :: "unicode \<Rightarrow> session \<Rightarrow> string \<Rightarrow> path_error + virtual_path" where
  "session_resolve u s path = resolve u (s_cwd s) path"

definition set_cwd :: "'w host \<Rightarrow> unicode \<Rightarrow> session \<Rightarrow> string \<Rightarrow> ('w, session) io" where
  "set_cwd H u s path =
     try_then (lift_result (map_err invalid_path (session_resolve u s path))) (\<lambda>target.
     try_then (vfs_facts H u (s_vfs s) target True) (\<lambda>f.
       case f of
         Some facts \<Rightarrow>
           (if ff_is_dir facts then ok (s\<lparr>s_cwd := target\<rparr>)
            else fail (Custom NotADirectory (TextPath ''not a directory: '' target)))
       | None \<Rightarrow> fail (Custom NotFound (TextPath ''no such file or directory: '' target))))"

section \<open>Policies\<close>

definition host_root :: host_path where
  "host_root = []"

definition policy_identity :: "'w host \<Rightarrow> unicode \<Rightarrow> ('w, mount_error + mount_table) io" where
  "policy_identity H u =
     (case builder_mount u [] ''/'' host_root ReadWrite of
        Inl e \<Rightarrow> ok (Inl e)
      | Inr b \<Rightarrow> build H u b)"

definition policy_single_tree ::
  "'w host \<Rightarrow> unicode \<Rightarrow> host_path \<Rightarrow> string \<Rightarrow> ('w, mount_error + mount_table) io" where
  "policy_single_tree H u host_dir at =
     (case builder_mount u [] at host_dir ReadWrite of
        Inl e \<Rightarrow> ok (Inl e)
      | Inr b \<Rightarrow> build H u b)"

section \<open>Lemmas\<close>

definition session_ok :: "unicode \<Rightarrow> session \<Rightarrow> bool" where
  "session_ok u s \<longleftrightarrow> wf_path u (s_cwd s)"

lemma session_ok_new [simp]: "session_ok u (session_new t)"
  by (simp add: session_ok_def session_new_def)

lemma vfs_exists_confined:
  assumes "nfc_ok u" and "wf_path u p"
  shows "emits (request_confined t) (vfs_exists H u t p) (\<lambda>_. True)"
  unfolding vfs_exists_def
  by (rule emits_try_then [OF vfs_facts_confined [OF assms]]) (simp add: emits_ok)

lemma session_resolve_wf:
  "nfc_ok u \<Longrightarrow> session_ok u s \<Longrightarrow> session_resolve u s path = Inr p \<Longrightarrow> wf_path u p"
  by (simp add: session_ok_def session_resolve_def resolve_wf_path)

lemma set_cwd_emits:
  assumes "nfc_ok u" and "session_ok u s"
  shows "emits (request_confined (s_vfs s)) (set_cwd H u s path)
    (\<lambda>s'. session_ok u s' \<and> (\<exists>p. session_resolve u s path = Inr p \<and> s' = s\<lparr>s_cwd := p\<rparr>))"
  unfolding set_cwd_def
proof (rule emits_lift_then)
  fix p assume "map_err invalid_path (session_resolve u s path) = Inr p"
  then have r: "session_resolve u s path = Inr p" by simp
  have wf: "wf_path u p" by (rule session_resolve_wf [OF assms r])
  show "emits (request_confined (s_vfs s)) (try_then (vfs_facts H u (s_vfs s) p True) (\<lambda>f.
          case f of
            Some facts \<Rightarrow>
              (if ff_is_dir facts then ok (s\<lparr>s_cwd := p\<rparr>)
               else fail (Custom NotADirectory (TextPath ''not a directory: '' p)))
          | None \<Rightarrow> fail (Custom NotFound (TextPath ''no such file or directory: '' p))))
        (\<lambda>s'. session_ok u s' \<and> (\<exists>p. session_resolve u s path = Inr p \<and> s' = s\<lparr>s_cwd := p\<rparr>))"
    by (rule emits_try_then [OF vfs_facts_confined [OF assms(1) wf]])
       (auto intro!: emits_ok emits_fail simp: session_ok_def wf r split: option.split)
qed

section \<open>Properties\<close>

text \<open>Changing directory keeps the session well formed: on success the namespace is unchanged
  and the working directory is the well-formed path the string resolves to; whatever happens,
  every request is confined to the namespace.\<close>

theorem set_cwd_preserves:
  assumes "nfc_ok u" and "session_ok u s"
  shows "(\<forall>s'. result (set_cwd H u s path w) = Inr s' \<longrightarrow>
            session_ok u s' \<and> s_vfs s' = s_vfs s \<and> session_resolve u s path = Inr (s_cwd s')) \<and>
    (\<forall>q \<in> set (requests (set_cwd H u s path w)). request_confined (s_vfs s) q)"
proof (intro conjI allI impI ballI)
  note e = set_cwd_emits [OF assms, of H path]
  show "request_confined (s_vfs s) q" if "q \<in> set (requests (set_cwd H u s path w))" for q
    by (rule emits_requests [OF e that])
  fix s' assume "result (set_cwd H u s path w) = Inr s'"
  from emits_result [OF e this]
  show "session_ok u s'" "s_vfs s' = s_vfs s" "session_resolve u s path = Inr (s_cwd s')" by auto
qed

theorem set_cwd_preserves_witness:
  "session_ok ascii_unicode \<lparr> s_vfs = demo_table, s_cwd = VirtualPath ''/work/src'' \<rparr> \<and>
    session_resolve ascii_unicode (session_new demo_table) ''work/src'' = Inr (VirtualPath ''/work/src'') \<and>
    list_all (request_confined demo_table)
      (requests (set_cwd still_host ascii_unicode (session_new demo_table) ''work/src'' ()))"
proof -
  have r: "result (set_cwd still_host ascii_unicode (session_new demo_table) ''work/src'' ()) =
      Inr \<lparr> s_vfs = demo_table, s_cwd = VirtualPath ''/work/src'' \<rparr>" by code_simp
  have t: "s_vfs (session_new demo_table) = demo_table" by (simp add: session_new_def)
  from set_cwd_preserves [OF nfc_ok_ascii session_ok_new [of ascii_unicode demo_table],
      of still_host "''work/src''" "()"] r t
  show ?thesis by (simp add: list_all_iff)
qed

lemma build_one:
  assumes "result (build H u [(at, host, ReadWrite)] w) = Inr (Inr t)"
  shows "\<exists>m. mounts t = [m] \<and> m_at m = at \<and> m_access m = ReadWrite \<and> \<not> m_shadows_nested m"
proof -
  from build_from_result [OF assms] obtain cs ms where
    len: "length cs = 1" and op: "opened_as (zip [(at, host, ReadWrite)] cs) ms"
    and t: "t = from_mounts ms"
    by (auto simp: built_from_def)
  from len obtain c where cs: "cs = [c]" by (auto simp: length_Suc_conv)
  from op cs obtain m where "ms = [m]" "m_at m = at" "m_access m = ReadWrite"
    by (auto simp: opened_as_def list_all2_Cons1 opened_entry_def)
  with t show ?thesis by (simp add: from_mounts_def)
qed

lemma new_root: "new u ''/'' = Inr root"
  by (simp add: new_def resolve_def starts_with_char_def root_def render_def)

lemma policy_identity_mounts:
  assumes "result (policy_identity H u w) = Inr (Inr t)"
  shows "\<exists>m. mounts t = [m] \<and> m_at m = root \<and> m_access m = ReadWrite \<and> \<not> m_shadows_nested m"
proof -
  from assms have "result (build H u [(root, host_root, ReadWrite)] w) = Inr (Inr t)"
    by (simp add: policy_identity_def builder_mount_def new_root)
  then show ?thesis by (rule build_one)
qed

text \<open>Under the identity policy nothing is unmounted and nothing is read-only: every path is
  located in the one mount, with all its components, and the mount is writable and shadows nothing.\<close>

theorem identity_reaches_everything:
  assumes "result (policy_identity H u w) = Inr (Inr t)"
  shows "locate_exact t p = Inr \<lparr> l_mount = 0, l_relative = components p, l_vpath = p \<rparr> \<and>
    is_writable (m_access (mounts t ! 0)) \<and> \<not> m_shadows_nested (mounts t ! 0)"
proof -
  obtain m where m: "mounts t = [m]" "m_at m = root" "m_access m = ReadWrite" "\<not> m_shadows_nested m"
    using policy_identity_mounts [OF assms] by blast
  have "strip_prefix p root = Some (components p)"
    by (simp add: strip_prefix_Some components_def root_def)
  with m have "locate_exact t p = Inr \<lparr> l_mount = 0, l_relative = components p, l_vpath = p \<rparr>"
    by (simp add: locate_exact_def mt_resolve_def)
  with m show ?thesis by (simp add: is_writable_def)
qed

definition host_table :: mount_table where
  "host_table =
     \<lparr> mounts = [\<lparr> m_at = root, m_dir = MountDir 7, m_host_path = Some [], m_canonical = Some [],
                  m_access = ReadWrite, m_shadows_nested = False \<rparr>] \<rparr>"

theorem identity_reaches_everything_witness:
  "locate_exact host_table (VirtualPath ''/etc/passwd'') =
      Inr \<lparr> l_mount = 0, l_relative = components (VirtualPath ''/etc/passwd''),
            l_vpath = VirtualPath ''/etc/passwd'' \<rparr> \<and>
    is_writable (m_access (mounts host_table ! 0)) \<and> \<not> m_shadows_nested (mounts host_table ! 0)"
proof (rule identity_reaches_everything)
  show "result (policy_identity still_host ascii_unicode ()) = Inr (Inr host_table)" by code_simp
qed

end
