(* ===== verification/Ambient.thy ===== *)
theory Ambient
  imports Vfs_Session
begin

text \<open>
  The process-wide facade (\<^verbatim>\<open>brush-vfs/src/ambient.rs\<close>) the bundled utilities are rewritten to.
  The \<^verbatim>\<open>static SESSION\<close> is an explicit \<^typ>\<open>session option\<close>: \<open>install\<close> and \<open>uninstall\<close> return the new
  value, every other function reads it. Paths are strings of bytes, so the UTF-8 check of
  \<^verbatim>\<open>Path::to_str\<close> is made here. The walk is not modelled.
\<close>

section \<open>The installed session\<close>

definition install :: "session \<Rightarrow> session option \<Rightarrow> session option" where
  "install s st = Some s"

definition uninstall :: "session option \<Rightarrow> session option" where
  "uninstall st = None"

definition snapshot :: "session option \<Rightarrow> session option" where
  "snapshot st = st"

definition no_session :: io_error where
  "no_session = Custom PermissionDenied
     (Text ''no vfs session is installed; filesystem access is not permitted'')"

definition current :: "session option \<Rightarrow> io_error + session" where
  "current st = (case st of None \<Rightarrow> Inl no_session | Some s \<Rightarrow> Inr s)"

definition ambient_resolve :: "unicode \<Rightarrow> session \<Rightarrow> string \<Rightarrow> io_error + virtual_path" where
  "ambient_resolve u s path =
     (if \<not> valid_utf8 path then Inl (Custom InvalidInput (Text (''path is not valid UTF-8: '' @ path)))
      else map_err invalid_path (session_resolve u s path))"

definition with_path ::
  "unicode \<Rightarrow> session option \<Rightarrow> string \<Rightarrow> (mount_table \<Rightarrow> virtual_path \<Rightarrow> ('w, 'a) io) \<Rightarrow> ('w, 'a) io" where
  "with_path u st path op =
     try_then (lift_result (current st)) (\<lambda>s.
     try_then (lift_result (ambient_resolve u s path)) (\<lambda>p. op (s_vfs s) p))"

text \<open>The two-path functions resolve both before acting.\<close>

definition with_two ::
  "unicode \<Rightarrow> session option \<Rightarrow> string \<Rightarrow> string \<Rightarrow>
   (mount_table \<Rightarrow> virtual_path \<Rightarrow> virtual_path \<Rightarrow> ('w, 'a) io) \<Rightarrow> ('w, 'a) io" where
  "with_two u st a b op =
     try_then (lift_result (current st)) (\<lambda>s.
     try_then (lift_result (ambient_resolve u s a)) (\<lambda>p.
     try_then (lift_result (ambient_resolve u s b)) (\<lambda>q. op (s_vfs s) p q)))"

text \<open>A predicate answers false where the query fails.\<close>

definition or_false :: "('w, bool) io \<Rightarrow> ('w, bool) io" where
  "or_false m = try_then (attempt m) (\<lambda>r. ok (case r of Inl e \<Rightarrow> False | Inr b \<Rightarrow> b))"

section \<open>Where we are\<close>

definition ambient_current_dir :: "session option \<Rightarrow> ('w, string) io" where
  "ambient_current_dir st =
     try_then (lift_result (current st)) (\<lambda>s. ok (inner (s_cwd s)))"

definition ambient_absolute :: "unicode \<Rightarrow> session option \<Rightarrow> string \<Rightarrow> ('w, string) io" where
  "ambient_absolute u st path = with_path u st path (\<lambda>t p. ok (inner p))"

definition ambient_open_dir ::
  "'w host \<Rightarrow> unicode \<Rightarrow> session option \<Rightarrow> string \<Rightarrow> ('w, dir_cap) io" where
  "ambient_open_dir H u st path = with_path u st path (vfs_open_dir H u)"

definition ambient_open_dir_fd ::
  "'w host \<Rightarrow> unicode \<Rightarrow> session option \<Rightarrow> string \<Rightarrow> bool \<Rightarrow> ('w, dir_handle) io" where
  "ambient_open_dir_fd H u st path follow =
     try_then
       (with_path u st path (\<lambda>t p.
          try_then (if follow then ok False else vfs_is_symlink H u t p) (\<lambda>link.
            if link then fail (OsError ELOOP Uncategorized) else vfs_open_dir H u t p)))
       (\<lambda>d. ok (dc_inner d))"

section \<open>Files\<close>

definition ambient_open where
  "ambient_open H u st path = with_path u st path (vfs_open H u)"

definition ambient_create where
  "ambient_create H u st path = with_path u st path (vfs_create H u)"

definition ambient_open_with where
  "ambient_open_with H u st path mode = with_path u st path (\<lambda>t p. vfs_open_with H u t p mode)"

definition ambient_read :: "'w host \<Rightarrow> unicode \<Rightarrow> session option \<Rightarrow> string \<Rightarrow> ('w, string) io" where
  "ambient_read H u st path =
     try_then (ambient_open H u st path) (\<lambda>f. call (h_bytes H) (ReadToEnd f))"

definition ambient_read_to_string ::
  "'w host \<Rightarrow> unicode \<Rightarrow> session option \<Rightarrow> string \<Rightarrow> ('w, string) io" where
  "ambient_read_to_string H u st path =
     try_then (ambient_open H u st path) (\<lambda>f.
     try_then (call (h_bytes H) (ReadToEnd f)) (\<lambda>s.
       if valid_utf8 s then ok s
       else fail (Custom InvalidData (Text ''stream did not contain valid UTF-8''))))"

definition ambient_write ::
  "'w host \<Rightarrow> unicode \<Rightarrow> session option \<Rightarrow> string \<Rightarrow> string \<Rightarrow> ('w, unit) io" where
  "ambient_write H u st path contents =
     try_then (ambient_create H u st path) (\<lambda>f. call (h_unit H) (WriteAll f contents))"

section \<open>Metadata and predicates\<close>

definition ambient_metadata where
  "ambient_metadata H u st path = with_path u st path (vfs_metadata H u)"

definition ambient_symlink_metadata where
  "ambient_symlink_metadata H u st path = with_path u st path (vfs_symlink_metadata H u)"

definition ambient_exists where
  "ambient_exists H u st path = or_false (with_path u st path (vfs_exists H u))"

definition fact_holds ::
  "'w host \<Rightarrow> unicode \<Rightarrow> (file_facts \<Rightarrow> bool) \<Rightarrow> mount_table \<Rightarrow> virtual_path \<Rightarrow> ('w, bool) io" where
  "fact_holds H u sel t p =
     try_then (vfs_facts H u t p True) (\<lambda>f. ok (case f of None \<Rightarrow> False | Some f \<Rightarrow> sel f))"

definition ambient_is_dir where
  "ambient_is_dir H u st path = or_false (with_path u st path (fact_holds H u ff_is_dir))"

definition ambient_is_file where
  "ambient_is_file H u st path = or_false (with_path u st path (fact_holds H u ff_is_file))"

definition ambient_is_symlink where
  "ambient_is_symlink H u st path = or_false (with_path u st path (vfs_is_symlink H u))"

definition ambient_try_exists where
  "ambient_try_exists H u st path = with_path u st path (vfs_exists H u)"

section \<open>Links and directories\<close>

definition ambient_read_link where
  "ambient_read_link H u st path = with_path u st path (vfs_read_link H u)"

definition ambient_canonicalize where
  "ambient_canonicalize H u st path =
     with_path u st path (\<lambda>t p. try_then (vfs_canonicalize H u t p) (\<lambda>q. ok (inner q)))"

definition ambient_symlink ::
  "'w host \<Rightarrow> unicode \<Rightarrow> session option \<Rightarrow> string \<Rightarrow> string \<Rightarrow> ('w, unit) io" where
  "ambient_symlink H u st target link =
     (if \<not> valid_utf8 target
      then fail (Custom InvalidInput (Text ''symlink target is not UTF-8''))
      else with_path u st link (\<lambda>t p. vfs_symlink H u t p target))"

definition ambient_create_dir_all where
  "ambient_create_dir_all H u st path = with_path u st path (vfs_create_dir_all H u)"

definition ambient_create_dir_with_mode where
  "ambient_create_dir_with_mode H u st path mode recursive =
     with_path u st path (\<lambda>t p. vfs_create_dir_with_mode H u t p mode recursive)"

definition ambient_set_times where
  "ambient_set_times H u st path atime mtime follow =
     with_path u st path (\<lambda>t p. vfs_set_times H u t p atime mtime follow)"

definition ambient_remove_file where
  "ambient_remove_file H u st path = with_path u st path (vfs_remove_file H u)"

definition ambient_remove_dir where
  "ambient_remove_dir H u st path = with_path u st path (vfs_remove_dir H u)"

definition ambient_remove_dir_all where
  "ambient_remove_dir_all H u st path = with_path u st path (vfs_remove_dir_all H u)"

definition ambient_rename where
  "ambient_rename H u st a b = with_two u st a b (vfs_rename H u)"

definition ambient_create_dir where
  "ambient_create_dir H u st path = with_path u st path (vfs_create_dir H u)"

definition ambient_set_permissions where
  "ambient_set_permissions H u st path perm =
     with_path u st path (\<lambda>t p. vfs_set_permissions H u t p perm)"

definition ambient_copy where
  "ambient_copy H u st a b = with_two u st a b (vfs_copy H u)"

definition ambient_hard_link where
  "ambient_hard_link H u st a b = with_two u st a b (vfs_hard_link H u)"

section \<open>Directory listings\<close>

record dir_listing =
  rd_dir :: virtual_path
  rd_names :: "string list"

record dir_entry =
  de_path :: virtual_path
  de_name :: string

definition ambient_read_dir ::
  "'w host \<Rightarrow> unicode \<Rightarrow> session option \<Rightarrow> string \<Rightarrow> ('w, dir_listing) io" where
  "ambient_read_dir H u st path =
     with_path u st path (\<lambda>t p. try_then (vfs_read_dir_names H u t p) (\<lambda>names.
       ok \<lparr> rd_dir = p, rd_names = names \<rparr>))"

definition read_dir_next ::
  "unicode \<Rightarrow> dir_listing \<Rightarrow> (io_error + dir_entry) option \<times> dir_listing" where
  "read_dir_next u r =
     (case rd_names r of
        [] \<Rightarrow> (None, r)
      | name # rest \<Rightarrow>
          (Some (case resolve u (rd_dir r) name of
             Inr path \<Rightarrow> Inr \<lparr> de_path = path, de_name = name \<rparr>
           | Inl e \<Rightarrow> Inl (invalid_path e)),
           r\<lparr>rd_names := rest\<rparr>))"

definition entry_file_name :: "dir_entry \<Rightarrow> string" where
  "entry_file_name e = de_name e"

definition entry_path :: "dir_entry \<Rightarrow> string" where
  "entry_path e = inner (de_path e)"

definition entry_metadata ::
  "'w host \<Rightarrow> unicode \<Rightarrow> session option \<Rightarrow> dir_entry \<Rightarrow> ('w, metadata) io" where
  "entry_metadata H u st e =
     try_then (lift_result (current st)) (\<lambda>s. vfs_metadata H u (s_vfs s) (de_path e))"

definition entry_file_type ::
  "'w host \<Rightarrow> unicode \<Rightarrow> session option \<Rightarrow> dir_entry \<Rightarrow> ('w, file_type) io" where
  "entry_file_type H u st e =
     try_then (lift_result (current st)) (\<lambda>s.
     try_then (vfs_symlink_metadata H u (s_vfs s) (de_path e)) (\<lambda>md. ok (md_type md)))"

section \<open>Every entry point\<close>

datatype ambient_op =
    ACurrentDir | AAbsolute string | AOpenDir string | AOpenDirFd string bool
  | AOpen string | ACreate string | AOpenWith string open_mode
  | ARead string | AReadToString string | AWrite string string
  | AMetadata string | ASymlinkMetadata string | ATryExists string
  | AReadLink string | ACanonicalize string | ASymlink string string
  | ACreateDirAll string | ACreateDirWithMode string u32 bool | ASetTimes string time time bool
  | ARemoveFile string | ARemoveDir string | ARemoveDirAll string | ARename string string
  | ACreateDir string | ASetPermissions string u32 | ACopy string string | AHardLink string string
  | AReadDir string

fun ambient_exec :: "'w host \<Rightarrow> unicode \<Rightarrow> session option \<Rightarrow> ambient_op \<Rightarrow> ('w, unit) io" where
  "ambient_exec H u st ACurrentDir = discard (ambient_current_dir st)"
| "ambient_exec H u st (AAbsolute p) = discard (ambient_absolute u st p)"
| "ambient_exec H u st (AOpenDir p) = discard (ambient_open_dir H u st p)"
| "ambient_exec H u st (AOpenDirFd p f) = discard (ambient_open_dir_fd H u st p f)"
| "ambient_exec H u st (AOpen p) = discard (ambient_open H u st p)"
| "ambient_exec H u st (ACreate p) = discard (ambient_create H u st p)"
| "ambient_exec H u st (AOpenWith p m) = discard (ambient_open_with H u st p m)"
| "ambient_exec H u st (ARead p) = discard (ambient_read H u st p)"
| "ambient_exec H u st (AReadToString p) = discard (ambient_read_to_string H u st p)"
| "ambient_exec H u st (AWrite p c) = ambient_write H u st p c"
| "ambient_exec H u st (AMetadata p) = discard (ambient_metadata H u st p)"
| "ambient_exec H u st (ASymlinkMetadata p) = discard (ambient_symlink_metadata H u st p)"
| "ambient_exec H u st (ATryExists p) = discard (ambient_try_exists H u st p)"
| "ambient_exec H u st (AReadLink p) = discard (ambient_read_link H u st p)"
| "ambient_exec H u st (ACanonicalize p) = discard (ambient_canonicalize H u st p)"
| "ambient_exec H u st (ASymlink a b) = ambient_symlink H u st a b"
| "ambient_exec H u st (ACreateDirAll p) = ambient_create_dir_all H u st p"
| "ambient_exec H u st (ACreateDirWithMode p m r) = ambient_create_dir_with_mode H u st p m r"
| "ambient_exec H u st (ASetTimes p a m f) = ambient_set_times H u st p a m f"
| "ambient_exec H u st (ARemoveFile p) = ambient_remove_file H u st p"
| "ambient_exec H u st (ARemoveDir p) = ambient_remove_dir H u st p"
| "ambient_exec H u st (ARemoveDirAll p) = ambient_remove_dir_all H u st p"
| "ambient_exec H u st (ARename a b) = ambient_rename H u st a b"
| "ambient_exec H u st (ACreateDir p) = ambient_create_dir H u st p"
| "ambient_exec H u st (ASetPermissions p m) = ambient_set_permissions H u st p m"
| "ambient_exec H u st (ACopy a b) = discard (ambient_copy H u st a b)"
| "ambient_exec H u st (AHardLink a b) = ambient_hard_link H u st a b"
| "ambient_exec H u st (AReadDir p) = discard (ambient_read_dir H u st p)"

section \<open>Lemmas\<close>

lemma with_path_emits:
  assumes "nfc_ok u" and "session_ok u s"
    and "\<And>p. wf_path u p \<Longrightarrow> emits (request_confined (s_vfs s)) (op (s_vfs s) p) Q"
  shows "emits (request_confined (s_vfs s)) (with_path u (Some s) path op) Q"
  unfolding with_path_def current_def option.case
proof (rule emits_lift_then, rule emits_lift_then)
  fix s' p assume "Inr s = (Inr s' :: io_error + session)" and r: "ambient_resolve u s' path = Inr p"
  then have [simp]: "s' = s" by simp
  from r have "session_resolve u s path = Inr p" by (simp add: ambient_resolve_def split: if_splits)
  then have "wf_path u p" by (rule session_resolve_wf [OF assms(1,2)])
  then show "emits (request_confined (s_vfs s)) (op (s_vfs s') p) Q" by (simp add: assms(3))
qed

lemma with_two_emits:
  assumes "nfc_ok u" and "session_ok u s"
    and "\<And>p q. wf_path u p \<Longrightarrow> wf_path u q \<Longrightarrow> emits (request_confined (s_vfs s)) (op (s_vfs s) p q) Q"
  shows "emits (request_confined (s_vfs s)) (with_two u (Some s) a b op) Q"
  unfolding with_two_def current_def option.case
proof (rule emits_lift_then, rule emits_lift_then, rule emits_lift_then)
  fix s' p q assume "Inr s = (Inr s' :: io_error + session)"
    and r: "ambient_resolve u s' a = Inr p" "ambient_resolve u s' b = Inr q"
  then have [simp]: "s' = s" by simp
  from r have "session_resolve u s a = Inr p" "session_resolve u s b = Inr q"
    by (simp_all add: ambient_resolve_def split: if_splits)
  then have "wf_path u p" "wf_path u q" by (auto intro: session_resolve_wf [OF assms(1,2)])
  then show "emits (request_confined (s_vfs s)) (op (s_vfs s') p q) Q" by (simp add: assms(3))
qed

lemma vfs_open_dir_confined:
  assumes "nfc_ok u" and "wf_path u p"
  shows "emits (request_confined t) (vfs_open_dir H u t p) (\<lambda>c. governed t (dc_writable c) (dc_inner c))"
  unfolding vfs_open_dir_def
  by (rule emits_try_then [OF locate_dir_confined [OF assms]]) (auto intro: emits_ok)

lemma vfs_is_symlink_confined:
  assumes "nfc_ok u" and "wf_path u p"
  shows "emits (request_confined t) (vfs_is_symlink H u t p) (\<lambda>_. True)"
  unfolding vfs_is_symlink_def
  by (rule emits_try_then [OF vfs_facts_confined [OF assms]]) (simp add: emits_ok)

lemma ambient_open_emits:
  assumes "nfc_ok u" and "session_ok u s"
  shows "emits (request_confined (s_vfs s)) (ambient_open H u (Some s) path) (handle_ok (s_vfs s) False)"
  unfolding ambient_open_def vfs_open_def
  using vfs_open_with_confined [OF assms(1), of _ "s_vfs s" H mode_read]
  by (intro with_path_emits [OF assms]) simp

lemma ambient_create_emits:
  assumes "nfc_ok u" and "session_ok u s"
  shows "emits (request_confined (s_vfs s)) (ambient_create H u (Some s) path) (handle_ok (s_vfs s) True)"
  unfolding ambient_create_def vfs_create_def
  using vfs_open_with_confined [OF assms(1), of _ "s_vfs s" H mode_write]
  by (intro with_path_emits [OF assms]) (simp add: is_write_def mode_write_def)

lemma ambient_read_emits:
  assumes "nfc_ok u" and "session_ok u s"
  shows "emits (request_confined (s_vfs s)) (ambient_read H u (Some s) path) (\<lambda>_. True)"
  unfolding ambient_read_def
  by (rule emits_try_then [OF ambient_open_emits [OF assms]], rule emits_call)
     (auto simp: handle_ok_def confined_request)

lemma ambient_read_to_string_emits:
  assumes "nfc_ok u" and "session_ok u s"
  shows "emits (request_confined (s_vfs s)) (ambient_read_to_string H u (Some s) path) (\<lambda>_. True)"
  unfolding ambient_read_to_string_def
  by (rule emits_try_then [OF ambient_open_emits [OF assms]], rule emits_try_call)
     (auto simp: handle_ok_def confined_request intro: emits_if emits_ok emits_fail)

lemma ambient_write_emits:
  assumes "nfc_ok u" and "session_ok u s"
  shows "emits (request_confined (s_vfs s)) (ambient_write H u (Some s) path contents) (\<lambda>_. True)"
  unfolding ambient_write_def
  by (rule emits_try_then [OF ambient_create_emits [OF assms]], rule emits_call)
     (auto simp: handle_ok_def confined_request)

lemma ambient_open_dir_fd_emits:
  assumes "nfc_ok u" and "session_ok u s"
  shows "emits (request_confined (s_vfs s)) (ambient_open_dir_fd H u (Some s) path follow) (\<lambda>_. True)"
  unfolding ambient_open_dir_fd_def
proof (rule emits_try_then [where R = "\<lambda>_. True"], rule with_path_emits [OF assms])
  fix p assume p: "wf_path u p"
  have "emits (request_confined (s_vfs s))
      (if follow then ok False else vfs_is_symlink H u (s_vfs s) p) (\<lambda>_. True)"
    by (intro emits_if emits_ok vfs_is_symlink_confined [OF assms(1) p]) simp
  then show "emits (request_confined (s_vfs s))
     (try_then (if follow then ok False else vfs_is_symlink H u (s_vfs s) p) (\<lambda>link.
        if link then fail (OsError ELOOP Uncategorized) else vfs_open_dir H u (s_vfs s) p)) (\<lambda>_. True)"
    by (rule emits_try_then)
       (intro emits_if emits_fail emits_weaken [OF vfs_open_dir_confined [OF assms(1) p]])
qed (simp add: emits_ok)

lemma ambient_read_dir_emits:
  assumes "nfc_ok u" and "session_ok u s"
  shows "emits (request_confined (s_vfs s)) (ambient_read_dir H u (Some s) path) (\<lambda>_. True)"
  unfolding ambient_read_dir_def
  by (rule with_path_emits [OF assms], rule emits_try_then [OF vfs_read_dir_names_confined [OF assms(1)]])
     (simp_all add: emits_ok)

lemma ambient_canonicalize_emits:
  assumes "nfc_ok u" and "session_ok u s"
  shows "emits (request_confined (s_vfs s)) (ambient_canonicalize H u (Some s) path) (\<lambda>_. True)"
  unfolding ambient_canonicalize_def
  by (rule with_path_emits [OF assms], rule emits_try_then [OF vfs_canonicalize_confined [OF assms(1)]])
     (simp_all add: emits_ok)

lemma ambient_symlink_emits:
  assumes "nfc_ok u" and "session_ok u s"
  shows "emits (request_confined (s_vfs s)) (ambient_symlink H u (Some s) target link) (\<lambda>_. True)"
  unfolding ambient_symlink_def
  by (intro emits_if emits_fail with_path_emits [OF assms]
        emits_weaken [OF vfs_symlink_confined [OF assms(1)]])

lemma ambient_exec_confined:
  assumes "nfc_ok u" and "session_ok u s"
  shows "emits (request_confined (s_vfs s)) (ambient_exec H u (Some s) c) (\<lambda>_. True)"
proof -
  note here = assms and n = assms(1)
  have dir: "emits (request_confined (s_vfs s)) (ambient_current_dir (Some s)) (\<lambda>_. True)"
    by (simp add: ambient_current_dir_def current_def lift_result_def emits_def try_then_def run_simps)
  note first = ambient_read_emits [OF here, THEN discard_emits]
    ambient_read_to_string_emits [OF here, THEN discard_emits] ambient_write_emits [OF here]
    ambient_open_emits [OF here, THEN discard_emits] ambient_create_emits [OF here, THEN discard_emits]
    ambient_open_dir_fd_emits [OF here, THEN discard_emits]
    ambient_read_dir_emits [OF here, THEN discard_emits]
    ambient_canonicalize_emits [OF here, THEN discard_emits] ambient_symlink_emits [OF here]
    dir [THEN discard_emits]
  note queries = vfs_open_dir_confined [OF n] vfs_open_with_confined [OF n]
    vfs_metadata_confined [OF n] vfs_symlink_metadata_confined [OF n] vfs_exists_confined [OF n]
    vfs_read_link_confined [OF n] emits_ok [where Q = "\<lambda>_. True", OF TrueI]
  note pairs = vfs_rename_confined [OF n] vfs_hard_link_confined [OF n] vfs_copy_confined [OF n]
  show ?thesis
    by (cases c; simp only: ambient_exec.simps ambient_absolute_def ambient_open_dir_def
          ambient_open_with_def ambient_metadata_def ambient_symlink_metadata_def ambient_try_exists_def
          ambient_read_link_def ambient_create_dir_all_def ambient_create_dir_with_mode_def
          ambient_set_times_def ambient_remove_file_def ambient_remove_dir_def
          ambient_remove_dir_all_def ambient_rename_def ambient_create_dir_def
          ambient_set_permissions_def ambient_copy_def ambient_hard_link_def;
        (rule first
         | (rule discard_emits, rule with_path_emits [OF here], rule queries, assumption; fail)
         | (rule discard_emits, rule with_path_emits [OF here], rule queries; fail)
         | (rule emits_weaken, rule with_two_emits [OF here], rule pairs; assumption)
         | (rule discard_emits, rule with_two_emits [OF here], rule pairs; assumption)
         | (rule with_path_emits [OF here], simp only: vfs_mutations, rule emits_weaken,
            erule mutate_at_confined [OF n], simp add: request_confined_def)))
qed

lemma current_None [simp]: "lift_result (current None) = fail no_session"
  by (simp add: current_def lift_result_def fail_def)

lemma no_session_fails [simp]:
  "with_path u None path op = fail no_session" "with_two u None a b op' = fail no_session"
  by (simp_all add: with_path_def with_two_def)

lemma discard_fail [simp]: "discard (fail e) = fail e"
  by (simp add: discard_def)

section \<open>Properties\<close>

text \<open>C35. The facade fails closed. With no session installed, every entry point returns an error
  and every predicate answers false, and none of them makes a single request of the host.\<close>

theorem ambient_fails_closed:
  "(\<exists>e. ambient_exec H u None c w = (Inl e, [], w)) \<and>
   ambient_exists H u None p w = (Inr False, [], w) \<and>
   ambient_is_dir H u None p w = (Inr False, [], w) \<and>
   ambient_is_file H u None p w = (Inr False, [], w) \<and>
   ambient_is_symlink H u None p w = (Inr False, [], w)"
proof (intro conjI)
  have "\<exists>e. ambient_exec H u None c = fail e"
    by (cases c) (simp_all add: ambient_absolute_def ambient_open_dir_def ambient_open_dir_fd_def
        ambient_open_def ambient_create_def ambient_open_with_def ambient_read_def
        ambient_read_to_string_def ambient_write_def ambient_metadata_def
        ambient_symlink_metadata_def ambient_try_exists_def ambient_read_link_def
        ambient_canonicalize_def ambient_symlink_def ambient_create_dir_all_def
        ambient_create_dir_with_mode_def ambient_set_times_def ambient_remove_file_def
        ambient_remove_dir_def ambient_remove_dir_all_def ambient_rename_def ambient_create_dir_def
        ambient_set_permissions_def ambient_copy_def ambient_hard_link_def ambient_read_dir_def
        ambient_current_dir_def, auto)
  then show "\<exists>e. ambient_exec H u None c w = (Inl e, [], w)" by (metis fail_run)
  have f: "or_false (fail no_session) w = (Inr False, [], w)"
    by (simp add: or_false_def try_then_def attempt_def run_simps)
  show "ambient_exists H u None p w = (Inr False, [], w)"
    "ambient_is_dir H u None p w = (Inr False, [], w)"
    "ambient_is_file H u None p w = (Inr False, [], w)"
    "ambient_is_symlink H u None p w = (Inr False, [], w)"
    by (simp_all add: ambient_exists_def ambient_is_dir_def ambient_is_file_def
        ambient_is_symlink_def f)
qed

text \<open>A utility that goes through the facade is as confined as the session it runs in:
  whatever strings it passes, every request of every entry point is confined to the installed
  namespace, the bytes it reads and writes included.\<close>

theorem ambient_confined:
  assumes "nfc_ok u" and "session_ok u s" and "q \<in> set (requests (ambient_exec H u (Some s) c w))"
  shows "request_confined (s_vfs s) q"
  by (rule emits_requests [OF ambient_exec_confined [OF assms(1,2)] assms(3)])

theorem ambient_confined_witness:
  "request_confined (s_vfs (session_new demo_table))
     (WriteAll (OpenedFile (MountDir 7) [''a''] (to_cap_std mode_write) 7) ''hi'')"
proof (rule ambient_confined [OF nfc_ok_ascii session_ok_new])
  show "WriteAll (OpenedFile (MountDir 7) [''a''] (to_cap_std mode_write) 7) ''hi'' \<in> set (requests
      (ambient_exec still_host ascii_unicode (Some (session_new demo_table))
         (AWrite ''/work/tmp/../a'' ''hi'') ()))" by code_simp
qed

text \<open>A directory entry whose name the grammar refuses is an error of the listing, although the
  host has such a file: a name with no separator need not be grammatical.\<close>

theorem listing_entry_may_be_ungrammatical:
  "fst (read_dir_next ascii_unicode \<lparr> rd_dir = VirtualPath ''/work'', rd_names = [''aux.txt''] \<rparr>) =
     Some (Inl (invalid_path (ReservedName ''aux.txt'')))"
  by code_simp

end
