(* ===== verification/Broker.thy ===== *)
theory Broker
  imports Ambient
begin

text \<open>
  The session broker (\<^verbatim>\<open>brush-core/src/broker/mod.rs\<close>, \<^verbatim>\<open>broker/unix.rs\<close>): how a confined namespace
  reaches a child process. The parent encodes its mount points and working directory, the socket
  carries the bytes with one descriptor per mount, and the child decodes and rebuilds a session.

  A descriptor crossing a socket is the number it has in the receiving process. The two polling
  loops take a number of polls as fuel; \<^const>\<open>None\<close> is a loop still polling, never an answer of the
  code, and enough fuel for a deadline is proved to reach one. The Windows pipe is not modelled.
\<close>

section \<open>The wire format\<close>

definition WIRE_VERSION :: u32 where
  "WIRE_VERSION = 1"

definition le32 :: "u32 \<Rightarrow> byte list" where
  "le32 w = [ucast w, ucast (drop_bit 8 w), ucast (drop_bit 16 w), ucast (drop_bit 24 w)]"

definition from_le32 :: "byte \<Rightarrow> byte \<Rightarrow> byte \<Rightarrow> byte \<Rightarrow> u32" where
  "from_le32 a b c d =
     ucast a OR push_bit 8 (ucast b) OR push_bit 16 (ucast c) OR push_bit 24 (ucast d)"

text \<open>\<^verbatim>\<open>u32::try_from(n).unwrap_or(u32::MAX)\<close>.\<close>

definition clamp_u32 :: "nat \<Rightarrow> u32" where
  "clamp_u32 n = (if n < 2 ^ 32 then of_nat n else - 1)"

definition put_str :: "string \<Rightarrow> byte list" where
  "put_str s = le32 (clamp_u32 (length s)) @ bytes_of s"

type_synonym 'h wire_mounts = "(string \<times> access \<times> 'h) list"

definition access_byte :: "access \<Rightarrow> byte" where
  "access_byte a = (case a of ReadOnly \<Rightarrow> 0 | ReadWrite \<Rightarrow> 1)"

definition encode :: "string \<Rightarrow> 'h wire_mounts \<Rightarrow> byte list" where
  "encode cwd ms =
     le32 WIRE_VERSION @ put_str cwd @ le32 (clamp_u32 (length ms)) @
     concat (map (\<lambda>(at, acc, h). put_str at @ [access_byte acc]) ms)"

definition malformed :: "string \<Rightarrow> io_error" where
  "malformed s = Custom InvalidData (Text s)"

text \<open>The reader: the bytes and the position, moved forward by every read.\<close>

record reader =
  r_bytes :: "byte list"
  r_at :: nat

type_synonym 'a reads = "reader \<Rightarrow> io_error + 'a \<times> reader"

definition reader_take :: "nat \<Rightarrow> byte list reads" where
  "reader_take n r =
     (let end' = r_at r + n in
      if end' < 2 ^ 64 \<and> end' \<le> length (r_bytes r)
      then Inr (take n (drop (r_at r) (r_bytes r)), r\<lparr>r_at := end'\<rparr>)
      else Inl (malformed ''session payload ended early''))"

definition reader_byte :: "byte reads" where
  "reader_byte r =
     (case reader_take 1 r of Inl e \<Rightarrow> Inl e | Inr (bs, r') \<Rightarrow> Inr (bs ! 0, r'))"

definition reader_u32 :: "u32 reads" where
  "reader_u32 r =
     (case reader_take 4 r of
        Inl e \<Rightarrow> Inl e
      | Inr (b, r') \<Rightarrow> Inr (from_le32 (b ! 0) (b ! 1) (b ! 2) (b ! 3), r'))"

definition reader_string :: "string reads" where
  "reader_string r =
     (case reader_u32 r of
        Inl e \<Rightarrow> Inl e
      | Inr (len, r') \<Rightarrow>
          (case reader_take (unat len) r' of
             Inl e \<Rightarrow> Inl e
           | Inr (b, r'') \<Rightarrow>
               (if valid_utf8 (string_of b) then Inr (string_of b, r'')
                else Inl (malformed ''session payload has a non-UTF-8 field''))))"

record decoded =
  d_cwd :: string
  d_mounts :: "(string \<times> access) list"

fun decode_mounts :: "nat \<Rightarrow> (string \<times> access) list reads" where
  "decode_mounts 0 r = Inr ([], r)"
| "decode_mounts (Suc n) r =
     (case reader_string r of
        Inl e \<Rightarrow> Inl e
      | Inr (at, r1) \<Rightarrow>
          (case reader_byte r1 of
             Inl e \<Rightarrow> Inl e
           | Inr (b, r2) \<Rightarrow>
               (if b \<noteq> 0 \<and> b \<noteq> 1
                then Inl (malformed ''session payload has an unknown access mode'')
                else (case decode_mounts n r2 of
                        Inl e \<Rightarrow> Inl e
                      | Inr (ms, r3) \<Rightarrow>
                          Inr ((at, if b = 0 then ReadOnly else ReadWrite) # ms, r3)))))"

definition decode :: "byte list \<Rightarrow> io_error + decoded" where
  "decode bytes =
     (case reader_u32 \<lparr> r_bytes = bytes, r_at = 0 \<rparr> of
        Inl e \<Rightarrow> Inl e
      | Inr (v, r1) \<Rightarrow>
          (if v \<noteq> WIRE_VERSION
           then Inl (malformed ''session payload has the wrong wire version'')
           else (case reader_string r1 of
                   Inl e \<Rightarrow> Inl e
                 | Inr (cwd, r2) \<Rightarrow>
                     (case reader_u32 r2 of
                        Inl e \<Rightarrow> Inl e
                      | Inr (count, r3) \<Rightarrow>
                          (case decode_mounts (unat count) r3 of
                             Inl e \<Rightarrow> Inl e
                           | Inr (ms, r4) \<Rightarrow> Inr \<lparr> d_cwd = cwd, d_mounts = ms \<rparr>)))))"

section \<open>Capturing and assembling\<close>

record session_payload =
  p_cwd :: string
  p_mounts :: "nat wire_mounts"

fun duplicate_all ::
  "'w host \<Rightarrow> (virtual_path \<times> access \<times> dir_handle) list \<Rightarrow> ('w, nat wire_mounts) io" where
  "duplicate_all H [] = ok []"
| "duplicate_all H ((p, acc, d) # loans) =
     try_then (call (h_num H) (TryClone d)) (\<lambda>n.
     try_then (duplicate_all H loans) (\<lambda>ms. ok ((inner p, acc, n) # ms)))"

definition capture :: "'w host \<Rightarrow> session \<Rightarrow> ('w, session_payload) io" where
  "capture H s =
     try_then (duplicate_all H (lend_to_child (s_vfs s))) (\<lambda>ms.
       ok \<lparr> p_cwd = inner (s_cwd s), p_mounts = ms \<rparr>)"

definition assemble :: "'w host \<Rightarrow> unicode \<Rightarrow> decoded \<Rightarrow> nat list \<Rightarrow> ('w, session) io" where
  "assemble H u d handles =
     (if length (d_mounts d) \<noteq> length handles
      then fail (malformed
        ''session payload describes a different number of mounts than it delivered'')
      else
        (case from_child_handles u (map (\<lambda>((at, acc), h). (at, acc, h)) (zip (d_mounts d) handles)) of
           Inl e \<Rightarrow> fail (Custom OtherKind (Text ''mount table''))
         | Inr t \<Rightarrow> set_cwd H u (session_new t) (d_cwd d)))"

section \<open>The rendezvous\<close>

record rendezvous =
  rv_dir :: string
  rv_path :: string
  rv_listener :: nat

definition ACCEPT_TIMEOUT :: int where
  "ACCEPT_TIMEOUT = 10000"

definition RECEIVE_TIMEOUT :: int where
  "RECEIVE_TIMEOUT = 10000"

definition RENDEZVOUS_ENV :: string where
  "RENDEZVOUS_ENV = ''BRUSH_SESSION_RENDEZVOUS''"

definition next_id :: "u64 \<Rightarrow> u64 \<times> u64" where
  "next_id counter = (counter, counter + 1)"

definition rendezvous_create ::
  "'w host \<Rightarrow> string \<Rightarrow> nat \<Rightarrow> u64 \<Rightarrow> ('w, rendezvous \<times> u64) io" where
  "rendezvous_create H temp_dir pid counter =
     (let dir = temp_dir @ ''/brush-broker-'' @ decimal pid in
      try_then (call (h_unit H) (HostMkdir dir 0x1C0 True)) (\<lambda>_.
        let (i, counter') = next_id counter; path = dir @ ''/s'' @ decimal (unat i) in
        try_then (call (h_num H) (SocketBind path)) (\<lambda>l.
        try_then (call (h_unit H) (SocketNonblocking l)) (\<lambda>_.
          ok (\<lparr> rv_dir = dir, rv_path = path, rv_listener = l \<rparr>, counter')))))"

definition rendezvous_drop :: "'w host \<Rightarrow> rendezvous \<Rightarrow> ('w, unit) io" where
  "rendezvous_drop H rv =
     try_then (attempt (call (h_unit H) (HostUnlink (rv_path rv)))) (\<lambda>_.
     try_then (attempt (call (h_unit H) (HostRmdir (rv_dir rv)))) (\<lambda>_. ok ()))"

definition clock_now :: "'w host \<Rightarrow> ('w, int) io" where
  "clock_now H = call (h_int H) ClockNow"

fun accept_before :: "'w host \<Rightarrow> nat \<Rightarrow> nat \<Rightarrow> int \<Rightarrow> ('w, nat option) io" where
  "accept_before H 0 listener deadline = ok None"
| "accept_before H (Suc fuel) listener deadline =
     try_then (attempt (call (h_num H) (SocketAccept listener))) (\<lambda>r.
       case r of
         Inr stream \<Rightarrow> ok (Some stream)
       | Inl e \<Rightarrow>
           (if kind e = WouldBlock
            then try_then (clock_now H) (\<lambda>now.
              if deadline \<le> now
              then fail (Custom TimedOut (Text ''session broker: the child never connected''))
              else try_then (call (h_unit H) (SleepMillis 1)) (\<lambda>_.
                accept_before H fuel listener deadline))
            else fail e))"

definition peer_pid :: "'w host \<Rightarrow> nat \<Rightarrow> ('w, nat) io" where
  "peer_pid H stream =
     try_then (call (h_int H) (SocketPeerPid stream)) (\<lambda>pid.
       if pid < 0 then fail (Custom OtherKind (Text ''peer pid is negative'')) else ok (nat pid))"

text \<open>The rendezvous is consumed: dropped whichever way the handshake ends.\<close>

definition and_drop :: "'w host \<Rightarrow> rendezvous \<Rightarrow> ('w, 'a) io \<Rightarrow> ('w, 'a) io" where
  "and_drop H rv m =
     try_then (attempt m) (\<lambda>r. try_then (rendezvous_drop H rv) (\<lambda>_. lift_result r))"

definition rendezvous_serve ::
  "'w host \<Rightarrow> nat \<Rightarrow> rendezvous \<Rightarrow> nat \<Rightarrow> session_payload \<Rightarrow> ('w, unit option) io" where
  "rendezvous_serve H fuel rv pid payload = and_drop H rv
     (try_then (clock_now H) (\<lambda>start.
      try_then (accept_before H fuel (rv_listener rv) (start + ACCEPT_TIMEOUT)) (\<lambda>accepted.
        case accepted of
          None \<Rightarrow> ok None
        | Some stream \<Rightarrow>
            try_then (peer_pid H stream) (\<lambda>peer.
              if peer \<noteq> pid
              then fail (Custom PermissionDenied
                (Text (''session broker: expected a connection from pid '' @ decimal pid
                         @ '', got '' @ decimal peer)))
              else
                try_then (call (h_unit H) (SocketSend stream
                  (encode (p_cwd payload) (p_mounts payload))
                  (map (\<lambda>(at, acc, fd). fd) (p_mounts payload)))) (\<lambda>_. ok (Some ()))))))"

definition broker_serve ::
  "'w host \<Rightarrow> nat \<Rightarrow> rendezvous \<Rightarrow> int option \<Rightarrow> session \<Rightarrow> ('w, unit option) io" where
  "broker_serve H fuel rv pid s =
     (case pid of
        Some p \<Rightarrow>
          (if 0 \<le> p
           then try_then (attempt (capture H s)) (\<lambda>r.
             case r of
               Inl e \<Rightarrow> and_drop H rv (fail e)
             | Inr payload \<Rightarrow> rendezvous_serve H fuel rv (nat p) payload)
           else and_drop H rv (fail (Custom OtherKind
             (Text ''the child reported no pid to authenticate''))))
      | None \<Rightarrow> and_drop H rv (fail (Custom OtherKind
             (Text ''the child reported no pid to authenticate''))))"

section \<open>The child's end\<close>

fun connect_before :: "'w host \<Rightarrow> nat \<Rightarrow> string \<Rightarrow> int \<Rightarrow> ('w, nat option) io" where
  "connect_before H 0 path deadline = ok None"
| "connect_before H (Suc fuel) path deadline =
     try_then (attempt (call (h_num H) (SocketConnect path))) (\<lambda>r.
       case r of
         Inr stream \<Rightarrow> ok (Some stream)
       | Inl e \<Rightarrow>
           (if kind e \<in> {ConnectionRefused, WouldBlock, Interrupted}
            then try_then (clock_now H) (\<lambda>now.
              if now < deadline
              then try_then (call (h_unit H) (SleepMillis 1)) (\<lambda>_.
                connect_before H fuel path deadline)
              else fail e)
            else fail e))"

definition platform_receive ::
  "'w host \<Rightarrow> unicode \<Rightarrow> nat \<Rightarrow> string \<Rightarrow> ('w, session option) io" where
  "platform_receive H u fuel path =
     try_then (clock_now H) (\<lambda>start.
     try_then (connect_before H fuel path (start + RECEIVE_TIMEOUT)) (\<lambda>connected.
       case connected of
         None \<Rightarrow> ok None
       | Some stream \<Rightarrow>
           try_then (call (h_message H) (SocketReceive stream 65536 64)) (\<lambda>(bytes, fds).
           try_then (lift_result (decode bytes)) (\<lambda>d.
           try_then (assemble H u d fds) (\<lambda>s. ok (Some s))))))"

text \<open>The environment is an association; the variable is removed before the handshake, whatever
  comes of it.\<close>

type_synonym environment = "string \<rightharpoonup> string"

definition receive ::
  "'w host \<Rightarrow> unicode \<Rightarrow> nat \<Rightarrow> environment \<Rightarrow> ('w, session option) io option \<times> environment" where
  "receive H u fuel env =
     (case env RENDEZVOUS_ENV of
        None \<Rightarrow> (None, env)
      | Some path \<Rightarrow> (Some (platform_receive H u fuel path), env(RENDEZVOUS_ENV := None)))"

section \<open>What a reader accepts\<close>

text \<open>\<open>reads_as rd x v\<close>: wherever \<open>x\<close> stands in a buffer, reading there consumes exactly \<open>x\<close> and
  yields \<open>v\<close>. \<open>cut rd x\<close>: a buffer that ends inside \<open>x\<close> is an error.\<close>

definition reads_as :: "'a reads \<Rightarrow> byte list \<Rightarrow> 'a \<Rightarrow> bool" where
  "reads_as rd x v \<longleftrightarrow>
     (\<forall>pre post. length (pre @ x @ post) < 2 ^ 64 \<longrightarrow>
        rd \<lparr> r_bytes = pre @ x @ post, r_at = length pre \<rparr> =
          Inr (v, \<lparr> r_bytes = pre @ x @ post, r_at = length (pre @ x) \<rparr>))"

definition cut :: "'a reads \<Rightarrow> byte list \<Rightarrow> bool" where
  "cut rd x \<longleftrightarrow>
     (\<forall>pre x' y. x = x' @ y \<longrightarrow> y \<noteq> [] \<longrightarrow> length (pre @ x') < 2 ^ 64 \<longrightarrow>
        (\<exists>e. rd \<lparr> r_bytes = pre @ x', r_at = length pre \<rparr> = Inl e))"

definition then_read :: "'a reads \<Rightarrow> ('a \<Rightarrow> 'b reads) \<Rightarrow> 'b reads" where
  "then_read rd f = (\<lambda>r. case rd r of Inl e \<Rightarrow> Inl e | Inr (a, r') \<Rightarrow> f a r')"

lemma reads_then:
  assumes "reads_as rd x v" and "reads_as (f v) z w"
  shows "reads_as (then_read rd f) (x @ z) w"
  unfolding reads_as_def
proof (intro allI impI)
  fix pre post :: "byte list" assume len: "length (pre @ (x @ z) @ post) < 2 ^ 64"
  then have "rd \<lparr> r_bytes = pre @ x @ (z @ post), r_at = length pre \<rparr> =
      Inr (v, \<lparr> r_bytes = pre @ x @ (z @ post), r_at = length (pre @ x) \<rparr>)"
    using assms(1) unfolding reads_as_def by (metis append.assoc)
  moreover have "f v \<lparr> r_bytes = (pre @ x) @ z @ post, r_at = length (pre @ x) \<rparr> =
      Inr (w, \<lparr> r_bytes = (pre @ x) @ z @ post, r_at = length ((pre @ x) @ z) \<rparr>)"
    using assms(2) len unfolding reads_as_def by (metis append.assoc)
  ultimately show "then_read rd f \<lparr> r_bytes = pre @ (x @ z) @ post, r_at = length pre \<rparr> =
      Inr (w, \<lparr> r_bytes = pre @ (x @ z) @ post, r_at = length (pre @ x @ z) \<rparr>)"
    by (simp add: then_read_def)
qed

lemma cut_then:
  assumes "reads_as rd x v" and "cut rd x" and "cut (f v) z"
  shows "cut (then_read rd f) (x @ z)"
  unfolding cut_def
proof (intro allI impI)
  fix pre x' y :: "byte list"
  assume split: "x @ z = x' @ y" and y: "y \<noteq> []" and len: "length (pre @ x') < 2 ^ 64"
  from split consider us where "x = x' @ us" "us @ z = y" | us where "x @ us = x'" "z = us @ y"
    by (auto simp: append_eq_append_conv2)
  then show "\<exists>e. then_read rd f \<lparr> r_bytes = pre @ x', r_at = length pre \<rparr> = Inl e"
  proof cases
    case (1 us)
    show ?thesis
    proof (cases "us = []")
      case False
      with 1(1) assms(2) len have "\<exists>e. rd \<lparr> r_bytes = pre @ x', r_at = length pre \<rparr> = Inl e"
        unfolding cut_def by blast
      then show ?thesis by (auto simp: then_read_def)
    next
      case True
      with 1 have x': "x' = x" and z: "z = y" by simp_all
      have "rd \<lparr> r_bytes = pre @ x @ [], r_at = length pre \<rparr> =
          Inr (v, \<lparr> r_bytes = pre @ x @ [], r_at = length (pre @ x) \<rparr>)"
        using assms(1) len x' unfolding reads_as_def by (metis append_Nil2)
      moreover obtain e where "f v \<lparr> r_bytes = (pre @ x) @ [], r_at = length (pre @ x) \<rparr> = Inl e"
        using assms(3) y z len x' unfolding cut_def by (metis append_Nil append_Nil2)
      ultimately show ?thesis by (simp add: then_read_def x')
    qed
  next
    case (2 us)
    have "rd \<lparr> r_bytes = pre @ x @ us, r_at = length pre \<rparr> =
        Inr (v, \<lparr> r_bytes = pre @ x @ us, r_at = length (pre @ x) \<rparr>)"
      using assms(1) len 2(1) unfolding reads_as_def by blast
    moreover obtain e where "f v \<lparr> r_bytes = (pre @ x) @ us, r_at = length (pre @ x) \<rparr> = Inl e"
      using assms(3) y 2 len unfolding cut_def by (metis append.assoc)
    ultimately show ?thesis by (simp add: then_read_def 2(1) [symmetric])
  qed
qed

definition give :: "'a \<Rightarrow> 'a reads" where
  "give v = (\<lambda>r. Inr (v, r))"

lemma reads_give: "reads_as (give v) [] v"
  by (simp add: reads_as_def give_def)

lemma cut_Nil: "cut rd []"
  by (simp add: cut_def)

lemma reads_take: "reads_as (reader_take (length x)) x x"
  by (simp add: reads_as_def reader_take_def)

lemma cut_take: "cut (reader_take (length x)) x"
  by (auto simp: cut_def reader_take_def)

lemma le32_roundtrip:
  "from_le32 (ucast w) (ucast (drop_bit 8 w)) (ucast (drop_bit 16 w)) (ucast (drop_bit 24 w)) = w"
proof (unfold from_le32_def, rule bit_word_eqI)
  fix n assume "n < LENGTH(32)"
  then consider "n < 8" | "8 \<le> n" "n < 16" | "16 \<le> n" "n < 24" | "24 \<le> n" "n < 32"
    by fastforce
  then show "bit (ucast (ucast w :: byte) OR push_bit 8 (ucast (ucast (drop_bit 8 w) :: byte)) OR
      push_bit 16 (ucast (ucast (drop_bit 16 w) :: byte)) OR
      push_bit 24 (ucast (ucast (drop_bit 24 w) :: byte)) :: u32) n \<longleftrightarrow> bit w n"
    by cases (auto simp: bit_simps)
qed

definition refuse_read :: "io_error \<Rightarrow> 'a reads" where
  "refuse_read e = (\<lambda>r. Inl e)"

lemma reader_byte_then: "reader_byte = then_read (reader_take 1) (\<lambda>bs. give (bs ! 0))"
  by (rule ext) (simp add: reader_byte_def then_read_def give_def)

lemma reader_u32_then:
  "reader_u32 = then_read (reader_take 4) (\<lambda>b. give (from_le32 (b ! 0) (b ! 1) (b ! 2) (b ! 3)))"
  by (rule ext) (simp only: reader_u32_def then_read_def give_def)

lemma reader_string_then:
  "reader_string = then_read reader_u32 (\<lambda>len. then_read (reader_take (unat len)) (\<lambda>b.
     if valid_utf8 (string_of b) then give (string_of b)
     else refuse_read (malformed ''session payload has a non-UTF-8 field'')))"
  by (rule ext) (simp add: reader_string_def then_read_def give_def refuse_read_def
      split: sum.split prod.split)

lemma decode_mounts_then:
  "decode_mounts (Suc n) = then_read reader_string (\<lambda>at. then_read reader_byte (\<lambda>b.
     if b \<noteq> 0 \<and> b \<noteq> 1
     then refuse_read (malformed ''session payload has an unknown access mode'')
     else then_read (decode_mounts n) (\<lambda>ms.
       give ((at, if b = 0 then ReadOnly else ReadWrite) # ms))))"
  by (rule ext) (simp add: then_read_def give_def refuse_read_def split: sum.split prod.split)

definition decode_body :: "decoded reads" where
  "decode_body = then_read reader_u32 (\<lambda>v.
     if v \<noteq> WIRE_VERSION
     then refuse_read (malformed ''session payload has the wrong wire version'')
     else then_read reader_string (\<lambda>cwd. then_read reader_u32 (\<lambda>count.
       then_read (decode_mounts (unat count)) (\<lambda>ms. give \<lparr> d_cwd = cwd, d_mounts = ms \<rparr>))))"

lemma decode_from_body:
  "decode bytes = (case decode_body \<lparr> r_bytes = bytes, r_at = 0 \<rparr> of
     Inl e \<Rightarrow> Inl e | Inr (d, r) \<Rightarrow> Inr d)"
  by (simp add: decode_def decode_body_def then_read_def give_def refuse_read_def
      split: sum.split prod.split)

text \<open>A value read as \<open>x\<close> and cut inside \<open>x\<close> is framed by \<open>x\<close>.\<close>

definition framed :: "'a reads \<Rightarrow> byte list \<Rightarrow> 'a \<Rightarrow> bool" where
  "framed rd x v \<longleftrightarrow> reads_as rd x v \<and> cut rd x"

lemma framed_then: "framed rd x v \<Longrightarrow> framed (f v) z w \<Longrightarrow> framed (then_read rd f) (x @ z) w"
  by (auto simp: framed_def intro: reads_then cut_then)

lemma framed_give: "framed (give v) [] v"
  by (simp add: framed_def reads_give cut_Nil)

lemma framed_map: "framed rd x v \<Longrightarrow> w = f v \<Longrightarrow> framed (then_read rd (\<lambda>a. give (f a))) x w"
  using framed_then [of rd x v "\<lambda>a. give (f a)" "[]" w] by (simp add: framed_give)

lemma framed_take: "length x = n \<Longrightarrow> framed (reader_take n) x x"
  using reads_take [of x] cut_take [of x] by (auto simp: framed_def)

lemma framed_byte: "framed reader_byte [b] b"
  unfolding reader_byte_then by (rule framed_map [OF framed_take]) simp_all

lemma framed_u32: "framed reader_u32 (le32 w) w"
  unfolding reader_u32_then
  by (rule framed_map [OF framed_take]) (simp_all add: le32_def le32_roundtrip)

definition encodable :: "string \<Rightarrow> bool" where
  "encodable s \<longleftrightarrow> valid_utf8 s \<and> length s < 2 ^ 32"

lemma unat_clamp: "n < 2 ^ 32 \<Longrightarrow> unat (clamp_u32 n) = n"
  by (simp add: clamp_u32_def unat_of_nat take_bit_nat_eq_self)

lemma framed_string:
  assumes "encodable s"
  shows "framed reader_string (put_str s) s"
  unfolding reader_string_then put_str_def
proof (rule framed_then [OF framed_u32])
  have "framed (reader_take (unat (clamp_u32 (length s)))) (bytes_of s) (bytes_of s)"
    using assms by (intro framed_take) (simp add: encodable_def unat_clamp)
  then have "framed (then_read (reader_take (unat (clamp_u32 (length s)))) (\<lambda>b.
     if valid_utf8 (string_of b) then give (string_of b)
     else refuse_read (malformed ''session payload has a non-UTF-8 field''))) (bytes_of s @ []) s"
    by (rule framed_then) (use assms in \<open>simp add: framed_give encodable_def\<close>)
  then show "framed (then_read (reader_take (unat (clamp_u32 (length s)))) (\<lambda>b.
     if valid_utf8 (string_of b) then give (string_of b)
     else refuse_read (malformed ''session payload has a non-UTF-8 field''))) (bytes_of s) s"
    by simp
qed

lemma framed_mounts:
  "\<forall>(at, acc, h) \<in> set ms. encodable at \<Longrightarrow>
     framed (decode_mounts (length ms))
       (concat (map (\<lambda>(at, acc, h). put_str at @ [access_byte acc]) ms))
       (map (\<lambda>(at, acc, h). (at, acc)) ms)"
proof (induction ms)
  case Nil
  have "decode_mounts 0 = give []" by (rule ext) (simp add: give_def)
  then show ?case by (simp add: framed_give)
next
  case (Cons m ms)
  obtain at acc h where m: "m = (at, acc, h)" by (cases m)
  let ?rest = "concat (map (\<lambda>(at, acc, h). put_str at @ [access_byte acc]) ms)"
  let ?dec = "map (\<lambda>(at, acc, h). (at, acc)) ms"
  from Cons.prems m have at: "encodable at" by simp
  from Cons have ih: "framed (decode_mounts (length ms)) ?rest ?dec" by simp
  have last: "framed (then_read (decode_mounts (length ms)) (\<lambda>ms.
      give ((at, if access_byte acc = 0 then ReadOnly else ReadWrite) # ms))) ?rest ((at, acc) # ?dec)"
    by (rule framed_map [OF ih]) (simp add: access_byte_def split: access.split)
  then have body: "framed (if access_byte acc \<noteq> 0 \<and> access_byte acc \<noteq> 1
     then refuse_read (malformed ''session payload has an unknown access mode'')
     else then_read (decode_mounts (length ms)) (\<lambda>ms.
       give ((at, if access_byte acc = 0 then ReadOnly else ReadWrite) # ms))) ?rest ((at, acc) # ?dec)"
    by (cases acc) (simp_all add: access_byte_def)
  have "framed (decode_mounts (Suc (length ms))) (put_str at @ [access_byte acc] @ ?rest)
      ((at, acc) # ?dec)"
    unfolding decode_mounts_then
    by (rule framed_then [OF framed_string [OF at]], rule framed_then [OF framed_byte], rule body)
  with m show ?case by (simp del: decode_mounts.simps)
qed

definition payload_fits :: "string \<Rightarrow> 'h wire_mounts \<Rightarrow> bool" where
  "payload_fits cwd ms \<longleftrightarrow> encodable cwd \<and> (\<forall>(at, acc, h) \<in> set ms. encodable at) \<and>
     length ms < 2 ^ 32 \<and> length (encode cwd ms) < 2 ^ 64"

lemma framed_body:
  assumes "payload_fits cwd ms"
  shows "framed decode_body (encode cwd ms)
    \<lparr> d_cwd = cwd, d_mounts = map (\<lambda>(at, acc, h). (at, acc)) ms \<rparr>"
proof -
  let ?d = "\<lparr> d_cwd = cwd, d_mounts = map (\<lambda>(at, acc, h). (at, acc)) ms \<rparr>"
  let ?ms = "concat (map (\<lambda>(at, acc, h). put_str at @ [access_byte acc]) ms)"
  have "framed (decode_mounts (length ms)) ?ms (map (\<lambda>(at, acc, h). (at, acc)) ms)"
    by (rule framed_mounts) (use assms in \<open>simp add: payload_fits_def\<close>)
  then have "framed (then_read (decode_mounts (unat (clamp_u32 (length ms))))
      (\<lambda>ms. give \<lparr> d_cwd = cwd, d_mounts = ms \<rparr>)) ?ms ?d"
    using assms by (intro framed_map) (simp_all add: payload_fits_def unat_clamp)
  then have "framed (then_read reader_u32 (\<lambda>count. then_read (decode_mounts (unat count))
      (\<lambda>ms. give \<lparr> d_cwd = cwd, d_mounts = ms \<rparr>))) (le32 (clamp_u32 (length ms)) @ ?ms) ?d"
    by (rule framed_then [OF framed_u32])
  then have "framed (then_read reader_string (\<lambda>cwd. then_read reader_u32 (\<lambda>count.
       then_read (decode_mounts (unat count)) (\<lambda>ms. give \<lparr> d_cwd = cwd, d_mounts = ms \<rparr>))))
      (put_str cwd @ le32 (clamp_u32 (length ms)) @ ?ms) ?d"
    using assms by (intro framed_then [OF framed_string]) (simp_all add: payload_fits_def)
  then have "framed (if WIRE_VERSION \<noteq> WIRE_VERSION
     then refuse_read (malformed ''session payload has the wrong wire version'')
     else then_read reader_string (\<lambda>cwd. then_read reader_u32 (\<lambda>count.
       then_read (decode_mounts (unat count)) (\<lambda>ms. give \<lparr> d_cwd = cwd, d_mounts = ms \<rparr>))))
      (put_str cwd @ le32 (clamp_u32 (length ms)) @ ?ms) ?d" by simp
  then show ?thesis
    unfolding decode_body_def encode_def by (rule framed_then [OF framed_u32])
qed

lemma decode_encode:
  assumes "payload_fits cwd ms"
  shows "decode (encode cwd ms) =
    Inr \<lparr> d_cwd = cwd, d_mounts = map (\<lambda>(at, acc, h). (at, acc)) ms \<rparr>"
proof -
  have "decode_body \<lparr> r_bytes = [] @ encode cwd ms @ [], r_at = length ([] :: byte list) \<rparr> =
      Inr (\<lparr> d_cwd = cwd, d_mounts = map (\<lambda>(at, acc, h). (at, acc)) ms \<rparr>,
        \<lparr> r_bytes = [] @ encode cwd ms @ [], r_at = length ([] @ encode cwd ms) \<rparr>)"
    using framed_body [OF assms] assms
    unfolding framed_def reads_as_def payload_fits_def by (metis append_Nil append_Nil2)
  then show ?thesis by (simp add: decode_from_body)
qed

lemma decode_truncated:
  assumes "payload_fits cwd ms" and "encode cwd ms = a @ b" and "b \<noteq> []"
  shows "\<exists>e. decode a = Inl e"
proof -
  have "length ([] @ a) < 2 ^ 64"
    using assms(1,2) by (simp add: payload_fits_def)
  moreover have "cut decode_body (encode cwd ms)"
    using framed_body [OF assms(1)] by (simp add: framed_def)
  ultimately have "\<exists>e. decode_body \<lparr> r_bytes = [] @ a, r_at = length ([] :: byte list) \<rparr> = Inl e"
    using assms(2,3) unfolding cut_def by blast
  then show ?thesis by (auto simp: decode_from_body)
qed

section \<open>What a capture holds\<close>

lemma duplicate_all_emits:
  "emits (\<lambda>q. \<exists>d. q = TryClone d) (duplicate_all H loans)
     (\<lambda>ms. map (\<lambda>(at, acc, h). (at, acc)) ms = map (\<lambda>(p, acc, d). (inner p, acc)) loans)"
proof (induction loans)
  case Nil
  show ?case by (simp add: emits_ok)
next
  case (Cons l loans)
  obtain p acc d where l: "l = (p, acc, d)" by (cases l)
  show ?case unfolding l duplicate_all.simps
    by (rule emits_try_call, simp, rule emits_try_then [OF Cons.IH]) (simp add: emits_ok)
qed

lemma capture_result:
  assumes "result (capture H s w) = Inr pl"
  shows "p_cwd pl = inner (s_cwd s) \<and>
    map (\<lambda>(at, acc, h). (at, acc)) (p_mounts pl) =
      map (\<lambda>m. (inner (m_at m), m_access m)) (mounts (s_vfs s))"
proof -
  have "emits (\<lambda>q. \<exists>d. q = TryClone d) (capture H s) (\<lambda>pl. p_cwd pl = inner (s_cwd s) \<and>
     map (\<lambda>(at, acc, h). (at, acc)) (p_mounts pl) =
       map (\<lambda>(p, acc, d). (inner p, acc)) (lend_to_child (s_vfs s)))"
    unfolding capture_def by (rule emits_try_then [OF duplicate_all_emits]) (simp add: emits_ok)
  from emits_result [OF this assms] show ?thesis by (simp add: lend_to_child_def o_def)
qed

lemma assemble_result:
  assumes "nfc_ok u" and "result (assemble H u d fds w) = Inr s'"
  shows "length (d_mounts d) = length fds \<and>
    from_child_handles u (map (\<lambda>((at, acc), h). (at, acc, h)) (zip (d_mounts d) fds)) = Inr (s_vfs s') \<and>
    resolve u root (d_cwd d) = Inr (s_cwd s')"
proof -
  have len: "length (d_mounts d) = length fds"
    using assms(2) by (auto simp: assemble_def run_simps split: if_splits)
  obtain t where t: "from_child_handles u (map (\<lambda>((at, acc), h). (at, acc, h)) (zip (d_mounts d) fds)) = Inr t"
    using assms(2) len by (auto simp: assemble_def run_simps split: sum.splits)
  with assms(2) len have "result (set_cwd H u (session_new t) (d_cwd d) w) = Inr s'"
    by (simp add: assemble_def)
  from emits_result [OF set_cwd_emits [OF assms(1) session_ok_new] this] t len
  show ?thesis by (auto simp: session_resolve_def session_new_def)
qed

section \<open>Who is served\<close>

text \<open>\<open>served pid q\<close>: what the parent may do while serving; a payload goes to no stream whose peer
  the kernel has not named.\<close>

fun is_send :: "request \<Rightarrow> bool" where
  "is_send (SocketSend stream bytes fds) = True"
| "is_send _ = False"

lemma accept_before_no_send:
  "emits (\<lambda>q. \<not> is_send q) (accept_before H fuel l deadline) (\<lambda>_. True)"
proof (induction fuel)
  case 0
  show ?case by (simp add: emits_ok)
next
  case (Suc fuel)
  show ?case unfolding accept_before.simps clock_now_def
    by (rule emits_attempt_call, simp, rename_tac r, case_tac r)
       (auto intro!: emits_ok emits_fail emits_try_call Suc emits_if)
qed

lemma rendezvous_drop_no_send: "emits (\<lambda>q. \<not> is_send q) (rendezvous_drop H rv) (\<lambda>_. True)"
  unfolding rendezvous_drop_def by (intro emits_attempt_call emits_ok) simp_all

lemma emits_and_drop:
  assumes "emits P m Q" and "\<And>q. \<not> is_send q \<Longrightarrow> P q"
  shows "emits P (and_drop H rv m) Q"
  unfolding and_drop_def
  by (rule emits_try_then [OF emits_attempt [OF assms(1)]],
      rule emits_try_then [OF emits_mono [OF rendezvous_drop_no_send assms(2) TrueI]])
     (auto intro: emits_lift_result)

text \<open>The peer of a connected stream, as the kernel reports it, does not change.\<close>

definition peers_are :: "'w host \<Rightarrow> (nat \<Rightarrow> int) \<Rightarrow> bool" where
  "peers_are H peer \<longleftrightarrow>
     (\<forall>w s p w'. h_int H w (SocketPeerPid s) = (Inr p, w') \<longrightarrow> p = peer s)"

definition sends_only :: "(nat \<Rightarrow> int) \<Rightarrow> nat \<Rightarrow> session_payload \<Rightarrow> request \<Rightarrow> bool" where
  "sends_only peer pid payload q \<longleftrightarrow>
     (\<forall>stream bytes fds. q = SocketSend stream bytes fds \<longrightarrow>
        peer stream = int pid \<and> bytes = encode (p_cwd payload) (p_mounts payload) \<and>
        fds = map (\<lambda>(at, acc, fd). fd) (p_mounts payload))"

lemma no_send_sends_only: "\<not> is_send q \<Longrightarrow> sends_only peer pid payload q"
  by (cases q) (simp_all add: sends_only_def)

lemma peer_pid_emits:
  assumes "peers_are H peer"
  shows "emits (\<lambda>q. \<not> is_send q) (peer_pid H stream) (\<lambda>p. peer stream = int p)"
proof -
  have "emits (\<lambda>q. \<not> is_send q) (call (h_int H) (SocketPeerPid stream)) (\<lambda>p. p = peer stream)"
    using assms by (auto simp: emits_def call_def peers_are_def split: prod.split)
  then show ?thesis
    unfolding peer_pid_def
    by (rule emits_try_then) (auto intro!: emits_if emits_fail emits_ok)
qed

lemma rendezvous_serve_emits:
  assumes "peers_are H peer"
  shows "emits (sends_only peer pid payload) (rendezvous_serve H fuel rv pid payload) (\<lambda>_. True)"
proof -
  have quiet: "emits (sends_only peer pid payload) m Q" if "emits (\<lambda>q. \<not> is_send q) m Q" for m Q
    by (rule emits_mono [OF that no_send_sends_only]) simp_all
  show ?thesis
    unfolding rendezvous_serve_def clock_now_def
    by (rule emits_and_drop [OF _ no_send_sends_only], rule emits_try_call,
        simp add: no_send_sends_only, rule emits_try_then [OF quiet [OF accept_before_no_send]],
        simp split: option.split,
        auto intro!: emits_ok emits_fail emits_try_call emits_try_then [OF quiet [OF peer_pid_emits [OF assms]]]
          simp: sends_only_def split: if_split)
qed

section \<open>The polling loops end\<close>

text \<open>A clock that reads the time, does not run backwards, and advances across a sleep.\<close>

definition ticking :: "'w host \<Rightarrow> ('w \<Rightarrow> int) \<Rightarrow> bool" where
  "ticking H time \<longleftrightarrow>
     (\<forall>w q. time w \<le> time (snd (h_num H w q))) \<and>
     (\<forall>w. fst (h_int H w ClockNow) = Inr (time w) \<and> time w \<le> time (snd (h_int H w ClockNow))) \<and>
     (\<forall>w n. time w + int n \<le> time (snd (h_unit H w (SleepMillis n))))"

lemma ticking_sleep: "ticking H time \<Longrightarrow> time w + 1 \<le> time (snd (h_unit H w (SleepMillis 1)))"
proof -
  assume "ticking H time"
  then have "time w + int 1 \<le> time (snd (h_unit H w (SleepMillis 1)))"
    unfolding ticking_def by blast
  then show ?thesis by simp
qed

lemma try_attempt_call_run:
  "result (try_then (attempt (call f q)) g w) = result (g (fst (f w q)) (snd (f w q)))"
  by (cases "f w q") (auto simp: try_then_def attempt_def call_def split: prod.split)

lemma try_call_run:
  "result (try_then (call f q) g w) =
     (case fst (f w q) of Inl e \<Rightarrow> Inl e | Inr x \<Rightarrow> result (g x (snd (f w q))))"
  by (cases "f w q") (auto simp: try_then_def call_def split: prod.split sum.split)

lemma accept_before_ends:
  assumes "ticking H time"
  shows "nat (deadline - time w) < fuel \<Longrightarrow> result (accept_before H fuel l deadline w) \<noteq> Inr None"
proof (induction fuel arbitrary: w)
  case 0
  then show ?case by simp
next
  case (Suc fuel)
  let ?a = "h_num H w (SocketAccept l)"
  let ?c = "h_int H (snd ?a) ClockNow"
  let ?s = "h_unit H (snd ?c) (SleepMillis 1)"
  have t: "time w \<le> time (snd ?a)" "fst ?c = Inr (time (snd ?a))" "time (snd ?a) \<le> time (snd ?c)"
      "time (snd ?c) + 1 \<le> time (snd ?s)"
    using assms ticking_sleep [OF assms] unfolding ticking_def by blast+
  show ?case
  proof (cases "fst ?a")
    case (Inr s)
    then show ?thesis by (simp add: try_attempt_call_run run_simps)
  next
    case (Inl e)
    have "result (accept_before H fuel l deadline (snd ?s)) \<noteq> Inr None"
      if "\<not> deadline \<le> time (snd ?a)"
      by (rule Suc.IH) (use Suc.prems t that in linarith)
    with Inl t(2) show ?thesis
      by (auto simp: try_attempt_call_run clock_now_def try_call_run run_simps split: sum.split)
  qed
qed

lemma connect_before_ends:
  assumes "ticking H time"
  shows "nat (deadline - time w) < fuel \<Longrightarrow> result (connect_before H fuel path deadline w) \<noteq> Inr None"
proof (induction fuel arbitrary: w)
  case 0
  then show ?case by simp
next
  case (Suc fuel)
  let ?a = "h_num H w (SocketConnect path)"
  let ?c = "h_int H (snd ?a) ClockNow"
  let ?s = "h_unit H (snd ?c) (SleepMillis 1)"
  have t: "time w \<le> time (snd ?a)" "fst ?c = Inr (time (snd ?a))" "time (snd ?a) \<le> time (snd ?c)"
      "time (snd ?c) + 1 \<le> time (snd ?s)"
    using assms ticking_sleep [OF assms] unfolding ticking_def by blast+
  show ?case
  proof (cases "fst ?a")
    case (Inr s)
    then show ?thesis by (simp add: try_attempt_call_run run_simps)
  next
    case (Inl e)
    have "result (connect_before H fuel path deadline (snd ?s)) \<noteq> Inr None"
      if "time (snd ?a) < deadline"
      by (rule Suc.IH) (use Suc.prems t that in linarith)
    with Inl t(2) show ?thesis
      by (auto simp: try_attempt_call_run clock_now_def try_call_run run_simps split: sum.split)
  qed
qed

lemma and_drop_result: "result (and_drop H rv m w) = result (m w)"
proof -
  obtain r qs w' where m: "m w = (r, qs, w')" by (cases "m w") auto
  have "result (rendezvous_drop H rv w') = Inr ()" for w'
    by (simp add: rendezvous_drop_def try_attempt_call_run run_simps)
  then obtain qs' w'' where "rendezvous_drop H rv w' = (Inr (), qs', w'')"
    by (metis result.simps prod.exhaust)
  with m show ?thesis by (simp add: and_drop_def try_then_def attempt_def run_simps)
qed

lemma rendezvous_serve_ends:
  assumes "ticking H time" and "10000 < fuel"
  shows "result (rendezvous_serve H fuel rv pid payload w) \<noteq> Inr None"
proof -
  let ?c = "h_int H w ClockNow"
  have t: "fst ?c = Inr (time w)" "time w \<le> time (snd ?c)"
    using assms(1) unfolding ticking_def by blast+
  have "result (accept_before H fuel (rv_listener rv) (time w + ACCEPT_TIMEOUT) (snd ?c)) \<noteq> Inr None"
    by (rule accept_before_ends [OF assms(1)]) (use t assms(2) in \<open>simp add: ACCEPT_TIMEOUT_def\<close>)
  then show ?thesis
    unfolding rendezvous_serve_def and_drop_result clock_now_def try_call_run t(1) sum.case
    by (cases "accept_before H fuel (rv_listener rv) (time w + ACCEPT_TIMEOUT) (snd ?c)"
          rule: prod_cases3)
       (auto simp: try_then_def run_simps call_def split: sum.split option.split prod.split)
qed

section \<open>Properties\<close>

text \<open>C38. The wire format is sound: what the parent encodes, the child decodes, and a message
  that breaks off anywhere before its end is refused rather than read as a smaller namespace.\<close>

theorem wire_roundtrip:
  assumes "payload_fits cwd ms"
  shows "decode (encode cwd ms) =
      Inr \<lparr> d_cwd = cwd, d_mounts = map (\<lambda>(at, acc, h). (at, acc)) ms \<rparr> \<and>
    (\<forall>a b. encode cwd ms = a @ b \<longrightarrow> b \<noteq> [] \<longrightarrow> (\<exists>e. decode a = Inl e))"
  using decode_encode [OF assms] decode_truncated [OF assms] by blast

definition demo_payload :: session_payload where
  "demo_payload = \<lparr> p_cwd = ''/work'',
     p_mounts = [(''/work/.git'', ReadOnly, 7), (''/work'', ReadWrite, 7)] \<rparr>"

lemma demo_payload_fits: "payload_fits (p_cwd demo_payload) (p_mounts demo_payload)"
proof -
  have "valid_utf8 ''/work''" "valid_utf8 ''/work/.git''" by code_simp+
  then show ?thesis
    by (simp add: payload_fits_def encodable_def demo_payload_def encode_def put_str_def le32_def)
qed

lemma demo_payload_decoded:
  "decode (encode (p_cwd demo_payload) (p_mounts demo_payload)) =
     Inr \<lparr> d_cwd = ''/work'', d_mounts = [(''/work/.git'', ReadOnly), (''/work'', ReadWrite)] \<rparr>"
  unfolding decode_encode [OF demo_payload_fits] by (simp add: demo_payload_def)

theorem wire_roundtrip_witness:
  "decode (encode (p_cwd demo_payload) (p_mounts demo_payload)) =
      Inr \<lparr> d_cwd = p_cwd demo_payload,
            d_mounts = map (\<lambda>(at, acc, h). (at, acc)) (p_mounts demo_payload) \<rparr> \<and>
    (\<exists>e. decode (take 20 (encode (p_cwd demo_payload) (p_mounts demo_payload))) = Inl e)"
proof -
  let ?x = "encode (p_cwd demo_payload) (p_mounts demo_payload)"
  have "?x = take 20 ?x @ drop 20 ?x" by simp
  moreover have "drop 20 ?x \<noteq> []"
    by (simp add: demo_payload_def encode_def put_str_def le32_def)
  ultimately show ?thesis using wire_roundtrip [OF demo_payload_fits] by blast
qed

text \<open>C2. The child runs in its parent's namespace. A session captured, encoded, decoded and
  assembled around one received descriptor per mount has the same mount points with the same
  access in the same order, resolves every path to the same mount and remainder, stands in the
  same directory, and knows no host path.\<close>

theorem child_gets_parents_namespace:
  assumes "nfc_ok u" and "table_ok (s_vfs s)" and "\<forall>m \<in> set (mounts (s_vfs s)). wf_path u (m_at m)"
    and "distinct (map (mount_key u \<circ> m_at) (mounts (s_vfs s)))" and "session_ok u s"
    and "result (capture H s w) = Inr pl" and "payload_fits (p_cwd pl) (p_mounts pl)"
    and "decode (encode (p_cwd pl) (p_mounts pl)) = Inr d"
    and "result (assemble H' u d fds w') = Inr s'"
  shows "map (\<lambda>m. (m_at m, m_access m, m_shadows_nested m)) (mounts (s_vfs s')) =
      map (\<lambda>m. (m_at m, m_access m, m_shadows_nested m)) (mounts (s_vfs s)) \<and>
    mt_resolve (s_vfs s') = mt_resolve (s_vfs s) \<and> s_cwd s' = s_cwd s \<and>
    map m_dir (mounts (s_vfs s')) = map MountDir fds \<and>
    (\<forall>m \<in> set (mounts (s_vfs s')). m_host_path m = None \<and> m_canonical m = None)"
proof -
  let ?t = "s_vfs s"
  note pl = capture_result [OF assms(6)]
  have d: "d = \<lparr> d_cwd = inner (s_cwd s),
      d_mounts = map (\<lambda>m. (inner (m_at m), m_access m)) (mounts ?t) \<rparr>"
    using assms(8) decode_encode [OF assms(7)] pl by simp
  note a = assemble_result [OF assms(1,9)]
  from a d have len: "length fds = length (mounts ?t)" by simp
  have "map (\<lambda>((at, acc), h). (at, acc, h)) (zip (d_mounts d) fds) =
      map (\<lambda>((p, acc, d), fd). (inner p, acc, fd)) (zip (lend_to_child ?t) fds)"
    by (simp add: d lend_to_child_def zip_map1 split_def o_def)
  with a lend_rebuild_same [OF assms(2,3,4) len]
  have t': "map (\<lambda>m. (m_at m, m_access m, m_shadows_nested m)) (mounts (s_vfs s')) =
      map (\<lambda>m. (m_at m, m_access m, m_shadows_nested m)) (mounts ?t)"
    "mt_resolve (s_vfs s') = mt_resolve ?t" "map m_dir (mounts (s_vfs s')) = map MountDir fds"
    "\<forall>m \<in> set (mounts (s_vfs s')). m_host_path m = None \<and> m_canonical m = None"
    by auto
  from assms(5) have "resolve u root (inner (s_cwd s)) = Inr (s_cwd s)"
    by (intro resolve_inner) (simp add: session_ok_def)
  with a d have "s_cwd s' = s_cwd s" by simp
  with t' show ?thesis by simp
qed

definition demo_session :: session where
  "demo_session = \<lparr> s_vfs = demo_table, s_cwd = VirtualPath ''/work'' \<rparr>"

definition child_session :: session where
  "child_session = \<lparr> s_vfs = \<lparr> mounts =
       [\<lparr> m_at = VirtualPath ''/work/.git'', m_dir = MountDir 3, m_host_path = None,
          m_canonical = None, m_access = ReadOnly, m_shadows_nested = False \<rparr>,
        \<lparr> m_at = VirtualPath ''/work'', m_dir = MountDir 4, m_host_path = None,
          m_canonical = None, m_access = ReadWrite, m_shadows_nested = True \<rparr>] \<rparr>,
     s_cwd = VirtualPath ''/work'' \<rparr>"

theorem child_gets_parents_namespace_witness:
  "map (\<lambda>m. (m_at m, m_access m, m_shadows_nested m)) (mounts (s_vfs child_session)) =
      map (\<lambda>m. (m_at m, m_access m, m_shadows_nested m)) (mounts (s_vfs demo_session)) \<and>
    mt_resolve (s_vfs child_session) = mt_resolve (s_vfs demo_session) \<and>
    s_cwd child_session = s_cwd demo_session \<and>
    map m_dir (mounts (s_vfs child_session)) = map MountDir [3, 4] \<and>
    list_all (\<lambda>m. m_host_path m = None \<and> m_canonical m = None) (mounts (s_vfs child_session))"
  unfolding list_all_iff
proof (rule child_gets_parents_namespace [OF nfc_ok_ascii])
  show "table_ok (s_vfs demo_session)" by code_simp
  show "\<forall>m \<in> set (mounts (s_vfs demo_session)). wf_path ascii_unicode (m_at m)" by code_simp
  show "distinct (map (mount_key ascii_unicode \<circ> m_at) (mounts (s_vfs demo_session)))" by code_simp
  show "session_ok ascii_unicode demo_session" by code_simp
  show "result (capture still_host demo_session ()) = Inr demo_payload" by code_simp
  show "payload_fits (p_cwd demo_payload) (p_mounts demo_payload)" by (rule demo_payload_fits)
  show "decode (encode (p_cwd demo_payload) (p_mounts demo_payload)) =
      Inr \<lparr> d_cwd = ''/work'', d_mounts = [(''/work/.git'', ReadOnly), (''/work'', ReadWrite)] \<rparr>"
    by (rule demo_payload_decoded)
  show "result (assemble still_host ascii_unicode
      \<lparr> d_cwd = ''/work'', d_mounts = [(''/work/.git'', ReadOnly), (''/work'', ReadWrite)] \<rparr> [3, 4] ()) =
      Inr child_session" by code_simp
qed

text \<open>Descriptors go to the child alone: a payload is only ever sent on a stream whose peer
  process is the one that was spawned, and it is exactly the captured namespace.\<close>

theorem served_only_to_the_child:
  assumes "peers_are H peer"
    and "SocketSend stream bytes fds \<in> set (requests (rendezvous_serve H fuel rv pid payload w))"
  shows "peer stream = int pid \<and> bytes = encode (p_cwd payload) (p_mounts payload) \<and>
    fds = map (\<lambda>(at, acc, fd). fd) (p_mounts payload)"
  using emits_requests [OF rendezvous_serve_emits [OF assms(1)] assms(2)]
  by (simp add: sends_only_def)

definition demo_rendezvous :: rendezvous where
  "demo_rendezvous = \<lparr> rv_dir = ''/tmp/b'', rv_path = ''/tmp/b/s0'', rv_listener = 9 \<rparr>"

theorem served_only_to_the_child_witness:
  "(\<lambda>s. 7 :: int) (7 :: nat) = int 7 \<and>
    encode (p_cwd demo_payload) (p_mounts demo_payload) =
      encode (p_cwd demo_payload) (p_mounts demo_payload) \<and>
    [7, 7] = map (\<lambda>(at, acc, fd). fd) (p_mounts demo_payload)"
proof (rule served_only_to_the_child)
  show "peers_are still_host (\<lambda>s. 7)" by (simp add: peers_are_def still_host_def)
  show "SocketSend 7 (encode (p_cwd demo_payload) (p_mounts demo_payload)) [7, 7] \<in> set (requests
      (rendezvous_serve still_host 1 demo_rendezvous 7 demo_payload ()))"
    by (simp add: rendezvous_serve_def and_drop_def rendezvous_drop_def clock_now_def peer_pid_def
        demo_rendezvous_def still_host_def try_then_def attempt_def call_def run_simps
        accept_before.simps(2) [of _ 0, simplified] demo_payload_def)
qed

text \<open>C40. Neither side waits for ever: on a clock that advances across a sleep, ten thousand and
  one polls reach an answer or the deadline, for the parent that accepts and for the child that
  connects.\<close>

theorem handshake_ends:
  assumes "ticking H time" and "10000 < fuel"
  shows "result (rendezvous_serve H fuel rv pid payload w) \<noteq> Inr None \<and>
    result (connect_before H fuel path (time w' + RECEIVE_TIMEOUT) w') \<noteq> Inr None"
proof
  show "result (rendezvous_serve H fuel rv pid payload w) \<noteq> Inr None"
    by (rule rendezvous_serve_ends [OF assms])
  show "result (connect_before H fuel path (time w' + RECEIVE_TIMEOUT) w') \<noteq> Inr None"
    by (rule connect_before_ends [OF assms(1)]) (use assms(2) in \<open>simp add: RECEIVE_TIMEOUT_def\<close>)
qed

text \<open>A host whose only state is the time and on which no one ever connects.\<close>

definition lonely_host :: "int host" where
  "lonely_host =
     \<lparr> h_unit = (\<lambda>w q. (Inr (), case q of SleepMillis n \<Rightarrow> w + int n | _ \<Rightarrow> w)),
       h_bool = (\<lambda>w q. (Inr True, w)), h_num = (\<lambda>w q. (Inl (OsError 11 WouldBlock), w)),
       h_meta = (\<lambda>w q. (Inr (plain_metadata Directory), w)), h_bytes = (\<lambda>w q. (Inr [], w)),
       h_names = (\<lambda>w q. (Inr [], w)), h_path = (\<lambda>w q. (Inr [], w)),
       h_int = (\<lambda>w q. (Inr w, w)), h_message = (\<lambda>w q. (Inr ([], []), w)) \<rparr>"

theorem handshake_ends_witness:
  "result (rendezvous_serve lonely_host 10001 demo_rendezvous 7 demo_payload 0) \<noteq> Inr None \<and>
    result (connect_before lonely_host 10001 ''/tmp/b/s0'' (id 0 + RECEIVE_TIMEOUT) 0) \<noteq> Inr None"
proof (rule handshake_ends)
  show "ticking lonely_host id" by (simp add: ticking_def lonely_host_def)
qed simp

end
