(* ===== verification/Discovery.thy ===== *)
theory Discovery
  imports Broker "HOL-Library.Sublist"
begin

text \<open>
  The bounded upward search a launcher makes before there is a namespace
  (\<^verbatim>\<open>brush-shell/src/discovery.rs\<close>): the outermost source-control root below the first stop, and
  the search for a file by name.

  A canonical host path is the list of its components below the root. The answer of
  \<^verbatim>\<open>Path::exists\<close> and \<^verbatim>\<open>Path::is_file\<close> is false when the host reports an error. The Linux stop set
  is modelled; the home directory comes from a crate and is an argument.
\<close>

section \<open>Data\<close>

definition DEFAULT_MARKERS :: "string list" where
  "DEFAULT_MARKERS = [''.git'', ''.hg'', ''.svn'', ''.jj'']"

record ceiling =
  c_dir :: host_path
  c_marker :: host_path

datatype bound_error =
    NoMarker host_path host_path
  | MarkerAtStop host_path host_path host_path
  | OutsideCeiling host_path host_path
  | BoundHost host_path io_error

record bound =
  b_markers :: "string list"
  b_stops :: "host_path list"

definition platform_stops :: "host_path list" where
  "platform_stops = [[''usr''], [''etc''], [''boot''], [''proc''], [''sys''], [''dev'']]"

section \<open>Asking the host\<close>

definition ask :: "'w host \<Rightarrow> request \<Rightarrow> ('w, bool) io" where
  "ask H q = try_then (attempt (call (h_bool H) q)) (\<lambda>r.
     ok (case r of Inl e \<Rightarrow> False | Inr b \<Rightarrow> b))"

definition canonical :: "'w host \<Rightarrow> host_path \<Rightarrow> ('w, bound_error + host_path) io" where
  "canonical H p = try_then (attempt (call (h_path H) (Canonicalize p))) (\<lambda>r.
     ok (case r of Inl e \<Rightarrow> Inl (BoundHost p e) | Inr c \<Rightarrow> Inr c))"

definition canonical_if_present :: "'w host \<Rightarrow> host_path \<Rightarrow> ('w, host_path option) io" where
  "canonical_if_present H p = try_then (attempt (call (h_path H) (Canonicalize p))) (\<lambda>r.
     ok (ok_option r))"

fun present_stops :: "'w host \<Rightarrow> host_path list \<Rightarrow> ('w, host_path list) io" where
  "present_stops H [] = ok []"
| "present_stops H (p # ps) =
     try_then (canonical_if_present H p) (\<lambda>c.
     try_then (present_stops H ps) (\<lambda>cs. ok (case c of None \<Rightarrow> cs | Some c \<Rightarrow> c # cs)))"

definition platform_default :: "'w host \<Rightarrow> host_path option \<Rightarrow> ('w, bound) io" where
  "platform_default H home =
     try_then (present_stops H platform_stops) (\<lambda>stops.
     try_then (case home of None \<Rightarrow> ok None | Some h \<Rightarrow> canonical_if_present H h) (\<lambda>h.
       ok \<lparr> b_markers = DEFAULT_MARKERS,
            b_stops = stops @ (case h of None \<Rightarrow> [] | Some h \<Rightarrow> [h]) \<rparr>))"

definition with_markers :: "bound \<Rightarrow> string list \<Rightarrow> bound" where
  "with_markers b ms = b\<lparr>b_markers := ms\<rparr>"

definition is_stop :: "bound \<Rightarrow> host_path \<Rightarrow> host_path option" where
  "is_stop b dir = find (\<lambda>stop. dir = stop) (b_stops b)"

fun first_marker :: "'w host \<Rightarrow> string list \<Rightarrow> host_path \<Rightarrow> ('w, host_path option) io" where
  "first_marker H [] dir = ok None"
| "first_marker H (name # names) dir =
     try_then (ask H (HostExists (dir @ [name]))) (\<lambda>found.
       if found then ok (Some (dir @ [name])) else first_marker H names dir)"

definition marker_in :: "'w host \<Rightarrow> bound \<Rightarrow> host_path \<Rightarrow> ('w, host_path option) io" where
  "marker_in H b dir = first_marker H (b_markers b) dir"

section \<open>The searches\<close>

function ceiling_loop ::
  "'w host \<Rightarrow> bound \<Rightarrow> host_path \<Rightarrow> host_path \<Rightarrow> ceiling option \<Rightarrow> ('w, bound_error + ceiling) io" where
  "ceiling_loop H b start cursor outermost =
     (case is_stop b cursor of
        Some stop \<Rightarrow>
          (case outermost of
             Some c \<Rightarrow> ok (Inr c)
           | None \<Rightarrow> try_then (marker_in H b cursor) (\<lambda>m.
               ok (case m of
                     Some marker \<Rightarrow> Inl (MarkerAtStop start marker stop)
                   | None \<Rightarrow> Inl (NoMarker start stop))))
      | None \<Rightarrow>
          try_then (marker_in H b cursor) (\<lambda>m.
            let outermost' = (case m of Some marker \<Rightarrow> Some \<lparr> c_dir = cursor, c_marker = marker \<rparr>
                                      | None \<Rightarrow> outermost)
            in if cursor = []
               then ok (case outermost' of Some c \<Rightarrow> Inr c | None \<Rightarrow> Inl (NoMarker start cursor))
               else ceiling_loop H b start (butlast cursor) outermost'))"
  by pat_completeness auto
termination
  by (relation "measure (\<lambda>(H, b, start, cursor, outermost). length cursor)") auto

declare ceiling_loop.simps [simp del]

definition find_ceiling :: "'w host \<Rightarrow> bound \<Rightarrow> host_path \<Rightarrow> ('w, bound_error + ceiling) io" where
  "find_ceiling H b start =
     try_then (canonical H start) (\<lambda>r.
       case r of Inl e \<Rightarrow> ok (Inl e) | Inr start \<Rightarrow> ceiling_loop H b start start None)"

definition permits :: "'w host \<Rightarrow> bound \<Rightarrow> host_path \<Rightarrow> ('w, bound_error + ceiling) io" where
  "permits H b dir =
     try_then (canonical H dir) (\<lambda>r.
       case r of
         Inl e \<Rightarrow> ok (Inl e)
       | Inr dir \<Rightarrow> try_then (find_ceiling H b dir) (\<lambda>c.
           ok (case c of
                 Inl e \<Rightarrow> Inl e
               | Inr c \<Rightarrow> if \<not> path_starts_with dir (c_dir c)
                         then Inl (OutsideCeiling dir (c_dir c)) else Inr c)))"

function upward_loop ::
  "'w host \<Rightarrow> bound \<Rightarrow> host_path \<Rightarrow> host_path \<Rightarrow> string \<Rightarrow> ('w, bound_error + host_path) io" where
  "upward_loop H b start cursor name =
     try_then (ask H (HostIsFile (cursor @ [name]))) (\<lambda>found.
       if found then ok (Inr (cursor @ [name]))
       else (case is_stop b cursor of
               Some stop \<Rightarrow> ok (Inl (NoMarker start stop))
             | None \<Rightarrow>
                 if cursor = [] then ok (Inl (NoMarker start cursor))
                 else upward_loop H b start (butlast cursor) name))"
  by pat_completeness auto
termination
  by (relation "measure (\<lambda>(H, b, start, cursor, name). length cursor)") auto

declare upward_loop.simps [simp del]

definition find_upward :: "'w host \<Rightarrow> bound \<Rightarrow> host_path \<Rightarrow> string \<Rightarrow> ('w, bound_error + host_path) io" where
  "find_upward H b start name =
     try_then (canonical H start) (\<lambda>r.
       case r of Inl e \<Rightarrow> ok (Inl e) | Inr start \<Rightarrow> upward_loop H b start start name)"

section \<open>A host that does not change while it is searched\<close>

definition stable_files :: "'w host \<Rightarrow> (host_path \<Rightarrow> bool) \<Rightarrow> (host_path \<Rightarrow> bool) \<Rightarrow> bool" where
  "stable_files H ex file \<longleftrightarrow>
     (\<forall>w p. fst (h_bool H w (HostExists p)) = Inr (ex p) \<and>
            fst (h_bool H w (HostIsFile p)) = Inr (file p))"


definition stops_at :: "bound \<Rightarrow> host_path \<Rightarrow> bool" where
  "stops_at b d \<longleftrightarrow> d \<in> set (b_stops b)"

lemma is_stop_None: "is_stop b d = None \<longleftrightarrow> \<not> stops_at b d"
  by (auto simp: is_stop_def stops_at_def find_None_iff)


text \<open>\<open>yields m v\<close>: from any world, \<open>m\<close> returns \<open>v\<close>.\<close>

definition yields :: "('w, 'a) io \<Rightarrow> 'a \<Rightarrow> bool" where
  "yields m v \<longleftrightarrow> (\<forall>w. result (m w) = Inr v)"

lemma yields_ok [simp]: "yields (ok v) v"
  by (simp add: yields_def run_simps)


lemma yields_ask:
  assumes "stable_files H ex file"
  shows "yields (ask H (HostExists p)) (ex p)" and "yields (ask H (HostIsFile p)) (file p)"
  using assms by (auto simp: yields_def ask_def try_attempt_call_run stable_files_def run_simps)


section \<open>The ceiling, said once\<close>

text \<open>The ancestors of a directory from itself up to the root, those met before any stop, and the
  ones among them that hold a marker: the ceiling is the last of these.\<close>

definition ancestors :: "host_path \<Rightarrow> host_path list" where
  "ancestors p = rev (prefixes p)"





lemma ancestors_Nil [simp]: "ancestors [] = [[]]"
  by (simp add: ancestors_def)

lemma ancestors_snoc [simp]: "ancestors (p @ [x]) = (p @ [x]) # ancestors p"
  by (simp add: ancestors_def)

lemma map_filter_Nil [simp]: "List.map_filter f [] = []"
  by (simp add: List.map_filter_def)

lemma map_filter_Cons [simp]:
  "List.map_filter f (x # xs) =
     (case f x of None \<Rightarrow> List.map_filter f xs | Some y \<Rightarrow> y # List.map_filter f xs)"
  by (simp add: List.map_filter_def split: option.split)







lemma yields_upward_loop:
  assumes "stable_files H ex file" and "result (upward_loop H b start p name w) = Inr (Inr f)"
  shows "\<exists>d. f = d @ [name] \<and> prefix d p \<and> file f \<and>
    (\<forall>e. strict_prefix d e \<longrightarrow> prefix e p \<longrightarrow> \<not> stops_at b e \<and> \<not> file (e @ [name]))"
  using assms(2)
proof (induction p arbitrary: w rule: rev_induct)
  case Nil
  from yields_ask(2) [OF assms(1), of "[] @ [name]"]
  obtain qs w' where "ask H (HostIsFile ([] @ [name])) w = (Inr (file ([] @ [name])), qs, w')"
    unfolding yields_def by (metis prod.collapse result.simps)
  with Nil have "f = [name] \<and> file f"
    by (subst (asm) upward_loop.simps)
       (auto simp: try_then_def run_simps split: if_splits option.splits)
  then show ?case by auto
next
  case (snoc x p)
  from yields_ask(2) [OF assms(1), of "(p @ [x]) @ [name]"]
  obtain qs w' where a: "ask H (HostIsFile ((p @ [x]) @ [name])) w =
      (Inr (file ((p @ [x]) @ [name])), qs, w')"
    unfolding yields_def by (metis prod.collapse result.simps)
  show ?case
  proof (cases "file ((p @ [x]) @ [name])")
    case True
    with snoc.prems a have "f = (p @ [x]) @ [name]"
      by (subst (asm) upward_loop.simps) (simp add: try_then_def run_simps)
    with True show ?thesis by (intro exI [of _ "p @ [x]"]) (fastforce dest: prefix_length_less prefix_length_le)
  next
    case False
    show ?thesis
    proof (cases "is_stop b (p @ [x])")
      case None
      then have n: "\<not> stops_at b (p @ [x])" by (simp add: is_stop_None)
      obtain r qs' w'' where r: "upward_loop H b start p name w' = (r, qs', w'')"
        by (cases "upward_loop H b start p name w'") auto
      with snoc.prems a False None have "result (upward_loop H b start p name w') = Inr (Inr f)"
        by (subst (asm) upward_loop.simps) (simp add: try_then_def)
      from snoc.IH [OF this] obtain d where d: "f = d @ [name]" "prefix d p" "file f"
        "\<forall>e. strict_prefix d e \<longrightarrow> prefix e p \<longrightarrow> \<not> stops_at b e \<and> \<not> file (e @ [name])" by blast
      with n False show ?thesis by (intro exI [of _ d]) (auto simp: prefix_snoc)
    next
      case (Some s)
      with snoc.prems a False show ?thesis
        by (subst (asm) upward_loop.simps) (simp add: try_then_def run_simps)
    qed
  qed
qed





lemma find_upward_result:
  assumes "stable_files H ex file" and "result (find_upward H b start name w) = Inr (Inr f)"
  shows "\<exists>p d. result (canonical H start w) = Inr (Inr p) \<and> f = d @ [name] \<and> prefix d p \<and> file f \<and>
    (\<forall>e. strict_prefix d e \<longrightarrow> prefix e p \<longrightarrow> \<not> stops_at b e \<and> \<not> file (e @ [name]))"
proof -
  obtain r qs w' where c: "canonical H start w = (r, qs, w')" by (cases "canonical H start w") auto
  from assms(2) c obtain p where r: "r = Inr (Inr p)"
    by (auto simp: find_upward_def try_then_def run_simps split: sum.splits prod.splits)
  obtain r' qs' w'' where l: "upward_loop H b p p name w' = (r', qs', w'')"
    by (cases "upward_loop H b p p name w'") auto
  with assms(2) c r have "result (upward_loop H b p p name w') = Inr (Inr f)"
    by (simp add: find_upward_def try_then_def)
  from yields_upward_loop [OF assms(1) this] c r show ?thesis by auto
qed

section \<open>Properties\<close>


text \<open>A home that is a stop, a checkout below it, and a vendored repository inside that.\<close>

definition checkout_host :: "unit host" where
  "checkout_host = still_host\<lparr>
     h_bool := (\<lambda>w q. (Inr (q \<in> {HostExists [''home'', ''u'', ''w'', ''.git''],
       HostExists [''home'', ''u'', ''w'', ''dep'', ''.git''], HostExists [''home'', ''.git''],
       HostIsFile [''home'', ''u'', ''w'', ''justfile'']}), w))\<rparr>"

definition checkout_exists :: "host_path \<Rightarrow> bool" where
  "checkout_exists p \<longleftrightarrow> p \<in> {[''home'', ''u'', ''w'', ''.git''],
     [''home'', ''u'', ''w'', ''dep'', ''.git''], [''home'', ''.git'']}"

definition home_bound :: bound where
  "home_bound = \<lparr> b_markers = DEFAULT_MARKERS, b_stops = [[''home'', ''u'']] \<rparr>"

lemma checkout_stable:
  "stable_files checkout_host checkout_exists (\<lambda>p. p = [''home'', ''u'', ''w'', ''justfile''])"
  by (simp add: stable_files_def checkout_host_def checkout_exists_def)


text \<open>The search for a file is bounded: what it returns is a file of that name in the start or an
  ancestor of it, with no stop strictly nearer to the start and no nearer file of that name.\<close>

theorem find_upward_bounded:
  assumes "stable_files H ex file" and "result (find_upward H b start name w) = Inr (Inr f)"
  shows "\<exists>p d. result (canonical H start w) = Inr (Inr p) \<and> f = d @ [name] \<and> prefix d p \<and> file f \<and>
    (\<forall>e. strict_prefix d e \<longrightarrow> prefix e p \<longrightarrow> \<not> stops_at b e \<and> \<not> file (e @ [name]))"
  by (rule find_upward_result [OF assms])

theorem find_upward_bounded_witness:
  "\<exists>p d. result (canonical checkout_host [''home'', ''u'', ''w'', ''dep''] ()) = Inr (Inr p) \<and>
    [''home'', ''u'', ''w'', ''justfile''] = d @ [''justfile''] \<and> prefix d p \<and>
    [''home'', ''u'', ''w'', ''justfile''] = [''home'', ''u'', ''w'', ''justfile''] \<and>
    (\<forall>e. strict_prefix d e \<longrightarrow> prefix e p \<longrightarrow>
       \<not> stops_at home_bound e \<and> \<not> e @ [''justfile''] = [''home'', ''u'', ''w'', ''justfile''])"
proof (rule find_upward_bounded [OF checkout_stable])
  show "result (find_upward checkout_host home_bound [''home'', ''u'', ''w'', ''dep''] ''justfile'' ()) =
     Inr (Inr [''home'', ''u'', ''w'', ''justfile''])"
    by (simp add: find_upward_def canonical_def upward_loop.simps checkout_host_def still_host_def
        home_bound_def is_stop_def ask_def try_then_def attempt_def call_def run_simps)
qed

text \<open>A start above the stop never meets it: a marker in \<^verbatim>\<open>/home\<close> becomes the ceiling of \<^verbatim>\<open>/home\<close>
  although the stop \<^verbatim>\<open>/home/u\<close> lies below it.\<close>

theorem ceiling_above_a_stop:
  "result (permits checkout_host home_bound [''home''] ()) =
     Inr (Inr \<lparr> c_dir = [''home''], c_marker = [''home'', ''.git''] \<rparr>) \<and>
   b_stops home_bound = [[''home'', ''u'']]"
  by (simp add: permits_def find_ceiling_def canonical_def ceiling_loop.simps checkout_host_def
      still_host_def home_bound_def DEFAULT_MARKERS_def is_stop_def marker_in_def ask_def
      try_then_def attempt_def call_def run_simps path_starts_with_def)

end
