(* ===== verification/Trust.thy ===== *)
theory Trust
  imports Broker "HOL-Library.Char_ord" "HOL-Library.List_Lexorder"
begin

text \<open>
  Consent (\<^verbatim>\<open>brush-shell/src/trust.rs\<close>): the sets of mounts a user has granted, the tier each was
  granted for, and whether a new request needs asking about.

  A granted mount is ordered as its derived \<^verbatim>\<open>Ord\<close> is: mount point, host directory, writability,
  each lexicographically. The TOML encoding comes from a crate and is an argument.
\<close>

section \<open>Granted mounts\<close>

datatype granted_mount = GrantedMount (gm_at: string) (gm_host: host_path) (gm_writable: bool)

instantiation granted_mount :: linorder
begin

definition less_eq_granted_mount :: "granted_mount \<Rightarrow> granted_mount \<Rightarrow> bool" where
  "less_eq_granted_mount a b \<longleftrightarrow>
     gm_at a < gm_at b \<or> gm_at a = gm_at b \<and>
       (gm_host a < gm_host b \<or> gm_host a = gm_host b \<and> gm_writable a \<le> gm_writable b)"

definition less_granted_mount :: "granted_mount \<Rightarrow> granted_mount \<Rightarrow> bool" where
  "less_granted_mount a b \<longleftrightarrow> a \<le> b \<and> \<not> b \<le> a"

instance
proof
  fix a b c :: granted_mount
  show "(a < b) = (a \<le> b \<and> \<not> b \<le> a)" by (simp add: less_granted_mount_def)
  show "a \<le> a" by (simp add: less_eq_granted_mount_def)
  show "a \<le> b \<Longrightarrow> b \<le> c \<Longrightarrow> a \<le> c"
    unfolding less_eq_granted_mount_def by (metis less_trans order_trans)
  show "a \<le> b \<Longrightarrow> b \<le> a \<Longrightarrow> a = b"
    unfolding less_eq_granted_mount_def
    by (metis granted_mount.expand less_asym' order_antisym)
  show "a \<le> b \<or> b \<le> a"
    unfolding less_eq_granted_mount_def by (metis linear less_linear)
qed

end

definition display_host :: "host_path \<Rightarrow> string" where
  "display_host p = CHR ''/'' # join_with ''/'' p"

definition as_flag :: "granted_mount \<Rightarrow> string" where
  "as_flag m = ''--mount '' @ gm_at m @ '':'' @ display_host (gm_host m) @ '':'' @
     (if gm_writable m then ''rw'' else ''ro'')"

section \<open>Granted sets\<close>

datatype granted_set = GrantedSet (gs_mounts: "granted_mount list")

definition set_new :: "granted_mount list \<Rightarrow> granted_set" where
  "set_new ms = GrantedSet (remdups_adj (sort ms))"

definition covered_by :: "granted_mount \<Rightarrow> granted_mount \<Rightarrow> bool" where
  "covered_by wanted granted \<longleftrightarrow>
     gm_at granted = gm_at wanted \<and> gm_host granted = gm_host wanted \<and>
     (gm_writable granted \<or> \<not> gm_writable wanted)"

definition is_subset_of :: "granted_set \<Rightarrow> granted_set \<Rightarrow> bool" where
  "is_subset_of s other =
     list_all (\<lambda>wanted. list_ex (\<lambda>granted. covered_by wanted granted) (gs_mounts other)) (gs_mounts s)"

definition beyond :: "granted_set \<Rightarrow> granted_set \<Rightarrow> granted_mount list" where
  "beyond s other = filter (\<lambda>wanted. \<not> is_subset_of (set_new [wanted]) other) (gs_mounts s)"

section \<open>Tiers and the store\<close>

datatype tier = Wasm | Native

definition tier_covers :: "tier \<Rightarrow> tier \<Rightarrow> bool" where
  "tier_covers a b = (case (a, b) of (Native, _) \<Rightarrow> True | (Wasm, Wasm) \<Rightarrow> True | _ \<Rightarrow> False)"

datatype decision = Accept | Ask "granted_mount list"

record granted_record =
  gr_set :: granted_set
  gr_tier :: tier

record trust_store =
  ts_granted :: "granted_record list"

definition covers_request :: "granted_set \<Rightarrow> tier \<Rightarrow> granted_record \<Rightarrow> bool" where
  "covers_request request tier g \<longleftrightarrow> tier_covers (gr_tier g) tier \<and> is_subset_of request (gr_set g)"

definition decide :: "trust_store \<Rightarrow> granted_set \<Rightarrow> tier \<Rightarrow> decision" where
  "decide st request tier =
     (if list_ex (covers_request request tier) (ts_granted st) then Accept
      else
        (case filter (\<lambda>g. tier_covers (gr_tier g) tier) (ts_granted st) of
           [] \<Rightarrow> Ask (gs_mounts request)
         | gs \<Rightarrow> Ask (beyond request
                   (gr_set (arg_min_list (\<lambda>g. length (beyond request (gr_set g))) gs)))))"

definition record_grant :: "trust_store \<Rightarrow> granted_set \<Rightarrow> tier \<Rightarrow> trust_store" where
  "record_grant st s tier =
     (if list_ex (covers_request s tier) (ts_granted st) then st
      else st\<lparr>ts_granted :=
        filter (\<lambda>g. \<not> (tier_covers tier (gr_tier g) \<and> is_subset_of (gr_set g) s)) (ts_granted st) @
        [\<lparr> gr_set = s, gr_tier = tier \<rparr>]\<rparr>)"

definition store_load :: "'w host \<Rightarrow> (string \<Rightarrow> granted_record list option) \<Rightarrow> host_path \<Rightarrow> ('w, trust_store) io" where
  "store_load H parse path =
     try_then (attempt (call (h_bytes H) (HostReadString path))) (\<lambda>r.
       let text = (case r of Inl e \<Rightarrow> [] | Inr s \<Rightarrow> if valid_utf8 s then s else [])
       in ok \<lparr> ts_granted = (case parse text of None \<Rightarrow> [] | Some gs \<Rightarrow> gs) \<rparr>)"

definition store_save ::
  "'w host \<Rightarrow> (granted_record list \<Rightarrow> string option) \<Rightarrow> trust_store \<Rightarrow> host_path \<Rightarrow> ('w, unit) io" where
  "store_save H print st path =
     (case print (ts_granted st) of
        None \<Rightarrow> fail (Custom InvalidData (Text ''toml''))
      | Some text \<Rightarrow>
          try_then (if path \<noteq> [] then call (h_unit H) (HostCreateDirAll (butlast path)) else ok ()) (\<lambda>_.
            call (h_unit H) (HostWrite path text)))"

definition refusal :: "granted_mount list \<Rightarrow> string" where
  "refusal excess =
     ''this project asks for access that has not been granted, and there is no terminal to ask on. Grant it explicitly with:'' @
     CHR 0x0A # ''    '' @ join_with (CHR 0x0A # ''    '') (map as_flag excess)"

definition granted_set_of :: "mount_table \<Rightarrow> granted_set" where
  "granted_set_of t = set_new (List.map_filter (\<lambda>m.
     map_option (\<lambda>h. GrantedMount (inner (m_at m)) h (m_access m = ReadWrite)) (m_host_path m))
     (mounts t))"

section \<open>Lemmas\<close>

lemma set_set_new [simp]: "set (gs_mounts (set_new ms)) = set ms"
  by (simp add: set_new_def)

lemma distinct_remdups_adj_sorted: "sorted (xs :: 'a :: linorder list) \<Longrightarrow> distinct (remdups_adj xs)"
  by (induction xs rule: remdups_adj.induct) (auto simp: antisym)

lemma set_new_cong: "set ms = set ns \<Longrightarrow> set_new ms = set_new ns"
  unfolding set_new_def
  by (simp add: sorted_distinct_set_unique sorted_remdups_adj distinct_remdups_adj_sorted)

lemma covered_refl: "covered_by m m"
  by (simp add: covered_by_def)

lemma covered_trans: "covered_by a b \<Longrightarrow> covered_by b c \<Longrightarrow> covered_by a c"
  by (auto simp: covered_by_def)

lemma is_subset_of_iff:
  "is_subset_of s t \<longleftrightarrow> (\<forall>a \<in> set (gs_mounts s). \<exists>b \<in> set (gs_mounts t). covered_by a b)"
  by (auto simp: is_subset_of_def list_all_iff list_ex_iff)

lemma subset_refl: "is_subset_of s s"
  by (auto simp: is_subset_of_iff intro: covered_refl)

lemma subset_trans: "is_subset_of a b \<Longrightarrow> is_subset_of b c \<Longrightarrow> is_subset_of a c"
  by (meson covered_trans is_subset_of_iff)

lemma tier_covers_refl: "tier_covers t t"
  by (cases t) (simp_all add: tier_covers_def)

lemma tier_covers_trans: "tier_covers a b \<Longrightarrow> tier_covers b c \<Longrightarrow> tier_covers a c"
  by (cases a; cases b; cases c) (simp_all add: tier_covers_def)

lemma covers_widen:
  "covers_request s tier g \<Longrightarrow> tier_covers tier tier' \<Longrightarrow> is_subset_of r s \<Longrightarrow> covers_request r tier' g"
  by (auto simp: covers_request_def intro: tier_covers_trans subset_trans)

lemma decide_Accept:
  "decide st r tier = Accept \<longleftrightarrow> (\<exists>g \<in> set (ts_granted st). covers_request r tier g)"
  by (auto simp: decide_def list_ex_iff split: list.split)

lemma in_beyond:
  "m \<in> set (beyond s t) \<longleftrightarrow> m \<in> set (gs_mounts s) \<and> \<not> (\<exists>b \<in> set (gs_mounts t). covered_by m b)"
  by (auto simp: beyond_def is_subset_of_iff)

lemma beyond_completes: "is_subset_of s (GrantedSet (beyond s t @ gs_mounts t))"
  unfolding is_subset_of_iff
proof
  fix a assume "a \<in> set (gs_mounts s)"
  then show "\<exists>b \<in> set (gs_mounts (GrantedSet (beyond s t @ gs_mounts t))). covered_by a b"
    by (cases "a \<in> set (beyond s t)") (auto simp: in_beyond intro: covered_refl)
qed

lemma beyond_Nil: "beyond s t = [] \<longleftrightarrow> is_subset_of s t"
  by (auto simp: beyond_def is_subset_of_iff filter_empty_conv)

lemma record_accepts:
  "decide (record_grant st s tier) r tier' = Accept \<longleftrightarrow>
     decide st r tier' = Accept \<or> tier_covers tier tier' \<and> is_subset_of r s"
proof (cases "\<exists>g \<in> set (ts_granted st). covers_request s tier g")
  case True
  then have "record_grant st s tier = st" by (simp add: record_grant_def list_ex_iff)
  with True show ?thesis by (auto simp: decide_Accept intro: covers_widen)
next
  case False
  then have st: "ts_granted (record_grant st s tier) =
      filter (\<lambda>g. \<not> (tier_covers tier (gr_tier g) \<and> is_subset_of (gr_set g) s)) (ts_granted st) @
      [\<lparr> gr_set = s, gr_tier = tier \<rparr>]"
    by (simp add: record_grant_def list_ex_iff)
  have dropped: "tier_covers tier tier' \<and> is_subset_of r s"
    if "covers_request r tier' g" "tier_covers tier (gr_tier g)" "is_subset_of (gr_set g) s" for g
    using that by (auto simp: covers_request_def intro: tier_covers_trans subset_trans)
  show ?thesis
    unfolding decide_Accept st using dropped by (auto simp: covers_request_def)
qed

lemma arg_min_list_in: "xs \<noteq> [] \<Longrightarrow> arg_min_list f xs \<in> set xs"
  by (induction xs rule: induct_list012) (auto simp: Let_def)

lemma decide_Ask:
  assumes "decide st r tier = Ask ms"
  shows "set ms \<subseteq> set (gs_mounts r) \<and>
    (\<exists>t. is_subset_of r (GrantedSet (ms @ gs_mounts t)) \<and>
      (t = GrantedSet [] \<or> (\<exists>g \<in> set (ts_granted st). gr_set g = t \<and> tier_covers (gr_tier g) tier)))"
proof -
  let ?gs = "filter (\<lambda>g. tier_covers (gr_tier g) tier) (ts_granted st)"
  let ?min = "arg_min_list (\<lambda>g. length (beyond r (gr_set g))) ?gs"
  have "\<not> list_ex (covers_request r tier) (ts_granted st)"
    using assms by (auto simp: decide_def split: if_splits)
  show ?thesis
  proof (cases "?gs = []")
    case True
    with assms have "ms = gs_mounts r" by (auto simp: decide_def split: if_splits)
    moreover have "is_subset_of r (GrantedSet (gs_mounts r @ gs_mounts (GrantedSet [])))"
      by (auto simp: is_subset_of_iff intro: covered_refl)
    ultimately show ?thesis by blast
  next
    case False
    with assms have ms: "ms = beyond r (gr_set ?min)"
      by (auto simp: decide_def split: if_splits list.splits)
    have min: "?min \<in> set (ts_granted st)" "tier_covers (gr_tier ?min) tier"
      using arg_min_list_in [OF False] unfolding set_filter by blast+
    have "is_subset_of r (GrantedSet (ms @ gs_mounts (gr_set ?min)))"
      unfolding ms by (rule beyond_completes)
    moreover have "set ms \<subseteq> set (gs_mounts r)" unfolding ms by (auto simp: in_beyond)
    ultimately show ?thesis using min by blast
  qed
qed

section \<open>Properties\<close>

text \<open>A consent set does not depend on how it was written down: the same mounts in any order, with
  any repetitions, are one set.\<close>

theorem consent_ignores_order:
  assumes "set ms = set ns"
  shows "set_new ms = set_new ns \<and> set (gs_mounts (set_new ms)) = set ms"
  using set_new_cong [OF assms] assms by simp

theorem consent_ignores_order_witness:
  "set_new [GrantedMount ''/work'' [''p''] True, GrantedMount ''/a'' [] False] =
     set_new [GrantedMount ''/a'' [] False, GrantedMount ''/work'' [''p''] True, GrantedMount ''/a'' [] False] \<and>
   set (gs_mounts (set_new [GrantedMount ''/work'' [''p''] True, GrantedMount ''/a'' [] False])) =
     set [GrantedMount ''/work'' [''p''] True, GrantedMount ''/a'' [] False]"
  by (rule consent_ignores_order) auto

text \<open>C36. Recording consent adds exactly what was consented to. After a set is recorded at a tier, a
  request is accepted just when it was accepted before, or asks for no more than that set at a
  tier the consent covers; the pruning of superseded records loses nothing.\<close>

theorem record_is_exact:
  "decide (record_grant st s tier) r tier' = Accept \<longleftrightarrow>
     decide st r tier' = Accept \<or> tier_covers tier tier' \<and> is_subset_of r s"
  by (rule record_accepts)

text \<open>Narrowing never asks again, and only narrowing: what is accepted stays accepted when a
  request drops mounts, gives up writing or moves to the sandboxed tier.\<close>

theorem narrowing_never_asks:
  assumes "decide st r tier = Accept" and "is_subset_of r' r" and "tier_covers tier tier'"
  shows "decide st r' tier' = Accept"
  using assms by (auto simp: decide_Accept intro: covers_widen)

definition rw_request :: granted_set where
  "rw_request = set_new [GrantedMount ''/work'' [''p''] True, GrantedMount ''/data'' [''d''] True]"

definition ro_request :: granted_set where
  "ro_request = set_new [GrantedMount ''/work'' [''p''] False]"

theorem narrowing_never_asks_witness:
  "decide (record_grant \<lparr> ts_granted = [] \<rparr> rw_request Native) ro_request Wasm = Accept"
proof (rule narrowing_never_asks)
  show "decide (record_grant \<lparr> ts_granted = [] \<rparr> rw_request Native) rw_request Native = Accept"
    by code_simp
  show "is_subset_of ro_request rw_request" by code_simp
  show "tier_covers Native Wasm" by code_simp
qed

text \<open>Consent to the sandboxed tier is not consent to run natively: while no record is for the
  native tier, every native request is asked about in full.\<close>

theorem native_needs_its_own_consent:
  assumes "list_all (\<lambda>g. gr_tier g = Wasm) (ts_granted st)"
  shows "decide st r Native = Ask (gs_mounts r)"
proof -
  have none: "filter (\<lambda>g. tier_covers (gr_tier g) Native) (ts_granted st) = []"
    using assms by (auto simp: list_all_iff filter_empty_conv tier_covers_def)
  then have "\<not> list_ex (covers_request r Native) (ts_granted st)"
    by (auto simp: list_ex_iff covers_request_def filter_empty_conv)
  with none show ?thesis by (simp add: decide_def)
qed

theorem native_needs_its_own_consent_witness:
  "decide (record_grant \<lparr> ts_granted = [] \<rparr> rw_request Wasm) ro_request Native =
     Ask (gs_mounts ro_request)"
  by (rule native_needs_its_own_consent) code_simp

text \<open>The excess reported is honest: it is part of the request, and together with one recorded set
  of a covering tier (or nothing) it covers the whole request, so granting it suffices.\<close>

theorem excess_suffices:
  assumes "decide st r tier = Ask ms"
  shows "set ms \<subseteq> set (gs_mounts r) \<and>
    (\<exists>t. is_subset_of r (GrantedSet (ms @ gs_mounts t)) \<and>
      (t = GrantedSet [] \<or> (\<exists>g \<in> set (ts_granted st). gr_set g = t \<and> tier_covers (gr_tier g) tier)))"
  by (rule decide_Ask [OF assms])

theorem excess_suffices_witness:
  "set [GrantedMount ''/data'' [''d''] True] \<subseteq> set (gs_mounts rw_request) \<and>
    (\<exists>t. is_subset_of rw_request (GrantedSet ([GrantedMount ''/data'' [''d''] True] @ gs_mounts t)) \<and>
      (t = GrantedSet [] \<or>
       (\<exists>g \<in> set (ts_granted (record_grant \<lparr> ts_granted = [] \<rparr>
            (set_new [GrantedMount ''/work'' [''p''] True]) Native)).
          gr_set g = t \<and> tier_covers (gr_tier g) Native)))"
  by (rule excess_suffices) code_simp

end
