(* ===== verification/Grant.thy ===== *)
theory Grant
  imports Discovery Trust
begin

unbundle bit_operations_syntax

text \<open>
  From a discovered project to its namespace (\<^verbatim>\<open>brush-shell/src/grant.rs\<close>): the host directories
  a project is granted, where its home is kept, and the mount table they make.

  The platform's state directory comes from the crate \<^verbatim>\<open>etcetera\<close> and is an argument: \<open>None\<close> when
  there is no strategy, otherwise the optional state directory and the data directory.
\<close>

section \<open>Data\<close>

definition PROJECT_MOUNT :: string where
  "PROJECT_MOUNT = ''/work''"

definition HOME_MOUNT :: string where
  "HOME_MOUNT = ''/home/user''"

datatype grant_error =
    NoStateDir
  | GrantHost host_path io_error
  | MarkerOutsideRoot host_path host_path
  | GrantMounts mount_error

record grant =
  g_root :: host_path
  g_marker :: host_path
  g_home :: host_path
  g_shadow :: host_path

type_synonym base_strategy = "(host_path option \<times> host_path) option"

section \<open>Where a project's home is kept\<close>

text \<open>\<^verbatim>\<open>{hash:016x}\<close>.\<close>

definition hex_digit :: "nat \<Rightarrow> char" where
  "hex_digit n = ''0123456789abcdef'' ! n"

fun hex_digits :: "nat \<Rightarrow> nat \<Rightarrow> string" where
  "hex_digits 0 n = []"
| "hex_digits (Suc k) n = hex_digits k (n div 16) @ [hex_digit (n mod 16)]"

definition key_char :: "char \<Rightarrow> bool" where
  "key_char c \<longleftrightarrow> ascii_alnum c \<or> c = CHR ''-'' \<or> c = CHR ''_''"

definition key_name :: "host_path \<Rightarrow> string" where
  "key_name p =
     (case (if p = [] then None else nameable (last p)) of
        Some n \<Rightarrow> if list_all key_char n then n else ''project''
      | None \<Rightarrow> ''project'')"

definition fnv_step :: "u64 \<Rightarrow> char \<Rightarrow> u64" where
  "fnv_step h c = (h XOR word_of_nat (of_char c)) * 0x100000001b3"

definition fnv1a :: "string \<Rightarrow> u64" where
  "fnv1a s = foldl fnv_step 0xcbf29ce484222325 s"

definition home_key :: "host_path \<Rightarrow> string" where
  "home_key p = key_name p @ ''-'' @ hex_digits 16 (unat (fnv1a (display_host p)))"

definition launcher_state :: "base_strategy \<Rightarrow> grant_error + host_path" where
  "launcher_state strategy =
     (case strategy of
        None \<Rightarrow> Inl NoStateDir
      | Some (state, data) \<Rightarrow>
          Inr ((case state of Some d \<Rightarrow> d | None \<Rightarrow> data) @ [''brush'']))"

definition trust_store_path :: "base_strategy \<Rightarrow> host_path option" where
  "trust_store_path strategy =
     map_option (\<lambda>d. d @ [''trust.toml'']) (ok_option (launcher_state strategy))"

definition project_home ::
  "'w host \<Rightarrow> base_strategy \<Rightarrow> host_path \<Rightarrow> ('w, grant_error + host_path) io" where
  "project_home H strategy p =
     (case launcher_state strategy of
        Inl e \<Rightarrow> ok (Inl e)
      | Inr d \<Rightarrow>
          (let home = d @ [''homes'', home_key p] in
           try_then (attempt (call (h_unit H) (HostCreateDirAll home))) (\<lambda>r.
             ok (case r of Inl e \<Rightarrow> Inl (GrantHost home e) | Inr _ \<Rightarrow> Inr home))))"

definition shadow_dir :: "'w host \<Rightarrow> base_strategy \<Rightarrow> ('w, grant_error + host_path) io" where
  "shadow_dir H strategy =
     (case launcher_state strategy of
        Inl e \<Rightarrow> ok (Inl e)
      | Inr d \<Rightarrow>
          (let dir = d @ [''empty''] in
           try_then (attempt (call (h_unit H) (HostCreateDirAll dir))) (\<lambda>r.
             ok (case r of Inl e \<Rightarrow> Inl (GrantHost dir e) | Inr _ \<Rightarrow> Inr dir))))"

section \<open>The grant and its mounts\<close>

definition derive ::
  "'w host \<Rightarrow> base_strategy \<Rightarrow> host_path \<Rightarrow> ceiling \<Rightarrow> ('w, grant_error + grant) io" where
  "derive H strategy p c =
     try_then (project_home H strategy p) (\<lambda>home.
       case home of
         Inl e \<Rightarrow> ok (Inl e)
       | Inr home \<Rightarrow>
           try_then (shadow_dir H strategy) (\<lambda>shadow.
             ok (case shadow of
                   Inl e \<Rightarrow> Inl e
                 | Inr shadow \<Rightarrow>
                     Inr \<lparr> g_root = p, g_marker = c_marker c, g_home = home,
                           g_shadow = shadow \<rparr>)))"

fun marker_text :: "string \<Rightarrow> string list \<Rightarrow> string option" where
  "marker_text at [] = Some at"
| "marker_text at (c # cs) =
     (case nameable c of None \<Rightarrow> None | Some s \<Rightarrow> marker_text ((at @ ''/'') @ s) cs)"

definition marker_mount_point :: "grant \<Rightarrow> string option" where
  "marker_mount_point g =
     (if \<not> path_starts_with (g_marker g) (g_root g) then None
      else (case marker_text PROJECT_MOUNT (drop (length (g_root g)) (g_marker g)) of
              None \<Rightarrow> None
            | Some at \<Rightarrow> if at \<noteq> PROJECT_MOUNT then Some at else None))"

definition grant_entries :: "unicode \<Rightarrow> grant \<Rightarrow> string \<Rightarrow> mount_error + builder" where
  "grant_entries u g marker_at =
     (case builder_mount u [] PROJECT_MOUNT (g_root g) ReadWrite of
        Inl e \<Rightarrow> Inl e
      | Inr b \<Rightarrow>
          (case builder_mount u b marker_at (g_shadow g) ReadOnly of
             Inl e \<Rightarrow> Inl e
           | Inr b \<Rightarrow> builder_mount u b HOME_MOUNT (g_home g) ReadWrite))"

definition grant_table ::
  "'w host \<Rightarrow> unicode \<Rightarrow> grant \<Rightarrow> ('w, grant_error + mount_table) io" where
  "grant_table H u g =
     (case marker_mount_point g of
        None \<Rightarrow> ok (Inl (MarkerOutsideRoot (g_marker g) (g_root g)))
      | Some at \<Rightarrow>
          (case grant_entries u g at of
             Inl e \<Rightarrow> ok (Inl (GrantMounts e))
           | Inr b \<Rightarrow> try_then (build H u b) (\<lambda>t. ok (map_err GrantMounts t))))"

section \<open>Keys\<close>

lemma length_hex_digits [simp]: "length (hex_digits k n) = k"
  by (induction k arbitrary: n) auto

lemma hex_digit_inj: "a < 16 \<Longrightarrow> b < 16 \<Longrightarrow> hex_digit a = hex_digit b \<longleftrightarrow> a = b"
  unfolding hex_digit_def by (rule nth_eq_iff_index_eq) auto

lemma base16_pair:
  "b < 16 \<Longrightarrow> d < 16 \<Longrightarrow> 16 * a + b = 16 * c + d \<longleftrightarrow> a = c \<and> b = d" for a b c d :: nat
proof -
  assume "b < 16" "d < 16"
  moreover have "(16 * a + b) div 16 = a" "(16 * a + b) mod 16 = b" if "b < 16" for a b :: nat
    using that by simp_all
  ultimately show "16 * a + b = 16 * c + d \<longleftrightarrow> a = c \<and> b = d" by metis
qed

lemma base16_split: "n mod 16 ^ Suc k = 16 * (n div 16 mod 16 ^ k) + n mod 16" for n :: nat
  by (simp only: power_Suc mod_mult2_eq)

lemma mod16_less: "n mod 16 < (16 :: nat)"
  by simp

lemma hex_digits_inj: "hex_digits k n = hex_digits k m \<longleftrightarrow> n mod 16 ^ k = m mod 16 ^ k"
proof (induction k arbitrary: n m)
  case 0
  then show ?case by simp
next
  case (Suc k)
  show ?case
    unfolding base16_split base16_pair [OF mod16_less mod16_less] hex_digits.simps append1_eq_conv
      Suc.IH hex_digit_inj [OF mod16_less mod16_less]
    by (rule refl)
qed

lemma hex_word_inj: "hex_digits 16 (unat v) = hex_digits 16 (unat w) \<longleftrightarrow> v = w" for v w :: u64
proof -
  have "unat x mod 16 ^ 16 = unat x" for x :: u64
    using unsigned_less [of x, where ?'a = nat] by (intro mod_less) simp
  then show ?thesis unfolding hex_digits_inj by (simp only: word_unat_eq_iff)
qed

lemma hex_digit_key: "n < 16 \<Longrightarrow> key_char (hex_digit n)"
proof -
  have "list_all key_char ''0123456789abcdef''" by code_simp
  moreover assume "n < 16"
  ultimately show ?thesis by (simp add: hex_digit_def list_all_length)
qed

lemma hex_digits_key: "list_all key_char (hex_digits k n)"
  by (induction k arbitrary: n) (auto simp: hex_digit_key)

lemma key_name_key: "list_all key_char (key_name p)"
proof -
  have "list_all key_char ''project''" by code_simp
  then show ?thesis by (simp add: key_name_def split: option.split)
qed

lemma fnv_prime: "(0x100000001b3 :: u64) * 0xce965057aff6957b = 1"
  by simp

lemma fnv_cancel: "x * 0x100000001b3 = y * 0x100000001b3 \<longleftrightarrow> x = y" for x y :: u64
proof
  assume "x * 0x100000001b3 = y * 0x100000001b3"
  then have "x * 0x100000001b3 * 0xce965057aff6957b = y * 0x100000001b3 * 0xce965057aff6957b" by simp
  then show "x = y" unfolding mult.assoc fnv_prime by (simp only: mult_1_right)
qed (rule arg_cong)

lemma xor_twice: "(a XOR b) XOR b = a" for a b :: u64
  by (simp only: xor.assoc xor_self_eq xor.right_neutral)

lemma xor_cancel: "a XOR b = c XOR b \<longleftrightarrow> a = c" for a b c :: u64
  by (metis xor_twice)

lemma byte_word: "unat (word_of_nat (of_char c) :: u64) = of_char c"
proof -
  have "of_char c < (256 :: nat)" by simp
  then have "of_char c < (2 ^ LENGTH(64) :: nat)" by (rule less_le_trans) simp
  then show ?thesis unfolding unat_of_nat by (rule mod_less)
qed

lemma byte_word_inj: "(word_of_nat (of_char c) :: u64) = word_of_nat (of_char d) \<longleftrightarrow> c = d"
  by (metis byte_word of_char_eq_iff)

lemma fnv_step_inj: "fnv_step g c = fnv_step h c \<longleftrightarrow> g = h"
  unfolding fnv_step_def fnv_cancel xor_cancel by (rule refl)

lemma fnv_step_char: "fnv_step h c = fnv_step h d \<longleftrightarrow> c = d"
  unfolding fnv_step_def fnv_cancel xor.commute [of h] xor_cancel byte_word_inj by (rule refl)

lemma fnv_tail_inj: "foldl fnv_step g s = foldl fnv_step h s \<longleftrightarrow> g = h"
  by (induction s arbitrary: g h) (auto simp: fnv_step_inj)

lemma fnv1a_one_byte: "fnv1a (a @ c # b) = fnv1a (a @ d # b) \<longleftrightarrow> c = d"
  by (simp add: fnv1a_def fnv_tail_inj fnv_step_char)

lemma home_key_eq:
  "home_key p = home_key q \<longleftrightarrow>
     key_name p = key_name q \<and> fnv1a (display_host p) = fnv1a (display_host q)"
proof -
  have "key_name p @ ''-'' @ hex_digits 16 n = key_name q @ ''-'' @ hex_digits 16 m \<longleftrightarrow>
      key_name p = key_name q \<and> hex_digits 16 n = hex_digits 16 m" for n m
    using append_eq_append_conv [of "hex_digits 16 n" "hex_digits 16 m" "key_name p @ ''-''" "key_name q @ ''-''"]
    by simp
  then show ?thesis by (simp add: home_key_def hex_word_inj)
qed

lemma hex_digits_numeral:
  "hex_digits (numeral k) n = hex_digits (pred_numeral k) (n div 16) @ [hex_digit (n mod 16)]"
  unfolding numeral_eq_Suc [of k] by (rule hex_digits.simps(2))

lemma fnv1a_vector: "fnv1a ''/a/proj'' = 0xe6a8e6d8398d46e5"
  by (simp add: fnv1a_def fnv_step_def)

lemma hex_vector: "hex_digits 16 0xe6a8e6d8398d46e5 = ''e6a8e6d8398d46e5''"
  by (simp add: hex_digits_numeral hex_digit_def)

lemma home_key_vector: "home_key [''a'', ''proj''] = ''proj-e6a8e6d8398d46e5''"
proof -
  have "key_name [''a'', ''proj''] = ''proj''" and d: "display_host [''a'', ''proj''] = ''/a/proj''"
    by code_simp+
  moreover have "unat (0xe6a8e6d8398d46e5 :: u64) = 0xe6a8e6d8398d46e5" by simp
  ultimately show ?thesis by (simp only: home_key_def fnv1a_vector hex_vector append.simps)
qed

section \<open>The namespace of a grant\<close>

lemma resolve_loop_plain:
  assumes "nfc_ok u" and "list_all plain_component cs" and "resolve_loop u comps cs = Inr out"
  shows "out = comps @ map (nfc u) cs"
  using assms(2,3)
proof (induction cs arbitrary: comps)
  case Nil
  then show ?case by simp
next
  case (Cons c cs)
  from Cons.prems obtain d where v: "validate_component u c = Inr d"
    and r: "resolve_loop u (comps @ [d]) cs = Inr out"
    by (auto simp: plain_component_def split: sum.splits)
  from Cons.IH [OF _ r] Cons.prems(1) validate_component_nfc [OF assms(1) v] show ?case by simp
qed

lemma marker_text_spec:
  "marker_text at cs = Some s \<Longrightarrow> s = at @ concat (map (\<lambda>c. CHR ''/'' # c) cs)"
proof (induction cs arbitrary: at)
  case Nil
  then show ?case by simp
next
  case (Cons c cs)
  then have "marker_text (at @ ''/'' @ c) cs = Some s"
    by (auto simp: nameable_def split: option.splits if_splits)
  from Cons.IH [OF this] show ?case by simp
qed

lemma new_plain:
  assumes "nfc_ok u" and "list_all plain_component cs" and "cs \<noteq> []"
    and "new u (concat (map (\<lambda>c. CHR ''/'' # c) cs)) = Inr p"
  shows "components p = map (nfc u) cs" and "wf_path u p"
proof -
  let ?s = "concat (map (\<lambda>c. CHR ''/'' # c) cs)"
  have r: "resolve u root ?s = Inr p" using assms(4) by (simp add: new_def)
  have "split_on CHR ''/'' ?s = [] # cs"
    using split_render [of cs] assms(2,3) by (auto simp: list_all_iff plain_component_def)
  moreover have "starts_with_char CHR ''/'' ?s"
    using assms(3) by (cases cs) (auto simp: starts_with_char_def)
  ultimately have "resolve_loop u [] ([] # cs) = Inr (components p)"
    using resolve_components [OF assms(1) wf_root r] by simp
  then show "components p = map (nfc u) cs"
    using resolve_loop_plain [OF assms(1,2), of "[]"] by simp
  show "wf_path u p" by (rule resolve_wf_path [OF assms(1) wf_root r])
qed

lemma new_ascii:
  assumes "nfc_ok u" and "new u (concat (map (\<lambda>c. CHR ''/'' # c) cs)) = Inr p"
    and "list_all plain_component cs" and "cs \<noteq> []" and "list_all (list_all (in_range 0 127)) cs"
  shows "components p = cs"
  using new_plain(1) [OF assms(1,3,4,2)] nfc_okD(7) [OF assms(1)] assms(5)
  by (auto simp: list_all_iff intro: map_idI)

definition points :: "mount_table \<Rightarrow> (virtual_path \<times> host_path option \<times> access) set" where
  "points t = (\<lambda>m. (m_at m, m_host_path m, m_access m)) ` set (mounts t)"

text \<open>Which host directory governs a path, and how.\<close>

definition granted_at :: "mount_table \<Rightarrow> virtual_path \<Rightarrow> (host_path option \<times> access) option" where
  "granted_at t p =
     map_option (\<lambda>(i, rest). (m_host_path (mounts t ! i), m_access (mounts t ! i))) (mt_resolve t p)"

lemma granted_at_None:
  "(\<And>q h a. (q, h, a) \<in> points t \<Longrightarrow> \<not> starts_with p q) \<Longrightarrow> granted_at t p = None"
  by (auto simp: granted_at_def points_def mt_resolve_None)

lemma granted_at_Some:
  assumes t: "table_ok t" and q: "(q, h, a) \<in> points t" "starts_with p q"
    and longest: "\<And>q' h' a'. (q', h', a') \<in> points t \<Longrightarrow> starts_with p q' \<Longrightarrow>
      length (components q) \<le> length (components q') \<Longrightarrow> (h', a') = (h, a)"
  shows "granted_at t p = Some (h, a)"
proof -
  from q obtain m where m: "m \<in> set (mounts t)" "m_at m = q" by (auto simp: points_def)
  with q(2) have "mt_resolve t p \<noteq> None" by (auto simp: mt_resolve_None)
  then obtain i rest where r: "mt_resolve t p = Some (i, rest)" by auto
  let ?n = "mounts t ! i"
  have n: "?n \<in> set (mounts t)" "starts_with p (m_at ?n)"
    using mt_resolve_Some [OF r] by (auto simp: starts_with_components)
  have "length (components q) \<le> length (components (m_at ?n))"
    using mt_resolve_longest [OF t r m(1)] m(2) q(2) by simp
  with longest [of "m_at ?n" "m_host_path ?n" "m_access ?n"] n
  have "(m_host_path ?n, m_access ?n) = (h, a)" by (auto simp: points_def)
  with r show ?thesis by (simp add: granted_at_def)
qed

lemma built_points:
  assumes "result (build H u entries w) = Inr (Inr t)"
  shows "table_ok t" and "points t = (\<lambda>(at, host, acc). (at, Some host, acc)) ` set entries"
proof -
  from build_from_result [OF assms] obtain cs ms where
    "length cs = length entries" "opened_as (zip entries cs) ms" "t = from_mounts ms"
    by (auto simp: built_from_def)
  moreover have "points t = (\<lambda>m. (m_at m, m_host_path m, m_access m)) ` set ms"
    unfolding points_def \<open>t = from_mounts ms\<close> by (rule from_mounts_image) simp
  ultimately show "table_ok t" and "points t = (\<lambda>(at, host, acc). (at, Some host, acc)) ` set entries"
    using opened_as_set table_ok_from_mounts by auto
qed

lemma grant_entries_Inr:
  "grant_entries u g at = Inr b \<longleftrightarrow>
     (\<exists>work shadow home. new u PROJECT_MOUNT = Inr work \<and> new u at = Inr shadow \<and>
        new u HOME_MOUNT = Inr home \<and>
        b = [(work, g_root g, ReadWrite), (shadow, g_shadow g, ReadOnly), (home, g_home g, ReadWrite)])"
  by (auto simp: grant_entries_def builder_mount_def split: sum.splits)

lemma marker_mount_point_Some:
  "marker_mount_point g = Some at \<Longrightarrow>
     \<exists>rest. rest \<noteq> [] \<and> g_marker g = g_root g @ rest \<and>
       at = concat (map (\<lambda>c. CHR ''/'' # c) (''work'' # rest))"
  by (auto simp: marker_mount_point_def PROJECT_MOUNT_def path_starts_with_def take_drop_prefix
      dest!: marker_text_spec split: if_splits option.splits)

lemma grant_table_Inr:
  assumes "result (grant_table H u g w) = Inr (Inr t)"
  obtains at b where "marker_mount_point g = Some at" "grant_entries u g at = Inr b"
    "result (build H u b w) = Inr (Inr t)"
  using assms
  by (auto simp: grant_table_def try_then_def run_simps split: option.splits sum.splits prod.splits)

lemma grant_points:
  assumes u: "nfc_ok u" and plain: "list_all plain_component (g_marker g)"
    and t: "result (grant_table H u g w) = Inr (Inr t)"
  obtains rest work shadow home where
    "rest \<noteq> []" "g_marker g = g_root g @ rest" "table_ok t"
    "points t = {(work, Some (g_root g), ReadWrite), (shadow, Some (g_shadow g), ReadOnly),
       (home, Some (g_home g), ReadWrite)}"
    "components work = [''work'']" "components shadow = ''work'' # map (nfc u) rest"
    "components home = [''home'', ''user'']"
proof -
  obtain at b where m: "marker_mount_point g = Some at" and b: "grant_entries u g at = Inr b"
    and bt: "result (build H u b w) = Inr (Inr t)" using grant_table_Inr [OF t] .
  obtain work shadow home where n: "new u PROJECT_MOUNT = Inr work" "new u at = Inr shadow"
      "new u HOME_MOUNT = Inr home"
    and be: "b = [(work, g_root g, ReadWrite), (shadow, g_shadow g, ReadOnly), (home, g_home g, ReadWrite)]"
    using b unfolding grant_entries_Inr by blast
  obtain rest where rest: "rest \<noteq> []" "g_marker g = g_root g @ rest"
    and at: "at = concat (map (\<lambda>c. CHR ''/'' # c) (''work'' # rest))"
    using marker_mount_point_Some [OF m] by blast
  have ascii: "list_all (list_all (in_range 0 127)) [''work'']" "list_all plain_component [''work'']"
    "list_all (list_all (in_range 0 127)) [''home'', ''user'']"
    "list_all plain_component [''home'', ''user'']" by code_simp+
  have "components work = [''work'']"
    by (rule new_ascii [OF u _ ascii(2) _ ascii(1)]) (use n in \<open>simp_all add: PROJECT_MOUNT_def\<close>)
  moreover have "components home = [''home'', ''user'']"
    by (rule new_ascii [OF u _ ascii(4) _ ascii(3)]) (use n in \<open>simp_all add: HOME_MOUNT_def\<close>)
  moreover have "components shadow = map (nfc u) (''work'' # rest)"
    by (rule new_plain [OF u _ _ n(2) [unfolded at]]) (use plain rest ascii(2) in simp_all)
  moreover have "nfc u ''work'' = ''work''" using nfc_okD(7) [OF u] ascii(1) by simp
  ultimately show thesis
    using that [OF rest built_points(1) [OF bt], of work shadow home] built_points(2) [OF bt] be
    by simp
qed

section \<open>Properties\<close>

text \<open>The namespace of a grant, in full. Whenever a grant becomes a table, the marker lies strictly
  inside the project, and every virtual path is governed by exactly one host directory: paths at
  or below the marker's mount point by the empty shadow, read-only; other paths below
  \<^verbatim>\<open>/work\<close> by the project, writable; paths below \<^verbatim>\<open>/home/user\<close> by its home, writable; and
  nothing else has a name.\<close>

theorem grant_namespace:
  assumes "nfc_ok u" and "list_all plain_component (g_marker g)"
    and "result (grant_table H u g w) = Inr (Inr t)"
  shows "\<exists>rest. rest \<noteq> [] \<and> g_marker g = g_root g @ rest \<and>
    (\<forall>p. granted_at t p =
       (if prefix (''work'' # map (nfc u) rest) (components p) then Some (Some (g_shadow g), ReadOnly)
        else if prefix [''work''] (components p) then Some (Some (g_root g), ReadWrite)
        else if prefix [''home'', ''user''] (components p) then Some (Some (g_home g), ReadWrite)
        else None))"
proof -
  obtain rest work shadow home where r: "rest \<noteq> []" "g_marker g = g_root g @ rest" "table_ok t"
    and pts: "points t = {(work, Some (g_root g), ReadWrite), (shadow, Some (g_shadow g), ReadOnly),
       (home, Some (g_home g), ReadWrite)}"
    and c: "components work = [''work'']" "components shadow = ''work'' # map (nfc u) rest"
       "components home = [''home'', ''user'']"
    using grant_points [OF assms] .
  have sw: "starts_with p q \<longleftrightarrow> prefix (components q) (components p)" for p q
    by (simp add: starts_with_components prefix_def)
  have out: "\<not> prefix [''work''] cs" if "prefix [''home'', ''user''] cs" for cs
    using that by (cases cs) auto
  have sub: "prefix [''work''] cs" if "prefix (''work'' # map (nfc u) rest) cs" for cs
    using that by (cases cs) auto
  have "granted_at t p =
       (if prefix (''work'' # map (nfc u) rest) (components p) then Some (Some (g_shadow g), ReadOnly)
        else if prefix [''work''] (components p) then Some (Some (g_root g), ReadWrite)
        else if prefix [''home'', ''user''] (components p) then Some (Some (g_home g), ReadWrite)
        else None)" for p
  proof -
    consider (marker) "prefix (''work'' # map (nfc u) rest) (components p)"
      | (work) "\<not> prefix (''work'' # map (nfc u) rest) (components p)" "prefix [''work''] (components p)"
      | (home) "prefix [''home'', ''user''] (components p)"
      | (none) "\<not> prefix [''work''] (components p)" "\<not> prefix [''home'', ''user''] (components p)"
      by blast
    then show ?thesis
    proof cases
      case marker
      then have "granted_at t p = Some (Some (g_shadow g), ReadOnly)"
        by (intro granted_at_Some [OF r(3), of shadow])
           (use pts c sw r(1) sub [OF marker] out in auto)
      with marker show ?thesis by simp
    next
      case work
      then have "granted_at t p = Some (Some (g_root g), ReadWrite)"
        by (intro granted_at_Some [OF r(3), of work]) (use pts c sw out in auto)
      with work show ?thesis by simp
    next
      case home
      then have "granted_at t p = Some (Some (g_home g), ReadWrite)"
        by (intro granted_at_Some [OF r(3), of home]) (use pts c sw out [OF home] sub in auto)
      with home out [OF home] sub show ?thesis by auto
    next
      case none
      then have "granted_at t p = None"
        by (intro granted_at_None) (use pts c sw sub in auto)
      with none sub show ?thesis by auto
    qed
  qed
  with r(1,2) show ?thesis by blast
qed

definition demo_grant :: grant where
  "demo_grant = \<lparr> g_root = [''src'', ''p''], g_marker = [''src'', ''p'', ''.git''],
     g_home = [''state'', ''h''], g_shadow = [''state'', ''empty''] \<rparr>"

definition granted_table :: mount_table where
  "granted_table = (case result (grant_table still_host ascii_unicode demo_grant ()) of
     Inr (Inr t) \<Rightarrow> t | _ \<Rightarrow> empty_table)"

lemma granted_table_is: "result (grant_table still_host ascii_unicode demo_grant ()) = Inr (Inr granted_table)"
  by code_simp

theorem grant_namespace_witness:
  "\<exists>rest. rest \<noteq> [] \<and> [''src'', ''p'', ''.git''] = [''src'', ''p''] @ rest \<and>
    (\<forall>p. granted_at granted_table p =
       (if prefix (''work'' # map (nfc ascii_unicode) rest) (components p)
        then Some (Some [''state'', ''empty''], ReadOnly)
        else if prefix [''work''] (components p) then Some (Some [''src'', ''p''], ReadWrite)
        else if prefix [''home'', ''user''] (components p) then Some (Some [''state'', ''h''], ReadWrite)
        else None))"
proof -
  have "list_all plain_component (g_marker demo_grant)" by code_simp
  from grant_namespace [OF nfc_ok_ascii this granted_table_is] show ?thesis
    by (simp only: demo_grant_def grant.select_convs)
qed

text \<open>A home's key is one plain directory name made of alphanumerics, hyphens and underscores, and
  two projects whose paths differ in a single byte never share one: the hash is injective in each
  byte of its input, the rest being fixed.\<close>

theorem home_key_separates:
  assumes "display_host p = a @ c # b" and "display_host q = a @ d # b" and "c \<noteq> d"
  shows "home_key p \<noteq> home_key q \<and> plain_component (home_key p) \<and> list_all key_char (home_key p)"
proof (intro conjI)
  show "home_key p \<noteq> home_key q" unfolding home_key_eq assms(1,2) fnv1a_one_byte using assms(3) by blast
  have "list_all key_char ''-''" by code_simp
  then show key: "list_all key_char (home_key p)"
    by (simp add: home_key_def key_name_key hex_digits_key)
  have "\<not> key_char CHR ''.''" "\<not> key_char CHR ''/''" by code_simp+
  with key have "CHR ''.'' \<notin> set (home_key p)" "CHR ''/'' \<notin> set (home_key p)"
    by (auto simp: list_all_iff)
  moreover have "home_key p \<noteq> []" by (simp add: home_key_def)
  ultimately show "plain_component (home_key p)" by (auto simp: plain_component_def)
qed

theorem home_key_separates_witness:
  "home_key [''a'', ''proj''] \<noteq> home_key [''b'', ''proj''] \<and>
   plain_component (home_key [''a'', ''proj'']) \<and> list_all key_char (home_key [''a'', ''proj''])"
  by (rule home_key_separates [of _ "''/''" "CHR ''a''" "''/proj''" _ "CHR ''b''"]) code_simp+

end
