(* ===== verification/Exec_Policy.thy ===== *)
theory Exec_Policy
  imports Prelude
begin

text \<open>
  What a shell may run: the policy on external programs (\<^verbatim>\<open>brush-core/src/execpolicy.rs\<close>), the
  policy on builtins (\<^verbatim>\<open>builtinpolicy.rs\<close>), the default allowlist
  (\<^verbatim>\<open>brush-shell/src/builtinallowlist.rs\<close>), and the registry of builtins with every operation
  that changes it (\<^verbatim>\<open>brush-core/src/shell/builtin_registry.rs\<close>, \<^verbatim>\<open>shell.rs\<close>, the builtin
  \<^verbatim>\<open>enable\<close>). What a builtin does when executed is an argument of the registration.
\<close>

section \<open>Policies\<close>

text \<open>\<^verbatim>\<open>Path\<close> equality compares components: repeated slashes, inner \<^verbatim>\<open>.\<close> and a trailing slash do not
  count.\<close>

definition path_parts :: "string \<Rightarrow> bool \<times> string list" where
  "path_parts s =
     (let absolute = starts_with_char CHR ''/'' s;
          parts = split_on CHR ''/'' s
      in (absolute,
          (if \<not> absolute \<and> hd parts = ''.'' then [''.''] else []) @
          filter (\<lambda>c. c \<noteq> [] \<and> c \<noteq> ''.'') parts))"

definition same_path :: "string \<Rightarrow> string \<Rightarrow> bool" where
  "same_path a b \<longleftrightarrow> path_parts a = path_parts b"

record trusted_launcher =
  tl_path :: string
  tl_dispatch_flag :: string

datatype external_execution = Sealed | Open | Bundled trusted_launcher

datatype exec_permit = ViaNamespace | TrustedLauncher string

datatype builtin_policy = SealedBuiltins | OpenBuiltins | Allowlist "string set"

definition allowlist :: "string list \<Rightarrow> builtin_policy" where
  "allowlist names = Allowlist (set names)"

fun admits :: "builtin_policy \<Rightarrow> string \<Rightarrow> bool" where
  "admits SealedBuiltins name = False"
| "admits OpenBuiltins name = True"
| "admits (Allowlist names) name = (name \<in> names)"

fun is_open :: "builtin_policy \<Rightarrow> bool" where
  "is_open OpenBuiltins = True"
| "is_open _ = False"

fun permit ::
  "external_execution \<Rightarrow> string \<Rightarrow> string option \<Rightarrow> string option \<Rightarrow> builtin_policy \<Rightarrow>
   exec_permit option" where
  "permit Open command argv1 argv2 builtins = Some ViaNamespace"
| "permit Sealed command argv1 argv2 builtins = None"
| "permit (Bundled l) command argv1 argv2 builtins =
     (if \<not> same_path command (tl_path l) \<or> argv1 \<noteq> Some (tl_dispatch_flag l) then None
      else (case argv2 of
              None \<Rightarrow> None
            | Some name \<Rightarrow>
                if \<not> admits builtins name then None else Some (TrustedLauncher (tl_path l))))"

fun names_launcher :: "external_execution \<Rightarrow> string \<Rightarrow> bool" where
  "names_launcher (Bundled l) command = same_path command (tl_path l)"
| "names_launcher _ command = False"

section \<open>The default allowlist\<close>

definition DEFAULT_ALLOWED :: "string list" where
  "DEFAULT_ALLOWED =
     [''.'', '':'', ''break'', ''continue'', ''eval'', ''exec'', ''exit'', ''export'', ''readonly'',
      ''return'', ''set'', ''shift'', ''source'', ''times'', ''trap'', ''unset'',
      ''['', ''cd'', ''command'', ''declare'', ''echo'', ''false'', ''getopts'', ''let'', ''local'',
      ''printf'', ''pwd'', ''read'', ''shopt'', ''test'', ''true'', ''type'', ''typeset'',
      ''jobs'', ''kill'', ''wait'']"

definition allow_policy :: "string list \<Rightarrow> string list \<Rightarrow> string list \<Rightarrow> builtin_policy" where
  "allow_policy bundled allow deny =
     Allowlist (fold (\<lambda>name names. names - {name}) deny (set (DEFAULT_ALLOWED @ bundled @ allow)))"

section \<open>The registry\<close>

record 'f registration =
  r_execute :: 'f
  r_disabled :: bool
  r_special :: bool
  r_declaration :: bool

record 'f registry =
  rg_policy :: builtin_policy
  rg_builtins :: "string \<rightharpoonup> 'f registration"

definition retain :: "builtin_policy \<Rightarrow> (string \<rightharpoonup> 'a) \<Rightarrow> (string \<rightharpoonup> 'a)" where
  "retain p m = (\<lambda>name. if admits p name then m name else None)"

text \<open>The part of \<^verbatim>\<open>Shell::new\<close> that fills the registry.\<close>

definition registry_new :: "(string \<rightharpoonup> 'f registration) \<Rightarrow> builtin_policy \<Rightarrow> 'f registry" where
  "registry_new offered p = \<lparr> rg_policy = p, rg_builtins = retain p offered \<rparr>"

definition register_builtin :: "'f registry \<Rightarrow> string \<Rightarrow> 'f registration \<Rightarrow> 'f registry" where
  "register_builtin g name r =
     (if \<not> admits (rg_policy g) name then g
      else g\<lparr>rg_builtins := (rg_builtins g)(name \<mapsto> r)\<rparr>)"

definition register_builtin_if_unset ::
  "'f registry \<Rightarrow> string \<Rightarrow> 'f registration \<Rightarrow> 'f registry" where
  "register_builtin_if_unset g name r =
     (if \<not> admits (rg_policy g) name then g
      else (case rg_builtins g name of
              Some _ \<Rightarrow> g
            | None \<Rightarrow> g\<lparr>rg_builtins := (rg_builtins g)(name \<mapsto> r)\<rparr>))"

definition set_builtin_policy :: "'f registry \<Rightarrow> builtin_policy \<Rightarrow> 'f registry" where
  "set_builtin_policy g p = \<lparr> rg_policy = p, rg_builtins = retain p (rg_builtins g) \<rparr>"

text \<open>The builtin \<^verbatim>\<open>enable\<close> with names: it reaches registrations through \<^verbatim>\<open>builtin_mut\<close> and sets
  the flag of those that exist; the names it does not find are reported.\<close>

fun enable_names :: "'f registry \<Rightarrow> bool \<Rightarrow> string list \<Rightarrow> 'f registry \<times> string list" where
  "enable_names g disable [] = (g, [])"
| "enable_names g disable (name # names) =
     (case rg_builtins g name of
        Some r \<Rightarrow>
          enable_names (g\<lparr>rg_builtins := (rg_builtins g)(name \<mapsto> r\<lparr>r_disabled := disable\<rparr>)\<rparr>)
            disable names
      | None \<Rightarrow> (case enable_names g disable names of (g', missing) \<Rightarrow> (g', name # missing)))"

text \<open>What can happen to a registry once a shell is running, from outside the launcher's control:
  bulk registration and whatever scripts do with \<^verbatim>\<open>enable\<close>.\<close>

inductive registry_step :: "'f registry \<Rightarrow> 'f registry \<Rightarrow> bool" where
  register: "registry_step g (register_builtin g name r)"
| register_if_unset: "registry_step g (register_builtin_if_unset g name r)"
| enable: "registry_step g (fst (enable_names g disable names))"

inductive_cases registry_stepE: "registry_step g g'"

inductive registry_reach :: "'f registry \<Rightarrow> 'f registry \<Rightarrow> bool" where
  start: "registry_reach g g"
| step: "registry_reach g g' \<Longrightarrow> registry_step g' g'' \<Longrightarrow> registry_reach g g''"

section \<open>Lemmas\<close>

definition registry_ok :: "'f registry \<Rightarrow> bool" where
  "registry_ok g \<longleftrightarrow> (\<forall>name \<in> dom (rg_builtins g). admits (rg_policy g) name)"

lemma registry_ok_new: "registry_ok (registry_new offered p)"
  by (auto simp: registry_ok_def registry_new_def retain_def split: if_splits)

lemma registry_ok_set: "registry_ok (set_builtin_policy g p)"
  by (auto simp: registry_ok_def set_builtin_policy_def retain_def split: if_splits)

lemma registry_ok_register: "registry_ok g \<Longrightarrow> registry_ok (register_builtin g name r)"
  by (auto simp: registry_ok_def register_builtin_def)

lemma registry_ok_if_unset: "registry_ok g \<Longrightarrow> registry_ok (register_builtin_if_unset g name r)"
  by (auto simp: registry_ok_def register_builtin_if_unset_def split: option.split)

lemma enable_names_dom:
  "dom (rg_builtins (fst (enable_names g d names))) = dom (rg_builtins g) \<and>
   rg_policy (fst (enable_names g d names)) = rg_policy g"
proof (induction g d names rule: enable_names.induct)
  case (1 g d)
  then show ?case by simp
next
  case (2 g d name names)
  show ?case
  proof (cases "rg_builtins g name")
    case None
    with 2 show ?thesis by (cases "enable_names g d names") simp
  next
    case (Some r)
    with 2 show ?thesis by simp (auto split: if_splits)
  qed
qed

lemma registry_step_ok:
  "registry_step g g' \<Longrightarrow> registry_ok g \<Longrightarrow> registry_ok g' \<and> rg_policy g' = rg_policy g"
  by (elim registry_stepE)
     (auto simp: registry_ok_register registry_ok_if_unset register_builtin_def
       register_builtin_if_unset_def registry_ok_def enable_names_dom dest: bspec
       split: option.split)

lemma registry_reach_ok:
  "registry_reach g g' \<Longrightarrow> registry_ok g \<Longrightarrow> registry_ok g' \<and> rg_policy g' = rg_policy g"
  by (induction rule: registry_reach.induct) (auto dest: registry_step_ok)

lemma fold_minus: "fold (\<lambda>name names. names - {name}) xs A = A - set xs"
  by (induction xs arbitrary: A) auto

section \<open>Properties\<close>

text \<open>The closed world runs one thing only. Under it a program is permitted exactly when it is the
  trusted launcher's path, its first argument is the dispatch flag and its second names a builtin
  the policy admits, and what is then run is the launcher by its own path; nothing is permitted
  in a sealed world.\<close>

theorem closed_world_exact:
  "(permit (Bundled l) command argv1 argv2 builtins = Some p \<longleftrightarrow>
      same_path command (tl_path l) \<and> argv1 = Some (tl_dispatch_flag l) \<and>
      (\<exists>name. argv2 = Some name \<and> admits builtins name) \<and> p = TrustedLauncher (tl_path l)) \<and>
   permit Sealed command argv1 argv2 builtins = None"
  by (auto split: option.splits)

text \<open>C12. A denied builtin is absent for good. From a registry just filled under a policy, or pruned
  by one being installed, no registration and no use of \<^verbatim>\<open>enable\<close> ever makes a name
  available that the policy does not admit.\<close>

theorem denied_builtins_stay_absent:
  assumes "registry_reach (registry_new offered p) g \<or> registry_reach (set_builtin_policy h p) g"
    and "\<not> admits p name"
  shows "rg_builtins g name = None"
proof -
  have "registry_ok g \<and> rg_policy g = p"
    using assms(1)
  proof
    assume "registry_reach (registry_new offered p) g"
    from registry_reach_ok [OF this registry_ok_new] show ?thesis by (simp add: registry_new_def)
  next
    assume "registry_reach (set_builtin_policy h p) g"
    from registry_reach_ok [OF this registry_ok_set] show ?thesis by (simp add: set_builtin_policy_def)
  qed
  with assms(2) show ?thesis by (auto simp: registry_ok_def)
qed

definition plain_registration :: "bool \<Rightarrow> unit registration" where
  "plain_registration d = \<lparr> r_execute = (), r_disabled = d, r_special = False, r_declaration = False \<rparr>"

theorem denied_builtins_stay_absent_witness:
  "rg_builtins (fst (enable_names
     (register_builtin (registry_new (Map.empty :: string \<Rightarrow> unit registration option)
        (allow_policy [''cat''] [] [])) ''enable'' (plain_registration False))
     False [''enable''])) ''enable'' = None"
proof (rule denied_builtins_stay_absent [OF disjI1])
  show "registry_reach (registry_new (Map.empty :: string \<Rightarrow> unit registration option)
      (allow_policy [''cat''] [] []))
    (fst (enable_names
       (register_builtin (registry_new Map.empty (allow_policy [''cat''] [] [])) ''enable''
         (plain_registration False)) False [''enable'']))"
    by (rule registry_reach.step [OF registry_reach.step [OF registry_reach.start
          registry_step.register] registry_step.enable])
  show "\<not> admits (allow_policy [''cat''] [] []) ''enable''" by code_simp
qed

text \<open>The default policy is exact: it admits the fixed list, the bundled utilities and what was
  allowed by hand, and denial wins over all three.\<close>

theorem allow_policy_exact:
  "admits (allow_policy bundled allow deny) name \<longleftrightarrow>
     name \<in> set DEFAULT_ALLOWED \<union> set bundled \<union> set allow \<and> name \<notin> set deny"
  by (auto simp: allow_policy_def fold_minus)

end
