(* ===== verification/Ordered_Map.thy ===== *)
theory Ordered_Map
  imports Prelude "HOL-Library.Char_ord" "HOL-Library.List_Lexorder"
begin

text \<open>
  The ordered map the shell's arrays are kept in. A \<^verbatim>\<open>std::collections::BTreeMap\<close> is the list of its
  entries in key order. The locale states what a client of the map relies on, whatever the keys;
  the interpretation discharges it for the sorted list. Clients assign the entries of a literal
  one after the other, which the locale's lemmas describe.
\<close>

section \<open>The interface\<close>

locale ordered_map =
  fixes get :: "'m \<Rightarrow> 'k \<Rightarrow> 'v option"
    and put :: "'k \<Rightarrow> 'v \<Rightarrow> 'm \<Rightarrow> 'm"
    and del :: "'k \<Rightarrow> 'm \<Rightarrow> 'm"
    and ordered :: "'m \<Rightarrow> bool"
    and none :: 'm
  assumes get_none: "get none k = None"
    and ordered_none: "ordered none"
    and get_put: "ordered m \<Longrightarrow> get (put k v m) = (get m)(k \<mapsto> v)"
    and ordered_put: "ordered m \<Longrightarrow> ordered (put k v m)"
    and get_del: "ordered m \<Longrightarrow> get (del k m) = (get m)(k := None)"
    and ordered_del: "ordered m \<Longrightarrow> ordered (del k m)"
begin

definition put_all :: "('k \<times> 'v) list \<Rightarrow> 'm \<Rightarrow> 'm" where
  "put_all kvs m = fold (\<lambda>(k, v). put k v) kvs m"

lemma ordered_put_all: "ordered m \<Longrightarrow> ordered (put_all kvs m)"
  unfolding put_all_def by (induction kvs arbitrary: m) (auto simp: ordered_put)

text \<open>The last entry of a key counts, and the keys that are not named keep their value.\<close>

lemma get_put_all: "ordered m \<Longrightarrow> get (put_all kvs m) = get m ++ map_of (rev kvs)"
  unfolding put_all_def
  by (induction kvs arbitrary: m) (auto simp: ordered_put get_put map_add_def fun_eq_iff split: option.split)

lemma get_put_same: "ordered m \<Longrightarrow> get (put k v m) k = Some v"
  by (simp add: get_put)

lemma get_put_other: "ordered m \<Longrightarrow> k \<noteq> j \<Longrightarrow> get (put k v m) j = get m j"
  by (simp add: get_put)

end

section \<open>The sorted list\<close>

fun bt_insert :: "'k::linorder \<Rightarrow> 'v \<Rightarrow> ('k \<times> 'v) list \<Rightarrow> ('k \<times> 'v) list" where
  "bt_insert k v [] = [(k, v)]"
| "bt_insert k v ((j, w) # m) =
     (if k < j then (k, v) # (j, w) # m
      else if k = j then (k, v) # m
      else (j, w) # bt_insert k v m)"

definition bt_remove :: "'k \<Rightarrow> ('k \<times> 'v) list \<Rightarrow> ('k \<times> 'v) list" where
  "bt_remove k m = filter (\<lambda>(j, v). j \<noteq> k) m"

definition bt_ordered :: "('k::linorder \<times> 'v) list \<Rightarrow> bool" where
  "bt_ordered m = sorted_wrt (<) (map fst m)"

lemma set_bt_insert: "set (map fst (bt_insert k v m)) = insert k (set (map fst m))"
  by (induction k v m rule: bt_insert.induct) auto

lemma bt_ordered_insert: "bt_ordered m \<Longrightarrow> bt_ordered (bt_insert k v m)"
proof (induction k v m rule: bt_insert.induct)
  case (1 k v)
  then show ?case by (simp add: bt_ordered_def)
next
  case (2 k v j w m)
  have "set (map fst (bt_insert k v m)) = insert k (set (map fst m))" by (rule set_bt_insert)
  with 2 show ?case by (auto simp: bt_ordered_def)
qed

lemma map_of_bt_insert: "map_of (bt_insert k v m) = (map_of m)(k \<mapsto> v)"
  by (induction k v m rule: bt_insert.induct) auto

lemma map_of_bt_remove: "map_of (bt_remove k m) = (map_of m)(k := None)"
  by (induction m) (auto simp: bt_remove_def fun_eq_iff)

lemma bt_ordered_remove: "bt_ordered m \<Longrightarrow> bt_ordered (bt_remove k m)"
proof -
  have "map fst (bt_remove k m) = filter (\<lambda>j. j \<noteq> k) (map fst m)"
    by (induction m) (auto simp: bt_remove_def)
  moreover assume "bt_ordered m"
  ultimately show ?thesis by (simp add: bt_ordered_def sorted_wrt_filter)
qed

interpretation bt: ordered_map map_of bt_insert bt_remove bt_ordered "[]"
  by unfold_locales
     (auto simp: map_of_bt_insert bt_ordered_insert map_of_bt_remove bt_ordered_remove,
       simp add: bt_ordered_def)

end
