(* ===== verification/Variables.thy ===== *)
theory Variables
  imports Ordered_Map Host_Interface
begin

text \<open>
  Shell variables (\<^verbatim>\<open>brush-core/src/variables.rs\<close>): values, attributes, assignment in all its
  forms, and reading.

  A method on \<^verbatim>\<open>&mut self\<close> returns the variable after it together with its result, since an error
  can leave the variable changed. A dynamic value is named by a number; what its getter answers is
  an argument where it is read. The release profile is modelled: \<^verbatim>\<open>i64\<close> and \<^verbatim>\<open>u64\<close> additions
  wrap. Case mapping is an argument; a panic is the error \<open>Panicked\<close>.
\<close>

section \<open>Machine integers as text\<close>

definition is_digit :: "char \<Rightarrow> bool" where
  "is_digit c = in_range 48 57 c"

definition parse_digits :: "string \<Rightarrow> nat option" where
  "parse_digits s =
     (if s = [] \<or> \<not> list_all is_digit s then None
      else Some (foldl (\<lambda>n c. 10 * n + (of_char c - 48)) 0 s))"

text \<open>\<^verbatim>\<open>str::parse::<i64>\<close> and \<^verbatim>\<open>str::parse::<u64>\<close>: an optional sign, digits, and no overflow.\<close>

definition in_i64 :: "int \<Rightarrow> bool" where
  "in_i64 n \<longleftrightarrow> - (2 ^ 63) \<le> n \<and> n < 2 ^ 63"

definition parse_i64 :: "string \<Rightarrow> int option" where
  "parse_i64 s =
     (case s of
        [] \<Rightarrow> None
      | c # r \<Rightarrow>
          (case parse_digits (if c = CHR ''-'' \<or> c = CHR ''+'' then r else s) of
             None \<Rightarrow> None
           | Some n \<Rightarrow>
               (let v = (if c = CHR ''-'' then - int n else int n) in if in_i64 v then Some v else None)))"

definition parse_u64 :: "string \<Rightarrow> u64 option" where
  "parse_u64 s =
     (case s of
        [] \<Rightarrow> None
      | c # r \<Rightarrow>
          (case parse_digits (if c = CHR ''+'' then r else s) of
             None \<Rightarrow> None
           | Some n \<Rightarrow> if n < 2 ^ 64 then Some (word_of_nat n) else None))"

definition show_int :: "int \<Rightarrow> string" where
  "show_int n = (if n < 0 then CHR ''-'' # decimal (nat (- n)) else decimal (nat n))"

definition wrap_i64 :: "int \<Rightarrow> int" where
  "wrap_i64 n = (n + 2 ^ 63) mod 2 ^ 64 - 2 ^ 63"

definition int_of_text :: "string \<Rightarrow> int" where
  "int_of_text s = (case parse_i64 s of Some n \<Rightarrow> n | None \<Rightarrow> 0)"

section \<open>Data\<close>

record casing =
  cs_lower :: "string \<Rightarrow> string"
  cs_upper :: "string \<Rightarrow> string"

datatype unset_type = Untyped | UnsetAssociative | UnsetIndexed

datatype shell_value =
    Unset unset_type
  | Scalar_Value string
  | AssociativeArray "(string \<times> string) list"
  | IndexedArray "(u64 \<times> string) list"
  | Dynamic nat

datatype update_transform = NoTransform | Lowercase | Uppercase | Capitalize

type_synonym array_literal = "(string option \<times> string) list"

datatype value_literal = Scalar string | Array array_literal

record shell_variable =
  v_value :: shell_value
  v_exported :: bool
  v_readonly :: bool
  v_enumerable :: bool
  v_transform :: update_transform
  v_trace :: bool
  v_integer :: bool
  v_nameref :: bool

datatype shell_error =
    ReadonlyVariable
  | ConvertingAssociativeArrayToIndexedArray
  | ConvertingIndexedArrayToAssociativeArray
  | ArrayIndexOutOfRange string
  | NotArray
  | Unimplemented string
  | UnexpectedScopeType
  | MissingScope
  | MissingScopeForNewVariable
  | CommandNotFound string
  | ExternalExecutionRefused string
  | ShellIo io_error
  | Panicked

text \<open>A computation on a variable in place.\<close>

type_synonym 's upd = "'s \<times> (shell_error + unit)"

definition and_then :: "'s upd \<Rightarrow> ('s \<Rightarrow> 's upd) \<Rightarrow> 's upd" where
  "and_then p f = (case p of (s, Inl e) \<Rightarrow> (s, Inl e) | (s, Inr _) \<Rightarrow> f s)"

section \<open>Reading without a shell\<close>

fun try_text :: "shell_value \<Rightarrow> string option" where
  "try_text (Unset t) = None"
| "try_text (Scalar_Value s) = Some s"
| "try_text (AssociativeArray m) = map_of m ''0''"
| "try_text (IndexedArray m) = map_of m 0"
| "try_text (Dynamic d) = None"

definition text_of :: "shell_value \<Rightarrow> string" where
  "text_of v = (case try_text v of None \<Rightarrow> [] | Some s \<Rightarrow> s)"

definition get_key_for_indexed_array :: "(u64 \<times> string) list \<Rightarrow> string \<Rightarrow> shell_error + u64" where
  "get_key_for_indexed_array m index =
     (let n = int_of_text index in
      if n < 0
      then (if n + int (length m) < 0 then Inl (ArrayIndexOutOfRange index)
            else Inr (word_of_int (n + int (length m))))
      else Inr (word_of_int n))"

section \<open>Attributes\<close>

definition variable_new :: "shell_value \<Rightarrow> shell_variable" where
  "variable_new v = \<lparr> v_value = v, v_exported = False, v_readonly = False, v_enumerable = True,
     v_transform = NoTransform, v_trace = False, v_integer = False, v_nameref = False \<rparr>"

definition unset_readonly :: "shell_variable \<Rightarrow> shell_variable upd" where
  "unset_readonly v =
     (if v_readonly v then (v, Inl ReadonlyVariable) else (v\<lparr>v_readonly := False\<rparr>, Inr ()))"

definition convert_to_indexed_array :: "shell_variable \<Rightarrow> shell_variable upd" where
  "convert_to_indexed_array v =
     (case v_value v of
        IndexedArray m \<Rightarrow> (v, Inr ())
      | AssociativeArray m \<Rightarrow> (v, Inl ConvertingAssociativeArrayToIndexedArray)
      | _ \<Rightarrow> (v\<lparr>v_value := IndexedArray (bt_insert 0 (text_of (v_value v)) [])\<rparr>, Inr ()))"

definition convert_to_associative_array :: "shell_variable \<Rightarrow> shell_variable upd" where
  "convert_to_associative_array v =
     (case v_value v of
        AssociativeArray m \<Rightarrow> (v, Inr ())
      | IndexedArray m \<Rightarrow> (v, Inl ConvertingIndexedArrayToAssociativeArray)
      | _ \<Rightarrow> (v\<lparr>v_value := AssociativeArray (bt_insert ''0'' (text_of (v_value v)) [])\<rparr>, Inr ()))"

section \<open>Conversion on assignment\<close>

text \<open>\<^verbatim>\<open>replace_range(0..1, ..)\<close> panics when the first character takes more than a byte.\<close>

definition capitalize :: "casing \<Rightarrow> string \<Rightarrow> shell_error + string" where
  "capitalize k s =
     (let low = cs_lower k s in
      case low of
        [] \<Rightarrow> Inr low
      | c # r \<Rightarrow> if in_range 0 127 c then Inr (cs_upper k [c] @ r) else Inl Panicked)"

definition apply_transforms :: "casing \<Rightarrow> bool \<Rightarrow> update_transform \<Rightarrow> string \<Rightarrow> shell_error + string" where
  "apply_transforms k as_int tr s =
     (if as_int then Inr (show_int (int_of_text s))
      else (case tr of
              NoTransform \<Rightarrow> Inr s
            | Lowercase \<Rightarrow> Inr (cs_lower k s)
            | Uppercase \<Rightarrow> Inr (cs_upper k s)
            | Capitalize \<Rightarrow> capitalize k s))"

definition convert_str :: "casing \<Rightarrow> shell_variable \<Rightarrow> string \<Rightarrow> shell_error + string" where
  "convert_str k v s = apply_transforms k (v_integer v) (v_transform v) s"

fun convert_entries ::
  "casing \<Rightarrow> shell_variable \<Rightarrow> array_literal \<Rightarrow> shell_error + array_literal" where
  "convert_entries k v [] = Inr []"
| "convert_entries k v ((key, s) # rest) =
     (case convert_str k v s of
        Inl e \<Rightarrow> Inl e
      | Inr s' \<Rightarrow>
          (case convert_entries k v rest of Inl e \<Rightarrow> Inl e | Inr r \<Rightarrow> Inr ((key, s') # r)))"

definition convert_literal ::
  "casing \<Rightarrow> shell_variable \<Rightarrow> value_literal \<Rightarrow> shell_error + value_literal" where
  "convert_literal k v lit =
     (case lit of
        Scalar s \<Rightarrow> (case convert_str k v s of Inl e \<Rightarrow> Inl e | Inr s \<Rightarrow> Inr (Scalar s))
      | Array es \<Rightarrow> (case convert_entries k v es of Inl e \<Rightarrow> Inl e | Inr es \<Rightarrow> Inr (Array es)))"

section \<open>Array literals\<close>

fun put_indexed :: "u64 \<Rightarrow> array_literal \<Rightarrow> (u64 \<times> string) list \<Rightarrow> (u64 \<times> string) list" where
  "put_indexed next [] m = m"
| "put_indexed next ((key, s) # rest) m =
     (let at = (case key of
                  None \<Rightarrow> next
                | Some t \<Rightarrow> (case parse_u64 t of Some n \<Rightarrow> n | None \<Rightarrow> 0))
      in put_indexed (at + 1) rest (bt_insert at s m))"

definition update_indexed_array :: "(u64 \<times> string) list \<Rightarrow> array_literal \<Rightarrow> (u64 \<times> string) list" where
  "update_indexed_array m es =
     put_indexed (if m = [] then 0 else fst (last m) + 1) es m"

definition indexed_array_from_literals :: "array_literal \<Rightarrow> shell_value" where
  "indexed_array_from_literals es = IndexedArray (update_indexed_array [] es)"

fun put_associative ::
  "string option \<Rightarrow> array_literal \<Rightarrow> (string \<times> string) list \<Rightarrow> (string \<times> string) list upd" where
  "put_associative None [] m = (m, Inr ())"
| "put_associative (Some pending) [] m = (bt_insert pending [] m, Inr ())"
| "put_associative (Some pending) ((key, s) # rest) m =
     (if key \<noteq> None
      then (m, Inl (Unimplemented ''misaligned keys/values in associative array literal''))
      else put_associative None rest (bt_insert pending s m))"
| "put_associative None ((Some key, s) # rest) m = put_associative None rest (bt_insert key s m)"
| "put_associative None ((None, s) # rest) m = put_associative (Some s) rest m"

definition update_associative_array ::
  "(string \<times> string) list \<Rightarrow> array_literal \<Rightarrow> (string \<times> string) list upd" where
  "update_associative_array m es = put_associative None es m"

definition associative_array_from_literals :: "array_literal \<Rightarrow> shell_error + shell_value" where
  "associative_array_from_literals es =
     (case update_associative_array [] es of
        (m, Inl e) \<Rightarrow> Inl e
      | (m, Inr _) \<Rightarrow> Inr (AssociativeArray m))"

section \<open>Assignment\<close>

text \<open>\<^verbatim>\<open>assign\<close> calls itself and \<^verbatim>\<open>assign_at_index\<close>, which calls it back with an empty array; the
  calls are at most three deep, and unfolded here innermost first: an array without appending,
  an element, a scalar without appending, and the whole.\<close>

definition assign_array ::
  "casing \<Rightarrow> shell_variable \<Rightarrow> array_literal \<Rightarrow> shell_variable upd" where
  "assign_array k v es =
     (if v_readonly v then (v, Inl ReadonlyVariable)
      else (case convert_literal k v (Array es) of
              Inl e \<Rightarrow> (v, Inl e)
            | Inr (Scalar s) \<Rightarrow> (v, Inl Panicked)
            | Inr (Array es) \<Rightarrow>
                (case v_value v of
                   AssociativeArray m \<Rightarrow>
                     (case associative_array_from_literals es of
                        Inl e \<Rightarrow> (v, Inl e) | Inr a \<Rightarrow> (v\<lparr>v_value := a\<rparr>, Inr ()))
                 | Unset UnsetAssociative \<Rightarrow>
                     (case associative_array_from_literals es of
                        Inl e \<Rightarrow> (v, Inl e) | Inr a \<Rightarrow> (v\<lparr>v_value := a\<rparr>, Inr ()))
                 | _ \<Rightarrow> (v\<lparr>v_value := indexed_array_from_literals es\<rparr>, Inr ()))))"

definition add_text :: "string \<Rightarrow> string \<Rightarrow> string" where
  "add_text a b = show_int (wrap_i64 (int_of_text a + int_of_text b))"

definition old_at :: "('k \<times> string) list \<Rightarrow> 'k \<Rightarrow> string" where
  "old_at m key = (case map_of m key of None \<Rightarrow> [] | Some s \<Rightarrow> s)"

definition element_value :: "bool \<Rightarrow> bool \<Rightarrow> string \<Rightarrow> string \<Rightarrow> string" where
  "element_value app as_int old s =
     (if app then (if as_int then add_text old s else old @ s) else s)"

definition assign_at_index ::
  "casing \<Rightarrow> shell_variable \<Rightarrow> string \<Rightarrow> string \<Rightarrow> bool \<Rightarrow> shell_variable upd" where
  "assign_at_index k v index s app =
     and_then
       (case v_value v of
          Unset t \<Rightarrow> assign_array k v []
        | Scalar_Value t \<Rightarrow> convert_to_indexed_array v
        | _ \<Rightarrow> (v, Inr ()))
       (\<lambda>v. case convert_str k v s of
          Inl e \<Rightarrow> (v, Inl e)
        | Inr s \<Rightarrow>
            (case v_value v of
               IndexedArray m \<Rightarrow>
                 (case get_key_for_indexed_array m index of
                    Inl e \<Rightarrow> (v, Inl e)
                  | Inr key \<Rightarrow>
                      (v\<lparr>v_value := IndexedArray
                           (bt_insert key (element_value app (v_integer v) (old_at m key) s) m)\<rparr>,
                       Inr ()))
             | AssociativeArray m \<Rightarrow>
                 (v\<lparr>v_value := AssociativeArray
                      (bt_insert index (element_value app (v_integer v) (old_at m index) s) m)\<rparr>,
                  Inr ())
             | _ \<Rightarrow> (v, Inl (Unimplemented ''assigning to index of non-array variable''))))"

definition assign_scalar :: "casing \<Rightarrow> shell_variable \<Rightarrow> string \<Rightarrow> shell_variable upd" where
  "assign_scalar k v s =
     (if v_readonly v then (v, Inl ReadonlyVariable)
      else (case convert_str k v s of
              Inl e \<Rightarrow> (v, Inl e)
            | Inr s \<Rightarrow>
                (case v_value v of
                   Dynamic d \<Rightarrow> (v, Inr ())
                 | Scalar_Value t \<Rightarrow> (v\<lparr>v_value := Scalar_Value s\<rparr>, Inr ())
                 | Unset Untyped \<Rightarrow> (v\<lparr>v_value := Scalar_Value s\<rparr>, Inr ())
                 | _ \<Rightarrow> assign_at_index k v ''0'' s False)))"

text \<open>What appending does to a variable that cannot take the literal as it is.\<close>

definition prepare_append ::
  "casing \<Rightarrow> shell_variable \<Rightarrow> value_literal \<Rightarrow> shell_variable upd" where
  "prepare_append k v lit =
     (case (v_value v, lit) of
        (Unset t, Array es) \<Rightarrow> assign_array k v []
      | (Unset Untyped, Scalar s) \<Rightarrow> assign_scalar k v []
      | (Unset t, Scalar s) \<Rightarrow> assign_array k v []
      | (Scalar_Value t, Array es) \<Rightarrow> convert_to_indexed_array v
      | _ \<Rightarrow> (v, Inr ()))"

definition append_prepared ::
  "casing \<Rightarrow> shell_variable \<Rightarrow> value_literal \<Rightarrow> shell_variable upd" where
  "append_prepared k v lit =
     (case (v_value v, lit) of
        (Scalar_Value base, Scalar suffix) \<Rightarrow>
          (if v_integer v then (v\<lparr>v_value := Scalar_Value (add_text base suffix)\<rparr>, Inr ())
           else (case apply_transforms k False (v_transform v) (base @ suffix) of
                   Inl e \<Rightarrow> (v, Inl e)
                 | Inr s \<Rightarrow> (v\<lparr>v_value := Scalar_Value s\<rparr>, Inr ())))
      | (Scalar_Value base, Array es) \<Rightarrow> (v, Inr ())
      | (IndexedArray m, Scalar s) \<Rightarrow> assign_at_index k v ''0'' s True
      | (IndexedArray m, Array es) \<Rightarrow>
          (v\<lparr>v_value := IndexedArray (update_indexed_array m es)\<rparr>, Inr ())
      | (AssociativeArray m, Scalar s) \<Rightarrow> assign_at_index k v ''0'' s True
      | (AssociativeArray m, Array es) \<Rightarrow>
          (case update_associative_array m es of
             (m', r) \<Rightarrow> (v\<lparr>v_value := AssociativeArray m'\<rparr>, r))
      | (Unset t, _) \<Rightarrow> (v, Inl Panicked)
      | (Dynamic d, _) \<Rightarrow> (v, Inr ()))"

definition assign ::
  "casing \<Rightarrow> shell_variable \<Rightarrow> value_literal \<Rightarrow> bool \<Rightarrow> shell_variable upd" where
  "assign k v lit app =
     (if \<not> app
      then (case lit of Scalar s \<Rightarrow> assign_scalar k v s | Array es \<Rightarrow> assign_array k v es)
      else if v_readonly v then (v, Inl ReadonlyVariable)
      else (case convert_literal k v lit of
              Inl e \<Rightarrow> (v, Inl e)
            | Inr lit \<Rightarrow> and_then (prepare_append k v lit) (\<lambda>v. append_prepared k v lit)))"

definition value_unset_index :: "shell_variable \<Rightarrow> string \<Rightarrow> shell_variable \<times> (shell_error + bool)" where
  "value_unset_index v index =
     (case v_value v of
        Unset Untyped \<Rightarrow> (v, Inl NotArray)
      | Unset t \<Rightarrow> (v, Inr False)
      | Scalar_Value s \<Rightarrow> (v, Inl NotArray)
      | AssociativeArray m \<Rightarrow>
          (v\<lparr>v_value := AssociativeArray (bt_remove index m)\<rparr>, Inr (map_of m index \<noteq> None))
      | IndexedArray m \<Rightarrow>
          (case get_key_for_indexed_array m index of
             Inl e \<Rightarrow> (v, Inl e)
           | Inr key \<Rightarrow>
               (v\<lparr>v_value := IndexedArray (bt_remove key m)\<rparr>, Inr (map_of m key \<noteq> None)))
      | Dynamic d \<Rightarrow> (v, Inr False))"

section \<open>Reading\<close>

definition resolve_value :: "(nat \<Rightarrow> shell_value) \<Rightarrow> shell_value \<Rightarrow> shell_value" where
  "resolve_value dyn v = (case v of Dynamic d \<Rightarrow> dyn d | _ \<Rightarrow> v)"

fun get_at_static :: "shell_value \<Rightarrow> string \<Rightarrow> shell_error + string option" where
  "get_at_static (Unset t) index = Inr None"
| "get_at_static (Scalar_Value s) index =
     (if (case parse_u64 index of Some n \<Rightarrow> n | None \<Rightarrow> 0) = 0 then Inr (Some s) else Inr None)"
| "get_at_static (AssociativeArray m) index = Inr (map_of m index)"
| "get_at_static (IndexedArray m) index =
     (case get_key_for_indexed_array m index of Inl e \<Rightarrow> Inl e | Inr key \<Rightarrow> Inr (map_of m key))"
| "get_at_static (Dynamic d) index = Inr None"

fun element_keys_static :: "shell_value \<Rightarrow> string list" where
  "element_keys_static (Unset t) = []"
| "element_keys_static (Scalar_Value s) = [''0'']"
| "element_keys_static (AssociativeArray m) = map fst m"
| "element_keys_static (IndexedArray m) = map (\<lambda>(key, s). decimal (unat key)) m"
| "element_keys_static (Dynamic d) = []"

fun element_values_static :: "shell_value \<Rightarrow> string list" where
  "element_values_static (Unset t) = []"
| "element_values_static (Scalar_Value s) = [s]"
| "element_values_static (AssociativeArray m) = map snd m"
| "element_values_static (IndexedArray m) = map snd m"
| "element_values_static (Dynamic d) = []"

definition attribute_flags :: "(nat \<Rightarrow> shell_value) \<Rightarrow> shell_variable \<Rightarrow> string" where
  "attribute_flags dyn v =
     (let value = resolve_value dyn (v_value v);
          indexed = (case value of IndexedArray m \<Rightarrow> True | Unset UnsetIndexed \<Rightarrow> True | _ \<Rightarrow> False);
          associative = (case value of AssociativeArray m \<Rightarrow> True | Unset UnsetAssociative \<Rightarrow> True | _ \<Rightarrow> False)
      in (if indexed then ''a'' else []) @ (if associative then ''A'' else []) @
         (if v_transform v = Capitalize then ''c'' else []) @ (if v_integer v then ''i'' else []) @
         (if v_nameref v then ''n'' else []) @ (if v_readonly v then ''r'' else []) @
         (if v_transform v = Lowercase then ''l'' else []) @ (if v_trace v then ''t'' else []) @
         (if v_transform v = Uppercase then ''u'' else []) @ (if v_exported v then ''x'' else []))"

section \<open>Integers survive printing\<close>

lemma is_digit_char: "d < 10 \<Longrightarrow> is_digit (char_of (48 + d)) \<and> of_char (char_of (48 + d) :: char) = 48 + d"
  for d :: nat
  by (simp add: is_digit_def in_range_def)

lemma decimal_digits: "decimal n \<noteq> [] \<and> list_all is_digit (decimal n)"
proof (induction n rule: decimal.induct)
  case (1 n)
  show ?case
  proof (cases "n < 10")
    case True
    then show ?thesis using is_digit_char [of n] by (simp add: decimal.simps [of n])
  next
    case False
    with 1 is_digit_char [of "n mod 10"] show ?thesis by (simp add: decimal.simps [of n])
  qed
qed

definition digits_value :: "string \<Rightarrow> nat" where
  "digits_value s = foldl (\<lambda>n c. 10 * n + (of_char c - 48)) 0 s"

lemma digits_value_snoc: "digits_value (s @ [c]) = 10 * digits_value s + (of_char c - 48)"
  by (simp add: digits_value_def)

lemma digits_value_decimal: "digits_value (decimal n) = n"
proof (induction n rule: decimal.induct)
  case (1 n)
  show ?case
  proof (cases "n < 10")
    case True
    then show ?thesis using is_digit_char [of n] by (simp add: decimal.simps [of n] digits_value_def)
  next
    case False
    then have "digits_value (decimal n) = 10 * digits_value (decimal (n div 10)) + n mod 10"
      using is_digit_char [of "n mod 10"] by (subst decimal.simps) (simp add: digits_value_snoc)
    with 1 False show ?thesis by simp
  qed
qed

lemma parse_decimal: "parse_digits (decimal n) = Some n"
  using decimal_digits [of n] digits_value_decimal [of n] by (simp add: parse_digits_def digits_value_def)

lemma decimal_head: "decimal n = c # r \<Longrightarrow> c \<noteq> CHR ''-'' \<and> c \<noteq> CHR ''+''"
  using decimal_digits [of n] by (auto simp: is_digit_def in_range_def)

lemma parse_show: "in_i64 n \<Longrightarrow> parse_i64 (show_int n) = Some n"
proof (cases "n < 0")
  case True
  moreover assume "in_i64 n"
  ultimately show ?thesis by (simp add: parse_i64_def show_int_def parse_decimal)
next
  case False
  obtain c r where d: "decimal (nat n) = c # r" using decimal_digits [of "nat n"] by (cases "decimal (nat n)") auto
  moreover have "parse_digits (c # r) = Some (nat n)" using parse_decimal [of "nat n"] d by simp
  moreover assume "in_i64 n"
  ultimately show ?thesis using False decimal_head [OF d] by (simp add: parse_i64_def show_int_def)
qed

lemma in_i64_text: "in_i64 (int_of_text s)"
proof -
  have "in_i64 0" by (simp add: in_i64_def)
  then show ?thesis
    by (auto simp: int_of_text_def parse_i64_def Let_def split: option.splits list.splits if_splits)
qed

lemma in_i64_wrap: "in_i64 (wrap_i64 n)"
  by (simp add: in_i64_def wrap_i64_def)

lemma wrap_i64_id: "in_i64 n \<Longrightarrow> wrap_i64 n = n"
  by (simp add: in_i64_def wrap_i64_def)

section \<open>What assignment keeps\<close>

definition int_text :: "string \<Rightarrow> bool" where
  "int_text s \<longleftrightarrow> s = [] \<or> (\<exists>n. in_i64 n \<and> s = show_int n)"

fun value_ordered :: "shell_value \<Rightarrow> bool" where
  "value_ordered (AssociativeArray m) = bt_ordered m"
| "value_ordered (IndexedArray m) = bt_ordered m"
| "value_ordered _ = True"

definition texts :: "('k \<times> string) list \<Rightarrow> string set" where
  "texts m = snd ` set m"

fun value_texts :: "shell_value \<Rightarrow> string set" where
  "value_texts (Scalar_Value s) = {s}"
| "value_texts (AssociativeArray m) = texts m"
| "value_texts (IndexedArray m) = texts m"
| "value_texts _ = {}"

definition var_ok :: "shell_variable \<Rightarrow> bool" where
  "var_ok v \<longleftrightarrow> value_ordered (v_value v) \<and>
     (v_integer v \<longrightarrow> (\<forall>s \<in> value_texts (v_value v). int_text s))"

definition same_attributes :: "shell_variable \<Rightarrow> shell_variable \<Rightarrow> bool" where
  "same_attributes v v' \<longleftrightarrow> v\<lparr>v_value := v_value v'\<rparr> = v'"

text \<open>How the kind of a value may change: an array stays the array it is, a declared kind is kept,
  and nothing becomes associative by assignment.\<close>

fun kind_keeps :: "shell_value \<Rightarrow> shell_value \<Rightarrow> bool" where
  "kind_keeps (AssociativeArray m) w = (\<exists>m'. w = AssociativeArray m')"
| "kind_keeps (IndexedArray m) w = (\<exists>m'. w = IndexedArray m')"
| "kind_keeps (Unset UnsetAssociative) w = (w = Unset UnsetAssociative \<or> (\<exists>m'. w = AssociativeArray m'))"
| "kind_keeps (Unset UnsetIndexed) w = (w = Unset UnsetIndexed \<or> (\<exists>m'. w = IndexedArray m'))"
| "kind_keeps (Unset Untyped) w = (w = Unset Untyped \<or> (\<exists>s. w = Scalar_Value s) \<or> (\<exists>m'. w = IndexedArray m'))"
| "kind_keeps (Scalar_Value s) w = ((\<exists>s'. w = Scalar_Value s') \<or> (\<exists>m'. w = IndexedArray m'))"
| "kind_keeps (Dynamic d) w = (w = Dynamic d \<or> (\<exists>m'. w = IndexedArray m'))"

definition keeps :: "shell_variable \<Rightarrow> shell_variable \<Rightarrow> bool" where
  "keeps v v' \<longleftrightarrow> (var_ok v \<longrightarrow> var_ok v') \<and> same_attributes v v' \<and> kind_keeps (v_value v) (v_value v')"

lemma kind_keeps_refl: "kind_keeps x x"
  by (cases x; cases "case x of Unset t \<Rightarrow> t | _ \<Rightarrow> Untyped") auto

lemma kind_keeps_trans: "kind_keeps x y \<Longrightarrow> kind_keeps y z \<Longrightarrow> kind_keeps x z"
  by (cases x; cases "case x of Unset t \<Rightarrow> t | _ \<Rightarrow> Untyped") auto

lemma keeps_refl [simp]: "keeps v v"
  by (simp add: keeps_def kind_keeps_refl same_attributes_def)

lemma keeps_trans: "keeps v v' \<Longrightarrow> keeps v' v'' \<Longrightarrow> keeps v v''"
  unfolding keeps_def same_attributes_def using kind_keeps_trans
  by (metis shell_variable.update_convs(1) shell_variable.select_convs(1) shell_variable.surjective)

lemma keeps_and_then:
  "keeps v (fst p) \<Longrightarrow> (\<And>v'. snd p = Inr () \<Longrightarrow> p = (v', Inr ()) \<Longrightarrow> keeps v' (fst (f v'))) \<Longrightarrow> keeps v (fst (and_then p f))"
  by (cases p; cases "snd p") (auto simp: and_then_def intro: keeps_trans split: sum.split)

lemma keeps_value:
  "(var_ok v \<Longrightarrow> value_ordered x \<and> (v_integer v \<longrightarrow> (\<forall>s \<in> value_texts x. int_text s))) \<Longrightarrow>
     kind_keeps (v_value v) x \<Longrightarrow> keeps v (v\<lparr>v_value := x\<rparr>)"
  by (auto simp: keeps_def var_ok_def same_attributes_def)

lemma int_text_Nil [simp]: "int_text []"
  by (simp add: int_text_def)

lemma int_text_show: "in_i64 n \<Longrightarrow> int_text (show_int n)"
  by (auto simp: int_text_def)

lemma int_text_add: "int_text (add_text a b)"
  by (simp add: add_text_def int_text_show in_i64_wrap)

lemma convert_str_int: "convert_str k v s = Inr s' \<Longrightarrow> v_integer v \<Longrightarrow> int_text s'"
  by (auto simp: convert_str_def apply_transforms_def int_text_show in_i64_text)

lemma convert_entries_int:
  "convert_entries k v es = Inr es' \<Longrightarrow> v_integer v \<Longrightarrow> \<forall>(key, s) \<in> set es'. int_text s"
proof (induction es arbitrary: es')
  case Nil
  then show ?case by simp
next
  case (Cons e es)
  obtain key s where e: "e = (key, s)" by (cases e)
  with Cons.prems obtain s' r where "convert_str k v s = Inr s'" "convert_entries k v es = Inr r"
    "es' = (key, s') # r"
    by (auto split: sum.splits)
  with Cons.IH [of r] Cons.prems(2) convert_str_int show ?case by auto
qed

lemma texts_insert: "texts (bt_insert key s m) \<subseteq> insert s (texts m)"
  unfolding texts_def by (induction key s m rule: bt_insert.induct) auto

lemma texts_remove: "texts (bt_remove key m) \<subseteq> texts m"
  by (auto simp: bt_remove_def texts_def)

lemma texts_Nil [simp]: "texts [] = {}"
  by (simp add: texts_def)

lemma texts_Cons: "texts ((key, s) # m) = insert s (texts m)"
  by (simp add: texts_def)

lemma put_indexed_keeps:
  "bt_ordered m \<Longrightarrow> bt_ordered (put_indexed n es m) \<and>
     texts (put_indexed n es m) \<subseteq> texts m \<union> texts es"
proof (induction n es m rule: put_indexed.induct)
  case (1 n m)
  then show ?case by simp
next
  case (2 n key s rest m)
  define at where "at = (case key of None \<Rightarrow> n | Some t \<Rightarrow> (case parse_u64 t of Some n \<Rightarrow> n | None \<Rightarrow> 0))"
  have "put_indexed n ((key, s) # rest) m = put_indexed (at + 1) rest (bt_insert at s m)"
    by (simp only: put_indexed.simps Let_def at_def)
  with "2.IH" [OF at_def bt.ordered_put [OF "2.prems"]] texts_insert [of at s m]
  show ?case by (simp only: texts_Cons) blast
qed

lemma put_associative_keeps:
  "bt_ordered m \<Longrightarrow> bt_ordered (fst (put_associative p es m)) \<and>
     texts (fst (put_associative p es m)) \<subseteq> {[]} \<union> texts m \<union> texts es"
proof (induction p es m rule: put_associative.induct)
  case (2 pending m)
  then show ?case using texts_insert [of pending "[]" m] by (auto simp: bt.ordered_put)
next
  case (3 pending key s rest m)
  then show ?case using texts_insert [of pending s m] by (simp add: bt.ordered_put texts_Cons) blast
next
  case (4 key s rest m)
  then show ?case using texts_insert [of key s m] by (simp add: bt.ordered_put texts_Cons) blast
next
  case (5 s rest m)
  then show ?case by (simp add: texts_Cons) blast
qed auto

lemma texts_int: "convert_entries k v es = Inr es' \<Longrightarrow> v_integer v \<Longrightarrow> s \<in> texts es' \<Longrightarrow> int_text s"
  using convert_entries_int by (fastforce simp: texts_def)

lemma indexed_from_ok:
  "value_ordered (indexed_array_from_literals es) \<and> value_texts (indexed_array_from_literals es) \<subseteq> texts es"
  using put_indexed_keeps [OF bt.ordered_none, of 0 es]
  by (simp add: indexed_array_from_literals_def update_indexed_array_def)

lemma associative_from_ok:
  "associative_array_from_literals es = Inr a \<Longrightarrow>
     value_ordered a \<and> value_texts a \<subseteq> insert [] (texts es) \<and> (\<exists>m. a = AssociativeArray m)"
  using put_associative_keeps [OF bt.ordered_none, of None es]
  by (auto simp: associative_array_from_literals_def update_associative_array_def
      split: prod.splits sum.splits)

lemma keeps_convert_indexed:
  "v_value v = Scalar_Value s \<Longrightarrow> keeps v (fst (convert_to_indexed_array v))"
  unfolding convert_to_indexed_array_def
  by (auto intro!: keeps_value simp: var_ok_def bt_ordered_def texts_def text_of_def)

lemma keeps_assign_array: "keeps v (fst (assign_array k v es))"
proof (cases "v_readonly v")
  case True
  then show ?thesis by (simp add: assign_array_def)
next
  case ro: False
  show ?thesis
  proof (cases "convert_entries k v es")
    case (Inl e)
    with ro show ?thesis by (simp add: assign_array_def convert_literal_def)
  next
    case (Inr es')
    have idx: "keeps v (v\<lparr>v_value := indexed_array_from_literals es'\<rparr>)"
      if "kind_keeps (v_value v) (indexed_array_from_literals es')"
      by (rule keeps_value [OF _ that]) (use indexed_from_ok [of es'] texts_int [OF Inr] in blast)
    have assoc: "keeps v (v\<lparr>v_value := a\<rparr>)"
      if "kind_keeps (v_value v) a" "associative_array_from_literals es' = Inr a" for a
      by (rule keeps_value [OF _ that(1)])
         (use associative_from_ok [OF that(2)] texts_int [OF Inr] int_text_Nil in blast)
    show ?thesis
      using ro Inr associative_from_ok [of es']
      by (auto simp: assign_array_def convert_literal_def indexed_array_from_literals_def
          intro!: idx [unfolded indexed_array_from_literals_def] assoc
          split: shell_value.splits unset_type.splits sum.splits)
  qed
qed

lemma element_value_int:
  "int_text s \<Longrightarrow> int_text (element_value app True old s)"
  by (simp add: element_value_def int_text_add)

lemma keeps_insert:
  assumes "convert_str k v s = Inr s'"
  shows "v_value v = IndexedArray m \<Longrightarrow> keeps v (v\<lparr>v_value := IndexedArray
           (bt_insert key (element_value app (v_integer v) old s') m)\<rparr>)"
    and "v_value v = AssociativeArray m' \<Longrightarrow> keeps v (v\<lparr>v_value := AssociativeArray
           (bt_insert index (element_value app (v_integer v) old s') m')\<rparr>)"
proof -
  have e: "int_text (element_value app (v_integer v) old s')" if "v_integer v"
    using element_value_int [OF convert_str_int [OF assms that]] that by simp
  show "v_value v = IndexedArray m \<Longrightarrow> keeps v (v\<lparr>v_value := IndexedArray
           (bt_insert key (element_value app (v_integer v) old s') m)\<rparr>)"
    by (rule keeps_value)
       (use e texts_insert [of key "element_value app (v_integer v) old s'" m]
        in \<open>auto simp: var_ok_def bt.ordered_put\<close>)
  show "v_value v = AssociativeArray m' \<Longrightarrow> keeps v (v\<lparr>v_value := AssociativeArray
           (bt_insert index (element_value app (v_integer v) old s') m')\<rparr>)"
    by (rule keeps_value)
       (use e texts_insert [of index "element_value app (v_integer v) old s'" m']
        in \<open>auto simp: var_ok_def bt.ordered_put\<close>)
qed

lemma keeps_assign_at_index: "keeps v (fst (assign_at_index k v index s app))"
  unfolding assign_at_index_def
proof (rule keeps_and_then)
  show "keeps v (fst (case v_value v of Unset t \<Rightarrow> assign_array k v []
        | Scalar_Value t \<Rightarrow> convert_to_indexed_array v | _ \<Rightarrow> (v, Inr ())))"
    by (cases "v_value v") (simp_all add: keeps_assign_array keeps_convert_indexed)
  fix w
  show "keeps w (fst (case convert_str k w s of
          Inl e \<Rightarrow> (w, Inl e)
        | Inr s \<Rightarrow>
            (case v_value w of
               IndexedArray m \<Rightarrow>
                 (case get_key_for_indexed_array m index of
                    Inl e \<Rightarrow> (w, Inl e)
                  | Inr key \<Rightarrow>
                      (w\<lparr>v_value := IndexedArray
                           (bt_insert key (element_value app (v_integer w) (old_at m key) s) m)\<rparr>,
                       Inr ()))
             | AssociativeArray m \<Rightarrow>
                 (w\<lparr>v_value := AssociativeArray
                      (bt_insert index (element_value app (v_integer w) (old_at m index) s) m)\<rparr>,
                  Inr ())
             | _ \<Rightarrow> (w, Inl (Unimplemented ''assigning to index of non-array variable'')))))"
    by (auto simp: keeps_insert split: sum.split shell_value.split)
qed

lemma keeps_assign_scalar: "keeps v (fst (assign_scalar k v s))"
proof (cases "convert_str k v s")
  case (Inl e)
  then show ?thesis by (simp add: assign_scalar_def)
next
  case (Inr s')
  have "keeps v (v\<lparr>v_value := Scalar_Value s'\<rparr>)"
    if "kind_keeps (v_value v) (Scalar_Value s')"
    by (rule keeps_value [OF _ that]) (use convert_str_int [OF Inr] in simp)
  with Inr show ?thesis
    by (auto simp: assign_scalar_def keeps_assign_at_index split: shell_value.split unset_type.split)
qed

lemma keeps_prepare: "keeps v (fst (prepare_append k v lit))"
  unfolding prepare_append_def
  by (auto simp: keeps_assign_array keeps_assign_scalar keeps_convert_indexed
      split: shell_value.split value_literal.split unset_type.split)

lemma keeps_append_prepared:
  assumes "\<And>es s. lit = Array es \<Longrightarrow> v_integer v \<Longrightarrow> s \<in> texts es \<Longrightarrow> int_text s"
  shows "keeps v (fst (append_prepared k v lit))"
proof (cases lit)
  case (Scalar s)
  show ?thesis
    unfolding append_prepared_def Scalar
    by (auto intro!: keeps_value simp: int_text_add keeps_assign_at_index split: shell_value.split sum.split)
next
  case (Array es)
  have idx: "keeps v (v\<lparr>v_value := IndexedArray (update_indexed_array m es)\<rparr>)"
    if "v_value v = IndexedArray m" for m
    by (rule keeps_value)
       (use that put_indexed_keeps [of m _ es] assms [OF Array] in
        \<open>auto simp: var_ok_def update_indexed_array_def dest!: subsetD\<close>)
  have assoc: "keeps v (v\<lparr>v_value := AssociativeArray (fst (update_associative_array m es))\<rparr>)"
    if "v_value v = AssociativeArray m" for m
    by (rule keeps_value)
       (use that put_associative_keeps [of m None es] assms [OF Array] in
        \<open>auto simp: var_ok_def update_associative_array_def dest!: subsetD\<close>)
  show ?thesis
    using idx assoc
    by (auto simp: append_prepared_def Array split: shell_value.split prod.split)
qed

lemma keeps_integer: "keeps v v' \<Longrightarrow> v_integer v' = v_integer v"
  unfolding keeps_def same_attributes_def
  by (metis shell_variable.select_convs(7) shell_variable.surjective shell_variable.update_convs(1))

lemma keeps_assign: "keeps v (fst (assign k v lit app))"
proof (cases "app \<and> \<not> v_readonly v")
  case False
  then show ?thesis
    by (auto simp: assign_def keeps_assign_scalar keeps_assign_array split: value_literal.split)
next
  case True
  show ?thesis
  proof (cases "convert_literal k v lit")
    case (Inl e)
    with True show ?thesis by (simp add: assign_def)
  next
    case (Inr lit')
    have "keeps v (fst (and_then (prepare_append k v lit') (\<lambda>v. append_prepared k v lit')))"
    proof (rule keeps_and_then [OF keeps_prepare])
      fix w assume w: "prepare_append k v lit' = (w, Inr ())"
      have i: "v_integer w = v_integer v" using keeps_integer keeps_prepare w by (metis fst_conv)
      show "keeps w (fst (append_prepared k w lit'))"
      proof (rule keeps_append_prepared)
        fix es s assume "lit' = Array es" "v_integer w" "s \<in> texts es"
        with Inr i texts_int show "int_text s"
          by (auto simp: convert_literal_def split: value_literal.splits sum.splits)
      qed
    qed
    with True Inr show ?thesis by (simp add: assign_def)
  qed
qed

lemma keeps_unset_index: "keeps v (fst (value_unset_index v index))"
proof -
  have r: "int_text s" if "\<forall>s \<in> texts m. int_text s" "s \<in> texts (bt_remove key m)" for s key and m :: "('k \<times> string) list"
    using that texts_remove [of key m] by blast
  show ?thesis
    unfolding value_unset_index_def
    by (auto intro!: keeps_value simp: var_ok_def bt.ordered_del r
        split: shell_value.split unset_type.split sum.split)
qed

section \<open>An abstract view of a value\<close>

text \<open>A value as a partial map from subscripts: numbers for a scalar and an indexed array, keys for an
  associative one.\<close>

fun slots :: "shell_value \<Rightarrow> u64 + string \<Rightarrow> string option" where
  "slots (Scalar_Value s) = (\<lambda>i. if i = Inl 0 then Some s else None)"
| "slots (IndexedArray m) = (\<lambda>i. case i of Inl n \<Rightarrow> map_of m n | Inr key \<Rightarrow> None)"
| "slots (AssociativeArray m) = (\<lambda>i. case i of Inl n \<Rightarrow> None | Inr key \<Rightarrow> map_of m key)"
| "slots _ = (\<lambda>i. None)"

fun indexed_view :: "shell_value \<Rightarrow> (u64 \<times> string) list" where
  "indexed_view (IndexedArray m) = m"
| "indexed_view (Scalar_Value s) = [(0, s)]"
| "indexed_view _ = []"

text \<open>The slot a subscript names.\<close>

definition slot_of :: "shell_value \<Rightarrow> string \<Rightarrow> shell_error + (u64 + string)" where
  "slot_of value index =
     (case value of
        AssociativeArray m \<Rightarrow> Inr (Inr index)
      | Unset UnsetAssociative \<Rightarrow> Inr (Inr index)
      | _ \<Rightarrow> (case get_key_for_indexed_array (indexed_view value) index of
                Inl e \<Rightarrow> Inl e | Inr key \<Rightarrow> Inr (Inl key)))"

definition text_at :: "shell_value \<Rightarrow> u64 + string \<Rightarrow> string" where
  "text_at value i = (case slots value i of None \<Rightarrow> [] | Some s \<Rightarrow> s)"

lemma slots_insert_indexed:
  "bt_ordered m \<Longrightarrow> slots (IndexedArray (bt_insert key s m)) = (slots (IndexedArray m))(Inl key \<mapsto> s)"
  by (rule ext) (auto simp: bt.get_put split: sum.split)

lemma slots_insert_associative:
  "bt_ordered m \<Longrightarrow> slots (AssociativeArray (bt_insert key s m)) = (slots (AssociativeArray m))(Inr key \<mapsto> s)"
  by (rule ext) (auto simp: bt.get_put split: sum.split)

lemma old_at_slots:
  "old_at m n = text_at (IndexedArray m) (Inl n)" "old_at m' key = text_at (AssociativeArray m') (Inr key)"
  by (simp_all add: old_at_def text_at_def)

text \<open>The step that turns what is not an array into one keeps every slot.\<close>

definition promoted :: "shell_value \<Rightarrow> shell_value" where
  "promoted value =
     (case value of
        Unset UnsetAssociative \<Rightarrow> AssociativeArray []
      | Unset t \<Rightarrow> IndexedArray []
      | Scalar_Value s \<Rightarrow> IndexedArray [(0, s)]
      | _ \<Rightarrow> value)"

lemma slots_promoted: "slots (promoted value) = slots value"
  by (rule ext) (auto simp: promoted_def split: shell_value.split unset_type.split sum.split)

lemma slot_of_promoted: "slot_of (promoted value) index = slot_of value index"
  by (auto simp: promoted_def slot_of_def split: shell_value.split unset_type.split)

lemma ordered_promoted: "value_ordered value \<Longrightarrow> value_ordered (promoted value)"
  by (auto simp: promoted_def bt_ordered_def split: shell_value.split unset_type.split)

lemma assign_array_Nil:
  "assign_array k v [] = (v', Inr ()) \<Longrightarrow> v_value v = Unset t \<Longrightarrow> v' = v\<lparr>v_value := promoted (v_value v)\<rparr>"
  by (cases t) (auto simp: assign_array_def convert_literal_def promoted_def indexed_array_from_literals_def
      update_indexed_array_def associative_array_from_literals_def update_associative_array_def
      split: if_splits)

lemma promote_step:
  assumes "(case v_value v of Unset t \<Rightarrow> assign_array k v [] | Scalar_Value t \<Rightarrow> convert_to_indexed_array v
      | _ \<Rightarrow> (v, Inr ())) = (w, Inr ())"
  shows "w = v\<lparr>v_value := promoted (v_value v)\<rparr>"
  using assms assign_array_Nil [of k v w]
  by (auto simp: convert_to_indexed_array_def text_of_def promoted_def split: shell_value.splits)

lemma assign_at_index_slots:
  assumes o: "value_ordered (v_value v)" and a: "assign_at_index k v index s app = (v', Inr ())"
  shows "\<exists>i t. slot_of (v_value v) index = Inr i \<and> convert_str k v s = Inr t \<and>
    slots (v_value v') =
      (slots (v_value v))(i \<mapsto> element_value app (v_integer v) (text_at (v_value v) i) t)"
proof -
  let ?p = "promoted (v_value v)" and ?w = "v\<lparr>v_value := promoted (v_value v)\<rparr>"
  obtain w where w: "(case v_value v of Unset t \<Rightarrow> assign_array k v [] | Scalar_Value t \<Rightarrow> convert_to_indexed_array v
      | _ \<Rightarrow> (v, Inr ())) = (w, Inr ())"
    using a unfolding assign_at_index_def and_then_def by (auto split: prod.splits sum.splits)
  note w' = promote_step [OF w]
  have po: "value_ordered ?p" by (rule ordered_promoted [OF o])
  have cs: "convert_str k (v\<lparr>v_value := x\<rparr>) s = convert_str k v s" for x by (simp add: convert_str_def)
  obtain t where t: "convert_str k v s = Inr t"
    using a unfolding assign_at_index_def w and_then_def w' by (cases "convert_str k v s") (auto simp: cs)
  have ta: "text_at ?p = text_at (v_value v)" by (simp add: text_at_def fun_eq_iff slots_promoted)
  have "\<exists>i. slot_of ?p index = Inr i \<and>
      slots (v_value v') = (slots ?p)(i \<mapsto> element_value app (v_integer v) (text_at ?p i) t)"
  proof (cases ?p)
    case (IndexedArray m)
    then obtain key where key: "get_key_for_indexed_array m index = Inr key"
      using a unfolding assign_at_index_def w and_then_def w' by (auto simp: cs t split: sum.splits)
    then have "v' = v\<lparr>v_value := IndexedArray (bt_insert key (element_value app (v_integer v) (old_at m key) t) m)\<rparr>"
      using a IndexedArray unfolding assign_at_index_def w and_then_def w' by (auto simp: cs t)
    then show ?thesis
      using slots_insert_indexed [of m] po IndexedArray key
      by (simp add: slot_of_def old_at_slots del: slots.simps)
  next
    case (AssociativeArray m)
    then have "v' = v\<lparr>v_value := AssociativeArray (bt_insert index (element_value app (v_integer v) (old_at m index) t) m)\<rparr>"
      using a unfolding assign_at_index_def w and_then_def w' by (auto simp: cs t)
    then show ?thesis
      using slots_insert_associative [of m] po AssociativeArray
      by (simp add: slot_of_def old_at_slots del: slots.simps)
  qed (use a in \<open>auto simp: assign_at_index_def w and_then_def w' cs t\<close>)
  with t ta show ?thesis by (simp add: slots_promoted slot_of_promoted)
qed

lemma unset_index_slots:
  assumes "value_ordered (v_value v)" and "value_unset_index v index = (v', Inr found)"
    and "(\<exists>m. v_value v = IndexedArray m) \<or> (\<exists>m. v_value v = AssociativeArray m)"
  shows "\<exists>i. slot_of (v_value v) index = Inr i \<and> slots (v_value v') = (slots (v_value v))(i := None) \<and>
    found = (slots (v_value v) i \<noteq> None)"
  using assms
  by (auto simp: value_unset_index_def slot_of_def bt.get_del fun_eq_iff split: sum.splits)

lemma bt_insert_last:
  "\<forall>j \<in> fst ` set m. j < key \<Longrightarrow> bt_insert key s m = m @ [(key, s)]"
  by (induction m) auto

lemma put_indexed_plain:
  "\<forall>j \<in> fst ` set m. unat j < n \<Longrightarrow> n + length ss \<le> 2 ^ 64 \<Longrightarrow>
     put_indexed (word_of_nat n) (map (Pair None) ss) m =
       m @ zip (map word_of_nat [n..<n + length ss]) ss"
proof (induction ss arbitrary: n m)
  case Nil
  then show ?case by simp
next
  case (Cons s ss)
  have n: "unat (word_of_nat n :: u64) = n"
    unfolding unat_of_nat using Cons.prems(2) by (intro mod_less) simp
  have ins: "bt_insert (word_of_nat n) s m = m @ [(word_of_nat n, s)]"
    by (rule bt_insert_last) (use Cons.prems(1) n in \<open>auto simp: word_less_nat_alt\<close>)
  have "put_indexed (word_of_nat (Suc n)) (map (Pair None) ss) (m @ [(word_of_nat n, s)]) =
      (m @ [(word_of_nat n, s)]) @ zip (map word_of_nat [Suc n..<Suc n + length ss]) ss"
    by (rule Cons.IH) (use Cons.prems n in auto)
  moreover have "[n..<n + length (s # ss)] = n # [Suc n..<Suc n + length ss]"
    by (subst upt_rec) simp
  ultimately show ?case by (simp add: Let_def ins add.commute)
qed

section \<open>Properties\<close>

text \<open>C13. What assignment keeps. Whatever is assigned, appended or removed, and also when it fails, a
  variable's arrays stay ordered without duplicate keys, a variable declared an integer holds only
  canonical 64-bit integers (or the empty text), its attributes do not change, and its kind changes
  only from unset to set and from scalar to indexed array.\<close>

theorem assignment_keeps:
  assumes "var_ok v"
    and "v' = fst (assign k v lit app) \<or> v' = fst (assign_at_index k v index s app) \<or>
      v' = fst (value_unset_index v index)"
  shows "var_ok v' \<and> same_attributes v v' \<and> kind_keeps (v_value v) (v_value v')"
  using assms keeps_assign [of v k lit app] keeps_assign_at_index [of v k index s app]
    keeps_unset_index [of v index]
  by (auto simp: keeps_def)

definition ascii_casing :: casing where
  "ascii_casing = \<lparr> cs_lower = map lower_char,
     cs_upper = map (\<lambda>c. if in_range 97 122 c then char_of (of_char c - 32 :: nat) else c) \<rparr>"

definition integer_array :: shell_variable where
  "integer_array = (variable_new (IndexedArray [(0, ''1''), (5, ''7'')]))\<lparr>v_integer := True\<rparr>"

lemma integer_array_ok: "var_ok integer_array"
proof -
  have "''1'' = show_int 1" "''7'' = show_int 7" by code_simp+
  moreover have "in_i64 1" "in_i64 7" by code_simp+
  ultimately have "int_text ''1''" "int_text ''7''" unfolding int_text_def by blast+
  then show ?thesis
    by (simp add: var_ok_def integer_array_def variable_new_def bt_ordered_def texts_def)
qed

theorem assignment_keeps_witness:
  "var_ok (fst (assign ascii_casing integer_array (Scalar ''oops'') True)) \<and>
   same_attributes integer_array (fst (assign ascii_casing integer_array (Scalar ''oops'') True)) \<and>
   kind_keeps (v_value integer_array) (v_value (fst (assign ascii_casing integer_array (Scalar ''oops'') True)))"
  by (rule assignment_keeps [OF integer_array_ok disjI1]) (rule refl)

text \<open>C14. Assigning an element refines a map update. When it succeeds, the value as a map of
  subscripts is the old one with exactly the named slot changed, to the converted text, or to the
  old text extended by it when appending; a scalar counts as slot zero, an unset variable as empty.\<close>

theorem element_assignment_refines:
  assumes "value_ordered (v_value v)" and "assign_at_index k v index s app = (v', Inr ())"
  shows "\<exists>i t. slot_of (v_value v) index = Inr i \<and> convert_str k v s = Inr t \<and>
    slots (v_value v') =
      (slots (v_value v))(i \<mapsto> element_value app (v_integer v) (text_at (v_value v) i) t)"
  by (rule assign_at_index_slots [OF assms])

theorem element_assignment_refines_witness:
  "\<exists>i t. slot_of (Scalar_Value ''a'') ''2'' = Inr i \<and> convert_str ascii_casing (variable_new (Scalar_Value ''a'')) ''b'' = Inr t \<and>
    slots (v_value (fst (assign_at_index ascii_casing (variable_new (Scalar_Value ''a'')) ''2'' ''b'' False))) =
      (slots (Scalar_Value ''a''))(i \<mapsto> element_value False False (text_at (Scalar_Value ''a'') i) t)"
proof -
  let ?v = "variable_new (Scalar_Value ''a'')"
  have v: "v_value ?v = Scalar_Value ''a''" "v_integer ?v = False" by code_simp+
  have "assign_at_index ascii_casing ?v ''2'' ''b'' False =
      (fst (assign_at_index ascii_casing ?v ''2'' ''b'' False), Inr ())"
    by (simp add: assign_at_index_def and_then_def convert_to_indexed_array_def variable_new_def
        convert_str_def apply_transforms_def get_key_for_indexed_array_def int_of_text_def parse_i64_def
        parse_digits_def is_digit_def in_range_def in_i64_def)
  from element_assignment_refines [OF _ this] v show ?thesis by simp
qed

text \<open>An array literal without subscripts goes on after the largest index, in order, as long as
  the indices fit in 64 bits.\<close>

theorem literal_continues:
  assumes "bt_ordered m" and "next = (if m = [] then 0 else Suc (unat (fst (last m))))"
    and "next + length ss \<le> 2 ^ 64" and "next < 2 ^ 64"
  shows "update_indexed_array m (map (Pair None) ss) =
    m @ zip (map word_of_nat [next..<next + length ss]) ss"
proof -
  have below: "\<forall>j \<in> fst ` set m. unat j < next"
  proof (cases m rule: rev_cases)
    case (snoc ms x)
    with assms(1) have "\<forall>j \<in> fst ` set ms. j < fst x"
      by (auto simp: bt_ordered_def sorted_wrt_append)
    with snoc assms(2) show ?thesis by (auto simp: word_less_nat_alt less_SucI)
  qed simp
  have "(if m = [] then 0 else fst (last m) + 1) = (word_of_nat next :: u64)"
    using assms(2) by simp
  then show ?thesis
    unfolding update_indexed_array_def by (simp only: put_indexed_plain [OF below assms(3)])
qed

theorem literal_continues_witness:
  "update_indexed_array [(4, ''x'')] (map (Pair None) [''y'', ''z'']) =
    [(4, ''x'')] @ zip (map word_of_nat [5..<5 + length [''y'', ''z'']]) [''y'', ''z'']"
  by (rule literal_continues) (simp_all add: bt_ordered_def)

text \<open>A 64-bit integer survives being printed and read back.\<close>

theorem integer_text_roundtrip:
  assumes "in_i64 n"
  shows "parse_i64 (show_int n) = Some n \<and> wrap_i64 n = n"
  by (simp add: parse_show assms wrap_i64_id)

theorem integer_text_roundtrip_witness:
  "parse_i64 (show_int (- 9223372036854775808)) = Some (- 9223372036854775808) \<and>
   wrap_i64 (- 9223372036854775808) = - 9223372036854775808"
  by (rule integer_text_roundtrip) (simp add: in_i64_def)

section \<open>Findings\<close>

text \<open>\<^verbatim>\<open>assign\<close> refuses a readonly variable; assigning or unsetting an element does not look.\<close>

theorem readonly_elements_change:
  "assign ascii_casing (variable_new (IndexedArray [(0, ''1'')])\<lparr>v_readonly := True\<rparr>) (Scalar ''9'') False =
     (variable_new (IndexedArray [(0, ''1'')])\<lparr>v_readonly := True\<rparr>, Inl ReadonlyVariable) \<and>
   assign_at_index ascii_casing (variable_new (IndexedArray [(0, ''1'')])\<lparr>v_readonly := True\<rparr>) ''0'' ''9'' False =
     (variable_new (IndexedArray [(0, ''9'')])\<lparr>v_readonly := True\<rparr>, Inr ()) \<and>
   value_unset_index (variable_new (IndexedArray [(0, ''1'')])\<lparr>v_readonly := True\<rparr>) ''0'' =
     (variable_new (IndexedArray [])\<lparr>v_readonly := True\<rparr>, Inr True)"
  by (simp add: assign_def assign_scalar_def assign_at_index_def and_then_def variable_new_def
      convert_str_def apply_transforms_def get_key_for_indexed_array_def int_of_text_def parse_i64_def
      parse_digits_def is_digit_def in_range_def in_i64_def value_unset_index_def bt_remove_def element_value_def)

text \<open>A negative subscript counts elements, not indices: in a sparse array the last element is not
  at \<^verbatim>\<open>-1\<close>.\<close>

theorem negative_subscript_counts_elements:
  "get_at_static (IndexedArray [(5, ''x'')]) ''-1'' = Inr None \<and>
   slot_of (IndexedArray [(5, ''x'')]) ''-1'' = Inr (Inl 0)"
  by (simp add: slot_of_def get_key_for_indexed_array_def int_of_text_def parse_i64_def
      parse_digits_def is_digit_def in_range_def in_i64_def)

text \<open>A capitalised variable aborts the shell when its value starts outside ASCII.\<close>

theorem capitalize_can_panic:
  "apply_transforms ascii_casing False Capitalize [CHR 0xC3, CHR 0xA9] = Inl Panicked"
  by code_simp

end
