(* ===== verification/Brace.thy ===== *)
theory Brace
  imports Variables
begin

text \<open>
  Brace expansion (\<^verbatim>\<open>brush-core/src/braceexpansion.rs\<close>) and its call in
  \<^verbatim>\<open>brush-core/src/expansion.rs\<close>.

  The code counts the fields of a piece before generating any, and collects a piece's lazy iterator
  once its count passed. An iterator is the list it yields, or \<^const>\<open>None\<close> where it never ends; a
  computation is \<^const>\<open>None\<close> where it collects such an iterator, otherwise its \<^verbatim>\<open>Result\<close>. An
  \<^verbatim>\<open>i64\<close> is an \<^typ>\<open>int\<close> that wraps as in the release profile; a \<^verbatim>\<open>char\<close> is its code point.
\<close>

section \<open>Data\<close>

datatype brace_member =
    NumberSequence int int int
  | CharSequence nat nat int
  | Child "brace_text list"
and brace_text =
    Expr "brace_member list"
  | Text_Piece string

datatype brace_error = TooMuchData

type_synonym 'a brace_run = "(brace_error + 'a) option"
type_synonym fields = "nat \<times> string list option"

definition MAX_BRACE_EXPANSION_FIELDS :: nat where
  "MAX_BRACE_EXPANSION_FIELDS = 2 ^ 20"

definition usize_max :: nat where
  "usize_max = 2 ^ 64 - 1"

definition saturating_add :: "nat \<Rightarrow> nat \<Rightarrow> nat" where
  "saturating_add a b = min usize_max (a + b)"

definition saturating_mul :: "nat \<Rightarrow> nat \<Rightarrow> nat" where
  "saturating_mul a b = min usize_max (a * b)"

definition brace_ok :: "'a \<Rightarrow> 'a brace_run" where
  "brace_ok x = Some (Inr x)"

text \<open>The \<^verbatim>\<open>?\<close> operator, on a computation that may not return.\<close>

definition brace_bind :: "'a brace_run \<Rightarrow> ('a \<Rightarrow> 'b brace_run) \<Rightarrow> 'b brace_run" where
  "brace_bind r f =
     (case r of None \<Rightarrow> None | Some (Inl e) \<Rightarrow> Some (Inl e) | Some (Inr x) \<Rightarrow> f x)"

section \<open>Sequences\<close>

definition sequence_len :: "int \<Rightarrow> int \<Rightarrow> nat \<Rightarrow> nat" where
  "sequence_len s e increment =
     (let n = nat \<bar>e - s\<bar> div increment + 1 in if n \<le> usize_max then n else usize_max)"

text \<open>\<^verbatim>\<open>increment.unsigned_abs() as usize\<close>, zero read as one.\<close>

definition step_of :: "int \<Rightarrow> nat" where
  "step_of increment = (let i = nat \<bar>increment\<bar> in if i = 0 then 1 else i)"

text \<open>\<^verbatim>\<open>(start..=end).step_by(increment)\<close> on integers and on characters; the successor of a
  character skips the surrogates.\<close>

function ascend :: "int \<Rightarrow> int \<Rightarrow> nat \<Rightarrow> int list" where
  "ascend s e d = (if e < s \<or> d = 0 then [] else s # ascend (s + int d) e d)"
  by pat_completeness auto
termination
  by (relation "measure (\<lambda>(s, e, d). nat (e + 1 - s))") auto

definition char_forward :: "nat \<Rightarrow> nat \<Rightarrow> nat option" where
  "char_forward c n =
     (let r = (if c < 0xD800 \<and> 0xD800 \<le> c + n then c + n + 0x800 else c + n) in
      if r \<le> 0x10FFFF then Some r else None)"

lemma char_forward_grows: "char_forward c n = Some r \<Longrightarrow> c + n \<le> r"
  by (auto simp: char_forward_def Let_def split: if_splits)

function char_ascend :: "nat \<Rightarrow> nat \<Rightarrow> nat \<Rightarrow> nat list" where
  "char_ascend s e d =
     (if e < s \<or> d = 0 then []
      else s # (case char_forward s d of None \<Rightarrow> [] | Some s' \<Rightarrow> char_ascend s' e d))"
  by pat_completeness auto
termination
  by (relation "measure (\<lambda>(s, e, d). e + 1 - s)") (auto dest: char_forward_grows)

text \<open>\<^verbatim>\<open>std::iter::successors\<close>: each next element is computed with the wrap-around of its type.\<close>

partial_function (option) descend :: "int \<Rightarrow> int \<Rightarrow> int \<Rightarrow> int list option" where
  "descend n e d =
     (let next = wrap_i64 (n - d) in
      if e \<le> next then Option.bind (descend next e d) (\<lambda>r. Some (n # r)) else Some [n])"

definition char_from_u32 :: "nat \<Rightarrow> nat option" where
  "char_from_u32 n =
     (if n < 0xD800 \<or> 0xE000 \<le> n \<and> n \<le> 0x10FFFF then Some n else None)"

partial_function (option) char_descend :: "nat \<Rightarrow> nat \<Rightarrow> nat \<Rightarrow> nat list option" where
  "char_descend c e d =
     (case char_from_u32 ((c + 2 ^ 32 - d) mod 2 ^ 32) of
        None \<Rightarrow> Some [c]
      | Some next \<Rightarrow>
          if e \<le> next then Option.bind (char_descend next e d) (\<lambda>r. Some (c # r)) else Some [c])"

text \<open>\<^verbatim>\<open>char::to_string\<close>: the UTF-8 bytes of a code point.\<close>

definition char_to_string :: "nat \<Rightarrow> string" where
  "char_to_string c =
     map char_of
       (if c < 0x80 then [c]
        else if c < 0x800 then [0xC0 + c div 64, 0x80 + c mod 64]
        else if c < 0x10000 then [0xE0 + c div 4096, 0x80 + c div 64 mod 64, 0x80 + c mod 64]
        else [0xF0 + c div 262144, 0x80 + c div 4096 mod 64, 0x80 + c div 64 mod 64, 0x80 + c mod 64])"

section \<open>Expansion\<close>

definition total_count :: "fields list \<Rightarrow> nat" where
  "total_count ms = fold (\<lambda>(n, it) acc. saturating_add acc n) ms 0"

text \<open>\<^verbatim>\<open>flat_map\<close>: the members one after the other.\<close>

fun chained :: "fields list \<Rightarrow> string list option" where
  "chained [] = Some []"
| "chained ((n, it) # ms) =
     (case it of None \<Rightarrow> None | Some xs \<Rightarrow> map_option (\<lambda>ys. xs @ ys) (chained ms))"

text \<open>\<^verbatim>\<open>multi_cartesian_product().map(|v| v.join(""))\<close>.\<close>

definition combined :: "string list list \<Rightarrow> string list" where
  "combined xss = map concat (product_lists xss)"

fun expand_brace_expr_member :: "brace_member \<Rightarrow> fields brace_run"
  and expand_members :: "brace_member list \<Rightarrow> fields list brace_run"
  and expand_brace_expr_or_text :: "brace_text \<Rightarrow> fields brace_run"
  and generate_loop :: "nat \<Rightarrow> string list list \<Rightarrow> brace_text list \<Rightarrow> string list brace_run"
where
  "expand_brace_expr_member (NumberSequence s e increment) =
     (let d = step_of increment in
      brace_ok (sequence_len s e d,
        map_option (map show_int)
          (if s \<le> e then Some (ascend s e d) else descend s e (wrap_i64 (int d)))))"
| "expand_brace_expr_member (CharSequence s e increment) =
     (let d = step_of increment in
      brace_ok (sequence_len (int s) (int e) d,
        map_option (map char_to_string)
          (if s \<le> e then Some (char_ascend s e d) else char_descend s e (d mod 2 ^ 32))))"
| "expand_brace_expr_member (Child elements) =
     brace_bind (generate_loop 1 [] elements) (\<lambda>child. brace_ok (length child, Some child))"
| "expand_members [] = brace_ok []"
| "expand_members (m # ms) =
     brace_bind (expand_brace_expr_member m)
       (\<lambda>x. brace_bind (expand_members ms) (\<lambda>xs. brace_ok (x # xs)))"
| "expand_brace_expr_or_text (Expr members) =
     brace_bind (expand_members members) (\<lambda>ms. brace_ok (total_count ms, chained ms))"
| "expand_brace_expr_or_text (Text_Piece text) = brace_ok (1, Some [text])"
| "generate_loop running_total expansions [] = brace_ok (combined expansions)"
| "generate_loop running_total expansions (piece # pieces) =
     brace_bind (expand_brace_expr_or_text piece)
       (\<lambda>(count, expansion).
          if MAX_BRACE_EXPANSION_FIELDS < count then Some (Inl TooMuchData)
          else
            (let running_total = saturating_mul running_total count in
             if MAX_BRACE_EXPANSION_FIELDS < running_total then Some (Inl TooMuchData)
             else (case expansion of
                     None \<Rightarrow> None
                   | Some xs \<Rightarrow> generate_loop running_total (expansions @ [xs]) pieces)))"

definition generate_and_combine_brace_expansions :: "brace_text list \<Rightarrow> string list brace_run" where
  "generate_and_combine_brace_expansions pieces = generate_loop 1 [] pieces"

section \<open>The caller\<close>

fun may_contain_loop :: "bool \<Rightarrow> bool \<Rightarrow> bool \<Rightarrow> bool \<Rightarrow> string \<Rightarrow> bool" where
  "may_contain_loop dollar escape op cl [] = (op \<and> cl)"
| "may_contain_loop dollar escape op cl (c # cs) =
     (let op' = (op \<or> (\<not> dollar \<and> c = CHR ''{''));
          cl' = (cl \<or> (\<not> dollar \<and> c = CHR ''}''));
          found = (\<not> dollar \<and> c = CHR ''}'' \<and> op) in
      if found then True
      else may_contain_loop (\<not> escape \<and> c = CHR ''$'') (c = CHR 0x5C) op' cl' cs)"

definition may_contain_braces_to_expand :: "string \<Rightarrow> bool" where
  "may_contain_braces_to_expand s = may_contain_loop False False False False s"

text \<open>The parser is an argument: an error, no brace expression, or the pieces.\<close>

definition brace_expand_if_needed ::
  "(string \<Rightarrow> unit + brace_text list option) \<Rightarrow> bool \<Rightarrow> bool \<Rightarrow> string \<Rightarrow> string brace_run" where
  "brace_expand_if_needed parse disabled enabled word =
     (if disabled \<or> \<not> enabled \<or> \<not> may_contain_braces_to_expand word then brace_ok word
      else
        (case parse word of
           Inl e \<Rightarrow> brace_ok word
         | Inr None \<Rightarrow> brace_ok word
         | Inr (Some pieces) \<Rightarrow>
             brace_bind (generate_and_combine_brace_expansions pieces)
               (\<lambda>fs. brace_ok (join_with '' ''
                  (map (\<lambda>s. if s = [] then [CHR 0x22, CHR 0x22] else s) fs)))))"

text \<open>The \<^verbatim>\<open>number\<close> rule of the word grammar, on a sign and the digits it matched: the text is
  read as an \<^verbatim>\<open>i64\<close> and unwrapped.\<close>

definition brace_number :: "int option \<Rightarrow> string \<Rightarrow> shell_error + int" where
  "brace_number sign n =
     (case parse_i64 n of
        None \<Rightarrow> Inl Panicked
      | Some num \<Rightarrow> Inr (wrap_i64 (num * (case sign of None \<Rightarrow> 1 | Some s \<Rightarrow> s))))"

declare ascend.simps [simp del] char_ascend.simps [simp del]

section \<open>What a brace expression means\<close>

text \<open>
  The fields of an expression, without sizes, limits or machine integers: a sequence is its terms
  from the first towards the last, pieces side by side combine every choice, the leftmost varying
  slowest.
\<close>

definition stepped :: "int \<Rightarrow> int \<Rightarrow> int \<Rightarrow> int list" where
  "stepped s e d =
     map (\<lambda>k. if s \<le> e then s + int k * d else s - int k * d) [0..<Suc (nat (\<bar>e - s\<bar> div d))]"

definition pairs :: "string list \<Rightarrow> string list \<Rightarrow> string list" where
  "pairs xs ys = concat (map (\<lambda>x. map (\<lambda>y. x @ y) ys) xs)"

fun member_fields :: "brace_member \<Rightarrow> string list"
  and text_fields :: "brace_text \<Rightarrow> string list"
where
  "member_fields (NumberSequence s e i) = map show_int (stepped s e (int (step_of i)))"
| "member_fields (CharSequence s e i) =
     map (\<lambda>n. char_to_string (nat n)) (stepped (int s) (int e) (int (step_of i)))"
| "member_fields (Child ps) = foldr pairs (map text_fields ps) [[]]"
| "text_fields (Expr ms) = concat (map member_fields ms)"
| "text_fields (Text_Piece t) = [t]"

definition word_fields :: "brace_text list \<Rightarrow> string list" where
  "word_fields ps = foldr pairs (map text_fields ps) [[]]"


section \<open>Sequences meet their meaning\<close>













section \<open>Expansion meets its meaning\<close>












lemma pairs_Nil [simp]: "pairs [] ys = []"
  by (simp add: pairs_def)



lemma pairs_unit [simp]: "pairs [[]] ys = ys" "pairs xs [[]] = xs"
  by (simp_all add: pairs_def map_idI)




lemma combined_foldr: "combined xss = foldr pairs xss [[]]"
proof (induction xss)
  case Nil
  show ?case by (simp add: combined_def)
next
  case (Cons xs xss)
  have "map concat (map (\<lambda>ys. x # ys) (product_lists xss)) = map (\<lambda>y. x @ y) (combined xss)" for x
    by (simp add: combined_def)
  then have "combined (xs # xss) = pairs xs (combined xss)"
    by (simp add: combined_def [of "xs # xss"] pairs_def map_concat comp_def)
  with Cons.IH show ?case by simp
qed

lemma combined_Nil [simp]: "combined [] = [[]]"
  by (simp add: combined_foldr)


lemma word_fields_Nil [simp]: "word_fields [] = [[]]"
  and word_fields_Cons: "word_fields (p # ps) = pairs (text_fields p) (word_fields ps)"
  by (simp_all add: word_fields_def)









section \<open>Properties\<close>



text \<open>The increment of a descending character sequence is cut to 32 bits, and so may become zero;
  the count, taken before, is one.\<close>

lemma char_descend_stuck: "c < 0xD800 \<Longrightarrow> e \<le> c \<Longrightarrow> char_descend c e 0 = None"
proof (rule ccontr)
  assume c: "c < 0xD800" "e \<le> c" and "char_descend c e 0 \<noteq> None"
  then obtain r where r: "char_descend c e 0 = Some r" by auto
  have "\<not> (c < 0xD800 \<and> e \<le> c \<and> (0::nat) = 0)"
  proof (rule char_descend.raw_induct [where P = "\<lambda>c e d r. \<not> (c < 0xD800 \<and> e \<le> c \<and> d = 0)", OF _ r])
    fix f c e d r
    assume IH: "\<And>c e d r. f c e d = Some r \<Longrightarrow> \<not> (c < 0xD800 \<and> e \<le> c \<and> d = (0::nat))"
      and eq: "(case char_from_u32 ((c + 2 ^ 32 - d) mod 2 ^ 32) of
          None \<Rightarrow> Some [c]
        | Some next \<Rightarrow>
            if e \<le> next then Option.bind (f next e d) (\<lambda>r. Some (c # r)) else Some [c]) = Some r"
    show "\<not> (c < 0xD800 \<and> e \<le> c \<and> d = 0)"
    proof
      assume a: "c < 0xD800 \<and> e \<le> c \<and> d = 0"
      then have "(c + 2 ^ 32 - d) mod 2 ^ 32 = c" by simp
      then have "Option.bind (f c e d) (\<lambda>r. Some (c # r)) = Some r"
        using eq a by (simp add: char_from_u32_def)
      then show False using IH a by (auto simp: bind_eq_Some_conv)
    qed
  qed
  with c show False by simp
qed

lemma descend_stuck:
  assumes "n mod 8 = 2" "in_i64 n"
  shows "descend n (- (2 ^ 63) + 1) 8 = None"
proof (rule ccontr)
  assume "descend n (- (2 ^ 63) + 1) 8 \<noteq> None"
  then obtain r where r: "descend n (- (2 ^ 63) + 1) 8 = Some r" by auto
  have "\<not> (n mod 8 = 2 \<and> (- (2 ^ 63) + 1 :: int) = - (2 ^ 63) + 1 \<and> (8::int) = 8)"
  proof (rule descend.raw_induct
      [where P = "\<lambda>n e d r. \<not> (n mod 8 = 2 \<and> e = - (2 ^ 63) + 1 \<and> d = 8)", OF _ r])
    fix f and n e d :: int and r
    assume IH: "\<And>n e d r. f n e d = Some r \<Longrightarrow> \<not> (n mod 8 = 2 \<and> e = - (2 ^ 63) + 1 \<and> d = (8::int))"
      and eq: "(let next = wrap_i64 (n - d) in
          if e \<le> next then Option.bind (f next e d) (\<lambda>r. Some (n # r)) else Some [n]) = Some r"
    show "\<not> (n mod 8 = 2 \<and> e = - (2 ^ 63) + 1 \<and> d = 8)"
    proof
      assume a: "n mod 8 = 2 \<and> e = - (2 ^ 63) + 1 \<and> d = 8"
      have "wrap_i64 (n - 8) mod 8 = 2 \<and> - (2 ^ 63) + 1 \<le> wrap_i64 (n - 8)"
      proof -
        let ?m = "(n - 8 + 2 ^ 63) mod (2 ^ 64 :: int)"
        have "?m mod 8 = (n - 8 + 2 ^ 63) mod 8" by (rule mod_mod_cancel) simp
        also have "\<dots> = (n + 8 * (2 ^ 60 - 1)) mod 8" by (simp add: add.commute)
        also have "\<dots> = 2" unfolding mod_mult_self2 using a by blast
        finally have m: "?m mod 8 = 2" .
        have "0 \<le> ?m" by simp
        with m have "1 \<le> ?m" by (cases "?m = 0") auto
        moreover have "(?m - 2 ^ 63) mod 8 = 2"
        proof -
          have "?m - 2 ^ 63 = ?m + 8 * (- (2 ^ 60))" by simp
          then show ?thesis using m by (simp only: mod_mult_self2)
        qed
        ultimately show ?thesis unfolding wrap_i64_def by simp
      qed
      then show False using eq a IH by (auto simp: bind_eq_Some_conv Let_def)
    qed
  qed
  with assms show False by simp
qed

text \<open>Two sequences of one or two fields, both accepted by the check on their number, of which
  no expansion returns.\<close>

theorem brace_expansion_hangs:
  "generate_and_combine_brace_expansions [Expr [CharSequence 98 97 4294967296]] = None
   \<and> generate_and_combine_brace_expansions
        [Expr [NumberSequence (- (2 ^ 63) + 2) (- (2 ^ 63) + 1) 8]] = None"
proof
  show "generate_and_combine_brace_expansions [Expr [CharSequence 98 97 4294967296]] = None"
    by (simp add: generate_and_combine_brace_expansions_def brace_bind_def brace_ok_def
        step_of_def sequence_len_def total_count_def saturating_add_def saturating_mul_def
        usize_max_def MAX_BRACE_EXPANSION_FIELDS_def char_descend_stuck)
  have "descend (- (2 ^ 63) + 2) (- (2 ^ 63) + 1) 8 = None"
    by (rule descend_stuck) (simp_all add: in_i64_def)
  then show "generate_and_combine_brace_expansions
      [Expr [NumberSequence (- (2 ^ 63) + 2) (- (2 ^ 63) + 1) 8]] = None"
    by (simp add: generate_and_combine_brace_expansions_def brace_bind_def brace_ok_def
        step_of_def sequence_len_def total_count_def saturating_add_def saturating_mul_def
        usize_max_def MAX_BRACE_EXPANSION_FIELDS_def wrap_i64_def)
qed

text \<open>A number of a brace sequence that is no \<^verbatim>\<open>i64\<close> ends the shell.\<close>

theorem brace_number_panics: "brace_number None ''9223372036854775808'' = Inl Panicked"
  by (simp add: brace_number_def parse_i64_def parse_digits_def is_digit_def in_range_def in_i64_def)

text \<open>The test that has to admit every word with braces rejects one whose closing brace
  follows a dollar sign.\<close>

theorem brace_test_misses: "\<not> may_contain_braces_to_expand ''{a,$}''"
  by (simp add: may_contain_braces_to_expand_def Let_def)

end
