(* ===== verification/Exec_Result.thy ===== *)
theory Exec_Result
  imports Variables
begin

text \<open>
  What running something produces (\<^verbatim>\<open>brush-core/src/results.rs\<close>): exit codes, the transfer of
  control a command asks for, and how errors become either (\<^verbatim>\<open>brush-core/src/error.rs\<close>). A
  child process or a task is named by a number; what the runtime answers when it is waited for is
  the business of the theories that wait.
\<close>

section \<open>Exit codes\<close>

datatype exit_code =
    SuccessCode | GeneralErrorCode | InvalidUsageCode | CannotExecuteCode | NotFoundCode
  | InterruptedCode | BrokenPipeCode | UnimplementedCode | CustomCode byte

definition code_of_u8 :: "byte \<Rightarrow> exit_code" where
  "code_of_u8 n =
     (if n = 0 then SuccessCode
      else if n = 1 then GeneralErrorCode
      else if n = 2 then InvalidUsageCode
      else if n = 99 then UnimplementedCode
      else if n = 126 then CannotExecuteCode
      else if n = 127 then NotFoundCode
      else if n = 130 then InterruptedCode
      else if n = 141 then BrokenPipeCode
      else CustomCode n)"

primrec u8_of_code :: "exit_code \<Rightarrow> byte" where
  "u8_of_code SuccessCode = 0"
| "u8_of_code GeneralErrorCode = 1"
| "u8_of_code InvalidUsageCode = 2"
| "u8_of_code UnimplementedCode = 99"
| "u8_of_code CannotExecuteCode = 126"
| "u8_of_code NotFoundCode = 127"
| "u8_of_code InterruptedCode = 130"
| "u8_of_code BrokenPipeCode = 141"
| "u8_of_code (CustomCode n) = n"

definition code_is_success :: "exit_code \<Rightarrow> bool" where
  "code_is_success c \<longleftrightarrow> c = SuccessCode"

section \<open>Control flow\<close>

datatype control_flow =
    NormalFlow | BreakLoop nat | ContinueLoop nat | ReturnFromFunctionOrScript | ExitShell

fun try_decrement_loop_levels :: "control_flow \<Rightarrow> control_flow" where
  "try_decrement_loop_levels (BreakLoop 0) = NormalFlow"
| "try_decrement_loop_levels (ContinueLoop 0) = NormalFlow"
| "try_decrement_loop_levels (BreakLoop (Suc n)) = BreakLoop n"
| "try_decrement_loop_levels (ContinueLoop (Suc n)) = ContinueLoop n"
| "try_decrement_loop_levels f = f"

record exec_result =
  er_flow :: control_flow
  er_code :: exit_code

definition result_of_code :: "exit_code \<Rightarrow> exec_result" where
  "result_of_code c = \<lparr> er_flow = NormalFlow, er_code = c \<rparr>"

definition result_new :: "byte \<Rightarrow> exec_result" where
  "result_new n = result_of_code (code_of_u8 n)"

definition result_success :: exec_result where
  "result_success = result_of_code SuccessCode"

definition result_general_error :: exec_result where
  "result_general_error = result_of_code GeneralErrorCode"

text \<open>\<^verbatim>\<open>128 + SIGTSTP as u8\<close>.\<close>

definition result_stopped :: exec_result where
  "result_stopped = result_new (128 + 20)"

definition succeeded :: "exec_result \<Rightarrow> bool" where
  "succeeded r \<longleftrightarrow> code_is_success (er_code r)"

definition is_normal_flow :: "exec_result \<Rightarrow> bool" where
  "is_normal_flow r \<longleftrightarrow> er_flow r = NormalFlow"

definition is_break :: "exec_result \<Rightarrow> bool" where
  "is_break r \<longleftrightarrow> (case er_flow r of BreakLoop n \<Rightarrow> True | _ \<Rightarrow> False)"

definition is_continue :: "exec_result \<Rightarrow> bool" where
  "is_continue r \<longleftrightarrow> (case er_flow r of ContinueLoop n \<Rightarrow> True | _ \<Rightarrow> False)"

definition is_return_or_exit :: "exec_result \<Rightarrow> bool" where
  "is_return_or_exit r \<longleftrightarrow> er_flow r = ReturnFromFunctionOrScript \<or> er_flow r = ExitShell"

definition decremented :: "exec_result \<Rightarrow> exec_result" where
  "decremented r = r\<lparr>er_flow := try_decrement_loop_levels (er_flow r)\<rparr>"

section \<open>Processes\<close>

text \<open>\<^verbatim>\<open>std::process::Output\<close>: \<^verbatim>\<open>status.code()\<close> and \<^verbatim>\<open>status.signal()\<close>.\<close>

record process_output =
  po_code :: "int option"
  po_signal :: "int option"

definition result_of_output :: "process_output \<Rightarrow> exec_result" where
  "result_of_output p =
     (case po_code p of
        Some code \<Rightarrow> result_new (word_of_int code)
      | None \<Rightarrow>
          (case po_signal p of
             Some signal \<Rightarrow> result_new (word_of_int signal + 128)
           | None \<Rightarrow> result_new 127))"

record child_process =
  cp_handle :: nat
  cp_pid :: "int option"
  cp_pgid :: "int option"

datatype process_wait = ProcessCompleted process_output | ProcessStopped

datatype wait_result = WaitCompleted exec_result | WaitStopped child_process

definition result_of_wait :: "wait_result \<Rightarrow> exec_result" where
  "result_of_wait w = (case w of WaitCompleted r \<Rightarrow> r | WaitStopped c \<Rightarrow> result_stopped)"

datatype spawn_result = SpawnCompleted exec_result | StartedProcess child_process | StartedTask nat

section \<open>Errors\<close>

text \<open>The kinds whose exit code or handling the code tells apart; the variable operations' errors
  are those of \<open>Variables\<close>. The error of a builtin carries the exit code and the I/O error its
  own conversions give.\<close>

datatype failure_kind =
    ShellFailure shell_error
  | ParseFailure
  | FunctionParseFailure
  | TestCommandParseFailure
  | FailedToExecuteCommand string io_error
  | WorkingDirMissing string
  | FunctionNameShadowsSpecialBuiltin string
  | BuiltinFailure exit_code "io_error option" string
  | InvalidRedirection
  | MaxFunctionCallDepthExceeded
  | TildeWithoutValidHome
  | CannotAssignToSpecialParameter
  | CheckedExpansionError string
  | UnsetVariable string
  | BadSubstitution string
  | WordParseFailure
  | NoMatch string
  | TooManyBraceFields
  | EvalFailure string
  | IntParseFailure string nat
  | InternalFailure string
  | OtherFailure string

record failure =
  fl_kind :: failure_kind
  fl_fatal :: bool

definition failure_of :: "failure_kind \<Rightarrow> failure" where
  "failure_of k = \<lparr> fl_kind = k, fl_fatal = False \<rparr>"

definition into_fatal :: "failure \<Rightarrow> failure" where
  "into_fatal e = e\<lparr>fl_fatal := True\<rparr>"

definition code_of_io_error :: "io_error \<Rightarrow> exit_code" where
  "code_of_io_error e = (if kind e = BrokenPipe then BrokenPipeCode else GeneralErrorCode)"

fun code_of_failure :: "failure_kind \<Rightarrow> exit_code" where
  "code_of_failure (ShellFailure (CommandNotFound c)) = NotFoundCode"
| "code_of_failure (ShellFailure (ExternalExecutionRefused c)) = CannotExecuteCode"
| "code_of_failure (ShellFailure (Unimplemented m)) = UnimplementedCode"
| "code_of_failure (ShellFailure (ShellIo e)) = code_of_io_error e"
| "code_of_failure ParseFailure = InvalidUsageCode"
| "code_of_failure FunctionParseFailure = InvalidUsageCode"
| "code_of_failure TestCommandParseFailure = InvalidUsageCode"
| "code_of_failure (FailedToExecuteCommand c e) = CannotExecuteCode"
| "code_of_failure (FunctionNameShadowsSpecialBuiltin n) = InvalidUsageCode"
| "code_of_failure (BuiltinFailure code e n) = code"
| "code_of_failure k = GeneralErrorCode"

fun as_io_error :: "failure_kind \<Rightarrow> io_error option" where
  "as_io_error (ShellFailure (ShellIo e)) = Some e"
| "as_io_error (BuiltinFailure code e n) = e"
| "as_io_error k = None"

text \<open>\<^verbatim>\<open>Error::into_result\<close>; the shell is asked only whether it is interactive.\<close>

definition into_result :: "bool \<Rightarrow> failure \<Rightarrow> exec_result" where
  "into_result interactive e =
     \<lparr> er_flow = (if fl_fatal e \<and> \<not> interactive then ExitShell else NormalFlow),
       er_code = code_of_failure (fl_kind e) \<rparr>"

section \<open>Lemmas\<close>

text \<open>The codes the conversions build: no custom code hides a named one.\<close>

definition canonical_code :: "exit_code \<Rightarrow> bool" where
  "canonical_code c \<longleftrightarrow> code_of_u8 (u8_of_code c) = c"

lemma u8_of_code_of_u8 [simp]: "u8_of_code (code_of_u8 n) = n"
  by (simp add: code_of_u8_def)

lemma code_of_u8_inject [simp]: "code_of_u8 m = code_of_u8 n \<longleftrightarrow> m = n"
  by (metis u8_of_code_of_u8)

lemma canonical_code_of_u8 [simp]: "canonical_code (code_of_u8 n)"
  by (simp add: canonical_code_def)

lemma canonical_named [simp]:
  "canonical_code SuccessCode" "canonical_code GeneralErrorCode" "canonical_code InvalidUsageCode"
  "canonical_code CannotExecuteCode" "canonical_code NotFoundCode" "canonical_code InterruptedCode"
  "canonical_code BrokenPipeCode" "canonical_code UnimplementedCode"
  by (simp_all add: canonical_code_def code_of_u8_def)

lemma success_of_u8: "code_is_success (code_of_u8 n) \<longleftrightarrow> n = 0"
  by (simp add: code_is_success_def code_of_u8_def)

lemma result_simps [simp]:
  "er_flow (result_of_code c) = NormalFlow" "er_code (result_of_code c) = c"
  "er_flow (result_new n) = NormalFlow" "er_code (result_new n) = code_of_u8 n"
  "er_flow result_success = NormalFlow" "er_code result_success = SuccessCode"
  "er_flow result_general_error = NormalFlow" "er_code result_general_error = GeneralErrorCode"
  "er_flow result_stopped = NormalFlow" "er_flow (result_of_output p) = NormalFlow"
  by (simp_all add: result_of_code_def result_new_def result_success_def result_general_error_def
      result_stopped_def result_of_output_def split: option.split)

lemma decremented_simps [simp]:
  "er_code (decremented r) = er_code r"
  "er_flow (decremented r) = try_decrement_loop_levels (er_flow r)"
  by (simp_all add: decremented_def)

lemma succeeded_new [simp]: "succeeded (result_new n) \<longleftrightarrow> n = 0"
  by (simp add: succeeded_def success_of_u8)

section \<open>Properties\<close>

text \<open>Exit codes survive the trip through a byte, in both directions, so the named codes are
  only a reading of the byte.\<close>

theorem exit_code_roundtrip:
  "u8_of_code (code_of_u8 n) = n" "canonical_code c \<Longrightarrow> code_of_u8 (u8_of_code c) = c"
  by (simp_all add: canonical_code_def)

text \<open>A process that ends reports the low byte of its exit status; one killed by signal
  \<open>s\<close> (below 128) reports \<open>128 + s\<close>.\<close>

theorem process_status_exact:
  assumes "po_code p = None" and "po_signal p = Some s" and "0 \<le> s" and "s < 128"
  shows "uint (u8_of_code (er_code (result_of_output p))) = 128 + s"
proof -
  have "uint (word_of_int s + 128 :: byte) = (s + 128) mod 256"
    by (simp add: uint_word_ariths unsigned_of_int take_bit_int_def mod_simps)
  with assms show ?thesis by (simp add: result_of_output_def)
qed

end
