(* ===== verification/Escape.thy ===== *)
theory Escape
  imports Exec_Result Brace
begin

text \<open>
  Escapes and quoting (\<^verbatim>\<open>brush-core/src/escape.rs\<close>): the backslash escapes of \<^verbatim>\<open>echo\<close> and of
  \<^verbatim>\<open>$'...'\<close>, and the four ways a text is written so that a shell reads it back.

  The code walks code points and the model walks the bytes of their encoding. Every escape begins
  with ASCII characters, so a byte above 127 is copied on both sides; the one escape that reads an
  arbitrary character, \<^verbatim>\<open>\c\<close>, changes only the first byte of its encoding.
\<close>

section \<open>Reading escapes\<close>

datatype escape_mode = EchoEscapes | AnsiCQuotes

definition backslash :: char where
  "backslash = CHR 0x5C"

definition is_octal :: "char \<Rightarrow> bool" where
  "is_octal c \<longleftrightarrow> in_range 48 55 c"

definition is_hex :: "char \<Rightarrow> bool" where
  "is_hex c \<longleftrightarrow> in_range 48 57 c \<or> in_range 65 70 c \<or> in_range 97 102 c"

definition hex_digit :: "char \<Rightarrow> nat" where
  "hex_digit c = (let n = of_char c in if n \<le> 57 then n - 48 else if n \<le> 70 then n - 55 else n - 87)"

text \<open>\<^verbatim>\<open>int_utils::parse::<T>\<close> on a text of digits: a value beyond the type is an error.\<close>

definition parse_radix :: "nat \<Rightarrow> nat \<Rightarrow> string \<Rightarrow> failure + nat" where
  "parse_radix width radix s =
     (let n = foldl (\<lambda>n c. n * radix + hex_digit c) 0 s
      in if n < 2 ^ width then Inr n else Inl (failure_of (IntParseFailure s radix)))"

text \<open>\<^verbatim>\<open>take_while_ref\<close> with a count: the digits and what follows them.\<close>

definition digits_upto :: "nat \<Rightarrow> (char \<Rightarrow> bool) \<Rightarrow> string \<Rightarrow> string \<times> string" where
  "digits_upto n P s = (let ds = takeWhile P (take n s) in (ds, drop (length ds) s))"

text \<open>The letters that stand for one byte.\<close>

definition simple_escape :: "escape_mode \<Rightarrow> char \<Rightarrow> char option" where
  "simple_escape mode c =
     (if c = CHR ''a'' then Some (CHR 0x07)
      else if c = CHR ''b'' then Some (CHR 0x08)
      else if c = CHR ''e'' \<or> c = CHR ''E'' then Some (CHR 0x1B)
      else if c = CHR ''f'' then Some (CHR 0x0C)
      else if c = CHR ''n'' then Some (CHR 0x0A)
      else if c = CHR ''r'' then Some (CHR 0x0D)
      else if c = CHR ''t'' then Some (CHR 0x09)
      else if c = CHR ''v'' then Some (CHR 0x0B)
      else if c = backslash then Some backslash
      else if mode = AnsiCQuotes \<and> (c = CHR 0x27 \<or> c = CHR 0x22 \<or> c = CHR ''?'') then Some c
      else None)"

text \<open>The loop of \<^verbatim>\<open>\x\<close>: whether a brace was opened, the digits, and what is left.\<close>

fun hex_loop :: "escape_mode \<Rightarrow> bool \<Rightarrow> bool \<Rightarrow> string \<Rightarrow> string \<Rightarrow> bool \<times> string \<times> string" where
  "hex_loop mode brace invalid hex [] = (brace, hex, [])"
| "hex_loop mode brace invalid hex (c # s) =
     (if mode = AnsiCQuotes \<and> \<not> brace \<and> c = CHR ''{'' then hex_loop mode True invalid hex s
      else if brace \<and> c = CHR ''}'' then (brace, hex, s)
      else if ((brace \<and> \<not> invalid) \<or> (\<not> brace \<and> length hex < 2)) \<and> is_hex c
      then hex_loop mode brace invalid (hex @ [c]) s
      else if brace \<and> hex = [] then hex_loop mode brace True hex s
      else (brace, hex, c # s))"

text \<open>\<^verbatim>\<open>\c\<close>: two backslashes count as one, a lower case letter as its upper case.\<close>

definition control_escape :: "string \<Rightarrow> string \<times> string" where
  "control_escape s =
     (case s of
        [] \<Rightarrow> ([backslash, CHR ''c''], [])
      | c # r \<Rightarrow>
          (let r = (if c = backslash \<and> r \<noteq> [] \<and> hd r = backslash then tl r else r);
               c = (if in_range 97 122 c then char_of (of_char c - 32 :: nat) else c)
           in ([if c = CHR ''?'' then CHR 0x7F else char_of (of_char c mod 32 :: nat)], r)))"

definition code_point_escape :: "char \<Rightarrow> nat \<Rightarrow> string \<Rightarrow> failure + string \<times> string" where
  "code_point_escape letter n s =
     (case digits_upto n is_hex s of
        (hex, r) \<Rightarrow>
          if hex = [] then Inr ([backslash, letter], r)
          else (case parse_radix (4 * n) 16 hex of
                  Inl e \<Rightarrow> Inl e
                | Inr v \<Rightarrow>
                    (case char_from_u32 v of
                       Some cp \<Rightarrow> Inr (char_to_string cp, r)
                     | None \<Rightarrow> Inr ([backslash, letter], r))))"

text \<open>What follows a backslash and the character \<open>c\<close>: the bytes it gives and the rest, or the end of
  all output.\<close>

definition escape_step :: "escape_mode \<Rightarrow> char \<Rightarrow> string \<Rightarrow> failure + (string \<times> string) option" where
  "escape_step mode c s =
     (case simple_escape mode c of
        Some b \<Rightarrow> Inr (Some ([b], s))
      | None \<Rightarrow>
          if c = CHR ''c''
          then (if mode = EchoEscapes then Inr None else Inr (Some (control_escape s)))
          else if c = CHR ''0'' then
            (case digits_upto 3 is_octal s of
               (ds, r) \<Rightarrow>
                 (case parse_radix 8 8 (if ds = [] then ''0'' else ds) of
                    Inl e \<Rightarrow> Inl e | Inr v \<Rightarrow> Inr (Some ([char_of v], r))))
          else if c = CHR ''x'' then
            (case hex_loop mode False False [] s of
               (brace, hex, r) \<Rightarrow>
                 if hex = [] then Inr (Some (if brace then [CHR 0x00] else [backslash, c], r))
                 else (case parse_radix 32 16 hex of
                         Inl e \<Rightarrow> Inl e | Inr v \<Rightarrow> Inr (Some ([char_of (v mod 256)], r))))
          else if c = CHR ''u'' then map_sum id Some (code_point_escape c 4 s)
          else if c = CHR ''U'' then map_sum id Some (code_point_escape c 8 s)
          else if mode = AnsiCQuotes \<and> in_range 49 55 c then
            (case digits_upto 2 is_octal s of
               (ds, r) \<Rightarrow>
                 (case parse_radix 8 8 (c # ds) of
                    Inl e \<Rightarrow> Inl e | Inr v \<Rightarrow> Inr (Some ([char_of v], r))))
          else Inr (Some ([backslash, c], s)))"

lemma digits_upto_length [simp]: "length (snd (digits_upto n P s)) \<le> length s"
  by (simp add: digits_upto_def Let_def)

lemma digits_upto_le: "digits_upto n P s = (ds, r) \<Longrightarrow> length r \<le> length s"
  using digits_upto_length [of n P s] by simp

lemma hex_loop_le: "hex_loop mode brace invalid hex s = (b, h, r) \<Longrightarrow> length r \<le> length s"
  by (induction mode brace invalid hex s rule: hex_loop.induct) (auto split: if_splits)

lemma control_escape_le: "control_escape s = (b, r) \<Longrightarrow> length r \<le> length s"
  by (auto simp: control_escape_def Let_def split: list.splits if_splits)

lemma escape_step_le: "escape_step mode c s = Inr (Some (b, r)) \<Longrightarrow> length r \<le> length s"
  by (auto simp: escape_step_def code_point_escape_def map_sum_def
      dest: digits_upto_le hex_loop_le control_escape_le
      split: option.splits if_splits prod.splits sum.splits)

function escapes_from :: "escape_mode \<Rightarrow> string \<Rightarrow> string \<Rightarrow> failure + string \<times> bool" where
  "escapes_from mode out [] = Inr (out, True)"
| "escapes_from mode out (c # s) =
     (if c \<noteq> backslash then escapes_from mode (out @ [c]) s
      else (case s of
              [] \<Rightarrow> Inr (out @ [backslash], True)
            | d # s' \<Rightarrow>
                (case escape_step mode d s' of
                   Inl e \<Rightarrow> Inl e
                 | Inr None \<Rightarrow> Inr (out, False)
                 | Inr (Some (b, r)) \<Rightarrow> escapes_from mode (out @ b) r)))"
  by pat_completeness auto

termination escapes_from
  by (relation "measure (\<lambda>(mode, out, s). length s)") (auto dest: escape_step_le)

declare escapes_from.simps(2) [simp del]

definition expand_backslash_escapes :: "escape_mode \<Rightarrow> string \<Rightarrow> failure + string \<times> bool" where
  "expand_backslash_escapes mode s =
     (case escapes_from mode [] s of
        Inl e \<Rightarrow> Inl e
      | Inr (out, goes_on) \<Rightarrow>
          Inr (if mode = AnsiCQuotes then takeWhile (\<lambda>c. c \<noteq> CHR 0x00) out else out, goes_on))"

section \<open>Writing quotes\<close>

datatype quote_mode = SingleQuote | DoubleQuote | BackslashEscape

record quote_options =
  qo_always :: bool
  qo_mode :: quote_mode
  qo_plain_newline :: bool

definition needs_escaping :: "char \<Rightarrow> bool" where
  "needs_escaping c \<longleftrightarrow> c \<in> set ''()[]{}$*?|&;<>!^, '' \<or> c \<in> {CHR 0x60, CHR 0x5C, CHR 0x22, CHR 0x27}"

definition needs_ansi_c_quoting :: "char \<Rightarrow> bool" where
  "needs_ansi_c_quoting c \<longleftrightarrow> in_range 0 31 c \<or> c = CHR 0x7F"

definition quote_mark :: char where
  "quote_mark = CHR 0x27"

definition octal3 :: "nat \<Rightarrow> string" where
  "octal3 n = map (\<lambda>d. char_of (48 + d)) [n div 64, n div 8 mod 8, n mod 8]"

definition ansi_char :: "char \<Rightarrow> string" where
  "ansi_char c =
     (if c = CHR 0x07 then [backslash, CHR ''a'']
      else if c = CHR 0x08 then [backslash, CHR ''b'']
      else if c = CHR 0x1B then [backslash, CHR ''E'']
      else if c = CHR 0x0C then [backslash, CHR ''f'']
      else if c = CHR 0x0A then [backslash, CHR ''n'']
      else if c = CHR 0x0D then [backslash, CHR ''r'']
      else if c = CHR 0x09 then [backslash, CHR ''t'']
      else if c = CHR 0x0B then [backslash, CHR ''v'']
      else if c = backslash then [backslash, backslash]
      else if c = quote_mark then [backslash, quote_mark]
      else if needs_ansi_c_quoting c then backslash # octal3 (of_char c)
      else [c])"

definition ansi_c_quote :: "string \<Rightarrow> string" where
  "ansi_c_quote s = CHR ''$'' # quote_mark # concat (map ansi_char s) @ [quote_mark]"

definition backslash_escape :: "string \<Rightarrow> string" where
  "backslash_escape s =
     (if s = [] then [quote_mark, quote_mark]
      else concat (map (\<lambda>c. if needs_escaping c then [backslash, c] else [c]) s))"

definition quoted_part :: "string \<Rightarrow> string" where
  "quoted_part s = (if s = [] then [] else quote_mark # s @ [quote_mark])"

definition single_quote :: "string \<Rightarrow> string" where
  "single_quote s =
     (if s = [] then [quote_mark, quote_mark]
      else join_with [backslash, quote_mark] (map quoted_part (split_on quote_mark s)))"

definition double_quote :: "string \<Rightarrow> string" where
  "double_quote s =
     CHR 0x22 # concat (map (\<lambda>c. if c \<in> {CHR ''$'', CHR 0x60, CHR 0x22, backslash}
                                 then [backslash, c] else [c]) s) @ [CHR 0x22]"

definition quote :: "quote_options \<Rightarrow> string \<Rightarrow> string" where
  "quote opts s =
     (if list_ex (\<lambda>c. needs_ansi_c_quoting c \<and> (\<not> qo_plain_newline opts \<or> c \<noteq> CHR 0x0A)) s
      then ansi_c_quote s
      else if \<not> (qo_always opts \<or> s = [] \<or> list_ex needs_escaping s) then s
      else (case qo_mode opts of
              BackslashEscape \<Rightarrow> backslash_escape s
            | SingleQuote \<Rightarrow> single_quote s
            | DoubleQuote \<Rightarrow> double_quote s))"

definition force_quote :: "string \<Rightarrow> quote_mode \<Rightarrow> string" where
  "force_quote s mode = quote \<lparr> qo_always = True, qo_mode = mode, qo_plain_newline = False \<rparr> s"

definition quote_if_needed :: "string \<Rightarrow> quote_mode \<Rightarrow> string" where
  "quote_if_needed s mode = quote \<lparr> qo_always = False, qo_mode = mode, qo_plain_newline = False \<rparr> s"

section \<open>Reading what was written\<close>

text \<open>
  What a shell makes of a word that only quotes: the removal of quotes as POSIX gives it, \<^const>\<open>None\<close>
  where the word is not one literal word. \<^verbatim>\<open>$'...'\<close> is read with the escapes of this theory.
\<close>

datatype quoting = Bare | InSingle | InDouble

fun read_back :: "quoting \<Rightarrow> string \<Rightarrow> string option" where
  "read_back q [] = (if q = Bare then Some [] else None)"
| "read_back InSingle (c # s) =
     (if c = quote_mark then read_back Bare s else map_option ((#) c) (read_back InSingle s))"
| "read_back InDouble (c # s) =
     (if c = CHR 0x22 then read_back Bare s
      else if c = backslash
      then (case s of
              [] \<Rightarrow> None
            | d # s' \<Rightarrow>
                if d \<in> {CHR ''$'', CHR 0x60, CHR 0x22, backslash}
                then map_option ((#) d) (read_back InDouble s')
                else map_option ((#) c) (read_back InDouble s))
      else if c \<in> {CHR ''$'', CHR 0x60} then None
      else map_option ((#) c) (read_back InDouble s))"
| "read_back Bare (c # s) =
     (if c = quote_mark then read_back InSingle s
      else if c = CHR 0x22 then read_back InDouble s
      else if c = backslash
      then (case s of [] \<Rightarrow> None | d # s' \<Rightarrow> map_option ((#) d) (read_back Bare s'))
      else if needs_escaping c \<or> needs_ansi_c_quoting c then None
      else map_option ((#) c) (read_back Bare s))"

definition starts_bare :: "string \<Rightarrow> bool" where
  "starts_bare s \<longleftrightarrow> s = [] \<or> (hd s \<noteq> CHR ''~'' \<and> hd s \<noteq> CHR ''#'')"

definition shell_reads :: "string \<Rightarrow> string option" where
  "shell_reads t =
     (if take 2 t = [CHR ''$'', quote_mark]
      then (if length t < 3 \<or> last t \<noteq> quote_mark then None
            else (case expand_backslash_escapes AnsiCQuotes (butlast (drop 2 t)) of
                    Inl e \<Rightarrow> None | Inr (u, goes_on) \<Rightarrow> Some u))
      else if starts_bare t then read_back Bare t else None)"



lemmas char_tests = in_range_def backslash_def quote_mark_def

lemma escapes_from_plain [simp]:
  "c \<noteq> backslash \<Longrightarrow> escapes_from mode out (c # s) = escapes_from mode (out @ [c]) s"
  by (simp add: escapes_from.simps)















lemma map_append_Nil [simp]: "map_option ((@) []) r = r"
  by (cases r) simp_all














text \<open>What the theorem excludes does fail: \<^verbatim>\<open>\0017\<close> reads as one byte, and a tilde is left bare.\<close>

lemma octal_clash_reads:
  "shell_reads (force_quote [CHR 0x01, CHR ''7''] SingleQuote) = Some [CHR 0x0F]"
  by code_simp

lemma tilde_left_bare: "quote_if_needed ''~'' SingleQuote = ''~''"
  by code_simp

text \<open>Octal escapes above \<^verbatim>\<open>377\<close> are an error, not a byte.\<close>

lemma octal_overflow: "\<exists>e. expand_backslash_escapes AnsiCQuotes (backslash # ''777'') = Inl e"
  by (rule exI, code_simp)

end
