(* ===== verification/Environment.thy ===== *)
theory Environment
  imports Variables
begin

text \<open>
  The variable environment (\<^verbatim>\<open>brush-core/src/env.rs\<close>): a stack of scopes, looked up from the top,
  with the policies that restrict a lookup, and every operation that changes it. The stack is kept
  with its top first, the reverse of the code's vector, which is always walked backwards. An
  operation returns the environment after it with its result, as for variables.
\<close>

section \<open>Data\<close>

datatype env_lookup = Anywhere | OnlyInGlobal | OnlyInCurrentLocal | OnlyInLocal

datatype env_scope = Local | Global | Command

type_synonym variable_map = "string \<rightharpoonup> shell_variable"

record environment =
  e_scopes :: "(env_scope \<times> variable_map) list"
  e_export :: bool
  e_count :: nat

definition env_new :: environment where
  "env_new = \<lparr> e_scopes = [(Global, Map.empty)], e_export = False, e_count = 0 \<rparr>"

section \<open>Scopes\<close>

definition push_scope :: "environment \<Rightarrow> env_scope \<Rightarrow> environment" where
  "push_scope e sc = e\<lparr>e_scopes := (sc, Map.empty) # e_scopes e\<rparr>"

definition pop_scope :: "environment \<Rightarrow> env_scope \<Rightarrow> environment upd" where
  "pop_scope e expected =
     (case e_scopes e of
        [] \<Rightarrow> (e, Inl MissingScope)
      | (actual, m) # rest \<Rightarrow>
          (e\<lparr>e_scopes := rest\<rparr>, if actual = expected then Inr () else Inl UnexpectedScopeType))"

section \<open>Lookup\<close>

text \<open>\<^verbatim>\<open>continue\<close> and \<^verbatim>\<open>break\<close> of the loops over scopes: whether a scope is looked at, given how
  many local scopes have been met, itself included, and whether the loop stops after it.\<close>

definition considered :: "env_lookup \<Rightarrow> env_scope \<Rightarrow> nat \<Rightarrow> bool" where
  "considered policy sc locals =
     (case policy of
        Anywhere \<Rightarrow> True
      | OnlyInGlobal \<Rightarrow> sc = Global
      | OnlyInCurrentLocal \<Rightarrow> sc = Local \<and> locals = 1
      | OnlyInLocal \<Rightarrow> sc = Local)"

definition stops_after :: "env_lookup \<Rightarrow> env_scope \<Rightarrow> bool" where
  "stops_after policy sc \<longleftrightarrow> sc = Local \<and> policy = OnlyInCurrentLocal"

fun find_scope ::
  "env_lookup \<Rightarrow> nat \<Rightarrow> (env_scope \<times> variable_map) list \<Rightarrow> string \<Rightarrow> nat option" where
  "find_scope policy locals [] name = None"
| "find_scope policy locals ((sc, m) # rest) name =
     (let locals = (if sc = Local then locals + 1 else locals) in
      if \<not> considered policy sc locals then map_option Suc (find_scope policy locals rest name)
      else if m name \<noteq> None then Some 0
      else if stops_after policy sc then None
      else map_option Suc (find_scope policy locals rest name))"

fun get_in :: "(env_scope \<times> variable_map) list \<Rightarrow> string \<Rightarrow> (env_scope \<times> shell_variable) option" where
  "get_in [] name = None"
| "get_in ((sc, m) # rest) name =
     (case m name of Some v \<Rightarrow> Some (sc, v) | None \<Rightarrow> get_in rest name)"

definition env_get :: "environment \<Rightarrow> string \<Rightarrow> (env_scope \<times> shell_variable) option" where
  "env_get e name = get_in (e_scopes e) name"

definition get_using_policy :: "environment \<Rightarrow> string \<Rightarrow> env_lookup \<Rightarrow> shell_variable option" where
  "get_using_policy e name policy =
     (case find_scope policy 0 (e_scopes e) name of
        None \<Rightarrow> None | Some i \<Rightarrow> snd (e_scopes e ! i) name)"

definition env_get_str :: "(nat \<Rightarrow> shell_value) \<Rightarrow> environment \<Rightarrow> string \<Rightarrow> string option" where
  "env_get_str dyn e name =
     map_option (\<lambda>(sc, v). text_of (resolve_value dyn (v_value v))) (env_get e name)"

definition is_set :: "environment \<Rightarrow> string \<Rightarrow> bool" where
  "is_set e name =
     (case env_get e name of
        Some (sc, v) \<Rightarrow> (case v_value v of Unset t \<Rightarrow> False | _ \<Rightarrow> True)
      | None \<Rightarrow> False)"

text \<open>The iterators collect, from the top down, what is not yet seen.\<close>

definition add_visible ::
  "(shell_variable \<Rightarrow> bool) \<Rightarrow> variable_map \<Rightarrow> variable_map \<Rightarrow> variable_map" where
  "add_visible keep m seen =
     (\<lambda>name. case seen name of
        Some v \<Rightarrow> Some v
      | None \<Rightarrow> (case m name of Some v \<Rightarrow> if keep v then Some v else None | None \<Rightarrow> None))"

definition iter_exported :: "environment \<Rightarrow> variable_map" where
  "iter_exported e = fold (\<lambda>(sc, m) seen. add_visible v_exported m seen) (e_scopes e) Map.empty"

fun iter_in ::
  "env_lookup \<Rightarrow> nat \<Rightarrow> (env_scope \<times> variable_map) list \<Rightarrow> variable_map \<Rightarrow> variable_map" where
  "iter_in policy locals [] seen = seen"
| "iter_in policy locals ((sc, m) # rest) seen =
     (let locals = (if sc = Local then locals + 1 else locals) in
      if \<not> considered policy sc locals then iter_in policy locals rest seen
      else (let seen = add_visible (\<lambda>v. True) m seen in
            if stops_after policy sc then seen else iter_in policy locals rest seen))"

definition iter_using_policy :: "environment \<Rightarrow> env_lookup \<Rightarrow> variable_map" where
  "iter_using_policy e policy = iter_in policy 0 (e_scopes e) Map.empty"

section \<open>Changing it\<close>

definition set_in_scope :: "environment \<Rightarrow> nat \<Rightarrow> string \<Rightarrow> shell_variable \<Rightarrow> environment" where
  "set_in_scope e i name v =
     e\<lparr>e_scopes := (e_scopes e)[i := (fst (e_scopes e ! i), (snd (e_scopes e ! i))(name \<mapsto> v))]\<rparr>"

text \<open>\<^verbatim>\<open>get_mut\<close> followed by an in-place operation on the variable found.\<close>

definition update_found ::
  "environment \<Rightarrow> nat \<Rightarrow> string \<Rightarrow> (shell_variable \<Rightarrow> shell_variable upd) \<Rightarrow> environment upd" where
  "update_found e i name f =
     (case snd (e_scopes e ! i) name of
        None \<Rightarrow> (e, Inr ())
      | Some v \<Rightarrow> (case f v of (v', r) \<Rightarrow> (set_in_scope e i name v', r)))"

fun add_in ::
  "(env_scope \<times> variable_map) list \<Rightarrow> string \<Rightarrow> shell_variable \<Rightarrow> env_scope \<Rightarrow>
   ((env_scope \<times> variable_map) list \<times> bool) option" where
  "add_in [] name v target = None"
| "add_in ((sc, m) # rest) name v target =
     (if sc = target then Some ((sc, m(name \<mapsto> v)) # rest, m name = None)
      else map_option (\<lambda>(scs, fresh). ((sc, m) # scs, fresh)) (add_in rest name v target))"

definition export_var :: "bool \<Rightarrow> shell_variable \<Rightarrow> shell_variable" where
  "export_var b v = (if b then v\<lparr>v_exported := True\<rparr> else v)"

definition env_add ::
  "environment \<Rightarrow> string \<Rightarrow> shell_variable \<Rightarrow> env_scope \<Rightarrow> environment upd" where
  "env_add e name v target =
     (case add_in (e_scopes e) name (export_var (e_export e) v) target of
        Some (scs, fresh) \<Rightarrow>
          (e\<lparr>e_scopes := scs, e_count := (if fresh then e_count e + 1 else e_count e)\<rparr>, Inr ())
      | None \<Rightarrow> (e, Inl MissingScopeForNewVariable))"

definition set_global :: "environment \<Rightarrow> string \<Rightarrow> shell_variable \<Rightarrow> environment upd" where
  "set_global e name v = env_add e name v Global"

definition update_or_add ::
  "casing \<Rightarrow> environment \<Rightarrow> string \<Rightarrow> value_literal \<Rightarrow>
   (shell_variable \<Rightarrow> shell_variable upd) \<Rightarrow> env_lookup \<Rightarrow> env_scope \<Rightarrow> environment upd" where
  "update_or_add k e name lit updater policy creation =
     (let set_up = (\<lambda>v. and_then (assign k v lit False) (\<lambda>v. updater (export_var (e_export e) v))) in
      case find_scope policy 0 (e_scopes e) name of
        Some i \<Rightarrow> update_found e i name set_up
      | None \<Rightarrow>
          (case set_up (variable_new (Unset Untyped)) of
             (v, Inl err) \<Rightarrow> (e, Inl err)
           | (v, Inr _) \<Rightarrow> env_add e name v creation))"

definition update_or_add_array_element ::
  "casing \<Rightarrow> environment \<Rightarrow> string \<Rightarrow> string \<Rightarrow> string \<Rightarrow>
   (shell_variable \<Rightarrow> shell_variable upd) \<Rightarrow> env_lookup \<Rightarrow> env_scope \<Rightarrow> environment upd" where
  "update_or_add_array_element k e name index s updater policy creation =
     (case find_scope policy 0 (e_scopes e) name of
        Some i \<Rightarrow> update_found e i name (\<lambda>v. and_then (assign_at_index k v index s False) updater)
      | None \<Rightarrow>
          (case and_then (assign k (variable_new (Unset Untyped)) (Array [(Some index, s)]) False) updater of
             (v, Inl err) \<Rightarrow> (e, Inl err)
           | (v, Inr _) \<Rightarrow> env_add e name v creation))"

text \<open>\<^verbatim>\<open>unset\<close>: the first scope that has the name loses it, except that the current function's own
  scope keeps a placeholder.\<close>

fun unset_in ::
  "nat \<Rightarrow> (env_scope \<times> variable_map) list \<Rightarrow> string \<Rightarrow>
   shell_error + ((env_scope \<times> variable_map) list \<times> bool \<times> shell_variable) option" where
  "unset_in locals [] name = Inr None"
| "unset_in locals ((sc, m) # rest) name =
     (let locals = (if sc = Local then locals + 1 else locals) in
      case m name of
        Some v \<Rightarrow>
          (if v_readonly v then Inl ReadonlyVariable
           else if sc = Local \<and> locals = 1
           then Inr (Some ((sc, m(name \<mapsto> variable_new (Unset Untyped))) # rest, False, v))
           else Inr (Some ((sc, m(name := None)) # rest, True, v)))
      | None \<Rightarrow>
          (case unset_in locals rest name of
             Inl e \<Rightarrow> Inl e
           | Inr r \<Rightarrow> Inr (map_option (\<lambda>(scs, gone, v). ((sc, m) # scs, gone, v)) r)))"

definition env_unset ::
  "environment \<Rightarrow> string \<Rightarrow> environment \<times> (shell_error + shell_variable option)" where
  "env_unset e name =
     (case unset_in 0 (e_scopes e) name of
        Inl err \<Rightarrow> (e, Inl err)
      | Inr None \<Rightarrow> (e, Inr None)
      | Inr (Some (scs, gone, v)) \<Rightarrow>
          (e\<lparr>e_scopes := scs, e_count := (if gone then e_count e - 1 else e_count e)\<rparr>, Inr (Some v)))"

definition env_unset_index ::
  "environment \<Rightarrow> string \<Rightarrow> string \<Rightarrow> environment \<times> (shell_error + bool)" where
  "env_unset_index e name index =
     (case find_scope Anywhere 0 (e_scopes e) name of
        None \<Rightarrow> (e, Inr False)
      | Some i \<Rightarrow>
          (case snd (e_scopes e ! i) name of
             None \<Rightarrow> (e, Inr False)
           | Some v \<Rightarrow>
               (case value_unset_index v index of (v', r) \<Rightarrow> (set_in_scope e i name v', r))))"

definition valid_variable_name :: "string \<Rightarrow> bool" where
  "valid_variable_name s =
     (case s of
        [] \<Rightarrow> False
      | c # r \<Rightarrow>
          ((in_range 65 90 c \<or> in_range 97 122 c) \<or> c = CHR ''_'') \<and>
          list_all (\<lambda>c. ascii_alnum c \<or> c = CHR ''_'') r)"

section \<open>Lookup and iteration\<close>

lemma find_scope_Some:
  "find_scope policy locals scs name = Some i \<Longrightarrow> i < length scs \<and> snd (scs ! i) name \<noteq> None"
  by (induction policy locals scs name arbitrary: i rule: find_scope.induct)
     (auto simp: Let_def split: if_splits)

lemma get_in_find:
  "get_in scs name =
     (case find_scope Anywhere locals scs name of
        None \<Rightarrow> None | Some i \<Rightarrow> map_option (Pair (fst (scs ! i))) (snd (scs ! i) name))"
proof (induction scs arbitrary: locals)
  case Nil
  then show ?case by simp
next
  case (Cons s scs)
  obtain sc m where s: "s = (sc, m)" by (cases s)
  show ?case
    using Cons.IH [of "if sc = Local then locals + 1 else locals"]
    by (auto simp: s Let_def considered_def stops_after_def split: option.splits)
qed

lemma iter_in_find:
  "iter_in policy locals scs seen name =
     (case seen name of
        Some v \<Rightarrow> Some v
      | None \<Rightarrow>
          (case find_scope policy locals scs name of
             None \<Rightarrow> None | Some i \<Rightarrow> snd (scs ! i) name))"
  by (induction policy locals scs seen rule: iter_in.induct)
     (auto simp: Let_def add_visible_def split: option.splits)

section \<open>What a change leaves alone\<close>

text \<open>\<open>agree_but name\<close>: two stacks of the same scopes that differ at most in what they hold for one
  name.\<close>

definition agree_but :: "string \<Rightarrow> environment \<Rightarrow> environment \<Rightarrow> bool" where
  "agree_but name e e' \<longleftrightarrow> e_export e' = e_export e \<and>
     list_all2 (\<lambda>(sc, m) (sc', m'). sc' = sc \<and> (\<forall>other. other \<noteq> name \<longrightarrow> m' other = m other))
       (e_scopes e) (e_scopes e')"

lemma agree_but_refl [simp]: "agree_but name e e"
  by (auto simp: agree_but_def intro: list_all2_refl)

lemma agree_but_set: "agree_but name e (set_in_scope e i name v)"
proof (cases "i < length (e_scopes e)")
  case True
  then show ?thesis
    by (auto simp: agree_but_def set_in_scope_def list_all2_conv_all_nth nth_list_update split: prod.splits)
next
  case False
  then show ?thesis by (auto simp: agree_but_def set_in_scope_def list_update_beyond intro: list_all2_refl)
qed

lemma agree_but_update: "agree_but name e (fst (update_found e i name f))"
  by (auto simp: update_found_def agree_but_set split: option.split prod.split)

lemma add_in_agree:
  "add_in scs name v target = Some (scs', fresh) \<Longrightarrow>
     list_all2 (\<lambda>(sc, m) (sc', m'). sc' = sc \<and> (\<forall>other. other \<noteq> name \<longrightarrow> m' other = m other)) scs scs'"
  by (induction scs name v target arbitrary: scs' fresh rule: add_in.induct)
     (auto split: if_splits intro: list_all2_refl)

lemma agree_but_add: "agree_but name e (fst (env_add e name v target))"
  by (auto simp: agree_but_def env_add_def intro: list_all2_refl split: option.split dest: add_in_agree)

lemma agree_but_update_or_add: "agree_but name e (fst (update_or_add k e name lit f policy creation))"
  by (auto simp: update_or_add_def Let_def agree_but_update agree_but_add split: option.split prod.split sum.split)

lemma agree_but_update_element:
  "agree_but name e (fst (update_or_add_array_element k e name index s f policy creation))"
  by (auto simp: update_or_add_array_element_def agree_but_update agree_but_add split: option.split prod.split sum.split)

lemma unset_in_agree:
  "unset_in locals scs name = Inr (Some (scs', gone, v)) \<Longrightarrow>
     list_all2 (\<lambda>(sc, m) (sc', m'). sc' = sc \<and> (\<forall>other. other \<noteq> name \<longrightarrow> m' other = m other)) scs scs'"
proof (induction locals scs name arbitrary: scs' rule: unset_in.induct)
  case (1 locals name)
  then show ?case by simp
next
  case (2 locals sc m rest name)
  then show ?case
    by (cases "m name") (auto simp: Let_def intro: list_all2_refl split: if_splits sum.splits)
qed

lemma agree_but_unset: "agree_but name e (fst (env_unset e name))"
  by (auto simp: agree_but_def env_unset_def intro: list_all2_refl
      split: sum.split option.split prod.split dest: unset_in_agree)

lemma agree_but_unset_index: "agree_but name e (fst (env_unset_index e name index))"
  by (auto simp: env_unset_index_def agree_but_set split: option.split prod.split)

lemma agree_find:
  "list_all2 (\<lambda>(sc, m) (sc', m'). sc' = sc \<and> (\<forall>other. other \<noteq> name \<longrightarrow> m' other = m other)) scs scs' \<Longrightarrow>
     other \<noteq> name \<Longrightarrow> find_scope policy locals scs' other = find_scope policy locals scs other"
proof (induction scs arbitrary: scs' locals)
  case Nil
  then show ?case by simp
next
  case (Cons s scs)
  obtain sc m where s: "s = (sc, m)" by (cases s)
  with Cons.prems obtain m' scs'' where s': "scs' = (sc, m') # scs''" "m' other = m other"
    and r: "list_all2 (\<lambda>(sc, m) (sc', m'). sc' = sc \<and> (\<forall>other. other \<noteq> name \<longrightarrow> m' other = m other)) scs scs''"
    by (auto simp: list_all2_Cons1)
  from Cons.IH [OF r Cons.prems(2)] s' show ?case by (simp add: s Let_def)
qed

lemma agree_get_using_policy:
  assumes "agree_but name e e'" and "other \<noteq> name"
  shows "get_using_policy e' other policy = get_using_policy e other policy"
proof -
  note a = assms(1) [unfolded agree_but_def, THEN conjunct2]
  have "snd (e_scopes e' ! i) other = snd (e_scopes e ! i) other" if "i < length (e_scopes e)" for i
    using list_all2_nthD [OF a that] assms(2) by (auto split: prod.splits)
  with find_scope_Some agree_find [OF a assms(2)] show ?thesis
    by (auto simp: get_using_policy_def split: option.split)
qed

section \<open>Local scopes\<close>

text \<open>What a function body does to its own scope: declaring, assigning and unsetting locals.\<close>

inductive local_step :: "environment \<Rightarrow> environment \<Rightarrow> bool" where
  add: "local_step e (fst (env_add e name v Local))"
| update: "local_step e (fst (update_or_add k e name lit f OnlyInCurrentLocal Local))"
| update_element:
    "local_step e (fst (update_or_add_array_element k e name index s f OnlyInCurrentLocal Local))"
| unset: "get_using_policy e name OnlyInCurrentLocal \<noteq> None \<Longrightarrow> local_step e (fst (env_unset e name))"

inductive local_reach :: "environment \<Rightarrow> environment \<Rightarrow> bool" where
  start: "local_reach e e"
| step: "local_reach e e' \<Longrightarrow> local_step e' e'' \<Longrightarrow> local_reach e e''"

definition local_frame :: "environment \<Rightarrow> environment \<Rightarrow> bool" where
  "local_frame e e' \<longleftrightarrow> e_export e' = e_export e \<and> (\<exists>m. e_scopes e' = (Local, m) # e_scopes e)"

lemma local_frame_push: "local_frame e (push_scope e Local)"
  by (simp add: local_frame_def push_scope_def)

lemma local_frame_add: "local_frame e e' \<Longrightarrow> local_frame e (fst (env_add e' name v Local))"
  by (auto simp: local_frame_def env_add_def)

lemma find_current_local:
  "local_frame e e' \<Longrightarrow> find_scope OnlyInCurrentLocal 0 (e_scopes e') name = Some i \<Longrightarrow> i = 0"
  by (auto simp: local_frame_def Let_def considered_def stops_after_def split: if_splits)

lemma local_frame_update:
  assumes "local_frame e e'" and "find_scope OnlyInCurrentLocal 0 (e_scopes e') name = Some i"
  shows "local_frame e (fst (update_found e' i name f))"
  using assms find_current_local [OF assms]
  by (auto simp: local_frame_def update_found_def set_in_scope_def split: option.split prod.split)

lemma local_frame_step:
  assumes "local_step e' e''" and "local_frame e e'"
  shows "local_frame e e''"
  using assms(1)
proof cases
  case (add name v)
  with assms(2) show ?thesis by (simp add: local_frame_add)
next
  case (update k name lit f)
  with assms(2) show ?thesis
    by (auto simp: update_or_add_def Let_def local_frame_add local_frame_update
        split: option.split prod.split sum.split)
next
  case (update_element k name index s f)
  with assms(2) show ?thesis
    by (auto simp: update_or_add_array_element_def local_frame_add local_frame_update
        split: option.split prod.split sum.split)
next
  case (unset name)
  with assms(2) show ?thesis
    by (auto simp: local_frame_def env_unset_def Let_def get_using_policy_def considered_def
        stops_after_def split: if_splits option.splits)
qed

lemma local_frame_reach: "local_reach e' e'' \<Longrightarrow> local_frame e e' \<Longrightarrow> local_frame e e''"
  by (induction rule: local_reach.induct) (auto intro: local_frame_step)

section \<open>Reading back\<close>

lemma add_in_find:
  "add_in scs name v target = Some (scs', fresh) \<Longrightarrow> find_scope Anywhere locals scs name = None \<Longrightarrow>
     find_scope Anywhere locals' scs' name \<noteq> None \<and>
     (\<forall>i. find_scope Anywhere locals' scs' name = Some i \<longrightarrow> snd (scs' ! i) name = Some v)"
proof (induction scs name v target arbitrary: scs' fresh locals locals' rule: add_in.induct)
  case (1 name v target)
  then show ?case by simp
next
  case (2 sc m rest name v target)
  show ?case
  proof (cases "sc = target")
    case True
    with "2.prems" show ?thesis by (auto simp: Let_def considered_def)
  next
    case False
    with "2.prems" obtain scs'' where a: "add_in rest name v target = Some (scs'', fresh)"
      and s: "scs' = (sc, m) # scs''" by auto
    from "2.prems"(2) have n: "m name = None"
      "find_scope Anywhere (if sc = Local then locals + 1 else locals) rest name = None"
      by (auto simp: Let_def considered_def stops_after_def split: if_splits)
    from "2.IH" [OF False a n(2), of "if sc = Local then locals' + 1 else locals'"] n(1) s
    show ?thesis by (auto simp: Let_def considered_def stops_after_def)
  qed
qed

lemma found_set_in_scope:
  assumes "find_scope Anywhere 0 (e_scopes e) name = Some i"
  shows "get_using_policy (set_in_scope e i name v) name Anywhere = Some v"
proof -
  have keep: "find_scope Anywhere locals (scs[i := (fst (scs ! i), (snd (scs ! i))(name \<mapsto> v))]) name = Some i"
    if "find_scope Anywhere locals scs name = Some i" for scs i locals
    using that
    by (induction Anywhere locals scs name arbitrary: i rule: find_scope.induct)
       (auto simp: Let_def considered_def stops_after_def split: if_splits)
  have "i < length (e_scopes e)" using find_scope_Some [OF assms] by simp
  with keep [OF assms] show ?thesis by (simp add: get_using_policy_def set_in_scope_def)
qed

section \<open>Properties\<close>

text \<open>C15. Locals never leak. Whatever a function body declares, assigns and unsets in its own scope,
  leaving the function gives back exactly the scopes there were before.\<close>

theorem locals_never_leak:
  assumes "local_reach (push_scope e Local) e'"
  shows "\<exists>c. pop_scope e' Local = (e\<lparr>e_count := c\<rparr>, Inr ())"
proof -
  from local_frame_reach [OF assms local_frame_push] obtain m where
    "e_export e' = e_export e" "e_scopes e' = (Local, m) # e_scopes e"
    by (auto simp: local_frame_def)
  then have "pop_scope e' Local = (e\<lparr>e_count := e_count e'\<rparr>, Inr ())" by (simp add: pop_scope_def)
  then show ?thesis by blast
qed

theorem locals_never_leak_witness:
  "\<exists>c. pop_scope (fst (env_unset
          (fst (update_or_add ascii_casing (push_scope env_new Local) ''x'' (Scalar ''1'')
             (\<lambda>v. (v, Inr ())) OnlyInCurrentLocal Local)) ''x'')) Local =
     (env_new\<lparr>e_count := c\<rparr>, Inr ())"
proof (rule locals_never_leak)
  let ?e = "fst (update_or_add ascii_casing (push_scope env_new Local) ''x'' (Scalar ''1'')
             (\<lambda>v. (v, Inr ())) OnlyInCurrentLocal Local)"
  have "get_using_policy ?e ''x'' OnlyInCurrentLocal \<noteq> None"
    by (simp add: update_or_add_def env_new_def push_scope_def considered_def stops_after_def and_then_def
        assign_def assign_scalar_def convert_str_def apply_transforms_def variable_new_def export_var_def
        env_add_def get_using_policy_def)
  then show "local_reach (push_scope env_new Local) (fst (env_unset ?e ''x''))"
    by (intro local_reach.step [OF local_reach.step [OF local_reach.start local_step.update] local_step.unset])
qed

text \<open>Updating a variable assigns it and nothing else: on success a lookup finds the variable that
  was visible, or a fresh one, after the assignment and the updater; and every other name reads
  under every policy as it did.\<close>

theorem update_or_add_spec:
  assumes "update_or_add k e name lit f Anywhere creation = (e', Inr ())"
  shows "\<exists>v. and_then (assign k (case get_using_policy e name Anywhere of Some v0 \<Rightarrow> v0
                            | None \<Rightarrow> variable_new (Unset Untyped)) lit False)
            (\<lambda>v. f (export_var (e_export e) v)) = (v, Inr ()) \<and>
    get_using_policy e' name Anywhere =
      Some (if get_using_policy e name Anywhere = None then export_var (e_export e) v else v) \<and>
    (\<forall>other policy. other \<noteq> name \<longrightarrow>
       get_using_policy e' other policy = get_using_policy e other policy)"
proof -
  have frame: "\<forall>other policy. other \<noteq> name \<longrightarrow>
       get_using_policy e' other policy = get_using_policy e other policy"
    using agree_get_using_policy [OF agree_but_update_or_add, of _ name k e lit f Anywhere creation] assms
    by simp
  let ?f = "\<lambda>v. and_then (assign k v lit False) (\<lambda>v. f (export_var (e_export e) v))"
  show ?thesis
  proof (cases "find_scope Anywhere 0 (e_scopes e) name")
    case None
    then obtain v where v: "?f (variable_new (Unset Untyped)) = (v, Inr ())"
      and a: "env_add e name v creation = (e', Inr ())"
      using assms by (auto simp: update_or_add_def Let_def split: prod.splits sum.splits)
    then obtain scs fresh where "add_in (e_scopes e) name (export_var (e_export e) v) creation = Some (scs, fresh)"
      "e_scopes e' = scs" by (auto simp: env_add_def split: option.splits prod.splits)
    from add_in_find [OF this(1) None, of 0] this(2)
    have "get_using_policy e' name Anywhere = Some (export_var (e_export e) v)"
      by (auto simp: get_using_policy_def)
    moreover have "get_using_policy e name Anywhere = None" using None by (simp add: get_using_policy_def)
    ultimately show ?thesis using v frame by auto
  next
    case (Some i)
    obtain v0 where v0: "snd (e_scopes e ! i) name = Some v0" using find_scope_Some [OF Some] by auto
    have u: "update_found e i name ?f = (e', Inr ())"
      using assms Some by (simp add: update_or_add_def Let_def)
    obtain v r where v: "?f v0 = (v, r)" by (cases "?f v0")
    with u v0 have "r = Inr ()" "e' = set_in_scope e i name v" by (auto simp: update_found_def)
    moreover have "get_using_policy e name Anywhere = Some v0" using Some v0 by (simp add: get_using_policy_def)
    ultimately show ?thesis using v found_set_in_scope [OF Some] frame by auto
  qed
qed

theorem update_or_add_spec_witness:
  "\<exists>v. and_then (assign ascii_casing (case get_using_policy env_new ''x'' Anywhere of Some v0 \<Rightarrow> v0
                            | None \<Rightarrow> variable_new (Unset Untyped)) (Scalar ''1'') False)
            (\<lambda>v. (export_var (e_export env_new) v, Inr ())) = (v, Inr ()) \<and>
    get_using_policy (fst (update_or_add ascii_casing env_new ''x'' (Scalar ''1'') (\<lambda>v. (v, Inr ())) Anywhere Global)) ''x'' Anywhere =
      Some (if get_using_policy env_new ''x'' Anywhere = None then export_var (e_export env_new) v else v) \<and>
    (\<forall>other policy. other \<noteq> ''x'' \<longrightarrow>
       get_using_policy (fst (update_or_add ascii_casing env_new ''x'' (Scalar ''1'') (\<lambda>v. (v, Inr ())) Anywhere Global)) other policy =
       get_using_policy env_new other policy)"
  by (rule update_or_add_spec)
     (simp add: update_or_add_def env_new_def considered_def stops_after_def and_then_def
        assign_def assign_scalar_def convert_str_def apply_transforms_def variable_new_def export_var_def
        env_add_def)

text \<open>The two ways of reading the environment agree: for every policy the iterator shows a name
  exactly when a lookup under that policy finds it, with the same variable, and the unrestricted
  lookup is the policy that looks anywhere.\<close>

theorem iteration_agrees_with_lookup:
  "iter_using_policy e policy name = get_using_policy e name policy \<and>
   map_option snd (env_get e name) = get_using_policy e name Anywhere"
proof
  show "iter_using_policy e policy name = get_using_policy e name policy"
    by (simp add: iter_using_policy_def iter_in_find get_using_policy_def)
  show "map_option snd (env_get e name) = get_using_policy e name Anywhere"
    unfolding env_get_def get_in_find [of _ _ 0]
    by (auto simp: get_using_policy_def option.map_comp o_def option.map_ident split: option.split)
qed

section \<open>Findings\<close>

text \<open>The count of entries is not taken back when a scope is popped: it grows with every call of a
  function that has locals.\<close>

theorem entry_count_drifts:
  "fst (pop_scope (fst (env_add (push_scope env_new Local) ''x'' (variable_new (Scalar_Value ''1'')) Local)) Local) =
     env_new\<lparr>e_count := 1\<rparr>"
  by (simp add: pop_scope_def env_add_def push_scope_def env_new_def export_var_def)

end
