(* ===== verification/Arithmetic.thy ===== *)
theory Arithmetic
  imports Environment "HOL-Library.Signed_Division"
begin

unbundle bit_operations_syntax

text \<open>
  Arithmetic expressions: the tree of \<^verbatim>\<open>brush-parser/src/ast.rs\<close>, its evaluator
  (\<^verbatim>\<open>brush-core/src/arithmetic.rs\<close>), and the reading of literals with a base
  (\<^verbatim>\<open>brush-parser/src/arithmetic.rs\<close>).

  An \<^verbatim>\<open>i64\<close> is a \<^typ>\<open>64 word\<close>. The evaluator reads and writes the shell's environment; what else
  it takes from the shell is a context: the parser of a variable's text, case mapping, the getters
  of dynamic values, and the option that makes unset variables errors. Every function returns the
  environment after it with its result, so effects before an error are kept.
\<close>

section \<open>Expressions\<close>

type_synonym i64 = "64 word"

datatype binary_operator =
    Power | Multiply | Divide | Modulo | Comma | Add | Subtract | ShiftLeft | ShiftRight
  | LessThan | LessThanOrEqualTo | GreaterThan | GreaterThanOrEqualTo | Equals | NotEquals
  | BitwiseAnd | BitwiseXor | BitwiseOr | LogicalAnd | LogicalOr

datatype unary_operator = UnaryPlus | UnaryMinus | BitwiseNot | LogicalNot

datatype unary_assignment_operator =
  PrefixIncrement | PrefixDecrement | PostfixIncrement | PostfixDecrement

datatype arith =
    Literal i64
  | Reference arith_target
  | UnaryOp unary_operator arith
  | BinaryOp binary_operator arith arith
  | Conditional arith arith arith
  | Assignment arith_target arith
  | BinaryAssignment binary_operator arith_target arith
  | UnaryAssignment unary_assignment_operator arith_target
and arith_target =
    Variable string
  | ArrayElement string arith

datatype eval_error =
    DivideByZero
  | NegativeExponent
  | FailedToAccessArray
  | FailedToUpdateEnvironment
  | ParseError string
  | ExpandingUnsetVariable string
  | RecursionLimitExceeded

definition MAX_VARIABLE_DEREF_DEPTH :: nat where
  "MAX_VARIABLE_DEREF_DEPTH = 1024"

record arith_context =
  ac_parse :: "string \<Rightarrow> unit + arith"
  ac_casing :: casing
  ac_dynamic :: "environment \<Rightarrow> nat \<Rightarrow> shell_value"
  ac_nounset :: bool

section \<open>Operations on integers\<close>

definition bool_to_i64 :: "bool \<Rightarrow> i64" where
  "bool_to_i64 value = (if value then 1 else 0)"

fun wrapping_pow_loop :: "i64 \<Rightarrow> i64 \<Rightarrow> nat \<Rightarrow> i64" where
  "wrapping_pow_loop res base exponent =
     (if exponent = 0 then res
      else wrapping_pow_loop (if exponent mod 2 = 1 then res * base else res)
             (base * base) (exponent div 2))"

declare wrapping_pow_loop.simps [simp del]

definition wrapping_pow_u64 :: "i64 \<Rightarrow> nat \<Rightarrow> i64" where
  "wrapping_pow_u64 base exponent = wrapping_pow_loop 1 base exponent"

text \<open>\<^verbatim>\<open>i64::to_string\<close>, and the shift distance of \<^verbatim>\<open>wrapping_shl(right as u32)\<close>.\<close>

definition i64_text :: "i64 \<Rightarrow> string" where
  "i64_text v = show_int (sint v)"

definition shift_distance :: "i64 \<Rightarrow> nat" where
  "shift_distance right = unat (ucast right :: 32 word) mod 64"

definition unary_result :: "unary_operator \<Rightarrow> i64 \<Rightarrow> i64" where
  "unary_result op v =
     (case op of
        UnaryPlus \<Rightarrow> v
      | UnaryMinus \<Rightarrow> - v
      | BitwiseNot \<Rightarrow> NOT v
      | LogicalNot \<Rightarrow> bool_to_i64 (v = 0))"

text \<open>The operators that evaluate both sides; the other two are handled before.\<close>

definition binary_result :: "binary_operator \<Rightarrow> i64 \<Rightarrow> i64 \<Rightarrow> eval_error + i64" where
  "binary_result op left right =
     (case op of
        Power \<Rightarrow> if 0 \<le> sint right then Inr (wrapping_pow_u64 left (unat right))
                 else Inl NegativeExponent
      | Multiply \<Rightarrow> Inr (left * right)
      | Divide \<Rightarrow> if right = 0 then Inl DivideByZero
                  else Inr (word_of_int (sint left sdiv sint right))
      | Modulo \<Rightarrow> if right = 0 then Inl DivideByZero
                  else Inr (word_of_int (sint left smod sint right))
      | Comma \<Rightarrow> Inr right
      | Add \<Rightarrow> Inr (left + right)
      | Subtract \<Rightarrow> Inr (left - right)
      | ShiftLeft \<Rightarrow> Inr (push_bit (shift_distance right) left)
      | ShiftRight \<Rightarrow> Inr (signed_drop_bit (shift_distance right) left)
      | LessThan \<Rightarrow> Inr (bool_to_i64 (sint left < sint right))
      | LessThanOrEqualTo \<Rightarrow> Inr (bool_to_i64 (sint left \<le> sint right))
      | GreaterThan \<Rightarrow> Inr (bool_to_i64 (sint right < sint left))
      | GreaterThanOrEqualTo \<Rightarrow> Inr (bool_to_i64 (sint right \<le> sint left))
      | Equals \<Rightarrow> Inr (bool_to_i64 (left = right))
      | NotEquals \<Rightarrow> Inr (bool_to_i64 (left \<noteq> right))
      | BitwiseAnd \<Rightarrow> Inr (left AND right)
      | BitwiseXor \<Rightarrow> Inr (left XOR right)
      | BitwiseOr \<Rightarrow> Inr (left OR right)
      | LogicalAnd \<Rightarrow> Inr 0
      | LogicalOr \<Rightarrow> Inr 0)"

section \<open>Evaluation\<close>

text \<open>The \<^verbatim>\<open>?\<close> operator on a res with the environment after it.\<close>

type_synonym 'a eval = "environment \<times> (eval_error + 'a)"

definition eval_then :: "'a eval \<Rightarrow> ('a \<Rightarrow> environment \<Rightarrow> 'b eval) \<Rightarrow> 'b eval" where
  "eval_then r f = (case r of (e, Inl err) \<Rightarrow> (e, Inl err) | (e, Inr x) \<Rightarrow> f x e)"

definition get_var_value :: "arith_context \<Rightarrow> environment \<Rightarrow> string \<Rightarrow> eval_error + string" where
  "get_var_value c e name =
     (let unset = (if ac_nounset c then Inl (ExpandingUnsetVariable name) else Inr []) in
      case env_get e name of
        None \<Rightarrow> unset
      | Some (sc, v) \<Rightarrow>
          (let value = resolve_value (ac_dynamic c e) (v_value v) in
           case value of
             Unset t \<Rightarrow> unset
           | _ \<Rightarrow> Inr (text_of (resolve_value (ac_dynamic c e) value))))"

text \<open>\<^verbatim>\<open>ShellValue::get_at\<close>, whose error becomes \<open>FailedToAccessArray\<close>; nothing there is the empty
  text.\<close>

definition get_element :: "arith_context \<Rightarrow> environment \<Rightarrow> string \<Rightarrow> string \<Rightarrow> eval_error + string" where
  "get_element c e name index =
     (case env_get e name of
        None \<Rightarrow> Inr []
      | Some (sc, v) \<Rightarrow>
          (case get_at_static (resolve_value (ac_dynamic c e) (v_value v)) index of
             Inl err \<Rightarrow> Inl FailedToAccessArray
           | Inr None \<Rightarrow> Inr []
           | Inr (Some s) \<Rightarrow> Inr s))"

definition assign_variable :: "arith_context \<Rightarrow> environment \<Rightarrow> string \<Rightarrow> i64 \<Rightarrow> i64 eval" where
  "assign_variable c e name value =
     (case update_or_add (ac_casing c) e name (Scalar (i64_text value)) (\<lambda>v. (v, Inr ()))
             Anywhere Global of
        (e', Inl err) \<Rightarrow> (e', Inl FailedToUpdateEnvironment)
      | (e', Inr _) \<Rightarrow> (e', Inr value))"

definition assign_element :: "arith_context \<Rightarrow> environment \<Rightarrow> string \<Rightarrow> string \<Rightarrow> i64 \<Rightarrow> i64 eval" where
  "assign_element c e name index value =
     (case update_or_add_array_element (ac_casing c) e name index (i64_text value)
             (\<lambda>v. (v, Inr ())) Anywhere Global of
        (e', Inl err) \<Rightarrow> (e', Inl FailedToUpdateEnvironment)
      | (e', Inr _) \<Rightarrow> (e', Inr value))"

fun arith_weight :: "arith \<Rightarrow> nat" and target_weight :: "arith_target \<Rightarrow> nat" where
  "arith_weight (Literal l) = 1"
| "arith_weight (Reference lv) = target_weight lv + 1"
| "arith_weight (UnaryOp op e) = arith_weight e + 2"
| "arith_weight (BinaryOp op l r) = arith_weight l + arith_weight r + 2"
| "arith_weight (Conditional c t f) = arith_weight c + arith_weight t + arith_weight f + 1"
| "arith_weight (Assignment lv r) = target_weight lv + arith_weight r + 2"
| "arith_weight (BinaryAssignment op lv r) = target_weight lv + arith_weight r + 3"
| "arith_weight (UnaryAssignment op lv) = target_weight lv + 3"
| "target_weight (Variable n) = 1"
| "target_weight (ArrayElement n i) = arith_weight i + 1"

lemma weight_pos: "0 < arith_weight e" "0 < target_weight lv"
  by (cases e; simp) (cases lv; simp)

function (sequential)
      eval_expr_impl :: "arith_context \<Rightarrow> nat \<Rightarrow> arith \<Rightarrow> environment \<Rightarrow> i64 eval"
  and deref_lvalue :: "arith_context \<Rightarrow> nat \<Rightarrow> arith_target \<Rightarrow> environment \<Rightarrow> i64 eval"
  and apply_unary_op ::
    "arith_context \<Rightarrow> nat \<Rightarrow> unary_operator \<Rightarrow> arith \<Rightarrow> environment \<Rightarrow> i64 eval"
  and apply_binary_op ::
    "arith_context \<Rightarrow> nat \<Rightarrow> binary_operator \<Rightarrow> arith \<Rightarrow> arith \<Rightarrow> environment \<Rightarrow> i64 eval"
  and apply_unary_assignment_op ::
    "arith_context \<Rightarrow> nat \<Rightarrow> unary_assignment_operator \<Rightarrow> arith_target \<Rightarrow> environment \<Rightarrow> i64 eval"
  and assign_target :: "arith_context \<Rightarrow> nat \<Rightarrow> arith_target \<Rightarrow> i64 \<Rightarrow> environment \<Rightarrow> i64 eval"
where
  "eval_expr_impl c d (Literal l) e = (e, Inr l)"
| "eval_expr_impl c d (Reference lv) e = deref_lvalue c d lv e"
| "eval_expr_impl c d (UnaryOp op operand) e = apply_unary_op c d op operand e"
| "eval_expr_impl c d (BinaryOp op l r) e = apply_binary_op c d op l r e"
| "eval_expr_impl c d (Conditional cond t f) e =
     eval_then (eval_expr_impl c d cond e)
       (\<lambda>v e. if v \<noteq> 0 then eval_expr_impl c d t e else eval_expr_impl c d f e)"
| "eval_expr_impl c d (Assignment lv rhs) e =
     eval_then (eval_expr_impl c d rhs e) (\<lambda>v e. assign_target c d lv v e)"
| "eval_expr_impl c d (UnaryAssignment op' lv) e = apply_unary_assignment_op c d op' lv e"
| "eval_expr_impl c d (BinaryAssignment op lv operand) e =
     eval_then (apply_binary_op c d op (Reference lv) operand e) (\<lambda>v e. assign_target c d lv v e)"
| "deref_lvalue c d lv e =
     eval_then
       (case lv of
          Variable name \<Rightarrow> (e, get_var_value c e name)
        | ArrayElement name index_expr \<Rightarrow>
            eval_then (eval_expr_impl c d index_expr e)
              (\<lambda>i e. (e, get_element c e name (i64_text i))))
       (\<lambda>value_str e.
          case ac_parse c value_str of
            Inl _ \<Rightarrow> (e, Inl (ParseError value_str))
          | Inr (Literal l) \<Rightarrow> (e, Inr l)
          | Inr parsed_value \<Rightarrow>
              if MAX_VARIABLE_DEREF_DEPTH < d + 1 then (e, Inl RecursionLimitExceeded)
              else eval_expr_impl c (d + 1) parsed_value e)"
| "apply_unary_op c d op operand e =
     eval_then (eval_expr_impl c d operand e) (\<lambda>v e. (e, Inr (unary_result op v)))"
| "apply_binary_op c d op l r e =
     (case op of
        LogicalAnd \<Rightarrow>
          eval_then (eval_expr_impl c d l e)
            (\<lambda>left e. if left = 0 then (e, Inr (bool_to_i64 False))
              else eval_then (eval_expr_impl c d r e) (\<lambda>right e. (e, Inr (bool_to_i64 (right \<noteq> 0)))))
      | LogicalOr \<Rightarrow>
          eval_then (eval_expr_impl c d l e)
            (\<lambda>left e. if left \<noteq> 0 then (e, Inr (bool_to_i64 True))
              else eval_then (eval_expr_impl c d r e) (\<lambda>right e. (e, Inr (bool_to_i64 (right \<noteq> 0)))))
      | _ \<Rightarrow>
          eval_then (eval_expr_impl c d l e)
            (\<lambda>left e. eval_then (eval_expr_impl c d r e)
              (\<lambda>right e. (e, binary_result op left right))))"
| "apply_unary_assignment_op c d op' lv e =
     eval_then (deref_lvalue c d lv e)
       (\<lambda>value e. case op' of
          PrefixIncrement \<Rightarrow>
            eval_then (assign_target c d lv (value + 1) e) (\<lambda>_ e. (e, Inr (value + 1)))
        | PrefixDecrement \<Rightarrow>
            eval_then (assign_target c d lv (value - 1) e) (\<lambda>_ e. (e, Inr (value - 1)))
        | PostfixIncrement \<Rightarrow>
            eval_then (assign_target c d lv (value + 1) e) (\<lambda>_ e. (e, Inr value))
        | PostfixDecrement \<Rightarrow>
            eval_then (assign_target c d lv (value - 1) e) (\<lambda>_ e. (e, Inr value)))"
| "assign_target c d lv value e =
     (case lv of
        Variable name \<Rightarrow> assign_variable c e name value
      | ArrayElement name index_expr \<Rightarrow>
          eval_then (eval_expr_impl c d index_expr e)
            (\<lambda>i e. assign_element c e name (i64_text i) value))"
  by pat_completeness auto
termination
proof (relation "measures [\<lambda>x. case x of
      Inl (Inl (c, d, ex, e)) \<Rightarrow> 1024 - d
    | Inl (Inr (Inl (c, d, lv, e))) \<Rightarrow> 1024 - d
    | Inl (Inr (Inr (c, d, op, ex, e))) \<Rightarrow> 1024 - d
    | Inr (Inl (c, d, op, l, r, e)) \<Rightarrow> 1024 - d
    | Inr (Inr (Inl (c, d, op, lv, e))) \<Rightarrow> 1024 - d
    | Inr (Inr (Inr (c, d, lv, v, e))) \<Rightarrow> 1024 - d,
    \<lambda>x. case x of
      Inl (Inl (c, d, ex, e)) \<Rightarrow> arith_weight ex
    | Inl (Inr (Inl (c, d, lv, e))) \<Rightarrow> target_weight lv
    | Inl (Inr (Inr (c, d, op, ex, e))) \<Rightarrow> arith_weight ex + 1
    | Inr (Inl (c, d, op, l, r, e)) \<Rightarrow> arith_weight l + arith_weight r + 1
    | Inr (Inr (Inl (c, d, op, lv, e))) \<Rightarrow> target_weight lv + 1
    | Inr (Inr (Inr (c, d, lv, v, e))) \<Rightarrow> target_weight lv]",
  goal_cases)
  case 1
  show ?case by simp
qed (auto simp: MAX_VARIABLE_DEREF_DEPTH_def weight_pos)

text \<open>\<^verbatim>\<open>Evaluatable::eval\<close>, and \<^verbatim>\<open>expand_and_eval\<close> after the word expansion of its text.\<close>

definition arith_eval :: "arith_context \<Rightarrow> arith \<Rightarrow> environment \<Rightarrow> i64 eval" where
  "arith_eval c ex e = eval_expr_impl c 0 ex e"

definition expand_and_eval ::
  "arith_context \<Rightarrow> (environment \<Rightarrow> environment \<times> (eval_error + string)) \<Rightarrow> environment \<Rightarrow> i64 eval" where
  "expand_and_eval c expand e =
     eval_then (expand e)
       (\<lambda>text e. case ac_parse c text of
          Inl _ \<Rightarrow> (e, Inl (ParseError text)) | Inr ex \<Rightarrow> arith_eval c ex e)"

section \<open>Literals with a base\<close>

text \<open>The value of a digit: letters of either case count alike up to base 36, beyond it they are
  different digits.\<close>

definition digit_val :: "nat \<Rightarrow> char \<Rightarrow> nat option" where
  "digit_val radix ch =
     (if in_range 48 57 ch then Some (of_char ch - 48)
      else if in_range 97 122 ch then Some (of_char ch - 97 + 10)
      else if in_range 65 90 ch then Some (of_char ch - 65 + (if radix \<le> 36 then 10 else 36))
      else if 36 < radix \<and> ch = CHR ''@'' then Some 62
      else if 36 < radix \<and> ch = CHR ''_'' then Some 63
      else None)"

fun literal_digits :: "nat \<Rightarrow> i64 \<Rightarrow> string \<Rightarrow> string + i64" where
  "literal_digits radix acc [] = Inr acc"
| "literal_digits radix acc (ch # s) =
     (case digit_val radix ch of
        None \<Rightarrow> Inl ''invalid digit''
      | Some v \<Rightarrow>
          if radix \<le> v then Inl ''value too great for base''
          else literal_digits radix (acc * of_nat radix + of_nat v) s)"

definition parse_shell_literal_number :: "string \<Rightarrow> nat \<Rightarrow> string + i64" where
  "parse_shell_literal_number s radix =
     (if 2 \<le> radix \<and> radix \<le> 64 then literal_digits radix 0 s else Inl ''invalid base'')"

section \<open>Printing\<close>

text \<open>The \<^verbatim>\<open>Display\<close> instances, used by the trace of \<^verbatim>\<open>set -x\<close>.\<close>

fun binary_text :: "binary_operator \<Rightarrow> string" where
  "binary_text Power = ''**''"
| "binary_text Multiply = ''*''"
| "binary_text Divide = ''/''"
| "binary_text Modulo = ''%''"
| "binary_text Comma = '',''"
| "binary_text Add = ''+''"
| "binary_text Subtract = ''-''"
| "binary_text ShiftLeft = ''<<''"
| "binary_text ShiftRight = ''>>''"
| "binary_text LessThan = ''<''"
| "binary_text LessThanOrEqualTo = ''<=''"
| "binary_text GreaterThan = ''>''"
| "binary_text GreaterThanOrEqualTo = ''>=''"
| "binary_text Equals = ''==''"
| "binary_text NotEquals = ''!=''"
| "binary_text BitwiseAnd = ''&''"
| "binary_text BitwiseXor = ''^''"
| "binary_text BitwiseOr = ''|''"
| "binary_text LogicalAnd = ''&&''"
| "binary_text LogicalOr = ''||''"

fun unary_text :: "unary_operator \<Rightarrow> string" where
  "unary_text UnaryPlus = ''+''"
| "unary_text UnaryMinus = ''-''"
| "unary_text BitwiseNot = ''~''"
| "unary_text LogicalNot = ''!''"

fun unary_assignment_text :: "unary_assignment_operator \<Rightarrow> string" where
  "unary_assignment_text PrefixIncrement = ''++''"
| "unary_assignment_text PrefixDecrement = ''--''"
| "unary_assignment_text PostfixIncrement = ''++''"
| "unary_assignment_text PostfixDecrement = ''--''"

fun arith_text :: "arith \<Rightarrow> string" and target_text :: "arith_target \<Rightarrow> string" where
  "arith_text (Literal l) = i64_text l"
| "arith_text (Reference lv) = target_text lv"
| "arith_text (UnaryOp op operand) = unary_text op @ arith_text operand"
| "arith_text (BinaryOp op l r) =
     (if op = Comma then arith_text l @ binary_text op @ '' '' @ arith_text r
      else arith_text l @ '' '' @ binary_text op @ '' '' @ arith_text r)"
| "arith_text (Conditional c t f) = arith_text c @ '' ? '' @ arith_text t @ '' : '' @ arith_text f"
| "arith_text (Assignment lv v) = target_text lv @ '' = '' @ arith_text v"
| "arith_text (BinaryAssignment op lv v) =
     target_text lv @ '' '' @ binary_text op @ ''= '' @ arith_text v"
| "arith_text (UnaryAssignment op lv) =
     (if op = PrefixIncrement \<or> op = PrefixDecrement then unary_assignment_text op @ target_text lv
      else target_text lv @ unary_assignment_text op)"
| "target_text (Variable name) = name"
| "target_text (ArrayElement name index) = name @ ''['' @ arith_text index @ '']''"

declare eval_expr_impl.simps [simp] deref_lvalue.simps [simp del] apply_unary_op.simps [simp del]
  apply_binary_op.simps [simp del] apply_unary_assignment_op.simps [simp del]
  assign_target.simps [simp del]

section \<open>Powers\<close>

lemma wrapping_pow_loop_power: "wrapping_pow_loop res base n = res * base ^ n"
proof (induction res base n rule: wrapping_pow_loop.induct)
  case (1 res base n)
  show ?case
  proof (cases "n = 0")
    case True
    then show ?thesis by (simp add: wrapping_pow_loop.simps [of res])
  next
    case False
    have p: "base ^ n = base ^ (n mod 2) * (base * base) ^ (n div 2)"
      by (metis mult.commute power2_eq_square power_add power_mult div_mult_mod_eq)
    have "wrapping_pow_loop res base n = res * base ^ (n mod 2) * (base * base) ^ (n div 2)"
      using 1 False by (cases "n mod 2 = 1") (simp_all add: wrapping_pow_loop.simps [of res])
    then show ?thesis unfolding p by (simp only: mult.assoc)
  qed
qed

section \<open>Integer meaning\<close>

text \<open>What an expression without variables means: the mathematical operation, brought back into
  the range of an \<^verbatim>\<open>i64\<close>; division truncates towards zero, a shift distance counts modulo 64,
  and the second side of a logical operator counts only where the first does not decide.\<close>

definition truth :: "bool \<Rightarrow> int" where
  "truth b = (if b then 1 else 0)"

definition unary_meaning :: "unary_operator \<Rightarrow> int \<Rightarrow> int" where
  "unary_meaning op v =
     (case op of UnaryPlus \<Rightarrow> v | UnaryMinus \<Rightarrow> wrap_i64 (- v) | BitwiseNot \<Rightarrow> - v - 1
      | LogicalNot \<Rightarrow> truth (v = 0))"

definition binary_meaning :: "binary_operator \<Rightarrow> int \<Rightarrow> int \<Rightarrow> eval_error + int" where
  "binary_meaning op l r =
     (case op of
        Power \<Rightarrow> if r < 0 then Inl NegativeExponent else Inr (wrap_i64 (l ^ nat r))
      | Multiply \<Rightarrow> Inr (wrap_i64 (l * r))
      | Divide \<Rightarrow> if r = 0 then Inl DivideByZero else Inr (wrap_i64 (l sdiv r))
      | Modulo \<Rightarrow> if r = 0 then Inl DivideByZero else Inr (l smod r)
      | Comma \<Rightarrow> Inr r
      | Add \<Rightarrow> Inr (wrap_i64 (l + r))
      | Subtract \<Rightarrow> Inr (wrap_i64 (l - r))
      | ShiftLeft \<Rightarrow> Inr (wrap_i64 (l * 2 ^ nat (r mod 64)))
      | ShiftRight \<Rightarrow> Inr (l div 2 ^ nat (r mod 64))
      | LessThan \<Rightarrow> Inr (truth (l < r))
      | LessThanOrEqualTo \<Rightarrow> Inr (truth (l \<le> r))
      | GreaterThan \<Rightarrow> Inr (truth (l > r))
      | GreaterThanOrEqualTo \<Rightarrow> Inr (truth (l \<ge> r))
      | Equals \<Rightarrow> Inr (truth (l = r))
      | NotEquals \<Rightarrow> Inr (truth (l \<noteq> r))
      | BitwiseAnd \<Rightarrow> Inr (l AND r)
      | BitwiseXor \<Rightarrow> Inr (l XOR r)
      | BitwiseOr \<Rightarrow> Inr (l OR r)
      | LogicalAnd \<Rightarrow> Inr (truth (l \<noteq> 0 \<and> r \<noteq> 0))
      | LogicalOr \<Rightarrow> Inr (truth (l \<noteq> 0 \<or> r \<noteq> 0)))"

lemma sint_word_of_int: "sint (word_of_int k :: i64) = wrap_i64 k"
  by (simp add: sint_sbintrunc' signed_take_bit_eq_take_bit_shift take_bit_eq_mod wrap_i64_def)

lemma sint_in_i64: "in_i64 (sint (w :: i64))"
  using sint_ge [of w] sint_lt [of w] by (simp add: in_i64_def)

lemma wrap_sint [simp]: "wrap_i64 (sint (w :: i64)) = sint w"
  using sint_word_of_int [of "sint w"] by simp

lemma sint_add: "sint (a + b :: i64) = wrap_i64 (sint a + sint b)"
  and sint_sub: "sint (a - b :: i64) = wrap_i64 (sint a - sint b)"
  and sint_mul: "sint (a * b :: i64) = wrap_i64 (sint a * sint b)"
  and sint_neg: "sint (- a :: i64) = wrap_i64 (- sint a)"
  by (simp_all flip: sint_word_of_int)

lemma sint_pow: "sint (a ^ n :: i64) = wrap_i64 (sint a ^ n)"
  by (simp flip: sint_word_of_int)

lemma sint_inject: "sint (v :: i64) = sint w \<longleftrightarrow> v = w"
  by (simp flip: word_eq_iff_signed)

lemma sint_eq_0: "sint (w :: i64) = 0 \<longleftrightarrow> w = 0"
  using sint_inject [of w 0] by simp

lemma unat_mod: "unat (w :: i64) = nat (sint w mod 2 ^ 64)"
  by (simp add: uint_sint take_bit_eq_mod flip: nat_uint_eq)

lemma unat_sint: "0 \<le> sint (w :: i64) \<Longrightarrow> unat w = nat (sint w)"
  using sint_lt [of w] by (simp add: unat_mod)

lemma sint_bool: "sint (bool_to_i64 b) = truth b"
  by (simp add: bool_to_i64_def truth_def)

lemma shift_distance_mod: "shift_distance w = nat (sint w mod 64)"
proof -
  have "shift_distance w = unat w mod 2 ^ 32 mod 64"
    by (simp add: shift_distance_def unsigned_ucast_eq take_bit_eq_mod)
  also have "\<dots> = unat w mod 64" by (rule mod_mod_cancel) simp
  also have "\<dots> = nat (sint w mod 2 ^ 64 mod 64)" by (simp add: unat_mod nat_mod_distrib)
  also have "sint w mod 2 ^ 64 mod 64 = sint w mod 64" by (rule mod_mod_cancel) simp
  finally show ?thesis .
qed

lemma smod_in_i64:
  assumes "r \<noteq> 0"
  shows "wrap_i64 (sint (l :: i64) smod sint (r :: i64)) = sint l smod sint r"
proof (rule wrap_i64_id)
  let ?l = "sint l" and ?r = "sint r"
  have r: "0 < \<bar>?r\<bar>" "\<bar>?r\<bar> \<le> 2 ^ 63"
    using assms sint_eq_0 [of r] sint_in_i64 [of r] by (auto simp: in_i64_def)
  have "\<bar>?l\<bar> mod \<bar>?r\<bar> < 2 ^ 63"
    by (rule less_le_trans [OF pos_mod_bound [OF r(1)] r(2)])
  moreover have "0 \<le> \<bar>?l\<bar> mod \<bar>?r\<bar>" using r(1) by simp
  ultimately show "in_i64 (?l smod ?r)"
    by (auto simp: in_i64_def smod_int_alt_def sgn_if)
qed

lemma sint_shl: "sint (push_bit n w :: i64) = wrap_i64 (sint w * 2 ^ n)"
proof -
  have "push_bit n w = word_of_int (sint w * 2 ^ n)" by (simp add: push_bit_eq_mult)
  then show ?thesis by (simp only: sint_word_of_int)
qed

lemma sint_not: "sint (NOT v :: i64) = - sint v - 1"
proof -
  have "NOT v = word_of_int (- sint v - 1)" by (simp add: not_eq_complement)
  moreover have "in_i64 (- sint v - 1)" using sint_in_i64 [of v] by (simp add: in_i64_def)
  ultimately show ?thesis by (simp only: sint_word_of_int wrap_i64_id)
qed

lemma unary_result_meaning: "sint (unary_result op v) = unary_meaning op (sint v)"
  by (cases op) (simp_all add: unary_result_def unary_meaning_def sint_neg sint_bool sint_eq_0
      sint_not)

lemma binary_result_meaning:
  "op \<noteq> LogicalAnd \<Longrightarrow> op \<noteq> LogicalOr \<Longrightarrow>
   (case binary_result op l r of Inl e \<Rightarrow> Inl e | Inr w \<Rightarrow> Inr (sint w)) = binary_meaning op (sint l) (sint r)"
  by (cases op)
    (simp_all add: binary_result_def binary_meaning_def sint_add sint_sub sint_mul sint_bool
      wrapping_pow_u64_def wrapping_pow_loop_power sint_pow sint_eq_0 unat_sint sint_word_of_int
      smod_in_i64 sint_shl shift_distance_mod sint_signed_drop_bit_eq drop_bit_eq_div
      signed_and_eq signed_or_eq signed_xor_eq not_le sint_inject)
text \<open>Expressions without variables, and their meaning.\<close>

fun closed_expr :: "arith \<Rightarrow> bool" where
  "closed_expr (Literal l) = True"
| "closed_expr (UnaryOp op e) = closed_expr e"
| "closed_expr (BinaryOp op l r) = (closed_expr l \<and> closed_expr r)"
| "closed_expr (Conditional c t f) = (closed_expr c \<and> closed_expr t \<and> closed_expr f)"
| "closed_expr _ = False"

definition decides :: "binary_operator \<Rightarrow> int \<Rightarrow> bool" where
  "decides op l = (op = LogicalAnd \<and> l = 0 \<or> op = LogicalOr \<and> l \<noteq> 0)"

fun meaning :: "arith \<Rightarrow> eval_error + int" where
  "meaning (Literal l) = Inr (sint l)"
| "meaning (UnaryOp op e) =
     (case meaning e of Inl err \<Rightarrow> Inl err | Inr v \<Rightarrow> Inr (unary_meaning op v))"
| "meaning (BinaryOp op l r) =
     (case meaning l of
        Inl err \<Rightarrow> Inl err
      | Inr v \<Rightarrow>
          if decides op v then Inr (truth (v \<noteq> 0))
          else (case meaning r of Inl err \<Rightarrow> Inl err | Inr w \<Rightarrow> binary_meaning op v w))"
| "meaning (Conditional c t f) =
     (case meaning c of Inl err \<Rightarrow> Inl err | Inr v \<Rightarrow> if v \<noteq> 0 then meaning t else meaning f)"

text \<open>A result of the evaluator that is a given result on integers and leaves the environment.\<close>

definition gives :: "i64 eval \<Rightarrow> environment \<Rightarrow> eval_error + int \<Rightarrow> bool" where
  "gives r e m \<longleftrightarrow>
     (case m of Inl err \<Rightarrow> r = (e, Inl err) | Inr v \<Rightarrow> (\<exists>w. r = (e, Inr w) \<and> sint w = v))"

lemma gives_Inl [simp]: "gives r e (Inl err) \<longleftrightarrow> r = (e, Inl err)"
  and gives_Inr: "gives r e (Inr v) \<longleftrightarrow> (\<exists>w. r = (e, Inr w) \<and> sint w = v)"
  by (simp_all add: gives_def)

lemma gives_then:
  assumes "gives r e m"
    and "\<And>w. m = Inr (sint w) \<Longrightarrow> gives (f w e) e (k (sint w))"
  shows "gives (eval_then r f) e (case m of Inl err \<Rightarrow> Inl err | Inr v \<Rightarrow> k v)"
proof (cases m)
  case (Inl err)
  then show ?thesis using assms(1) by (simp add: eval_then_def)
next
  case (Inr v)
  then obtain w where "r = (e, Inr w)" "sint w = v" using assms(1) by (auto simp: gives_Inr)
  then show ?thesis using assms(2) [of w] Inr by (simp add: eval_then_def)
qed

lemma gives_value: "gives (e, Inr w) e (Inr v) \<longleftrightarrow> sint w = v"
  by (simp add: gives_Inr)

lemma gives_logical:
  assumes "gives (eval_expr_impl c d r e) e (meaning r)"
  shows "gives (eval_then (eval_expr_impl c d r e) (\<lambda>right e. (e, Inr (bool_to_i64 (right \<noteq> 0))))) e
           (case meaning r of Inl err \<Rightarrow> Inl err | Inr w \<Rightarrow> Inr (truth (w \<noteq> 0)))"
  by (rule gives_then [OF assms]) (simp add: gives_value sint_bool sint_eq_0)

lemma gives_binary:
  assumes l: "gives (eval_expr_impl c d l e) e (meaning l)"
    and r: "gives (eval_expr_impl c d r e) e (meaning r)"
  shows "gives (apply_binary_op c d op l r e) e (meaning (BinaryOp op l r))"
proof -
  consider (land) "op = LogicalAnd" | (lor) "op = LogicalOr"
    | (other) "op \<noteq> LogicalAnd" "op \<noteq> LogicalOr" by blast
  then show ?thesis
  proof cases
    case land
    have "gives (if w = 0 then (e, Inr (bool_to_i64 False)) else eval_then (eval_expr_impl c d r e)
            (\<lambda>right e. (e, Inr (bool_to_i64 (right \<noteq> 0))))) e
        (if decides LogicalAnd (sint w) then Inr (truth (sint w \<noteq> 0))
         else (case meaning r of Inl err \<Rightarrow> Inl err
               | Inr v \<Rightarrow> binary_meaning LogicalAnd (sint w) v))" for w :: i64
    proof (cases "w = 0")
      case False
      then have "sint w \<noteq> 0" by (simp add: sint_eq_0)
      then show ?thesis
        using False gives_logical [OF r] by (simp add: decides_def binary_meaning_def cong: sum.case_cong)
    qed (simp add: decides_def gives_value sint_bool)
    then show ?thesis
      unfolding meaning.simps apply_binary_op.simps land binary_operator.simps
      by (rule gives_then [OF l])
  next
    case lor
    have "gives (if w \<noteq> 0 then (e, Inr (bool_to_i64 True)) else eval_then (eval_expr_impl c d r e)
            (\<lambda>right e. (e, Inr (bool_to_i64 (right \<noteq> 0))))) e
        (if decides LogicalOr (sint w) then Inr (truth (sint w \<noteq> 0))
         else (case meaning r of Inl err \<Rightarrow> Inl err
               | Inr v \<Rightarrow> binary_meaning LogicalOr (sint w) v))" for w :: i64
    proof (cases "w = 0")
      case True
      then show ?thesis
        using gives_logical [OF r] by (simp add: decides_def binary_meaning_def cong: sum.case_cong)
    qed (simp add: decides_def gives_value sint_bool sint_eq_0)
    then show ?thesis
      unfolding meaning.simps apply_binary_op.simps lor binary_operator.simps
      by (rule gives_then [OF l])
  next
    case other
    have res: "gives (e, binary_result op v w) e (binary_meaning op (sint v) (sint w))" for v w
      using binary_result_meaning [OF other, of v w, symmetric]
      by (cases "binary_result op v w") (simp_all add: gives_Inr)
    have step: "gives (eval_then (eval_expr_impl c d r e) (\<lambda>right e. (e, binary_result op v right))) e
        (if decides op (sint v) then Inr (truth (sint v \<noteq> 0))
         else (case meaning r of Inl err \<Rightarrow> Inl err | Inr w \<Rightarrow> binary_meaning op (sint v) w))" for v
      using gives_then [OF r, of "\<lambda>right e. (e, binary_result op v right)", OF res] other
      by (simp add: decides_def)
    have eq: "apply_binary_op c d op l r e = eval_then (eval_expr_impl c d l e)
        (\<lambda>left e. eval_then (eval_expr_impl c d r e) (\<lambda>right e. (e, binary_result op left right)))"
      using other unfolding apply_binary_op.simps by (cases op) simp_all
    show ?thesis
      unfolding eq meaning.simps by (rule gives_then [OF l]) (rule step)
  qed
qed

lemma eval_closed: "closed_expr ex \<Longrightarrow> gives (eval_expr_impl c d ex e) e (meaning ex)"
proof (induction ex rule: closed_expr.induct)
  case (1 l)
  show ?case by (simp add: gives_value)
next
  case (2 op ex)
  then have "gives (eval_expr_impl c d ex e) e (meaning ex)" by simp
  from gives_then [OF this, of "\<lambda>v e. (e, Inr (unary_result op v))" "\<lambda>v. Inr (unary_meaning op v)"]
  show ?case by (simp add: apply_unary_op.simps gives_value unary_result_meaning)
next
  case (3 op l r)
  then show ?case by (simp add: gives_binary del: meaning.simps)
next
  case (4 cond t f)
  then have "gives (eval_expr_impl c d cond e) e (meaning cond)" by simp
  from gives_then [OF this, of "\<lambda>v e. if v \<noteq> 0 then eval_expr_impl c d t e else eval_expr_impl c d f e"
      "\<lambda>v. if v \<noteq> 0 then meaning t else meaning f"] 4
  show ?case by (simp add: sint_eq_0)
qed simp_all

section \<open>Properties\<close>

text \<open>C18. An expression without variables evaluates to its mathematical meaning in the range of an
  \<^verbatim>\<open>i64\<close>, with its error where it has one, and changes nothing.\<close>

theorem arith_closed_exact:
  assumes "closed_expr ex"
  shows "case meaning ex of
      Inl err \<Rightarrow> arith_eval c ex e = (e, Inl err)
    | Inr v \<Rightarrow> (\<exists>w. arith_eval c ex e = (e, Inr w) \<and> sint w = v)"
  using eval_closed [OF assms] unfolding arith_eval_def gives_def by auto

theorem arith_closed_exact_witness:
  "closed_expr (BinaryOp Divide (BinaryOp Subtract (Literal 3) (Literal 10)) (Literal 2))
   \<and> (\<forall>c e. arith_eval c (BinaryOp Divide (BinaryOp Subtract (Literal 3) (Literal 10)) (Literal 2)) e
      = (e, Inr (- 3)))"
proof
  let ?x = "BinaryOp Divide (BinaryOp Subtract (Literal 3) (Literal 10)) (Literal 2)"
  show x: "closed_expr ?x" by simp
  show "\<forall>c e. arith_eval c ?x e = (e, Inr (- 3))"
  proof (intro allI)
    fix c e
    have "meaning ?x = Inr (- 3)"
      by (simp add: decides_def binary_meaning_def wrap_i64_def signed_divide_int_def)
    then obtain w where w: "arith_eval c ?x e = (e, Inr w)" "sint w = - 3"
      using arith_closed_exact [OF x, of c e] by auto
    have "sint (- 3 :: i64) = - 3" by simp
    with w(2) have "w = - 3" using sint_inject [of w "- 3"] by simp
    with w(1) show "arith_eval c ?x e = (e, Inr (- 3))" by simp
  qed
qed

text \<open>The loop over the bits of the exponent computes the power modulo \<^verbatim>\<open>2^64\<close>, for every
  exponent.\<close>

theorem wrapping_pow_exact: "wrapping_pow_u64 base n = base ^ n"
  by (simp add: wrapping_pow_u64_def wrapping_pow_loop_power)

text \<open>An expression without assignment operators.\<close>

fun reads_only :: "arith \<Rightarrow> bool" and reads_only_target :: "arith_target \<Rightarrow> bool" where
  "reads_only (Literal l) = True"
| "reads_only (Reference lv) = reads_only_target lv"
| "reads_only (UnaryOp op e) = reads_only e"
| "reads_only (BinaryOp op l r) = (reads_only l \<and> reads_only r)"
| "reads_only (Conditional c t f) = (reads_only c \<and> reads_only t \<and> reads_only f)"
| "reads_only (Assignment lv r) = False"
| "reads_only (BinaryAssignment op lv r) = False"
| "reads_only (UnaryAssignment op lv) = False"
| "reads_only_target (Variable n) = True"
| "reads_only_target (ArrayElement n i) = reads_only i"

lemma eval_then_keeps:
  "fst r = e \<Longrightarrow> (\<And>x. fst (f x e) = e) \<Longrightarrow> fst (eval_then r f) = e"
  by (cases r; cases "snd r") (auto simp: eval_then_def)

lemma eval_reads:
  assumes p: "\<And>s ex. ac_parse c s = Inr ex \<Longrightarrow> reads_only ex"
  shows "reads_only ex \<Longrightarrow> fst (eval_expr_impl c d ex e) = e"
    and "reads_only_target lv \<Longrightarrow> fst (deref_lvalue c d lv e) = e"
    and "reads_only ex \<Longrightarrow> fst (apply_unary_op c d op ex e) = e"
    and "reads_only l \<Longrightarrow> reads_only r \<Longrightarrow> fst (apply_binary_op c d bop l r e) = e"
    and "False \<Longrightarrow> fst (apply_unary_assignment_op c d uop lv e) = e"
    and "False \<Longrightarrow> fst (assign_target c d lv v e) = e"
  using p
proof (induction c d ex e and c d lv e and c d op ex e and c d bop l r e and c d uop lv e
    and c d lv v e
    rule: eval_expr_impl_deref_lvalue_apply_unary_op_apply_binary_op_apply_unary_assignment_op_assign_target.induct)
  case (9 c d lv e)
  have "fst (case lv of
          Variable name \<Rightarrow> (e, get_var_value c e name)
        | ArrayElement name index_expr \<Rightarrow>
            eval_then (eval_expr_impl c d index_expr e)
              (\<lambda>i e. (e, get_element c e name (i64_text i)))) = e"
    using 9 by (cases lv) (auto intro: eval_then_keeps)
  then show ?case
    unfolding deref_lvalue.simps
  proof (rule eval_then_keeps)
    fix s
    show "fst (case ac_parse c s of
            Inl _ \<Rightarrow> (e, Inl (ParseError s))
          | Inr (Literal l) \<Rightarrow> (e, Inr l)
          | Inr parsed_value \<Rightarrow>
              if MAX_VARIABLE_DEREF_DEPTH < d + 1 then (e, Inl RecursionLimitExceeded)
              else eval_expr_impl c (d + 1) parsed_value e) = e"
    proof (cases "ac_parse c s")
      case (Inr ex)
      then have "reads_only ex" by (rule "9.prems"(2))
      with Inr 9 show ?thesis by (cases ex) auto
    qed simp
  qed
next
  case (11 c d op l r e)
  then show ?case by (cases op) (auto simp: apply_binary_op.simps intro!: eval_then_keeps)
qed (auto simp: apply_unary_op.simps intro!: eval_then_keeps)

text \<open>An expression without assignment operators leaves every variable as it was, also where the
  texts of the variables it reads are evaluated in turn, if none of these assigns.\<close>

theorem reading_keeps:
  assumes "reads_only ex" "\<And>s x. ac_parse c s = Inr x \<Longrightarrow> reads_only x"
  shows "fst (arith_eval c ex e) = e"
  unfolding arith_eval_def by (rule eval_reads(1) [OF assms(2) assms(1)])

text \<open>Variables that name one another in a circle.\<close>

definition names_next ::
  "arith_context \<Rightarrow> environment \<Rightarrow> (string \<Rightarrow> string) \<Rightarrow> string \<Rightarrow> bool" where
  "names_next c e nxt n \<longleftrightarrow>
     (\<exists>s. get_var_value c e n = Inr s \<and> ac_parse c s = Inr (Reference (Variable (nxt n))))"

lemma circle_step:
  assumes "names_next c e nxt n"
  shows "deref_lvalue c d (Variable n) e =
    (if MAX_VARIABLE_DEREF_DEPTH < d + 1 then (e, Inl RecursionLimitExceeded)
     else deref_lvalue c (d + 1) (Variable (nxt n)) e)"
  using assms by (subst deref_lvalue.simps) (auto simp: names_next_def eval_then_def)

lemma circle_ends:
  assumes "\<And>n. n \<in> S \<Longrightarrow> names_next c e nxt n \<and> nxt n \<in> S"
  shows "n \<in> S \<Longrightarrow> deref_lvalue c d (Variable n) e = (e, Inl RecursionLimitExceeded)"
proof (induction "1024 - d" arbitrary: d n)
  case 0
  then show ?case
    using assms [of n] circle_step [of c e nxt n d] by (simp add: MAX_VARIABLE_DEREF_DEPTH_def)
next
  case (Suc k)
  then have "deref_lvalue c (d + 1) (Variable (nxt n)) e = (e, Inl RecursionLimitExceeded)"
    using assms by simp
  then show ?case
    using assms [OF Suc.prems] circle_step [of c e nxt n d] by simp
qed

text \<open>Variables that name one another in a circle end the evaluation with the recursion error,
  and nothing has changed: the limit on dereferences is what ends it.\<close>

theorem circular_reference_reported:
  assumes "\<And>n. n \<in> S \<Longrightarrow> names_next c e nxt n \<and> nxt n \<in> S" "n \<in> S"
  shows "arith_eval c (Reference (Variable n)) e = (e, Inl RecursionLimitExceeded)"
  using circle_ends [OF assms] by (simp add: arith_eval_def)

definition number_parser :: "string \<Rightarrow> unit + arith" where
  "number_parser s =
     (if s = [] then Inr (Literal 0)
      else (case parse_i64 s of
              Some n \<Rightarrow> Inr (Literal (word_of_int n))
            | None \<Rightarrow> if valid_variable_name s then Inr (Reference (Variable s)) else Inl ()))"

definition number_context :: arith_context where
  "number_context = \<lparr> ac_parse = number_parser, ac_casing = \<lparr> cs_lower = id, cs_upper = id \<rparr>,
     ac_dynamic = (\<lambda>e d. Unset Untyped), ac_nounset = False \<rparr>"

definition circle_env :: environment where
  "circle_env = env_new\<lparr>e_scopes := [(Global,
     [''a'' \<mapsto> variable_new (Scalar_Value ''b''), ''b'' \<mapsto> variable_new (Scalar_Value ''a'')])]\<rparr>"

theorem circular_reference_reported_witness:
  "arith_eval number_context (Reference (Variable ''a'')) circle_env
     = (circle_env, Inl RecursionLimitExceeded)"
proof (rule circular_reference_reported
    [where S = "{''a'', ''b''}" and nxt = "\<lambda>n. if n = ''a'' then ''b'' else ''a''"])
  fix n :: string
  assume "n \<in> {''a'', ''b''}"
  then show "names_next number_context circle_env (\<lambda>n. if n = ''a'' then ''b'' else ''a'') n
      \<and> (if n = ''a'' then ''b'' else ''a'') \<in> {''a'', ''b''}"
    by (auto simp: names_next_def get_var_value_def circle_env_def env_new_def env_get_def
        variable_new_def resolve_value_def text_of_def number_context_def number_parser_def
        parse_i64_def parse_digits_def is_digit_def in_range_def valid_variable_name_def)
qed simp
theorem reading_keeps_witness:
  "reads_only (Reference (Variable ''a''))
   \<and> fst (arith_eval number_context (Reference (Variable ''a'')) circle_env) = circle_env"
proof
  show r: "reads_only (Reference (Variable ''a''))" by simp
  show "fst (arith_eval number_context (Reference (Variable ''a'')) circle_env) = circle_env"
    by (rule reading_keeps [OF r])
      (auto simp: number_context_def number_parser_def split: if_splits option.splits)
qed

definition subscript_env :: environment where
  "subscript_env = env_new\<lparr>e_scopes := [(Global,
     [''i'' \<mapsto> variable_new (Scalar_Value ''0''),
      ''a'' \<mapsto> variable_new (IndexedArray [(0, ''5''), (1, ''9'')])])]\<rparr>"

text \<open>\<^verbatim>\<open>a[i++]++\<close> evaluates its subscript once to read and once more to write: it reads one element,
  writes another, and the counter moves by two.\<close>

theorem subscript_evaluated_twice:
  "case arith_eval number_context
       (UnaryAssignment PostfixIncrement
          (ArrayElement ''a'' (UnaryAssignment PostfixIncrement (Variable ''i'')))) subscript_env of
     (e, r) \<Rightarrow> r = Inr 5 \<and> get_element number_context e ''a'' ''0'' = Inr ''5''
       \<and> get_element number_context e ''a'' ''1'' = Inr ''6''
       \<and> get_var_value number_context e ''i'' = Inr ''2''"
proof -
  have d: "char_of (53 :: nat) = CHR ''5''" "char_of (54 :: nat) = CHR ''6''"
    "char_of (48 :: nat) = CHR ''0''" "char_of (49 :: nat) = CHR ''1''" "char_of (50 :: nat) = CHR ''2''"
    by code_simp+
  note env = subscript_env_def env_new_def env_get_def variable_new_def get_var_value_def
    resolve_value_def text_of_def number_context_def number_parser_def parse_i64_def
    parse_digits_def is_digit_def in_range_def get_element_def get_key_for_indexed_array_def
    int_of_text_def in_i64_def
  note ev = arith_eval_def apply_unary_assignment_op.simps deref_lvalue.simps assign_target.simps
    eval_then_def
  note asg = assign_variable_def assign_element_def update_or_add_def update_or_add_array_element_def
    update_found_def set_in_scope_def export_var_def and_then_def assign_def assign_at_index_def
    assign_scalar_def convert_str_def apply_transforms_def element_value_def old_at_def
    considered_def i64_text_def show_int_def decimal.simps bt_insert.simps
  show ?thesis
    by (simp add: env ev asg d Let_def)
qed

section \<open>Literals\<close>

text \<open>A number written in a base.\<close>

definition digit_char :: "nat \<Rightarrow> char" where
  "digit_char d =
     char_of (if d < 10 then 48 + d else if d < 36 then 87 + d else if d < 62 then 29 + d
              else if d = 62 then 64 else 95 :: nat)"

function in_base :: "nat \<Rightarrow> nat \<Rightarrow> string" where
  "in_base r n = (if n < r \<or> r < 2 then [digit_char n] else in_base r (n div r) @ [digit_char (n mod r)])"
  by pat_completeness auto
termination
  by (relation "measure snd") auto

declare in_base.simps [simp del]

lemma digit_val_char:
  assumes "d < r" "r \<le> 64"
  shows "digit_val r (digit_char d) = Some d"
proof -
  have at: "char_of (64 :: nat) = CHR ''@''" "char_of (95 :: nat) = CHR ''_''" by code_simp+
  consider "d < 10" | "10 \<le> d" "d < 36" | "36 \<le> d" "d < 62" | "d = 62" | "d = 63"
    using assms by linarith
  then show ?thesis
    using assms at by cases (auto simp: digit_val_def digit_char_def in_range_def)
qed

lemma literal_digits_snoc:
  "literal_digits r acc s = Inr v \<Longrightarrow> d < r \<Longrightarrow> r \<le> 64 \<Longrightarrow>
   literal_digits r acc (s @ [digit_char d]) = Inr (v * of_nat r + of_nat d)"
  by (induction r acc s rule: literal_digits.induct)
    (auto simp: digit_val_char split: option.splits if_splits)

lemma literal_digits_in_base:
  "2 \<le> r \<Longrightarrow> r \<le> 64 \<Longrightarrow> literal_digits r 0 (in_base r n) = Inr (of_nat n)"
proof (induction r n rule: in_base.induct)
  case (1 r n)
  show ?case
  proof (cases "n < r")
    case True
    then show ?thesis using 1 by (simp add: in_base.simps [of r n] digit_val_char)
  next
    case False
    have n: "(of_nat n :: i64) = of_nat (n div r) * of_nat r + of_nat (n mod r)"
      by (metis div_mult_mod_eq of_nat_add of_nat_mult)
    have "literal_digits r 0 (in_base r (n div r)) = Inr (of_nat (n div r))"
      using 1 False by simp
    from literal_digits_snoc [OF this, of "n mod r"] 1 False n show ?thesis
      by (simp add: in_base.simps [of r n])
  qed
qed

text \<open>In every base from 2 to 64, reading a number written in that base gives the number back
  modulo \<^verbatim>\<open>2^64\<close>; no other base is accepted.\<close>

theorem literal_base_roundtrip:
  "parse_shell_literal_number (in_base r n) r =
     (if 2 \<le> r \<and> r \<le> 64 then Inr (of_nat n) else Inl ''invalid base'')"
  by (simp add: parse_shell_literal_number_def literal_digits_in_base)

text \<open>The printed text carries no parentheses, so the trace of a product of a sum shows another
  expression.\<close>

theorem trace_text_ambiguous:
  "arith_text (BinaryOp Multiply (BinaryOp Add (Literal a) (Literal b)) (Literal c))
     = arith_text (BinaryOp Add (Literal a) (BinaryOp Multiply (Literal b) (Literal c)))"
  by simp

end
