(* ===== verification/Walk.thy ===== *)
theory Walk
  imports Ambient "HOL-Library.Sorting_Algorithms"
begin

text \<open>
  The recursive walk (\<^verbatim>\<open>brush-vfs/src/walk.rs\<close>): the builder's options, the iterator with its stack
  of open directories, and \<^verbatim>\<open>ambient::walk\<close>.

  \<^verbatim>\<open>next\<close> is split at the back edge of its loop: \<open>walk_turn\<close> is one pass, which returns an item or
  goes round again, and \<open>walk_next\<close> goes round until an item is returned. A host may have
  directories without end, so \<open>walk_next\<close> is partial. The stacks are kept with their top first.
  An error of the walk is a value of its own type, so walking code is effectful code whose
  \<^verbatim>\<open>io\<close> part never fails.
\<close>

section \<open>Entries and errors\<close>

record walk_entry =
  we_path :: virtual_path
  we_display :: string
  we_name :: string
  we_depth :: nat
  we_metadata :: metadata
  we_is_symlink :: bool
  we_followed :: bool

definition path_is_symlink :: "walk_entry \<Rightarrow> bool" where
  "path_is_symlink e = (we_is_symlink e \<or> we_followed e)"

datatype walk_error_kind = WalkIo io_error | WalkLoop string

record walk_error =
  wx_depth :: nat
  wx_path :: "string option"
  wx_kind :: walk_error_kind

definition error_io :: "nat \<Rightarrow> string option \<Rightarrow> io_error \<Rightarrow> walk_error" where
  "error_io depth path e = \<lparr> wx_depth = depth, wx_path = path, wx_kind = WalkIo e \<rparr>"

definition error_symlink_loop :: "nat \<Rightarrow> string \<Rightarrow> string \<Rightarrow> walk_error" where
  "error_symlink_loop depth ancestor child =
     \<lparr> wx_depth = depth, wx_path = Some child, wx_kind = WalkLoop ancestor \<rparr>"

definition walk_io_error :: "walk_error \<Rightarrow> io_error option" where
  "walk_io_error e = (case wx_kind e of WalkIo x \<Rightarrow> Some x | WalkLoop a \<Rightarrow> None)"

definition loop_ancestor :: "walk_error \<Rightarrow> string option" where
  "loop_ancestor e = (case wx_kind e of WalkIo x \<Rightarrow> None | WalkLoop a \<Rightarrow> Some a)"

text \<open>\<^verbatim>\<open>From<Error> for std::io::Error\<close>.\<close>

definition walk_error_to_io :: "walk_error \<Rightarrow> io_error" where
  "walk_error_to_io e =
     (case wx_kind e of WalkIo x \<Rightarrow> x | WalkLoop a \<Rightarrow> Custom OtherKind (Text SYMLINK_LOOP_MESSAGE))"

type_synonym walk_item = "walk_error + walk_entry"

section \<open>Options\<close>

record walk_options =
  wo_min_depth :: nat
  wo_max_depth :: nat
  wo_follow_links :: bool
  wo_follow_root_links :: bool
  wo_same_file_system :: bool
  wo_contents_first :: bool
  wo_sorter :: "walk_entry comparator option"

definition options_default :: walk_options where
  "options_default = \<lparr> wo_min_depth = 0, wo_max_depth = 2 ^ 64 - 1, wo_follow_links = False,
     wo_follow_root_links = True, wo_same_file_system = False, wo_contents_first = False,
     wo_sorter = None \<rparr>"

record walk =
  wk_vfs :: "mount_table option"
  wk_root :: "virtual_path option"
  wk_display :: "string option"
  wk_deferred :: "io_error option"
  wk_opts :: walk_options

definition walk_rooted :: "mount_table \<Rightarrow> virtual_path \<Rightarrow> string \<Rightarrow> walk" where
  "walk_rooted t p display = \<lparr> wk_vfs = Some t, wk_root = Some p, wk_display = Some display,
     wk_deferred = None, wk_opts = options_default \<rparr>"

definition walk_failed :: "io_error \<Rightarrow> walk" where
  "walk_failed e = \<lparr> wk_vfs = None, wk_root = None, wk_display = None, wk_deferred = Some e,
     wk_opts = options_default \<rparr>"

definition set_min_depth :: "nat \<Rightarrow> walk_options \<Rightarrow> walk_options" where
  "set_min_depth depth opts =
     (let o' = opts\<lparr>wo_min_depth := depth\<rparr> in
      if wo_max_depth o' < wo_min_depth o' then o'\<lparr>wo_min_depth := wo_max_depth o'\<rparr> else o')"

definition set_max_depth :: "nat \<Rightarrow> walk_options \<Rightarrow> walk_options" where
  "set_max_depth depth opts =
     (let o' = opts\<lparr>wo_max_depth := depth\<rparr> in
      if wo_max_depth o' < wo_min_depth o' then o'\<lparr>wo_max_depth := wo_min_depth o'\<rparr> else o')"

definition ambient_walk :: "unicode \<Rightarrow> session option \<Rightarrow> string \<Rightarrow> walk" where
  "ambient_walk u st path =
     (case current st of
        Inl e \<Rightarrow> walk_failed no_session
      | Inr s \<Rightarrow>
          (case ambient_resolve u s path of
             Inr p \<Rightarrow> walk_rooted (s_vfs s) p path
           | Inl e \<Rightarrow> walk_failed e))"

section \<open>The iterator\<close>

record frame =
  fr_dir :: dir_cap
  fr_path :: virtual_path
  fr_display :: string
  fr_entries :: "string list"
  fr_identity :: "file_identity option"

record walk_iter =
  wi_vfs :: "mount_table option"
  wi_start :: "(virtual_path \<times> string) option"
  wi_deferred :: "io_error option"
  wi_opts :: walk_options
  wi_stack :: "frame list"
  wi_deferred_dirs :: "walk_entry list"
  wi_depth :: nat
  wi_root_device :: "u64 option"
  wi_done :: bool

definition into_iter :: "walk \<Rightarrow> walk_iter" where
  "into_iter k =
     \<lparr> wi_vfs = wk_vfs k,
       wi_start = (case (wk_root k, wk_display k) of (Some p, Some d) \<Rightarrow> Some (p, d) | _ \<Rightarrow> None),
       wi_deferred = wk_deferred k, wi_opts = wk_opts k, wi_stack = [], wi_deferred_dirs = [],
       wi_depth = 0, wi_root_device = None, wi_done = False \<rparr>"

definition walk_pop :: "walk_iter \<Rightarrow> walk_iter" where
  "walk_pop it = it\<lparr>wi_stack := tl (wi_stack it)\<rparr>"

definition skip_current_dir :: "walk_iter \<Rightarrow> walk_iter" where
  "skip_current_dir it = (if wi_stack it \<noteq> [] then walk_pop it else it)"

definition skippable :: "walk_iter \<Rightarrow> bool" where
  "skippable it =
     (wi_depth it < wo_min_depth (wi_opts it) \<or> wo_max_depth (wi_opts it) < wi_depth it)"

definition get_deferred_dir :: "walk_iter \<Rightarrow> walk_iter \<times> walk_entry option" where
  "get_deferred_dir it =
     (if wo_contents_first (wi_opts it) \<and> wi_depth it < length (wi_deferred_dirs it)
      then (it\<lparr>wi_deferred_dirs := tl (wi_deferred_dirs it)\<rparr>,
            if skippable it then None else Some (hd (wi_deferred_dirs it)))
      else (it, None))"

text \<open>A call whose error becomes an error of the walk, and \<^verbatim>\<open>?\<close> on such calls.\<close>

definition or_walk_error ::
  "nat \<Rightarrow> string \<Rightarrow> ('w, 'a) io \<Rightarrow> ('w, walk_error + 'a) io" where
  "or_walk_error depth path m =
     try_then (attempt m)
       (\<lambda>r. ok (case r of Inl e \<Rightarrow> Inl (error_io depth (Some path) e) | Inr x \<Rightarrow> Inr x))"

definition walk_then ::
  "('w, walk_error + 'a) io \<Rightarrow> ('a \<Rightarrow> ('w, walk_error + 'b) io) \<Rightarrow> ('w, walk_error + 'b) io" where
  "walk_then m f = try_then m (\<lambda>r. case r of Inl e \<Rightarrow> ok (Inl e) | Inr x \<Rightarrow> f x)"

text \<open>\<^verbatim>\<open>Path::join\<close> with one component, on the caller's spelling.\<close>

definition path_join :: "string \<Rightarrow> string \<Rightarrow> string" where
  "path_join base name =
     (if starts_with_char CHR ''/'' name then name
      else if base = [] \<or> ends_with_char CHR ''/'' base then base @ name
      else base @ ''/'' @ name)"

definition root_entry ::
  "'w host \<Rightarrow> unicode \<Rightarrow> mount_table \<Rightarrow> virtual_path \<Rightarrow> string \<Rightarrow> ('w, walk_item) io" where
  "root_entry H u t p display =
     walk_then (or_walk_error 0 display (vfs_symlink_metadata H u t p))
       (\<lambda>md. ok (Inr \<lparr> we_path = p, we_display = display,
          we_name = last (split_on CHR ''/'' (inner p)), we_depth = 0, we_metadata = md,
          we_is_symlink = (md_type md = SymbolicLink), we_followed = False \<rparr>))"

definition child_entry ::
  "'w host \<Rightarrow> unicode \<Rightarrow> walk_iter \<Rightarrow> string \<Rightarrow> ('w, walk_item) io" where
  "child_entry H u it name =
     (case wi_stack it of
        [] \<Rightarrow> ok (Inl (error_io (wi_depth it) None
                (Custom OtherKind (Text ''BUG: child entry with no open directory''))))
      | frame # rest \<Rightarrow>
          (case resolve u (fr_path frame) name of
             Inl e \<Rightarrow> ok (Inl (error_io (wi_depth it) (Some (fr_display frame))
                        (Custom OtherKind (PathMessage e))))
           | Inr path \<Rightarrow>
               (let display = path_join (fr_display frame) name in
                walk_then (or_walk_error (wi_depth it) display
                    (dir_symlink_metadata H (fr_dir frame) name))
                  (\<lambda>md. ok (Inr \<lparr> we_path = path, we_display = display, we_name = name,
                     we_depth = wi_depth it, we_metadata = md,
                     we_is_symlink = (md_type md = SymbolicLink), we_followed = False \<rparr>)))))"

definition follow_entry ::
  "'w host \<Rightarrow> unicode \<Rightarrow> mount_table \<Rightarrow> walk_entry \<Rightarrow> ('w, walk_item) io" where
  "follow_entry H u t e =
     walk_then (or_walk_error (we_depth e) (we_display e) (vfs_metadata H u t (we_path e)))
       (\<lambda>md. ok (Inr (e\<lparr>we_metadata := md, we_is_symlink := False, we_followed := True\<rparr>)))"

definition open_child ::
  "'w host \<Rightarrow> unicode \<Rightarrow> mount_table \<Rightarrow> walk_iter \<Rightarrow> walk_entry \<Rightarrow> ('w, walk_error + dir_cap) io" where
  "open_child H u t it e =
     or_walk_error (we_depth e) (we_display e)
       (case (if we_followed e then [] else wi_stack it) of
          frame # rest \<Rightarrow> dir_open_dir H (fr_dir frame) (we_name e)
        | [] \<Rightarrow> vfs_open_dir H u t (we_path e))"

text \<open>Sorting compares entries that know only their name and depth; the rest is the directory's.\<close>

definition sort_entries :: "walk_entry comparator option \<Rightarrow> walk_entry \<Rightarrow> string list \<Rightarrow> string list" where
  "sort_entries sorter e names =
     (case sorter of
        None \<Rightarrow> names
      | Some cmp \<Rightarrow>
          map fst (Sorting_Algorithms.sort (key snd cmp)
            (map (\<lambda>name. (name, \<lparr> we_path = we_path e, we_display = name, we_name = name,
               we_depth = we_depth e + 1, we_metadata = we_metadata e, we_is_symlink = False,
               we_followed = False \<rparr>)) names)))"

definition walk_push ::
  "'w host \<Rightarrow> unicode \<Rightarrow> mount_table \<Rightarrow> walk_iter \<Rightarrow> walk_entry \<Rightarrow>
   ('w, walk_iter \<times> (walk_error + unit)) io" where
  "walk_push H u t it e =
     (let opts = wi_opts it; stop = (\<lambda>it err. ok (it, Inl err)) in
      try_then (open_child H u t it e) (\<lambda>opened. case opened of Inl err \<Rightarrow> stop it err | Inr dir \<Rightarrow>
      try_then
        (if wo_follow_links opts \<or> wo_same_file_system opts
         then walk_then (or_walk_error (we_depth e) (we_display e) (dir_identity H dir))
                (\<lambda>i. ok (Inr (Some i)))
         else ok (Inr None))
        (\<lambda>identified. case identified of Inl err \<Rightarrow> stop it err | Inr identity \<Rightarrow>
          let it' = (if we_depth e = 0 then it\<lparr>wi_root_device := map_option fi_device identity\<rparr> else it)
          in
          if we_depth e \<noteq> 0 \<and> wo_same_file_system opts \<and>
             (case (identity, wi_root_device it') of
                (Some i, Some dev) \<Rightarrow> fi_device i \<noteq> dev | _ \<Rightarrow> False)
          then ok (it', Inr ())
          else
            (case (if we_followed e \<and> identity \<noteq> None
                   then List.find (\<lambda>f. fr_identity f = identity) (wi_stack it') else None) of
               Some ancestor \<Rightarrow>
                 stop it' (error_symlink_loop (we_depth e) (fr_display ancestor) (we_display e))
             | None \<Rightarrow>
                 try_then (or_walk_error (we_depth e) (we_display e) (dir_entry_names H dir))
                   (\<lambda>listed. case listed of Inl err \<Rightarrow> stop it' err | Inr names \<Rightarrow>
                     ok (it'\<lparr>wi_stack :=
                           \<lparr> fr_dir = dir, fr_path = we_path e, fr_display = we_display e,
                             fr_entries = sort_entries (wo_sorter opts) e names,
                             fr_identity = identity \<rparr> # wi_stack it'\<rparr>, Inr ()))))))"

definition handle_entry ::
  "'w host \<Rightarrow> unicode \<Rightarrow> mount_table \<Rightarrow> walk_iter \<Rightarrow> walk_entry \<Rightarrow>
   ('w, walk_iter \<times> walk_item option) io" where
  "handle_entry H u t it dent =
     (let opts = wi_opts it in
      try_then (if wo_follow_links opts \<and> we_is_symlink dent then follow_entry H u t dent
                else ok (Inr dent))
        (\<lambda>followed. case followed of Inl err \<Rightarrow> ok (it, Some (Inl err)) | Inr dent \<Rightarrow>
          let is_normal_dir = (\<not> we_is_symlink dent \<and> md_type (we_metadata dent) = Directory);
              finish = (\<lambda>it.
                if is_normal_dir \<and> wo_contents_first opts
                then (it\<lparr>wi_deferred_dirs := dent # wi_deferred_dirs it\<rparr>, None)
                else if skippable it then (it, None) else (it, Some (Inr dent)));
              enter = try_then (walk_push H u t it dent) (\<lambda>(it, pushed).
                ok (case pushed of Inl err \<Rightarrow> (it, Some (Inl err)) | Inr _ \<Rightarrow> finish it))
          in
          if is_normal_dir then enter
          else if we_depth dent = 0 \<and> we_is_symlink dent \<and> wo_follow_root_links opts
          then try_then (or_walk_error (we_depth dent) (we_display dent)
                  (vfs_metadata H u t (we_path dent)))
                (\<lambda>target. case target of Inl err \<Rightarrow> ok (it, Some (Inl err)) | Inr md \<Rightarrow>
                   if md_type md = Directory then enter else ok (finish it))
          else ok (finish it)))"

section \<open>Stepping\<close>

text \<open>What one pass decides: go round again, or return.\<close>

datatype turn = Again | Return "walk_item option"

definition again_or_return :: "walk_iter \<times> walk_item option \<Rightarrow> walk_iter \<times> turn" where
  "again_or_return p = (fst p, case snd p of None \<Rightarrow> Again | Some r \<Rightarrow> Return (Some r))"

text \<open>What runs before the loop: the deferred error, the end, and the root.\<close>

definition walk_begin ::
  "'w host \<Rightarrow> unicode \<Rightarrow> walk_iter \<Rightarrow> ('w, walk_iter \<times> turn) io" where
  "walk_begin H u it =
     (case wi_deferred it of
        Some e \<Rightarrow> ok (it\<lparr>wi_deferred := None, wi_done := True\<rparr>,
                   Return (Some (Inl (error_io 0 (map_option snd (wi_start it)) e))))
      | None \<Rightarrow>
          if wi_done it then ok (it, Return None)
          else
            (case wi_vfs it of
               None \<Rightarrow> ok (it, Return None)
             | Some t \<Rightarrow>
                 (case wi_start it of
                    None \<Rightarrow> ok (it, Again)
                  | Some (p, display) \<Rightarrow>
                      (let it = it\<lparr>wi_start := None\<rparr> in
                       try_then (root_entry H u t p display) (\<lambda>r.
                         case r of
                           Inl e \<Rightarrow> ok (it\<lparr>wi_done := True\<rparr>, Return (Some (Inl e)))
                         | Inr dent \<Rightarrow>
                             try_then (handle_entry H u t it dent) (\<lambda>p. ok (again_or_return p)))))))"

text \<open>One pass of the loop, and what follows the loop once the stack is empty.\<close>

definition walk_turn ::
  "'w host \<Rightarrow> unicode \<Rightarrow> mount_table \<Rightarrow> walk_iter \<Rightarrow> ('w, walk_iter \<times> turn) io" where
  "walk_turn H u t it =
     (case wi_stack it of
        [] \<Rightarrow>
          (let it = (if wo_contents_first (wi_opts it) then it\<lparr>wi_depth := 0\<rparr> else it) in
           case get_deferred_dir it of
             (it, Some dent) \<Rightarrow> ok (it, Return (Some (Inr dent)))
           | (it, None) \<Rightarrow> ok (it\<lparr>wi_done := True\<rparr>, Return None))
      | frame # rest \<Rightarrow>
          (let it = it\<lparr>wi_depth := length (wi_stack it)\<rparr> in
           case get_deferred_dir it of
             (it, Some dent) \<Rightarrow> ok (it, Return (Some (Inr dent)))
           | (it, None) \<Rightarrow>
               if wo_max_depth (wi_opts it) < wi_depth it then ok (walk_pop it, Again)
               else
                 (case fr_entries frame of
                    [] \<Rightarrow> ok (walk_pop it, Again)
                  | name # names \<Rightarrow>
                      (let it = it\<lparr>wi_stack := frame\<lparr>fr_entries := names\<rparr> # rest\<rparr> in
                       try_then (child_entry H u it name) (\<lambda>r.
                         case r of
                           Inl e \<Rightarrow> ok (it, Return (Some (Inl e)))
                         | Inr dent \<Rightarrow>
                             try_then (handle_entry H u t it dent) (\<lambda>p. ok (again_or_return p)))))))"

text \<open>The loop, with the requests made on the way; \<^const>\<open>None\<close> where it never returns.\<close>

partial_function (option) walk_loop ::
  "'w host \<Rightarrow> unicode \<Rightarrow> mount_table \<Rightarrow> walk_iter \<Rightarrow> 'w \<Rightarrow> request list \<Rightarrow>
   (walk_iter \<times> walk_item option \<times> request list \<times> 'w) option" where
  "walk_loop H u t it w log =
     (case walk_turn H u t it w of
        (Inl e, qs, w') \<Rightarrow> Some (it, None, log @ qs, w')
      | (Inr (it', Return r), qs, w') \<Rightarrow> Some (it', r, log @ qs, w')
      | (Inr (it', Again), qs, w') \<Rightarrow> walk_loop H u t it' w' (log @ qs))"

definition walk_next ::
  "'w host \<Rightarrow> unicode \<Rightarrow> walk_iter \<Rightarrow> 'w \<Rightarrow> (walk_iter \<times> walk_item option \<times> request list \<times> 'w) option" where
  "walk_next H u it w =
     (case walk_begin H u it w of
        (Inl e, qs, w') \<Rightarrow> Some (it, None, qs, w')
      | (Inr (it', Return r), qs, w') \<Rightarrow> Some (it', r, qs, w')
      | (Inr (it', Again), qs, w') \<Rightarrow>
          (case wi_vfs it' of None \<Rightarrow> Some (it', None, qs, w') | Some t \<Rightarrow> walk_loop H u t it' w' qs))"

section \<open>What a walk asks\<close>

text \<open>Besides being confined, the walk's requests change nothing.\<close>

abbreviation quiet :: "request \<Rightarrow> bool" where
  "quiet q \<equiv> writes_at q = []"

lemma emits_both:
  "emits P m Q \<Longrightarrow> emits P' m Q' \<Longrightarrow> emits (\<lambda>q. P q \<and> P' q) m Q"
  by (auto simp: emits_def list_all_iff)

lemma query_confined_both: "query_confined t = (\<lambda>q. request_confined t q \<and> quiet q)"
  by (simp add: query_confined_def fun_eq_iff)

lemma locate_quiet:
  "nfc_ok u \<Longrightarrow> wf_path u path \<Longrightarrow> emits quiet (locate H u t path follow) (located_ok u t)"
  by (rule emits_mono [OF locate_query]) (simp_all add: query_confined_def)

lemma at_path_quiet:
  assumes "nfc_ok u" and "wf_path u path" and op: "\<And>l. emits quiet (op l) (\<lambda>_. True)"
  shows "emits quiet (at_path H u t path follow op) (\<lambda>_. True)"
proof (cases "locate_exact t path")
  case (Inl e)
  then show ?thesis by (simp add: at_path_def emits_fail)
next
  case (Inr l)
  have careful: "emits quiet (try_then (locate H u t path follow) op) (\<lambda>_. True)"
    by (rule emits_try_then [OF locate_quiet [OF assms(1,2)] op])
  have "emits quiet
      (try_then (attempt (op l)) (\<lambda>r. case r of
         Inl e \<Rightarrow> if kind e = PermissionDenied then try_then (locate H u t path follow) op else fail e
       | Inr x \<Rightarrow> ok x)) (\<lambda>_. True)"
    by (rule emits_try_attempt [OF op]) (auto intro: careful emits_fail emits_ok)
  with Inr careful show ?thesis by (simp add: at_path_def Let_def)
qed

lemma open_here_quiet: "emits quiet (if b then clone_dir H d else open_dir_at H d r) (\<lambda>_. True)"
  by (intro emits_if emits_clone_dir emits_open_dir_at) simp_all

lemma symlink_metadata_at_quiet: "emits quiet (symlink_metadata_at H d c) (\<lambda>_. True)"
  unfolding symlink_metadata_at_def
  by (intro emits_if emits_fail emits_try_then [OF emits_open_entry [where Q = "\<lambda>_. True"]] emits_call)
     simp_all

lemma vfs_metadata_quiet:
  assumes "nfc_ok u" and "wf_path u path"
  shows "emits quiet (vfs_metadata H u t path) (\<lambda>_. True)"
  unfolding vfs_metadata_def Let_def
  by (intro at_path_quiet [OF assms] emits_try_then [where R = "\<lambda>_. True"] emits_if emits_clone_dir
      emits_open_dir_at emits_open_file_at emits_ok emits_call)
    (simp_all add: to_cap_std_def with_nonblock_def mode_read_def mode_default_def with_read_def opts_write_def)

lemma vfs_symlink_metadata_quiet:
  assumes "nfc_ok u" and "wf_path u path"
  shows "emits quiet (vfs_symlink_metadata H u t path) (\<lambda>_. True)"
  unfolding vfs_symlink_metadata_def Let_def
  by (intro emits_try_then [OF locate_quiet [OF assms]] emits_if emits_try_then [where R = "\<lambda>_. True"]
      emits_clone_dir emits_open_dir_at emits_call symlink_metadata_at_quiet) simp_all

lemma vfs_open_dir_quiet:
  assumes "nfc_ok u" and "wf_path u path"
  shows "emits quiet (vfs_open_dir H u t path) (\<lambda>_. True)"
  unfolding vfs_open_dir_def locate_dir_def locate_follow_def
  by (intro emits_try_then [where R = "\<lambda>_. True"] emits_weaken [OF locate_quiet [OF assms]]
      emits_try_then [OF open_here_quiet] emits_ok)
    (auto intro: emits_ok)

lemma dir_quiet:
  "emits quiet (dir_open_dir H c name) (\<lambda>_. True)"
  "emits quiet (dir_symlink_metadata H c name) (\<lambda>_. True)"
  "emits quiet (dir_identity H c) (\<lambda>_. True)"
  "emits quiet (dir_entry_names H c) (\<lambda>_. True)"
  unfolding dir_open_dir_def dir_symlink_metadata_def dir_identity_def identity_of_def
    dir_entry_names_def entry_names_of_def
  by (intro emits_lift_then symlink_metadata_at_quiet emits_try_then [where R = "\<lambda>_. True"]
      emits_open_dir_at emits_clone_dir emits_call emits_ok emits_lift_result; simp)+
section \<open>What the iterator keeps\<close>

definition frame_ok :: "unicode \<Rightarrow> mount_table \<Rightarrow> frame \<Rightarrow> bool" where
  "frame_ok u t f \<longleftrightarrow>
     governed t (dc_writable (fr_dir f)) (dc_inner (fr_dir f)) \<and> wf_path u (fr_path f)"

definition iter_ok :: "unicode \<Rightarrow> mount_table \<Rightarrow> walk_iter \<Rightarrow> bool" where
  "iter_ok u t it \<longleftrightarrow> (\<forall>t'. wi_vfs it = Some t' \<longrightarrow> t' = t) \<and> list_all (frame_ok u t) (wi_stack it) \<and>
     (\<forall>p d. wi_start it = Some (p, d) \<longrightarrow> wf_path u p)"

definition entry_ok :: "unicode \<Rightarrow> walk_item \<Rightarrow> bool" where
  "entry_ok u r = (case r of Inl e \<Rightarrow> True | Inr e \<Rightarrow> wf_path u (we_path e))"

lemma iter_ok_simps [simp]:
  "iter_ok u t (it\<lparr>wi_depth := n\<rparr>) = iter_ok u t it"
  "iter_ok u t (it\<lparr>wi_done := b\<rparr>) = iter_ok u t it"
  "iter_ok u t (it\<lparr>wi_deferred := d\<rparr>) = iter_ok u t it"
  "iter_ok u t (it\<lparr>wi_deferred_dirs := ds\<rparr>) = iter_ok u t it"
  "iter_ok u t (it\<lparr>wi_root_device := r\<rparr>) = iter_ok u t it"
  by (simp_all add: iter_ok_def)

lemma iter_ok_pop: "iter_ok u t it \<Longrightarrow> iter_ok u t (walk_pop it)"
  by (cases "wi_stack it") (auto simp: iter_ok_def walk_pop_def)

lemma iter_ok_deferred: "get_deferred_dir it = (it', r) \<Longrightarrow> iter_ok u t it \<Longrightarrow> iter_ok u t it'"
  by (auto simp: get_deferred_dir_def split: if_splits)

lemma or_walk_error_emits:
  "emits P m R \<Longrightarrow> emits P (or_walk_error depth path m) (\<lambda>r. \<forall>x. r = Inr x \<longrightarrow> R x)"
  unfolding or_walk_error_def by (rule emits_try_attempt [where R = R]) (auto intro: emits_ok)

lemma walk_then_emits:
  assumes "emits P m (\<lambda>r. \<forall>x. r = Inr x \<longrightarrow> R x)" "\<And>x. R x \<Longrightarrow> emits P (f x) Q"
    and "\<And>e. Q (Inl e)"
  shows "emits P (walk_then m f) Q"
  unfolding walk_then_def
  by (rule emits_try_then [OF assms(1)]) (auto split: sum.split intro: emits_ok assms(2,3))

lemma or_walk_error_try:
  assumes "emits P m R" "\<And>e. emits P (f (Inl e)) Q" "\<And>x. R x \<Longrightarrow> emits P (f (Inr x)) Q"
  shows "emits P (try_then (or_walk_error depth path m) f) Q"
proof (rule emits_try_then [OF or_walk_error_emits [OF assms(1)]])
  fix r :: "walk_error + 'b" assume "\<forall>x. r = Inr x \<longrightarrow> R x"
  with assms(2,3) show "emits P (f r) Q" by (cases r) auto
qed

lemma emits_option:
  "(\<And>x. r = Some x \<Longrightarrow> emits P (f x) Q) \<Longrightarrow> (r = None \<Longrightarrow> emits P m Q) \<Longrightarrow>
     emits P (case r of Some x \<Rightarrow> f x | None \<Rightarrow> m) Q"
  by (cases r) auto

lemma governed_reads: "governed t w d \<Longrightarrow> governed t False d"
  by (auto simp: governed_def)

text \<open>A capability on the stack asks within the namespace, and what it opens is governed alike.\<close>

lemma cap_query:
  assumes g: "governed t (dc_writable c) (dc_inner c)"
    and "emits (cap_request c) m Q" "emits quiet m (\<lambda>_. True)"
  shows "emits (query_confined t) m Q"
  unfolding query_confined_both
  by (rule emits_both [OF emits_mono [OF assms(2) cap_request_confined [OF _ g]] assms(3)])

lemma vfs_query:
  "emits (request_confined t) m Q \<Longrightarrow> emits quiet m (\<lambda>_. True) \<Longrightarrow> emits (query_confined t) m Q"
  unfolding query_confined_both by (rule emits_both)

lemma vfs_open_dir_governed:
  assumes "nfc_ok u" "wf_path u path"
  shows "emits (query_confined t) (vfs_open_dir H u t path)
           (\<lambda>c. governed t (dc_writable c) (dc_inner c))"
proof (rule vfs_query [OF _ vfs_open_dir_quiet [OF assms]])
  show "emits (request_confined t) (vfs_open_dir H u t path)
      (\<lambda>c. governed t (dc_writable c) (dc_inner c))"
    unfolding vfs_open_dir_def
    by (rule emits_try_then [OF locate_dir_confined [OF assms]]) (auto intro: emits_ok)
qed

lemma root_entry_emits:
  assumes "nfc_ok u" "wf_path u p"
  shows "emits (query_confined t) (root_entry H u t p display) (entry_ok u)"
  unfolding root_entry_def
  by (rule walk_then_emits [OF or_walk_error_emits [OF vfs_query
        [OF vfs_symlink_metadata_confined [OF assms] vfs_symlink_metadata_quiet [OF assms]]]])
    (simp_all add: emits_ok entry_ok_def assms(2))

lemma follow_entry_emits:
  assumes "nfc_ok u" "wf_path u (we_path e)"
  shows "emits (query_confined t) (follow_entry H u t e) (entry_ok u)"
  unfolding follow_entry_def
  by (rule walk_then_emits [OF or_walk_error_emits [OF vfs_query
        [OF vfs_metadata_confined [OF assms] vfs_metadata_quiet [OF assms]]]])
    (simp_all add: emits_ok entry_ok_def assms(2))

lemma child_entry_emits:
  assumes "nfc_ok u" "iter_ok u t it"
  shows "emits (query_confined t) (child_entry H u it name) (entry_ok u)"
proof (cases "wi_stack it")
  case Nil
  then show ?thesis by (simp add: child_entry_def emits_ok entry_ok_def)
next
  case (Cons f rest)
  with assms(2) have f: "governed t (dc_writable (fr_dir f)) (dc_inner (fr_dir f))" "wf_path u (fr_path f)"
    by (simp_all add: iter_ok_def frame_ok_def)
  show ?thesis
  proof (cases "resolve u (fr_path f) name")
    case (Inl e)
    with Cons show ?thesis by (simp add: child_entry_def emits_ok entry_ok_def)
  next
    case (Inr path)
    have "wf_path u path" by (rule resolve_wf_path [OF assms(1) f(2) Inr])
    with Cons Inr show ?thesis
      unfolding child_entry_def list.case sum.case Cons Inr Let_def
      by (intro walk_then_emits [OF or_walk_error_emits [OF cap_query
            [OF f(1) dir_symlink_metadata_emits dir_quiet(2)]]])
        (simp_all add: emits_ok entry_ok_def)
  qed
qed

lemma open_child_emits:
  assumes "nfc_ok u" "iter_ok u t it" "wf_path u (we_path e)"
  shows "emits (query_confined t) (open_child H u t it e)
           (\<lambda>r. \<forall>c. r = Inr c \<longrightarrow> governed t (dc_writable c) (dc_inner c))"
proof (cases "if we_followed e then [] else wi_stack it")
  case Nil
  then show ?thesis
    unfolding open_child_def Nil list.case
    by (intro or_walk_error_emits vfs_open_dir_governed assms)
next
  case (Cons f rest)
  with assms(2) have f: "governed t (dc_writable (fr_dir f)) (dc_inner (fr_dir f))"
    by (auto simp: iter_ok_def frame_ok_def split: if_splits)
  have "emits (query_confined t) (dir_open_dir H (fr_dir f) (we_name e)) (cap_child (fr_dir f))"
    by (rule cap_query [OF f dir_open_dir_emits dir_quiet(1)])
  then have "emits (query_confined t) (dir_open_dir H (fr_dir f) (we_name e))
      (\<lambda>c. governed t (dc_writable c) (dc_inner c))"
    by (rule emits_mono) (use f in \<open>auto simp: cap_child_def governed_def\<close>)
  then show ?thesis
    unfolding open_child_def Cons list.case by (rule or_walk_error_emits)
qed

lemma walk_push_emits:
  assumes "nfc_ok u" "iter_ok u t it" "wf_path u (we_path e)"
  shows "emits (query_confined t) (walk_push H u t it e) (\<lambda>(it', r). iter_ok u t it')"
proof -
  let ?opts = "wi_opts it"
  have dev: "iter_ok u t (if we_depth e = 0 then it\<lparr>wi_root_device := r\<rparr> else it)" for r
    using assms(2) by simp
  have ident: "emits (query_confined t)
      (if wo_follow_links ?opts \<or> wo_same_file_system ?opts
       then walk_then (or_walk_error (we_depth e) (we_display e) (dir_identity H dir))
              (\<lambda>i. ok (Inr (Some i)))
       else ok (Inr None)) (\<lambda>_. True)"
    if "governed t (dc_writable dir) (dc_inner dir)" for dir
    by (intro emits_if walk_then_emits [OF or_walk_error_emits [OF cap_query
          [OF that dir_identity_emits dir_quiet(3)]]] emits_ok) simp_all
  have names: "emits (query_confined t) (dir_entry_names H dir) (\<lambda>_. True)"
    if "governed t (dc_writable dir) (dc_inner dir)" for dir
    by (rule cap_query [OF that dir_entry_names_emits dir_quiet(4)])
  have stop: "emits (query_confined t) (ok (x, r)) (\<lambda>(it', r). iter_ok u t it')"
    if "iter_ok u t x" for x and r :: "walk_error + unit"
    using that by (simp add: emits_ok)
  show ?thesis
    unfolding walk_push_def Let_def
    apply (rule emits_try_then [OF open_child_emits [OF assms]])
    subgoal for opened
      apply (cases opened)
      subgoal by (simp add: stop assms(2))
      subgoal for dir
        apply (simp only: sum.case)
        apply (rule emits_try_then [OF ident])
        subgoal by simp
        subgoal for identified
          apply (cases identified)
          subgoal by (simp add: stop assms(2))
          subgoal for identity
            apply (simp only: sum.case)
            apply (rule emits_if)
            subgoal by (rule stop [OF dev])
            apply (rule emits_option)
            subgoal by (rule stop [OF dev])
            apply (rule emits_try_then [OF or_walk_error_emits [OF names]])
            subgoal by simp
            subgoal for listed
              apply (cases listed)
              subgoal by (simp add: stop assms(2))
              subgoal for ns
                using assms(2,3)
                by (auto simp: iter_ok_def frame_ok_def intro!: emits_ok)
              done
            done
          done
        done
      done
    done
qed
text \<open>An item is well formed when its path, if it is an entry, is.\<close>

definition item_ok :: "unicode \<Rightarrow> walk_item option \<Rightarrow> bool" where
  "item_ok u r = (case r of None \<Rightarrow> True | Some i \<Rightarrow> entry_ok u i)"

definition pending_ok :: "unicode \<Rightarrow> walk_iter \<Rightarrow> bool" where
  "pending_ok u it = list_all (\<lambda>e. wf_path u (we_path e)) (wi_deferred_dirs it)"

definition walk_inv :: "unicode \<Rightarrow> mount_table \<Rightarrow> walk_iter \<Rightarrow> bool" where
  "walk_inv u t it \<longleftrightarrow> iter_ok u t it \<and> pending_ok u it"

lemma walk_inv_simps [simp]:
  "walk_inv u t (it\<lparr>wi_depth := n\<rparr>) = walk_inv u t it"
  "walk_inv u t (it\<lparr>wi_done := b\<rparr>) = walk_inv u t it"
  "walk_inv u t (it\<lparr>wi_deferred := d\<rparr>) = walk_inv u t it"
  by (simp_all add: walk_inv_def pending_ok_def)

lemma walk_inv_defer:
  "walk_inv u t it \<Longrightarrow> wf_path u (we_path d) \<Longrightarrow>
   walk_inv u t (it\<lparr>wi_deferred_dirs := d # wi_deferred_dirs it\<rparr>)"
  by (simp add: walk_inv_def pending_ok_def)

lemma walk_inv_pop: "walk_inv u t it \<Longrightarrow> walk_inv u t (walk_pop it)"
  by (simp add: walk_inv_def iter_ok_pop) (simp add: pending_ok_def walk_pop_def)

lemma walk_inv_start: "walk_inv u t it \<Longrightarrow> walk_inv u t (it\<lparr>wi_start := None\<rparr>)"
  by (auto simp: walk_inv_def iter_ok_def pending_ok_def)

lemma get_deferred_inv:
  assumes "get_deferred_dir it = (it', r)" "walk_inv u t it"
  shows "walk_inv u t it' \<and> item_ok u (map_option Inr r)"
  using assms iter_ok_deferred [OF assms(1)]
  by (cases "wi_deferred_dirs it")
    (auto simp: get_deferred_dir_def walk_inv_def pending_ok_def item_ok_def entry_ok_def split: if_splits)

lemma walk_push_pending: "emits (\<lambda>_. True) (walk_push H u t it e)
    (\<lambda>(it', r). wi_deferred_dirs it' = wi_deferred_dirs it)"
proof -
  have any: "emits (\<lambda>_. True) m (\<lambda>_. True)" for m :: "('w, 'b) io"
    by (simp add: emits_def list_all_iff)
  show ?thesis
    unfolding walk_push_def Let_def
    by (intro emits_try_then [OF any]) (auto split: sum.split option.split intro!: emits_ok
      emits_try_then [OF any])
qed

lemma walk_push_inv:
  assumes "nfc_ok u" "walk_inv u t it" "wf_path u (we_path e)"
  shows "emits (query_confined t) (walk_push H u t it e) (\<lambda>(it', r). walk_inv u t it')"
proof -
  have "emits (query_confined t) (walk_push H u t it e) (\<lambda>(it', r). iter_ok u t it')"
    using assms by (intro walk_push_emits) (simp_all add: walk_inv_def)
  moreover note walk_push_pending [of H u t it e]
  ultimately show ?thesis
    using assms(2) by (auto simp: emits_def walk_inv_def pending_ok_def split: prod.splits)
qed

definition step_inv :: "unicode \<Rightarrow> mount_table \<Rightarrow> walk_iter \<times> walk_item option \<Rightarrow> bool" where
  "step_inv u t p \<longleftrightarrow> walk_inv u t (fst p) \<and> item_ok u (snd p)"

lemma handle_entry_inv:
  assumes "nfc_ok u" "walk_inv u t it" "wf_path u (we_path dent)"
  shows "emits (query_confined t) (handle_entry H u t it dent) (step_inv u t)"
proof -
  have fin: "step_inv u t
      (if b then (x\<lparr>wi_deferred_dirs := d # wi_deferred_dirs x\<rparr>, None)
       else if c then (x, None) else (x, Some (Inr d)))"
    if "walk_inv u t x" "wf_path u (we_path d)" for b c x d
    using that by (auto simp: step_inv_def walk_inv_def pending_ok_def item_ok_def entry_ok_def)
  have err: "emits P (ok (x, Some (Inl e))) (step_inv u t)" if "walk_inv u t x" for P x e
    using that by (simp add: emits_ok step_inv_def item_ok_def entry_ok_def)
  show ?thesis
    unfolding handle_entry_def Let_def
    apply (rule emits_try_then [where R = "entry_ok u"])
    subgoal
      using assms(3) by (intro emits_if follow_entry_emits assms(1) emits_ok) (simp_all add: entry_ok_def)
    subgoal for followed
      apply (cases followed)
      subgoal by (simp add: err assms(2))
      subgoal for d
        apply (simp only: sum.case entry_ok_def)
        apply (intro emits_if)
        subgoal
          by (rule emits_try_then [OF walk_push_inv [OF assms(1,2)]])
            (auto split: sum.split intro!: emits_ok walk_inv_defer simp: step_inv_def item_ok_def entry_ok_def)
        subgoal
          apply (rule or_walk_error_try [OF vfs_query
                [OF vfs_metadata_confined [OF assms(1)] vfs_metadata_quiet [OF assms(1)]]])
          subgoal .
          subgoal .
          subgoal by (simp add: err assms(2))
          subgoal
            apply (simp only: sum.case)
            apply (rule emits_if)
            subgoal
              by (rule emits_try_then [OF walk_push_inv [OF assms(1,2)]])
                (auto split: sum.split intro!: emits_ok walk_inv_defer simp: step_inv_def item_ok_def entry_ok_def)
            subgoal by (rule emits_ok, rule fin [OF assms(2)])
            done
          done
        subgoal by (rule emits_ok, rule fin [OF assms(2)])
        done
      done
    done
qed

definition turn_ok :: "unicode \<Rightarrow> mount_table \<Rightarrow> walk_iter \<times> turn \<Rightarrow> bool" where
  "turn_ok u t p \<longleftrightarrow> walk_inv u t (fst p) \<and> (case snd p of Again \<Rightarrow> True | Return r \<Rightarrow> item_ok u r)"

lemma turn_ok_of_step: "step_inv u t p \<Longrightarrow> turn_ok u t (again_or_return p)"
  by (auto simp: turn_ok_def step_inv_def again_or_return_def split: option.splits)

lemma handle_turn:
  assumes "nfc_ok u" "walk_inv u t it" "wf_path u (we_path dent)"
  shows "emits (query_confined t) (try_then (handle_entry H u t it dent) (\<lambda>p. ok (again_or_return p)))
    (turn_ok u t)"
  by (rule emits_try_then [OF handle_entry_inv [OF assms]]) (simp add: emits_ok turn_ok_of_step)

lemma turn_ok_simps [simp]:
  "turn_ok u t (it, Again) = walk_inv u t it"
  "turn_ok u t (it, Return r) = (walk_inv u t it \<and> item_ok u r)"
  "item_ok u None = True" "item_ok u (Some (Inl e)) = True"
  by (auto simp: turn_ok_def item_ok_def entry_ok_def)

lemma walk_begin_inv:
  assumes "nfc_ok u" "walk_inv u t it"
  shows "emits (query_confined t) (walk_begin H u it) (turn_ok u t)"
proof (cases "wi_deferred it = None \<and> \<not> wi_done it \<and> wi_vfs it \<noteq> None \<and> wi_start it \<noteq> None")
  case False
  then show ?thesis
    using assms(2) by (auto simp: walk_begin_def emits_ok split: option.splits)
next
  case True
  then obtain t' p d where it: "wi_deferred it = None" "\<not> wi_done it" "wi_vfs it = Some t'"
    "wi_start it = Some (p, d)" by auto
  with assms(2) have t: "t' = t" and p: "wf_path u p"
    by (simp_all add: walk_inv_def iter_ok_def)
  let ?it = "it\<lparr>wi_start := None\<rparr>"
  have inv: "walk_inv u t ?it" using assms(2) by (rule walk_inv_start)
  have "emits (query_confined t) (try_then (root_entry H u t p d) (\<lambda>r.
      case r of Inl e \<Rightarrow> ok (?it\<lparr>wi_done := True\<rparr>, Return (Some (Inl e)))
      | Inr dent \<Rightarrow> try_then (handle_entry H u t ?it dent) (\<lambda>p. ok (again_or_return p)))) (turn_ok u t)"
    by (rule emits_try_then [OF root_entry_emits [OF assms(1) p]])
      (auto split: sum.split intro!: emits_ok handle_turn assms(1) inv simp: entry_ok_def inv)
  then show ?thesis by (simp add: walk_begin_def it t Let_def)
qed

lemma walk_turn_inv:
  assumes "nfc_ok u" "walk_inv u t it"
  shows "emits (query_confined t) (walk_turn H u t it) (turn_ok u t)"
proof (cases "wi_stack it")
  case Nil
  let ?it = "if wo_contents_first (wi_opts it) then it\<lparr>wi_depth := 0\<rparr> else it"
  have "walk_inv u t ?it" using assms(2) by simp
  moreover obtain it' r where g: "get_deferred_dir ?it = (it', r)" by (cases "get_deferred_dir ?it")
  ultimately have "walk_inv u t it' \<and> item_ok u (map_option Inr r)" by (rule get_deferred_inv [rotated])
  then show ?thesis
    unfolding walk_turn_def Nil list.case Let_def g prod.case
    by (cases r) (simp_all add: emits_ok)
next
  case (Cons f rest)
  let ?it = "it\<lparr>wi_depth := length (wi_stack it)\<rparr>"
  have "walk_inv u t ?it" using assms(2) by simp
  moreover obtain it' r where g: "get_deferred_dir ?it = (it', r)" by (cases "get_deferred_dir ?it")
  ultimately have inv: "walk_inv u t it'" "item_ok u (map_option Inr r)"
    using get_deferred_inv by blast+
  have st: "wi_stack it' = f # rest" using g Cons by (auto simp: get_deferred_dir_def split: if_splits)
  have sub: "walk_inv u t (it'\<lparr>wi_stack := f\<lparr>fr_entries := names\<rparr> # rest\<rparr>)" for names
    using inv(1) st by (auto simp: walk_inv_def iter_ok_def pending_ok_def frame_ok_def)
  show ?thesis
  proof (cases r)
    case (Some dent)
    with inv show ?thesis
      unfolding walk_turn_def Cons list.case Let_def g [unfolded Cons] prod.case by (simp add: emits_ok)
  next
    case None
    show ?thesis
    proof (cases "fr_entries f")
      case Nil
      with inv None show ?thesis
        unfolding walk_turn_def Cons list.case Let_def g [unfolded Cons] prod.case
        by (simp add: emits_ok walk_inv_pop)
    next
      case (Cons name names)
      let ?it' = "it'\<lparr>wi_stack := f\<lparr>fr_entries := names\<rparr> # rest\<rparr>"
      have "iter_ok u t ?it'" using sub by (simp add: walk_inv_def)
      then have "emits (query_confined t) (try_then (child_entry H u ?it' name) (\<lambda>r.
          case r of Inl e \<Rightarrow> ok (?it', Return (Some (Inl e)))
          | Inr dent \<Rightarrow> try_then (handle_entry H u t ?it' dent) (\<lambda>p. ok (again_or_return p)))) (turn_ok u t)"
        by (intro emits_try_then [OF child_entry_emits [OF assms(1)]])
          (auto split: sum.split intro!: emits_ok handle_turn assms(1) sub simp: entry_ok_def sub)
      with inv None show ?thesis
        unfolding walk_turn_def \<open>wi_stack it = f # rest\<close> list.case Let_def
          g [unfolded \<open>wi_stack it = f # rest\<close>] prod.case option.case Cons
        by (simp add: emits_ok walk_inv_pop)
    qed
  qed
qed

text \<open>The iterators a caller can hold: started with any options, then stepped and cut short in any
  order, whatever the host answers and also where \<^verbatim>\<open>next\<close> never returns.\<close>

inductive walk_reach :: "'w host \<Rightarrow> unicode \<Rightarrow> session \<Rightarrow> walk_iter \<Rightarrow> bool"
  for H :: "'w host" and u :: unicode and s :: session where
  started: "walk_reach H u s (into_iter ((ambient_walk u (Some s) path)\<lparr>wk_opts := opts\<rparr>))"
| begun: "walk_reach H u s it \<Longrightarrow> result (walk_begin H u it w) = Inr (it', r) \<Longrightarrow> walk_reach H u s it'"
| turned: "walk_reach H u s it \<Longrightarrow> result (walk_turn H u (s_vfs s) it w) = Inr (it', r) \<Longrightarrow>
    walk_reach H u s it'"
| cut: "walk_reach H u s it \<Longrightarrow> walk_reach H u s (skip_current_dir it)"

lemma walk_reach_inv:
  assumes "walk_reach H u s it" "nfc_ok u" "session_ok u s"
  shows "walk_inv u (s_vfs s) it"
  using assms(1)
proof induction
  case (started opts path)
  show ?case
  proof (cases "ambient_resolve u s path")
    case (Inl e)
    then show ?thesis
      by (simp add: into_iter_def ambient_walk_def current_def walk_failed_def walk_inv_def iter_ok_def
          pending_ok_def)
  next
    case (Inr p)
    then have "session_resolve u s path = Inr p" by (simp add: ambient_resolve_def split: if_splits)
    then have "wf_path u p" by (rule session_resolve_wf [OF assms(2,3)])
    with Inr show ?thesis
      by (simp add: into_iter_def ambient_walk_def current_def walk_rooted_def walk_inv_def iter_ok_def
          pending_ok_def)
  qed
next
  case (begun it w it' r)
  from emits_result [OF walk_begin_inv [OF assms(2) begun.IH] begun.hyps(2)] show ?case
    by (simp add: turn_ok_def)
next
  case (turned it w it' r)
  from emits_result [OF walk_turn_inv [OF assms(2) turned.IH] turned.hyps(2)] show ?case
    by (simp add: turn_ok_def)
next
  case (cut it)
  then show ?case by (simp add: skip_current_dir_def walk_inv_pop)
qed

text \<open>An entry that a step returns has a path of the grammar.\<close>

lemma walk_yields_grammatical:
  assumes "nfc_ok u" "session_ok u s" "walk_reach H u s it"
    and "result (walk_turn H u (s_vfs s) it w) = Inr (it', Return (Some (Inr e)))"
  shows "wf_path u (we_path e)"
  using emits_result [OF walk_turn_inv [OF assms(1) walk_reach_inv [OF assms(3,1,2)]] assms(4)]
  by (simp add: turn_ok_def item_ok_def entry_ok_def)

section \<open>Properties\<close>



text \<open>With no session installed a walk reports the refusal once, asks nothing, and ends.\<close>

theorem walk_fails_closed:
  "\<exists>it. walk_next H u (into_iter ((ambient_walk u None path)\<lparr>wk_opts := opts\<rparr>)) w
      = Some (it, Some (Inl (error_io 0 None no_session)), [], w) \<and>
    walk_next H u it w = Some (it, None, [], w)"
  by (simp add: walk_next_def walk_begin_def into_iter_def ambient_walk_def current_def walk_failed_def
      ok_def)

end
