(* ===== verification/Walk_Tree.thy ===== *)
theory Walk_Tree
  imports Walk
begin

text \<open>
  What a walk of a directory tree yields. The reference is a recursion over the tree, without a
  stack, handles or requests: every entry in the order of its directory, before or after what it
  contains, between the depth bounds. The locale states what the walk relies on, that a capability
  answers as one directory of the tree; the interpretation provides it from a host that answers
  requests from a tree, following a handle's provenance.
\<close>

section \<open>Trees and their listing\<close>

datatype tree = File_Node metadata | Dir_Node metadata "(string \<times> tree) list"

fun node_metadata :: "tree \<Rightarrow> metadata" where
  "node_metadata (File_Node md) = md"
| "node_metadata (Dir_Node md ks) = md"





section \<open>Results without their requests\<close>

definition gives_out :: "('w, 'a) io \<Rightarrow> 'w \<Rightarrow> 'a \<Rightarrow> 'w \<Rightarrow> bool" where
  "gives_out m w x w' \<longleftrightarrow> (\<exists>qs. m w = (Inr x, qs, w'))"

lemma gives_ok [simp]: "gives_out (ok x) w y w' \<longleftrightarrow> y = x \<and> w' = w"
  by (auto simp: gives_out_def ok_def)





section \<open>Passes\<close>


text \<open>At least one pass of the loop, with the items returned.\<close>

inductive passes ::
  "'w host \<Rightarrow> unicode \<Rightarrow> mount_table \<Rightarrow> walk_iter \<Rightarrow> 'w \<Rightarrow> walk_item list \<Rightarrow> walk_iter \<Rightarrow> 'w \<Rightarrow> bool"
  for H :: "'w host" and u :: unicode and t :: mount_table where
  pass_again: "gives_out (walk_turn H u t it) w (it', Again) w' \<Longrightarrow> passes H u t it w [] it' w'"
| pass_item: "gives_out (walk_turn H u t it) w (it', Return (Some i)) w' \<Longrightarrow> passes H u t it w [i] it' w'"
| pass_trans: "passes H u t it w xs it' w' \<Longrightarrow> passes H u t it' w' ys it'' w'' \<Longrightarrow>
    passes H u t it w (xs @ ys) it'' w''"











section \<open>Calls of next\<close>

text \<open>What a caller sees that calls \<^verbatim>\<open>next\<close> until it is told there is no more.\<close>

inductive yields :: "'w host \<Rightarrow> unicode \<Rightarrow> walk_iter \<Rightarrow> 'w \<Rightarrow> walk_item list \<Rightarrow> bool"
  for H :: "'w host" and u :: unicode where
  yields_end: "walk_next H u it w = Some (it', None, qs, w') \<Longrightarrow> yields H u it w []"
| yields_item: "walk_next H u it w = Some (it', Some i, qs, w') \<Longrightarrow> yields H u it' w' xs \<Longrightarrow>
    yields H u it w (i # xs)"

















section \<open>The interface\<close>


section \<open>A host that serves a tree\<close>



text \<open>What a handle stands for, by the way it was come by.\<close>

fun tree_dir :: "(string \<times> tree) list \<Rightarrow> dir_handle \<Rightarrow> (string \<times> tree) list option" where
  "tree_dir tr (MountDir n) = Some tr"
| "tree_dir tr (ClonedDir d n) = tree_dir tr d"
| "tree_dir tr (OpenedDir d r n) =
     (case (tree_dir tr d, r) of
        (Some ks, [name]) \<Rightarrow>
          (case map_of ks name of Some (Dir_Node md ks') \<Rightarrow> Some ks' | _ \<Rightarrow> None)
      | _ \<Rightarrow> None)"

definition tree_node :: "(string \<times> tree) list \<Rightarrow> dir_handle \<Rightarrow> string \<Rightarrow> tree option" where
  "tree_node tr d name = (case tree_dir tr d of None \<Rightarrow> None | Some ks \<Rightarrow> map_of ks name)"

definition no_entry :: io_error where
  "no_entry = OsError 2 NotFound"

definition tree_metadata :: "(string \<times> tree) list \<Rightarrow> request \<Rightarrow> io_error + metadata" where
  "tree_metadata tr q =
     (let node = (\<lambda>d n. case tree_node tr d n of None \<Rightarrow> Inl no_entry | Some x \<Rightarrow> Inr (node_metadata x)) in
      case q of
        FileMetadata (EntryFile d name n) \<Rightarrow> node d name
      | SymlinkMetadata d [name] \<Rightarrow> node d name
      | _ \<Rightarrow> Inr (plain_metadata Directory))"

definition tree_number :: "(string \<times> tree) list \<Rightarrow> request \<Rightarrow> io_error + nat" where
  "tree_number tr q =
     (case q of
        OpenDir d r \<Rightarrow> if tree_dir tr (OpenedDir d r 0) = None then Inl no_entry else Inr 0
      | OpenEntryNoFollow d name \<Rightarrow> if tree_node tr d name = None then Inl no_entry else Inr 0
      | _ \<Rightarrow> Inr 0)"

definition tree_host :: "(string \<times> tree) list \<Rightarrow> unit host" where
  "tree_host tr = still_host\<lparr>
     h_num := (\<lambda>w q. (tree_number tr q, w)), h_meta := (\<lambda>w q. (tree_metadata tr q, w)),
     h_names := (\<lambda>w q. (case q of
        ReadEntries d \<Rightarrow>
          (case tree_dir tr d of None \<Rightarrow> Inl no_entry | Some ks \<Rightarrow> Inr (map (\<lambda>(n, x). Inr n) ks))
      | _ \<Rightarrow> Inr [], w))\<rparr>"




lemma tree_number_open_dir:
  "tree_number tr (OpenDir d r) = (if tree_dir tr (OpenedDir d r 0) = None then Inl no_entry else Inr 0)"
  by (simp add: tree_number_def)


section \<open>Properties\<close>





text \<open>The loop with a bound on its passes, to run closed examples.\<close>

fun bounded_loop ::
  "nat \<Rightarrow> 'w host \<Rightarrow> unicode \<Rightarrow> mount_table \<Rightarrow> walk_iter \<Rightarrow> 'w \<Rightarrow> request list \<Rightarrow>
   (walk_iter \<times> walk_item option \<times> request list \<times> 'w) option" where
  "bounded_loop 0 H u t it w log = None"
| "bounded_loop (Suc n) H u t it w log =
     (case walk_turn H u t it w of
        (Inl e, qs, w') \<Rightarrow> Some (it, None, log @ qs, w')
      | (Inr (it', Return r), qs, w') \<Rightarrow> Some (it', r, log @ qs, w')
      | (Inr (it', Again), qs, w') \<Rightarrow> bounded_loop n H u t it' w' (log @ qs))"

lemma bounded_loop_sound:
  "bounded_loop n H u t it w log = Some x \<Longrightarrow> walk_loop H u t it w log = Some x"
proof (induction n H u t it w log rule: bounded_loop.induct)
  case (2 n H u t it w log)
  then show ?case
    by (auto simp: walk_loop.simps [of H u t it] split: prod.splits sum.splits turn.splits)
qed simp

text \<open>A root that is a link to a directory is entered without being kept for last, so with contents
  first the directories kept below it are one level off: the directory \<open>d\<close> is dropped when the
  entries above depth one are not wanted, although it is at depth one.\<close>

definition linked_tree :: "(string \<times> tree) list" where
  "linked_tree =
     [(''l'', File_Node (plain_metadata SymbolicLink)),
      (''src'', Dir_Node (plain_metadata Directory) [(''d'', Dir_Node (plain_metadata Directory) [])])]"

definition link_walk :: "nat \<Rightarrow> walk_iter" where
  "link_walk depth = into_iter \<lparr> wk_vfs = Some demo_table, wk_root = Some (VirtualPath ''/work/l''),
     wk_display = Some ''l'', wk_deferred = None, wk_opts = \<lparr> wo_min_depth = depth, wo_max_depth = 9,
       wo_follow_links = False, wo_follow_root_links = True, wo_same_file_system = False,
       wo_contents_first = True, wo_sorter = None \<rparr> \<rparr>"

definition link_host :: "unit host" where
  "link_host = (tree_host linked_tree)\<lparr>h_bytes := (\<lambda>w q. (Inr ''src'', w))\<rparr>"

theorem walk_drops_directory:
  "map_option (\<lambda>(it, r, rest). r) (walk_next link_host ascii_unicode (link_walk 1) ()) = Some None"
proof -
  have "case walk_begin link_host ascii_unicode (link_walk 1) () of
      (Inr (it, Again), qs, w) \<Rightarrow> wi_vfs it = Some demo_table \<and>
         map_option (\<lambda>(it, r, rest). r) (bounded_loop 9 link_host ascii_unicode demo_table it w qs) = Some None
    | _ \<Rightarrow> False"
    by code_simp
  then obtain it qs where b: "walk_begin link_host ascii_unicode (link_walk 1) () = (Inr (it, Again), qs, ())"
    and v: "wi_vfs it = Some demo_table"
    and l: "map_option (\<lambda>(it, r, rest). r)
      (bounded_loop 9 link_host ascii_unicode demo_table it () qs) = Some None"
    by (fastforce split: prod.splits sum.splits turn.splits)
  from l obtain x where x: "bounded_loop 9 link_host ascii_unicode demo_table it () qs = Some x"
    "fst (snd x) = None" by auto
  then show ?thesis
    using b v bounded_loop_sound [OF x(1)] by (simp add: walk_next_def case_prod_unfold)
qed

end
