(* ===== verification/Platform_Io.thy ===== *)
theory Platform_Io
  imports Host_Interface
begin

text \<open>
  The standard streams of a session and its signal queue (\<^verbatim>\<open>brush-platform/src/stdio.rs\<close>,
  \<^verbatim>\<open>brush-platform/src/runtime.rs\<close>): an ordered log of output segments, a fixed source of input
  with a cursor, and the signals a guest has caught but not read. Bytes are characters; reading a
  line decodes it lossily, as \<^verbatim>\<open>String::from_utf8_lossy\<close> does.
\<close>

section \<open>Output\<close>

datatype stream = Stdout | Stderr

record segment =
  sg_stream :: stream
  sg_bytes :: string

record output_log =
  ol_segments :: "segment list"

definition log_new :: output_log where
  "log_new = \<lparr> ol_segments = [] \<rparr>"

definition log_write :: "stream \<Rightarrow> string \<Rightarrow> output_log \<Rightarrow> output_log" where
  "log_write stream bytes log =
     (let segs = ol_segments log in
      if segs \<noteq> [] \<and> sg_stream (last segs) = stream
      then log\<lparr>ol_segments := butlast segs @
             [(last segs)\<lparr>sg_bytes := sg_bytes (last segs) @ bytes\<rparr>]\<rparr>
      else log\<lparr>ol_segments := segs @ [\<lparr> sg_stream = stream, sg_bytes = bytes \<rparr>]\<rparr>)"

definition log_collect :: "stream \<Rightarrow> output_log \<Rightarrow> string" where
  "log_collect stream log =
     concat (map sg_bytes (filter (\<lambda>s. sg_stream s = stream) (ol_segments log)))"

definition log_stdout :: "output_log \<Rightarrow> string" where
  "log_stdout log = log_collect Stdout log"

definition log_stderr :: "output_log \<Rightarrow> string" where
  "log_stderr log = log_collect Stderr log"

definition rendered :: "output_log \<Rightarrow> string" where
  "rendered log = concat (map sg_bytes (ol_segments log))"

definition log_is_empty :: "output_log \<Rightarrow> bool" where
  "log_is_empty log \<longleftrightarrow> list_all (\<lambda>s. sg_bytes s = []) (ol_segments log)"

text \<open>The write log: what was written, one entry per write. The segments read the same.\<close>

definition written :: "stream \<Rightarrow> (stream \<times> string) list \<Rightarrow> string" where
  "written stream ws = concat (map snd (filter (\<lambda>w. fst w = stream) ws))"

definition log_reads :: "(stream \<times> string) list \<Rightarrow> output_log \<Rightarrow> bool" where
  "log_reads ws log \<longleftrightarrow>
     (\<forall>s. log_collect s log = written s ws) \<and> rendered log = concat (map snd ws) \<and>
     successively (\<noteq>) (map sg_stream (ol_segments log))"

lemma log_reads_new [simp]: "log_reads [] log_new"
  by (simp add: log_reads_def log_new_def log_collect_def rendered_def written_def)

lemma log_write_collect:
  "log_collect s (log_write x b log) = log_collect s log @ (if s = x then b else [])"
  by (cases "ol_segments log" rule: rev_cases) (auto simp: log_write_def log_collect_def Let_def)

lemma log_write_rendered: "rendered (log_write x b log) = rendered log @ b"
  by (cases "ol_segments log" rule: rev_cases) (auto simp: log_write_def rendered_def Let_def)

lemma log_write_adjacent:
  "successively (\<noteq>) (map sg_stream (ol_segments log)) \<Longrightarrow>
     successively (\<noteq>) (map sg_stream (ol_segments (log_write x b log)))"
  by (cases "ol_segments log" rule: rev_cases) (auto simp: log_write_def Let_def successively_append_iff)

lemma log_reads_write:
  assumes "log_reads ws log"
  shows "log_reads (ws @ [(s, b)]) (log_write s b log)"
  using assms log_write_adjacent [of log s b]
  by (simp add: log_reads_def log_write_collect log_write_rendered written_def)

lemma log_reads_empty: "log_reads ws log \<Longrightarrow> log_is_empty log \<longleftrightarrow> concat (map snd ws) = []"
  unfolding log_reads_def log_is_empty_def rendered_def list_all_iff
  by (metis (no_types, lifting) concat_eq_Nil_conv imageE image_eqI list.set_map)

definition write_all :: "(stream \<times> string) list \<Rightarrow> output_log \<Rightarrow> output_log" where
  "write_all ws log = fold (\<lambda>(s, b). log_write s b) ws log"

lemma log_reads_write_all: "log_reads vs log \<Longrightarrow> log_reads (vs @ ws) (write_all ws log)"
proof (induction ws arbitrary: vs log)
  case Nil
  then show ?case by (simp add: write_all_def)
next
  case (Cons w ws)
  from Cons.IH [OF log_reads_write [OF Cons.prems, of "fst w" "snd w"]]
  show ?case by (simp add: write_all_def case_prod_unfold)
qed

section \<open>Lossy decoding\<close>

text \<open>At most \<^term>\<open>n\<close> continuation bytes, and what follows them.\<close>

fun continuation :: "nat \<Rightarrow> string \<Rightarrow> string \<times> string" where
  "continuation 0 s = ([], s)"
| "continuation (Suc n) [] = ([], [])"
| "continuation (Suc n) (c # s) =
     (if in_range 128 191 c then apfst ((#) c) (continuation n s) else ([], c # s))"

definition replacement :: string where
  "replacement = [CHR 0xEF, CHR 0xBF, CHR 0xBD]"

lemma continuation_split: "continuation n s = (t, r) \<Longrightarrow> s = t @ r \<and> length t \<le> n"
  by (induction n s arbitrary: t r rule: continuation.induct)
    (auto split: if_splits simp: apfst_def map_prod_def split: prod.splits)

lemma continuation_length [simp]: "length (snd (continuation n s)) \<le> length s"
  using continuation_split [of n s "fst (continuation n s)" "snd (continuation n s)"]
  by (metis le_add2 length_append prod.collapse)

function utf8_lossy :: "string \<Rightarrow> string" where
  "utf8_lossy [] = []"
| "utf8_lossy (c # s) =
     (if in_range 0 127 c then c # utf8_lossy s
      else (case utf8_lead c of
              None \<Rightarrow> replacement @ utf8_lossy s
            | Some (lo, hi, k) \<Rightarrow>
                (case s of
                   [] \<Rightarrow> replacement
                 | d # s' \<Rightarrow>
                     if \<not> in_range lo hi d then replacement @ utf8_lossy s
                     else if length (fst (continuation k s')) = k
                     then c # d # fst (continuation k s') @ utf8_lossy (snd (continuation k s'))
                     else replacement @ utf8_lossy (snd (continuation k s')))))"
  by pat_completeness auto
termination
  by (relation "measure length") (auto intro: le_less_trans [OF continuation_length])

lemma utf8_tail_continuation:
  "utf8_tail k s = (if length (fst (continuation k s)) = k then Some (snd (continuation k s)) else None)"
  by (induction k s rule: utf8_tail.induct) auto

lemma utf8_tail_back: "utf8_tail k s = Some r \<Longrightarrow> utf8_tail k (fst (continuation k s) @ t) = Some t"
  by (induction k s rule: utf8_tail.induct) (auto split: if_splits)

lemma lossy_valid: "valid_utf8 s \<Longrightarrow> utf8_lossy s = s"
proof (induction s rule: utf8_lossy.induct)
  case (2 c s)
  show ?case
  proof (cases "in_range 0 127 c")
    case True
    with 2 show ?thesis by simp
  next
    case False
    with 2(6) obtain lo hi k d s' r where l: "utf8_lead c = Some (lo, hi, k)" "s = d # s'"
      and d: "in_range lo hi d" and t: "utf8_tail k s' = Some r" and v: "valid_utf8 r"
      by (auto split: option.splits prod.splits list.splits)
    from t have k: "length (fst (continuation k s')) = k" "r = snd (continuation k s')"
      by (auto simp: utf8_tail_continuation split: if_splits)
    have "s' = fst (continuation k s') @ r"
      using continuation_split [of k s' "fst (continuation k s')" r] k by simp
    with 2(4) [OF False l(1) refl refl l(2) _ k(1)] d v k False l show ?thesis by simp
  qed
qed simp

lemma valid_replacement: "valid_utf8 s \<Longrightarrow> valid_utf8 (replacement @ s)"
  by (simp add: replacement_def in_range_def utf8_lead_def numeral_2_eq_2 Let_def)

lemma lossy_is_valid: "valid_utf8 (utf8_lossy s)"
proof (induction s rule: utf8_lossy.induct)
  case (2 c s)
  note ih = 2
  show ?case
  proof (cases "in_range 0 127 c")
    case True
    with ih(1) show ?thesis by simp
  next
    case False
    show ?thesis
    proof (cases "utf8_lead c")
      case None
      with ih(2) False show ?thesis by (simp add: valid_replacement)
    next
      case (Some x)
      obtain lo hi k where x: "x = (lo, hi, k)" by (cases x) auto
      show ?thesis
      proof (cases s)
        case Nil
        with False Some x valid_replacement [of "[]"] show ?thesis by simp
      next
        case (Cons d s')
        let ?t = "continuation k s'"
        note c = False Some x Cons
        show ?thesis
        proof (cases "in_range lo hi d")
          case True
          show ?thesis
          proof (cases "length (fst ?t) = k")
            case full: True
            from full have "utf8_tail k s' = Some (snd ?t)" by (simp add: utf8_tail_continuation)
            from utf8_tail_back [OF this] ih(4) [OF False Some [unfolded x] refl refl Cons _ full] True full c
            show ?thesis by simp
          next
            case False
            with ih(5) [OF c(1) Some [unfolded x] refl refl Cons] True c show ?thesis
              by (simp add: valid_replacement)
          qed
        next
          case bad: False
          with ih(3) [OF c(1) Some [unfolded x] refl refl Cons] c show ?thesis
            by (simp add: valid_replacement)
        qed
      qed
    qed
  qed
qed simp

section \<open>Input\<close>

record stdin_source =
  si_bytes :: string
  si_cursor :: nat

definition stdin_new :: "string \<Rightarrow> stdin_source" where
  "stdin_new bytes = \<lparr> si_bytes = bytes, si_cursor = 0 \<rparr>"

fun position_of :: "char \<Rightarrow> string \<Rightarrow> nat option" where
  "position_of b [] = None"
| "position_of b (c # s) = (if c = b then Some 0 else map_option Suc (position_of b s))"

definition drop_carriage_return :: "string \<Rightarrow> string" where
  "drop_carriage_return line = (if ends_with_char CHR 0x0D line then butlast line else line)"

definition read_line :: "stdin_source \<Rightarrow> stdin_source \<times> string option" where
  "read_line src =
     (if length (si_bytes src) \<le> si_cursor src then (src, None)
      else
        (let rest = drop (si_cursor src) (si_bytes src);
             (line_bytes, advance) =
               (case position_of CHR 0x0A rest of
                  Some nl \<Rightarrow> (take nl rest, nl + 1)
                | None \<Rightarrow> (rest, length rest))
         in (src\<lparr>si_cursor := si_cursor src + advance\<rparr>,
             Some (drop_carriage_return (utf8_lossy line_bytes)))))"

definition read_to_end :: "stdin_source \<Rightarrow> stdin_source \<times> string" where
  "read_to_end src =
     (src\<lparr>si_cursor := length (si_bytes src)\<rparr>, drop (si_cursor src) (si_bytes src))"

definition read_chunk :: "stdin_source \<Rightarrow> stdin_source \<times> string option" where
  "read_chunk src =
     (if length (si_bytes src) \<le> si_cursor src then (src, None)
      else (let (src', bytes) = read_to_end src in (src', Some bytes)))"

record stdio =
  st_output :: output_log
  st_input :: stdin_source

definition stdio_new :: "string \<Rightarrow> stdio" where
  "stdio_new stdin = \<lparr> st_output = log_new, st_input = stdin_new stdin \<rparr>"

text \<open>What is left to read; every read takes a prefix of it.\<close>

definition unread :: "stdin_source \<Rightarrow> string" where
  "unread src = drop (si_cursor src) (si_bytes src)"

lemma position_of_None: "position_of b s = None \<longleftrightarrow> b \<notin> set s"
  by (induction s) auto

lemma position_of_Some:
  "position_of b s = Some n \<Longrightarrow> s = take n s @ b # drop (Suc n) s \<and> b \<notin> set (take n s) \<and> n < length s"
  by (induction s arbitrary: n) (auto split: if_splits simp: map_option_case split: option.splits)

lemma read_to_end_exact: "read_to_end src = (src', s) \<Longrightarrow> s = unread src \<and> unread src' = []"
  by (auto simp: read_to_end_def unread_def)

lemma unread_end: "length (si_bytes src) \<le> si_cursor src \<longleftrightarrow> unread src = []"
  by (simp add: unread_def)

lemma read_line_None: "read_line src = (src', None) \<longleftrightarrow> unread src = [] \<and> src' = src"
  by (auto simp: read_line_def Let_def unread_def split: option.splits prod.splits if_splits)

lemma read_line_last:
  assumes "unread src \<noteq> []" and "CHR 0x0A \<notin> set (unread src)"
  shows "\<exists>src'. read_line src = (src', Some (drop_carriage_return (utf8_lossy (unread src)))) \<and>
    unread src' = []"
proof -
  from assms(2) have "position_of CHR 0x0A (unread src) = None" by (simp add: position_of_None)
  with assms(1) show ?thesis by (auto simp: read_line_def unread_def)
qed

lemma read_line_next:
  assumes "unread src = line @ CHR 0x0A # rest" and "CHR 0x0A \<notin> set line"
  shows "\<exists>src'. read_line src = (src', Some (drop_carriage_return (utf8_lossy line))) \<and>
    unread src' = rest"
proof -
  have p: "position_of CHR 0x0A (unread src) = Some (length line)"
    unfolding assms(1) using assms(2) by (induction line) auto
  have "unread (src\<lparr>si_cursor := si_cursor src + (length line + 1)\<rparr>) = drop (length line + 1) (unread src)"
    by (simp add: unread_def add.commute)
  also have "\<dots> = rest" using assms(1) by simp
  finally have u: "unread (src\<lparr>si_cursor := si_cursor src + (length line + 1)\<rparr>) = rest" .
  have t: "take (length line) (unread src) = line" using assms(1) by simp
  have "\<not> length (si_bytes src) \<le> si_cursor src" using assms(1) by (simp add: unread_end)
  with p t u show ?thesis by (auto simp: read_line_def unread_def)
qed

lemma read_line_shrinks:
  "read_line src = (src', Some l) \<Longrightarrow> length (si_bytes src') - si_cursor src' < length (si_bytes src) - si_cursor src"
  by (auto simp: read_line_def Let_def split: option.splits prod.splits if_splits
      dest: position_of_Some)

text \<open>Reading lines until the end of the input.\<close>

function drain_lines :: "stdin_source \<Rightarrow> string list" where
  "drain_lines src =
     (case read_line src of
        (src', None) \<Rightarrow> []
      | (src', Some line) \<Rightarrow> line # drain_lines src')"
  by pat_completeness auto
termination
  by (relation "measure (\<lambda>src. length (si_bytes src) - si_cursor src)")
    (auto intro: read_line_shrinks dest: sym)

declare drain_lines.simps [simp del]

text \<open>The lines of a text: what its newlines end, and what is left over if there is any.\<close>

definition lines_of :: "string \<Rightarrow> string list" where
  "lines_of s =
     (let ps = split_on CHR 0x0A s in if last ps = [] then butlast ps else ps)"

lemma lines_of_Nil: "lines_of [] = []"
  by (simp add: lines_of_def)

lemma lines_of_last: "s \<noteq> [] \<Longrightarrow> CHR 0x0A \<notin> set s \<Longrightarrow> lines_of s = [s]"
  by (simp add: lines_of_def split_on_no_sep)

lemma lines_of_next: "CHR 0x0A \<notin> set l \<Longrightarrow> lines_of (l @ CHR 0x0A # s) = l # lines_of s"
  by (simp add: lines_of_def split_on_append Let_def)

lemma drain_lines_exact:
  "drain_lines src = map (\<lambda>l. drop_carriage_return (utf8_lossy l)) (lines_of (unread src))"
proof (induction "length (unread src)" arbitrary: src rule: less_induct)
  case less
  show ?case
  proof (cases "CHR 0x0A \<in> set (unread src)")
    case True
    then obtain line rest where u: "unread src = line @ CHR 0x0A # rest" "CHR 0x0A \<notin> set line"
      using split_list_first by metis
    from read_line_next [OF this] obtain src' where
      r: "read_line src = (src', Some (drop_carriage_return (utf8_lossy line)))" "unread src' = rest"
      by blast
    with u less [of src'] show ?thesis
      by (subst drain_lines.simps) (simp add: lines_of_next)
  next
    case False
    show ?thesis
    proof (cases "unread src = []")
      case True
      then have "read_line src = (src, None)" by (simp add: read_line_None)
      with True show ?thesis by (subst drain_lines.simps) (simp add: lines_of_Nil)
    next
      case ne: False
      from read_line_last [OF this False] obtain src' where
        r: "read_line src = (src', Some (drop_carriage_return (utf8_lossy (unread src))))" "unread src' = []"
        by blast
      then have "read_line src' = (src', None)" by (simp add: read_line_None)
      then have "drain_lines src' = []" by (subst drain_lines.simps) simp
      with r ne False show ?thesis by (subst drain_lines.simps) (simp add: lines_of_last)
    qed
  qed
qed

section \<open>Signals\<close>

record signal_queue =
  sq_installed :: bool
  sq_pending :: "int list"

definition signals_new :: signal_queue where
  "signals_new = \<lparr> sq_installed = False, sq_pending = [] \<rparr>"

definition signals_install :: "signal_queue \<Rightarrow> signal_queue" where
  "signals_install q = q\<lparr>sq_installed := True\<rparr>"

definition signals_take :: "signal_queue \<Rightarrow> signal_queue \<times> int" where
  "signals_take q =
     (case sq_pending q of
        [] \<Rightarrow> (q, 0)
      | s # rest \<Rightarrow> (q\<lparr>sq_pending := rest\<rparr>, s))"

definition signals_deliver :: "int \<Rightarrow> signal_queue \<Rightarrow> signal_queue" where
  "signals_deliver sig q = (if sq_installed q then q\<lparr>sq_pending := sq_pending q @ [sig]\<rparr> else q)"

fun take_signals :: "nat \<Rightarrow> signal_queue \<Rightarrow> int list" where
  "take_signals 0 q = []"
| "take_signals (Suc n) q = (let (q', s) = signals_take q in s # take_signals n q')"

lemma signals_deliver_all:
  "sq_pending (fold signals_deliver sigs q) = sq_pending q @ (if sq_installed q then sigs else [])"
  "sq_installed (fold signals_deliver sigs q) = sq_installed q"
  by (induction sigs arbitrary: q) (auto simp: signals_deliver_def)

lemma take_signals_pending:
  "take_signals n q = take n (sq_pending q) @ replicate (n - length (sq_pending q)) 0"
proof (induction n arbitrary: q)
  case (Suc n)
  then show ?case by (cases "sq_pending q") (auto simp: signals_take_def)
qed simp

section \<open>Properties\<close>

text \<open>C11. The two streams are separate on the wire and ordered for display: whatever is written in
  whatever order, each stream reads back what was written to it, the rendering is every write in
  order, and adjacent segments are of different streams.\<close>

theorem log_is_faithful:
  "log_stdout (write_all ws log_new) = written Stdout ws \<and>
   log_stderr (write_all ws log_new) = written Stderr ws \<and>
   rendered (write_all ws log_new) = concat (map snd ws) \<and>
   (log_is_empty (write_all ws log_new) \<longleftrightarrow> concat (map snd ws) = []) \<and>
   successively (\<noteq>) (map sg_stream (ol_segments (write_all ws log_new)))"
proof -
  from log_reads_write_all [OF log_reads_new, of ws]
  have l: "log_reads ws (write_all ws log_new)" by simp
  from l log_reads_empty [OF l] show ?thesis
    by (simp add: log_reads_def log_stdout_def log_stderr_def)
qed

text \<open>Reading lines until the end of the input always ends and yields the input's lines, each
  decoded and without one carriage return at its end; on well-formed UTF-8 the decoding is the
  text itself.\<close>

theorem stdin_lines_exact:
  "drain_lines (stdin_new s) = map (\<lambda>l. drop_carriage_return (utf8_lossy l)) (lines_of s) \<and>
   (if valid_utf8 s then utf8_lossy s = s else valid_utf8 (utf8_lossy s))"
  using drain_lines_exact [of "stdin_new s"] lossy_valid [of s] lossy_is_valid [of s]
  by (simp add: unread_def stdin_new_def)

text \<open>Signals delivered before a handler is installed are dropped; after it, polling yields them
  oldest first, each once, and then zero.\<close>

theorem signals_first_in_first_out:
  "take_signals n (fold signals_deliver later
     (signals_install (fold signals_deliver early signals_new))) =
   take n later @ replicate (n - length later) 0"
  by (simp add: take_signals_pending signals_deliver_all signals_install_def signals_new_def)

text \<open>A last line that ends in a carriage return without a newline loses it, although only a
  newline, or a carriage return before one, is said to be a terminator.\<close>

theorem lone_carriage_return_is_dropped:
  "snd (read_line (stdin_new [CHR ''a'', CHR 0x0D])) = Some ''a''"
  by code_simp

end
