(* ===== verification/Platform.thy ===== *)
theory Platform
  imports Platform_Io Vfs_Session Ordered_Map
begin

text \<open>
  The effects a guest application performs (\<^verbatim>\<open>brush-platform/src\<close>): \<^verbatim>\<open>effects.rs\<close> and
  \<^verbatim>\<open>vfs_host.rs\<close> over one session, with its facts (\<^verbatim>\<open>facts.rs\<close>), its streams, its jobs
  (\<^verbatim>\<open>cmd.rs\<close>), its signals, its clock and its random source. What runs a command, the clock and the
  source of randomness are traits of the code and functions in the platform's record here.

  An effect always answers, with a value or a \<^verbatim>\<open>PlatformError\<close>; a method on \<^verbatim>\<open>&mut self\<close> gives the
  platform after it together with its answer.
\<close>

unbundle bit_operations_syntax

section \<open>Errors\<close>

text \<open>The text of \<^verbatim>\<open>Other\<close>: fixed, that of an I/O error, or that after a prefix.\<close>

datatype other_text = FixedText string | ErrorText io_error | PrefixedText string io_error

datatype platform_error =
    PeAlreadyExists | PeBrokenPipe | PeInterrupted | PeIsADirectory | PeNotFound
  | PeNotADirectory | PeOther other_text | PeOutOfMemory | PePermissionDenied | PeUnsupported

definition from_io :: "io_error \<Rightarrow> platform_error" where
  "from_io e =
     (case kind e of
        NotFound \<Rightarrow> PeNotFound
      | AlreadyExists \<Rightarrow> PeAlreadyExists
      | PermissionDenied \<Rightarrow> PePermissionDenied
      | BrokenPipe \<Rightarrow> PeBrokenPipe
      | Interrupted \<Rightarrow> PeInterrupted
      | OutOfMemory \<Rightarrow> PeOutOfMemory
      | Unsupported \<Rightarrow> PeUnsupported
      | IsADirectory \<Rightarrow> PeIsADirectory
      | NotADirectory \<Rightarrow> PeNotADirectory
      | _ \<Rightarrow> PeOther (ErrorText e))"

section \<open>Answers\<close>

type_synonym ('w, 'a) sure = "'w \<Rightarrow> 'a \<times> request list \<times> 'w"
type_synonym ('w, 'a) effect = "('w, platform_error + 'a) sure"

definition sure_return :: "'a \<Rightarrow> ('w, 'a) sure" where
  "sure_return x = (\<lambda>w. (x, [], w))"

definition sure_bind :: "('w, 'a) sure \<Rightarrow> ('a \<Rightarrow> ('w, 'b) sure) \<Rightarrow> ('w, 'b) sure" where
  "sure_bind m f =
     (\<lambda>w. case m w of (x, qs, w') \<Rightarrow> (case f x w' of (y, qs', w'') \<Rightarrow> (y, qs @ qs', w'')))"

text \<open>\<^verbatim>\<open>map_err(|e| io(&e))\<close> on a call of the filesystem, and \<^verbatim>\<open>?\<close> on an effect.\<close>

definition effect :: "('w, 'a) io \<Rightarrow> ('w, 'a) effect" where
  "effect m = (\<lambda>w. case m w of (r, qs, w') \<Rightarrow> (map_err from_io r, qs, w'))"

definition effect_then :: "('w, 'a) effect \<Rightarrow> ('a \<Rightarrow> ('w, 'b) effect) \<Rightarrow> ('w, 'b) effect" where
  "effect_then m f = sure_bind m (\<lambda>r. case r of Inl e \<Rightarrow> sure_return (Inl e) | Inr x \<Rightarrow> f x)"

section \<open>Commands and jobs\<close>

type_synonym i32 = "32 word"

record cmd =
  cmd_program :: string
  cmd_args :: "string list"
  cmd_envs :: "(string \<times> string) list"
  cmd_clear_envs :: bool

definition cmd_new :: "string \<Rightarrow> cmd" where
  "cmd_new program =
     \<lparr> cmd_program = program, cmd_args = [], cmd_envs = [], cmd_clear_envs = False \<rparr>"

definition cmd_with_args :: "string list \<Rightarrow> cmd \<Rightarrow> cmd" where
  "cmd_with_args args c = c\<lparr>cmd_args := cmd_args c @ args\<rparr>"

datatype exit = ExitCode i32 | ExitSignal i32
datatype output_mode = InheritOutput | CaptureOutput
datatype stdin_mode = InheritStdin | NullStdin

record io_plan =
  ip_output :: output_mode
  ip_stdin :: stdin_mode

definition plan_inherit :: io_plan where
  "plan_inherit = \<lparr> ip_output = InheritOutput, ip_stdin = InheritStdin \<rparr>"

definition plan_capture :: "stdin_mode \<Rightarrow> io_plan" where
  "plan_capture stdin = \<lparr> ip_output = CaptureOutput, ip_stdin = stdin \<rparr>"

type_synonym job_handle = u64

record finished =
  fin_exit :: exit
  fin_captured :: "(string \<times> string) option"

record run_result =
  rr_exit :: exit
  rr_stdout :: string
  rr_stderr :: string

type_synonym 'w executor = "cmd \<Rightarrow> string \<Rightarrow> ('w, run_result) effect"

datatype exec_output =
    ExecSuccess string string
  | NonZeroExit i32 string string

datatype path_kind = KindFile | KindDir | KindSymLink | KindOther

section \<open>Facts\<close>

datatype target_os = OsLinux | OsMacOs | OsWindows | OsOther string
datatype target_arch = ArchX86 | ArchX64 | ArchArm | ArchAarch64 | ArchOther string

record platform_target =
  pt_os :: target_os
  pt_arch :: target_arch

definition EXE_PATH :: string where
  "EXE_PATH = ''/bin/just''"

record session_facts =
  sf_env :: "(string \<times> string) list"
  sf_platform :: platform_target
  sf_pid :: int
  sf_num_cpus :: int
  sf_temp_dir :: string

definition facts_neutral :: session_facts where
  "facts_neutral =
     \<lparr> sf_env = [], sf_platform = \<lparr> pt_os = OsLinux, pt_arch = ArchX64 \<rparr>, sf_pid = 1,
       sf_num_cpus = 1, sf_temp_dir = ''/tmp'' \<rparr>"

section \<open>The platform\<close>

record 'w clock =
  ck_now_nanos :: "('w, nat option) sure"
  ck_tz_offset :: "('w, int) sure"

record 'w platform =
  pf_session :: session
  pf_facts :: session_facts
  pf_stdio :: stdio
  pf_executor :: "'w executor option"
  pf_jobs :: "job_handle \<rightharpoonup> finished"
  pf_next_handle :: u64
  pf_signals :: signal_queue
  pf_clock :: "'w clock"
  pf_rng :: "('w, u64) sure"

text \<open>The system clock reads the host and reports no offset; the system source asks the host.\<close>

definition system_clock :: "'w host \<Rightarrow> 'w clock" where
  "system_clock H =
     \<lparr> ck_now_nanos = (\<lambda>w. case call (h_int H) WallClock w of
         (r, qs, w') \<Rightarrow> (case r of Inr n \<Rightarrow> if 0 \<le> n then Some (nat n) else None | Inl e \<Rightarrow> None, qs, w')),
       ck_tz_offset = sure_return 0 \<rparr>"

definition system_rng :: "'w host \<Rightarrow> ('w, u64) sure" where
  "system_rng H = (\<lambda>w. case call (h_num H) RandomU64 w of
     (r, qs, w') \<Rightarrow> (case r of Inr n \<Rightarrow> word_of_nat n | Inl e \<Rightarrow> 0, qs, w'))"

definition platform_new :: "'w host \<Rightarrow> session \<Rightarrow> session_facts \<Rightarrow> 'w platform" where
  "platform_new H s facts =
     \<lparr> pf_session = s, pf_facts = facts, pf_stdio = stdio_new [], pf_executor = None,
       pf_jobs = Map.empty, pf_next_handle = 0, pf_signals = signals_new,
       pf_clock = system_clock H, pf_rng = system_rng H \<rparr>"

definition with_clock :: "'w clock \<Rightarrow> 'w platform \<Rightarrow> 'w platform" where
  "with_clock c p = p\<lparr>pf_clock := c\<rparr>"

definition with_rng :: "('w, u64) sure \<Rightarrow> 'w platform \<Rightarrow> 'w platform" where
  "with_rng r p = p\<lparr>pf_rng := r\<rparr>"

definition with_stdin :: "string \<Rightarrow> 'w platform \<Rightarrow> 'w platform" where
  "with_stdin stdin p = p\<lparr>pf_stdio := stdio_new stdin\<rparr>"

definition with_executor :: "'w executor \<Rightarrow> 'w platform \<Rightarrow> 'w platform" where
  "with_executor ex p = p\<lparr>pf_executor := Some ex\<rparr>"

definition deliver_signal :: "int \<Rightarrow> 'w platform \<Rightarrow> 'w platform" where
  "deliver_signal sig p = p\<lparr>pf_signals := signals_deliver sig (pf_signals p)\<rparr>"

definition mint_handle :: "'w platform \<Rightarrow> 'w platform \<times> job_handle" where
  "mint_handle p = (p\<lparr>pf_next_handle := pf_next_handle p + 1\<rparr>, pf_next_handle p)"

section \<open>Filesystem effects\<close>

definition platform_resolve :: "unicode \<Rightarrow> 'w platform \<Rightarrow> string \<Rightarrow> ('w, virtual_path) effect" where
  "platform_resolve u p path =
     sure_return (map_err (\<lambda>e. PeNotFound) (session_resolve u (pf_session p) path))"

definition probe :: "'w host \<Rightarrow> unicode \<Rightarrow> 'w platform \<Rightarrow> string \<Rightarrow> bool \<Rightarrow> ('w, file_facts) effect" where
  "probe H u p path follow =
     effect_then (platform_resolve u p path) (\<lambda>vp.
     effect_then (effect (vfs_facts H u (s_vfs (pf_session p)) vp follow)) (\<lambda>f.
       sure_return (case f of None \<Rightarrow> Inl PeNotFound | Some facts \<Rightarrow> Inr facts)))"

text \<open>Resolve, then one call of the filesystem.\<close>

definition on_path ::
  "unicode \<Rightarrow> 'w platform \<Rightarrow> string \<Rightarrow> (mount_table \<Rightarrow> virtual_path \<Rightarrow> ('w, 'a) io) \<Rightarrow> ('w, 'a) effect" where
  "on_path u p path op =
     effect_then (platform_resolve u p path) (\<lambda>vp. effect (op (s_vfs (pf_session p)) vp))"

definition on_paths ::
  "unicode \<Rightarrow> 'w platform \<Rightarrow> string \<Rightarrow> string \<Rightarrow>
   (mount_table \<Rightarrow> virtual_path \<Rightarrow> virtual_path \<Rightarrow> ('w, 'a) io) \<Rightarrow> ('w, 'a) effect" where
  "on_paths u p a b op =
     effect_then (platform_resolve u p a) (\<lambda>x.
     effect_then (platform_resolve u p b) (\<lambda>y. effect (op (s_vfs (pf_session p)) x y)))"

definition file_read_bytes :: "'w host \<Rightarrow> unicode \<Rightarrow> 'w platform \<Rightarrow> string \<Rightarrow> ('w, string) effect" where
  "file_read_bytes H u p path =
     on_path u p path (\<lambda>t vp. try_then (vfs_open H u t vp) (\<lambda>f. call (h_bytes H) (ReadToEnd f)))"

definition file_read_utf8 :: "'w host \<Rightarrow> unicode \<Rightarrow> 'w platform \<Rightarrow> string \<Rightarrow> ('w, string) effect" where
  "file_read_utf8 H u p path =
     effect_then (file_read_bytes H u p path) (\<lambda>bytes.
       sure_return (if valid_utf8 bytes then Inr bytes
                    else Inl (PeOther (FixedText ''file is not valid UTF-8''))))"

definition file_write_bytes ::
  "'w host \<Rightarrow> unicode \<Rightarrow> 'w platform \<Rightarrow> string \<Rightarrow> string \<Rightarrow> ('w, unit) effect" where
  "file_write_bytes H u p path bytes =
     on_path u p path (\<lambda>t vp. try_then (vfs_create H u t vp) (\<lambda>f. call (h_unit H) (WriteAll f bytes)))"

definition file_write_utf8 ::
  "'w host \<Rightarrow> unicode \<Rightarrow> 'w platform \<Rightarrow> string \<Rightarrow> string \<Rightarrow> ('w, unit) effect" where
  "file_write_utf8 H u p path contents =
     on_path u p path (\<lambda>t vp. try_then (vfs_create H u t vp) (\<lambda>f. call (h_unit H) (WriteAll f contents)))"

definition path_type :: "'w host \<Rightarrow> unicode \<Rightarrow> 'w platform \<Rightarrow> string \<Rightarrow> ('w, path_kind) effect" where
  "path_type H u p path =
     effect_then (probe H u p path False) (\<lambda>facts.
       sure_return (Inr
         (if ff_is_symlink facts then KindSymLink
          else if ff_is_dir facts then KindDir
          else if ff_is_file facts then KindFile
          else KindOther)))"

definition dir_create_all :: "'w host \<Rightarrow> unicode \<Rightarrow> 'w platform \<Rightarrow> string \<Rightarrow> ('w, unit) effect" where
  "dir_create_all H u p path = on_path u p path (vfs_create_dir_all H u)"

fun join_names :: "unicode \<Rightarrow> virtual_path \<Rightarrow> string list \<Rightarrow> platform_error + string list" where
  "join_names u vp [] = Inr []"
| "join_names u vp (name # names) =
     (case resolve u vp name of
        Inl e \<Rightarrow> Inl PeNotFound
      | Inr child \<Rightarrow>
          (case join_names u vp names of
             Inl e \<Rightarrow> Inl e
           | Inr paths \<Rightarrow> Inr (inner child # paths)))"

definition dir_list :: "'w host \<Rightarrow> unicode \<Rightarrow> 'w platform \<Rightarrow> string \<Rightarrow> ('w, string list) effect" where
  "dir_list H u p path =
     effect_then (platform_resolve u p path) (\<lambda>vp.
     effect_then (effect (vfs_read_dir_names H u (s_vfs (pf_session p)) vp)) (\<lambda>names.
       sure_return (join_names u vp names)))"

definition file_delete :: "'w host \<Rightarrow> unicode \<Rightarrow> 'w platform \<Rightarrow> string \<Rightarrow> ('w, unit) effect" where
  "file_delete H u p path = on_path u p path (vfs_remove_file H u)"

definition path_canonicalize :: "'w host \<Rightarrow> unicode \<Rightarrow> 'w platform \<Rightarrow> string \<Rightarrow> ('w, string) effect" where
  "path_canonicalize H u p path =
     effect_then (on_path u p path (vfs_canonicalize H u)) (\<lambda>c. sure_return (Inr (inner c)))"

text \<open>\<^verbatim>\<open>0o111\<close>: the three execute bits.\<close>

definition EXEC_BITS :: u32 where
  "EXEC_BITS = 0x49"

definition updated_mode :: "bool \<Rightarrow> u32 \<Rightarrow> u32" where
  "updated_mode runnable mode =
     (if runnable then mode OR EXEC_BITS else mode AND NOT EXEC_BITS)"

definition set_executable ::
  "'w host \<Rightarrow> unicode \<Rightarrow> session \<Rightarrow> virtual_path \<Rightarrow> bool \<Rightarrow> ('w, unit) effect" where
  "set_executable H u s vp runnable =
     effect (try_then (vfs_metadata H u (s_vfs s) vp) (\<lambda>md.
       vfs_set_permissions H u (s_vfs s) vp (updated_mode runnable (md_mode md))))"

definition file_set_executable ::
  "'w host \<Rightarrow> unicode \<Rightarrow> 'w platform \<Rightarrow> string \<Rightarrow> bool \<Rightarrow> ('w, unit) effect" where
  "file_set_executable H u p path runnable =
     effect_then (platform_resolve u p path) (\<lambda>vp. set_executable H u (pf_session p) vp runnable)"

definition may_access ::
  "'w host \<Rightarrow> unicode \<Rightarrow> 'w platform \<Rightarrow> string \<Rightarrow> access_modes \<Rightarrow> ('w, bool) effect" where
  "may_access H u p path modes =
     effect_then (probe H u p path True) (\<lambda>_. on_path u p path (\<lambda>t vp. vfs_access H u t vp modes))"

definition file_is_executable :: "'w host \<Rightarrow> unicode \<Rightarrow> 'w platform \<Rightarrow> string \<Rightarrow> ('w, bool) effect" where
  "file_is_executable H u p path =
     may_access H u p path \<lparr> readable = False, writable = False, executable = True \<rparr>"

definition file_is_readable :: "'w host \<Rightarrow> unicode \<Rightarrow> 'w platform \<Rightarrow> string \<Rightarrow> ('w, bool) effect" where
  "file_is_readable H u p path =
     may_access H u p path \<lparr> readable = True, writable = False, executable = False \<rparr>"

definition file_is_writable :: "'w host \<Rightarrow> unicode \<Rightarrow> 'w platform \<Rightarrow> string \<Rightarrow> ('w, bool) effect" where
  "file_is_writable H u p path =
     may_access H u p path \<lparr> readable = False, writable = True, executable = False \<rparr>"

definition dir_delete_empty :: "'w host \<Rightarrow> unicode \<Rightarrow> 'w platform \<Rightarrow> string \<Rightarrow> ('w, unit) effect" where
  "dir_delete_empty H u p path = on_path u p path (vfs_remove_dir H u)"

definition dir_delete_all :: "'w host \<Rightarrow> unicode \<Rightarrow> 'w platform \<Rightarrow> string \<Rightarrow> ('w, unit) effect" where
  "dir_delete_all H u p path = on_path u p path (vfs_remove_dir_all H u)"

definition dir_create :: "'w host \<Rightarrow> unicode \<Rightarrow> 'w platform \<Rightarrow> string \<Rightarrow> ('w, unit) effect" where
  "dir_create H u p path = on_path u p path (vfs_create_dir H u)"

definition file_size_in_bytes :: "'w host \<Rightarrow> unicode \<Rightarrow> 'w platform \<Rightarrow> string \<Rightarrow> ('w, u64) effect" where
  "file_size_in_bytes H u p path =
     effect_then (on_path u p path (vfs_metadata H u)) (\<lambda>md. sure_return (Inr (md_len md)))"

definition file_time_accessed :: "string \<Rightarrow> ('w, nat) effect" where
  "file_time_accessed path = sure_return (Inl PeUnsupported)"

definition file_time_modified :: "string \<Rightarrow> ('w, nat) effect" where
  "file_time_modified path = sure_return (Inl PeUnsupported)"

definition file_time_created :: "string \<Rightarrow> ('w, nat) effect" where
  "file_time_created path = sure_return (Inl PeUnsupported)"

definition file_hard_link :: "'w host \<Rightarrow> unicode \<Rightarrow> 'w platform \<Rightarrow> string \<Rightarrow> string \<Rightarrow> ('w, unit) effect" where
  "file_hard_link H u p original link = on_paths u p original link (vfs_hard_link H u)"

definition file_rename :: "'w host \<Rightarrow> unicode \<Rightarrow> 'w platform \<Rightarrow> string \<Rightarrow> string \<Rightarrow> ('w, unit) effect" where
  "file_rename H u p from to = on_paths u p from to (vfs_rename H u)"

section \<open>Environment effects\<close>

definition env_var :: "'w platform \<Rightarrow> string \<Rightarrow> string option" where
  "env_var p name = map_of (sf_env (pf_facts p)) name"

definition env_dict :: "'w platform \<Rightarrow> (string \<times> string) list" where
  "env_dict p = sf_env (pf_facts p)"

definition env_cwd :: "'w platform \<Rightarrow> string" where
  "env_cwd p = inner (s_cwd (pf_session p))"

text \<open>A method on \<^verbatim>\<open>&mut self\<close>.\<close>

type_synonym ('w, 'a) mut_effect = "'w platform \<Rightarrow> ('w, 'w platform \<times> (platform_error + 'a)) sure"

definition mut_then :: "('w, 'w platform \<times> (platform_error + 'a)) sure \<Rightarrow>
    ('a \<Rightarrow> ('w, 'b) mut_effect) \<Rightarrow> ('w, 'w platform \<times> (platform_error + 'b)) sure" where
  "mut_then m f =
     sure_bind m (\<lambda>(p, r). case r of Inl e \<Rightarrow> sure_return (p, Inl e) | Inr x \<Rightarrow> f x p)"

definition env_set_cwd :: "'w host \<Rightarrow> unicode \<Rightarrow> string \<Rightarrow> ('w, unit) mut_effect" where
  "env_set_cwd H u path p =
     sure_bind (effect (set_cwd H u (pf_session p) path)) (\<lambda>r.
       sure_return (case r of
         Inl e \<Rightarrow> (p, Inl e)
       | Inr s \<Rightarrow> (p\<lparr>pf_session := s\<rparr>, Inr ())))"

definition env_temp_dir :: "'w platform \<Rightarrow> string" where
  "env_temp_dir p = sf_temp_dir (pf_facts p)"

definition env_exe_path :: "'w platform \<Rightarrow> string" where
  "env_exe_path p = EXE_PATH"

definition env_platform :: "'w platform \<Rightarrow> platform_target" where
  "env_platform p = sf_platform (pf_facts p)"

definition env_pid :: "'w platform \<Rightarrow> int" where
  "env_pid p = sf_pid (pf_facts p)"

definition env_num_cpus :: "'w platform \<Rightarrow> int" where
  "env_num_cpus p = sf_num_cpus (pf_facts p)"

section \<open>Streams\<close>

definition output_write :: "stream \<Rightarrow> string \<Rightarrow> 'w platform \<Rightarrow> 'w platform" where
  "output_write stream bytes p =
     p\<lparr>pf_stdio := (pf_stdio p)\<lparr>st_output := log_write stream bytes (st_output (pf_stdio p))\<rparr>\<rparr>"

definition input_set :: "stdin_source \<Rightarrow> 'w platform \<Rightarrow> 'w platform" where
  "input_set src p = p\<lparr>pf_stdio := (pf_stdio p)\<lparr>st_input := src\<rparr>\<rparr>"

definition stdout_write :: "string \<Rightarrow> ('w, unit) mut_effect" where
  "stdout_write text p = sure_return (output_write Stdout text p, Inr ())"

definition stdout_line :: "string \<Rightarrow> ('w, unit) mut_effect" where
  "stdout_line text p =
     sure_return (output_write Stdout [CHR 0x0A] (output_write Stdout text p), Inr ())"

definition stderr_write :: "string \<Rightarrow> ('w, unit) mut_effect" where
  "stderr_write text p = sure_return (output_write Stderr text p, Inr ())"

definition stderr_line :: "string \<Rightarrow> ('w, unit) mut_effect" where
  "stderr_line text p =
     sure_return (output_write Stderr [CHR 0x0A] (output_write Stderr text p), Inr ())"

definition stdout_write_bytes :: "string \<Rightarrow> ('w, unit) mut_effect" where
  "stdout_write_bytes bytes p = sure_return (output_write Stdout bytes p, Inr ())"

definition stderr_write_bytes :: "string \<Rightarrow> ('w, unit) mut_effect" where
  "stderr_write_bytes bytes p = sure_return (output_write Stderr bytes p, Inr ())"

definition stdin_line :: "('w, string option) mut_effect" where
  "stdin_line p =
     (let (src, line) = read_line (st_input (pf_stdio p)) in sure_return (input_set src p, Inr line))"

definition stdin_read_to_end :: "('w, string) mut_effect" where
  "stdin_read_to_end p =
     (let (src, bytes) = read_to_end (st_input (pf_stdio p)) in sure_return (input_set src p, Inr bytes))"

definition stdin_bytes :: "('w, string option) mut_effect" where
  "stdin_bytes p =
     (let (src, bytes) = read_chunk (st_input (pf_stdio p)) in sure_return (input_set src p, Inr bytes))"

section \<open>Execution\<close>

definition NO_EXECUTOR :: platform_error where
  "NO_EXECUTOR = PeUnsupported"

text \<open>The end of \<^verbatim>\<open>spawn\<close>: apply the output plan, mint a handle, keep the result under it.\<close>

definition store_result :: "io_plan \<Rightarrow> run_result \<Rightarrow> 'w platform \<Rightarrow> 'w platform \<times> job_handle" where
  "store_result plan res p =
     (let (p, captured) =
        (case ip_output plan of
           InheritOutput \<Rightarrow>
             (output_write Stderr (rr_stderr res) (output_write Stdout (rr_stdout res) p), None)
         | CaptureOutput \<Rightarrow> (p, Some (rr_stdout res, rr_stderr res)));
          (p, handle) = mint_handle p
      in (p\<lparr>pf_jobs := (pf_jobs p)(handle \<mapsto>
            \<lparr> fin_exit = rr_exit res, fin_captured = captured \<rparr>)\<rparr>, handle))"

definition spawn :: "cmd \<Rightarrow> io_plan \<Rightarrow> ('w, job_handle) mut_effect" where
  "spawn c plan p =
     (let (src, stdin) =
        (case ip_stdin plan of
           InheritStdin \<Rightarrow> read_to_end (st_input (pf_stdio p))
         | NullStdin \<Rightarrow> (st_input (pf_stdio p), []));
          p = input_set src p
      in case pf_executor p of
           None \<Rightarrow> sure_return (p, Inl NO_EXECUTOR)
         | Some run \<Rightarrow>
             sure_bind (run c stdin) (\<lambda>ran. sure_return
               (case ran of
                  Inl e \<Rightarrow> (p, Inl e)
                | Inr res \<Rightarrow> (let (p, handle) = store_result plan res p in (p, Inr handle)))))"

fun wait_any :: "job_handle list \<Rightarrow> 'w platform \<Rightarrow> 'w platform \<times> (platform_error + job_handle \<times> finished)" where
  "wait_any [] p =
     (p, Inl (PeOther (FixedText ''wait_any: no such job (empty list, or already waited)'')))"
| "wait_any (handle # handles) p =
     (case pf_jobs p handle of
        Some fin \<Rightarrow> (p\<lparr>pf_jobs := (pf_jobs p)(handle := None)\<rparr>, Inr (handle, fin))
      | None \<Rightarrow> wait_any handles p)"

text \<open>Run to the end through \<^verbatim>\<open>spawn\<close> and \<^verbatim>\<open>wait_any\<close>, as every \<^verbatim>\<open>exec\<close> effect does.\<close>

definition run_to_end :: "cmd \<Rightarrow> io_plan \<Rightarrow> ('w, finished) mut_effect" where
  "run_to_end c plan p =
     mut_then (spawn c plan p) (\<lambda>handle.
       \<lambda>p. mut_then (sure_return (wait_any [handle] p)) (\<lambda>(_, fin). \<lambda>p. sure_return (p, Inr fin)))"

definition exec_capturing :: "cmd \<Rightarrow> stdin_mode \<Rightarrow> ('w, exec_output) mut_effect" where
  "exec_capturing c stdin p =
     mut_then (run_to_end c (plan_capture stdin) p) (\<lambda>fin. \<lambda>p.
       let (out, err) = (case fin_captured fin of Some x \<Rightarrow> x | None \<Rightarrow> ([], [])) in
       sure_return (p, Inr
         (case fin_exit fin of
            ExitCode code \<Rightarrow> (if code = 0 then ExecSuccess out err else NonZeroExit code out err)
          | ExitSignal signal \<Rightarrow> NonZeroExit (128 + signal) out err)))"

definition cmd_exec_exit_code :: "cmd \<Rightarrow> ('w, i32) mut_effect" where
  "cmd_exec_exit_code c p =
     mut_then (run_to_end c plan_inherit p) (\<lambda>fin. \<lambda>p.
       sure_return (p,
         case fin_exit fin of
           ExitCode code \<Rightarrow> Inr code
         | ExitSignal _ \<Rightarrow> Inl (PeOther (FixedText ''child terminated by a signal''))))"

definition cmd_exec_status :: "cmd \<Rightarrow> ('w, i32) mut_effect" where
  "cmd_exec_status c p =
     mut_then (run_to_end c plan_inherit p) (\<lambda>fin. \<lambda>p.
       sure_return (p, Inr (case fin_exit fin of ExitCode code \<Rightarrow> code | ExitSignal signal \<Rightarrow> - signal)))"

definition cmd_exec_output :: "cmd \<Rightarrow> ('w, exec_output) mut_effect" where
  "cmd_exec_output c p = exec_capturing c NullStdin p"

definition cmd_exec_output_inherit_stdin :: "cmd \<Rightarrow> ('w, exec_output) mut_effect" where
  "cmd_exec_output_inherit_stdin c p = exec_capturing c InheritStdin p"

section \<open>Signals, clock, randomness, expressions\<close>

definition signal_install :: "'w platform \<Rightarrow> 'w platform" where
  "signal_install p = p\<lparr>pf_signals := signals_install (pf_signals p)\<rparr>"

definition signal_take :: "'w platform \<Rightarrow> 'w platform \<times> int" where
  "signal_take p = (let (q, sig) = signals_take (pf_signals p) in (p\<lparr>pf_signals := q\<rparr>, sig))"

definition utc_now :: "'w platform \<Rightarrow> ('w, nat) effect" where
  "utc_now p =
     sure_bind (ck_now_nanos (pf_clock p)) (\<lambda>r.
       sure_return (case r of None \<Rightarrow> Inl (PeOther (FixedText ''clock is before the epoch'')) | Some n \<Rightarrow> Inr n))"

definition tz_offset_seconds :: "'w platform \<Rightarrow> ('w, int) sure" where
  "tz_offset_seconds p = ck_tz_offset (pf_clock p)"

definition random_seed_u64 :: "'w platform \<Rightarrow> ('w, u64) effect" where
  "random_seed_u64 p = sure_bind (pf_rng p) (\<lambda>n. sure_return (Inr n))"

definition random_seed_u32 :: "'w platform \<Rightarrow> ('w, u32) effect" where
  "random_seed_u32 p = sure_bind (pf_rng p) (\<lambda>n. sure_return (Inr (ucast n)))"

text \<open>The regular expression engine is a library: compile, match, replace.\<close>

definition regex_is_match ::
  "(string \<Rightarrow> string + 'r) \<Rightarrow> ('r \<Rightarrow> string \<Rightarrow> bool) \<Rightarrow> string \<Rightarrow> string \<Rightarrow> string + bool" where
  "regex_is_match compile matches pat haystack =
     (case compile pat of Inl e \<Rightarrow> Inl e | Inr r \<Rightarrow> Inr (matches r haystack))"

definition regex_replace_all ::
  "(string \<Rightarrow> string + 'r) \<Rightarrow> ('r \<Rightarrow> string \<Rightarrow> string \<Rightarrow> string) \<Rightarrow> string \<Rightarrow> string \<Rightarrow> string \<Rightarrow>
   string + string" where
  "regex_replace_all compile replace pat haystack substitute =
     (case compile pat of Inl e \<Rightarrow> Inl e | Inr r \<Rightarrow> Inr (replace r haystack substitute))"

section \<open>Every effect\<close>

datatype platform_op =
    FileReadUtf8 string | FileReadBytes string | FileWriteUtf8 string string
  | FileWriteBytes string string | PathType string | DirCreateAll string | DirList string
  | FileDelete string | PathCanonicalize string | FileSetExecutable string bool
  | FileIsExecutable string | FileIsReadable string | FileIsWritable string
  | DirDeleteEmpty string | DirDeleteAll string | DirCreate string | FileSize string
  | FileHardLink string string | FileRename string string
  | EnvSetCwd string | StdoutWrite string | StderrWrite string
  | StdoutLine string | StderrLine string
  | StdinLine | StdinReadToEnd | StdinBytes
  | Spawn cmd io_plan | WaitAny "job_handle list"
  | ExecExitCode cmd | ExecStatus cmd | ExecOutput cmd | ExecOutputInheritStdin cmd
  | SignalInstall | SignalTake | UtcNow | RandomU64Effect | DeliverSignal int

text \<open>What of an answer outlives the call: a handle, or a job's result.\<close>

datatype answer = Plain | Minted job_handle | Collected job_handle finished

definition plainly :: "platform_error + 'a \<Rightarrow> platform_error + answer" where
  "plainly r = (case r of Inl e \<Rightarrow> Inl e | Inr x \<Rightarrow> Inr Plain)"

definition observe :: "'w platform \<Rightarrow> ('w, 'a) effect \<Rightarrow> ('w, 'w platform \<times> (platform_error + answer)) sure" where
  "observe p m = sure_bind m (\<lambda>r. sure_return (p, plainly r))"

definition advance :: "('w, 'w platform \<times> (platform_error + 'a)) sure \<Rightarrow>
    ('w, 'w platform \<times> (platform_error + answer)) sure" where
  "advance m = sure_bind m (\<lambda>(p, r). sure_return (p, plainly r))"

fun platform_exec :: "'w host \<Rightarrow> unicode \<Rightarrow> platform_op \<Rightarrow> ('w, answer) mut_effect" where
  "platform_exec H u (FileReadUtf8 s) p = observe p (file_read_utf8 H u p s)"
| "platform_exec H u (FileReadBytes s) p = observe p (file_read_bytes H u p s)"
| "platform_exec H u (FileWriteUtf8 s c) p = observe p (file_write_utf8 H u p s c)"
| "platform_exec H u (FileWriteBytes s c) p = observe p (file_write_bytes H u p s c)"
| "platform_exec H u (PathType s) p = observe p (path_type H u p s)"
| "platform_exec H u (DirCreateAll s) p = observe p (dir_create_all H u p s)"
| "platform_exec H u (DirList s) p = observe p (dir_list H u p s)"
| "platform_exec H u (FileDelete s) p = observe p (file_delete H u p s)"
| "platform_exec H u (PathCanonicalize s) p = observe p (path_canonicalize H u p s)"
| "platform_exec H u (FileSetExecutable s b) p = observe p (file_set_executable H u p s b)"
| "platform_exec H u (FileIsExecutable s) p = observe p (file_is_executable H u p s)"
| "platform_exec H u (FileIsReadable s) p = observe p (file_is_readable H u p s)"
| "platform_exec H u (FileIsWritable s) p = observe p (file_is_writable H u p s)"
| "platform_exec H u (DirDeleteEmpty s) p = observe p (dir_delete_empty H u p s)"
| "platform_exec H u (DirDeleteAll s) p = observe p (dir_delete_all H u p s)"
| "platform_exec H u (DirCreate s) p = observe p (dir_create H u p s)"
| "platform_exec H u (FileSize s) p = observe p (file_size_in_bytes H u p s)"
| "platform_exec H u (FileHardLink a b) p = observe p (file_hard_link H u p a b)"
| "platform_exec H u (FileRename a b) p = observe p (file_rename H u p a b)"
| "platform_exec H u (EnvSetCwd s) p = advance (env_set_cwd H u s p)"
| "platform_exec H u (StdoutWrite s) p = advance (stdout_write s p)"
| "platform_exec H u (StderrWrite s) p = advance (stderr_write s p)"
| "platform_exec H u (StdoutLine s) p = advance (stdout_line s p)"
| "platform_exec H u (StderrLine s) p = advance (stderr_line s p)"
| "platform_exec H u StdinLine p = advance (stdin_line p)"
| "platform_exec H u StdinReadToEnd p = advance (stdin_read_to_end p)"
| "platform_exec H u StdinBytes p = advance (stdin_bytes p)"
| "platform_exec H u (Spawn c plan) p =
     mut_then (spawn c plan p) (\<lambda>h. \<lambda>p. sure_return (p, Inr (Minted h)))"
| "platform_exec H u (WaitAny hs) p =
     mut_then (sure_return (wait_any hs p)) (\<lambda>(h, fin). \<lambda>p. sure_return (p, Inr (Collected h fin)))"
| "platform_exec H u (ExecExitCode c) p = advance (cmd_exec_exit_code c p)"
| "platform_exec H u (ExecStatus c) p = advance (cmd_exec_status c p)"
| "platform_exec H u (ExecOutput c) p = advance (cmd_exec_output c p)"
| "platform_exec H u (ExecOutputInheritStdin c) p = advance (cmd_exec_output_inherit_stdin c p)"
| "platform_exec H u SignalInstall p = sure_return (signal_install p, Inr Plain)"
| "platform_exec H u SignalTake p = sure_return (fst (signal_take p), Inr Plain)"
| "platform_exec H u UtcNow p = observe p (utc_now p)"
| "platform_exec H u RandomU64Effect p = observe p (random_seed_u64 p)"
| "platform_exec H u (DeliverSignal sig) p = sure_return (deliver_signal sig p, Inr Plain)"

fun platform_run :: "'w host \<Rightarrow> unicode \<Rightarrow> platform_op list \<Rightarrow> 'w platform \<Rightarrow>
    ('w, 'w platform \<times> (platform_error + answer) list) sure" where
  "platform_run H u [] p = sure_return (p, [])"
| "platform_run H u (op # ops) p =
     sure_bind (platform_exec H u op p) (\<lambda>(p, a).
     sure_bind (platform_run H u ops p) (\<lambda>(p, as). sure_return (p, a # as)))"

section \<open>The request logic of effects\<close>

text \<open>Run from any world, every request satisfies \<open>P\<close> and the answer \<open>Q\<close>.\<close>

definition asks :: "(request \<Rightarrow> bool) \<Rightarrow> ('w, 'a) sure \<Rightarrow> ('a \<Rightarrow> bool) \<Rightarrow> bool" where
  "asks P m Q \<longleftrightarrow> (\<forall>w. list_all P (fst (snd (m w))) \<and> Q (fst (m w)))"

lemma asks_return: "Q x \<Longrightarrow> asks P (sure_return x) Q"
  by (simp add: asks_def sure_return_def)

lemma asks_bind:
  assumes "asks P m R" and "\<And>x. R x \<Longrightarrow> asks P (f x) Q"
  shows "asks P (sure_bind m f) Q"
  unfolding asks_def
proof
  fix w
  obtain x qs w' where m: "m w = (x, qs, w')" by (cases "m w") auto
  obtain y qs' w'' where f: "f x w' = (y, qs', w'')" by (cases "f x w'") auto
  have "list_all P qs" "R x" using assms(1) m unfolding asks_def by (metis fst_conv snd_conv)+
  moreover have "list_all P qs'" "Q y"
    using assms(2) [OF \<open>R x\<close>] f unfolding asks_def by (metis fst_conv snd_conv)+
  ultimately show "list_all P (fst (snd (sure_bind m f w))) \<and> Q (fst (sure_bind m f w))"
    by (simp add: sure_bind_def m f)
qed

lemma asks_mono:
  "asks P m Q \<Longrightarrow> (\<And>q. P q \<Longrightarrow> P' q) \<Longrightarrow> (\<And>x. Q x \<Longrightarrow> Q' x) \<Longrightarrow> asks P' m Q'"
  by (auto simp: asks_def list_all_iff)

lemma asks_effect:
  "emits P m Q \<Longrightarrow> asks P (effect m) (\<lambda>r. \<forall>x. r = Inr x \<longrightarrow> Q x)"
  by (auto simp: asks_def effect_def emits_def split: prod.split)
    (metis requests_simp, metis result.simps)

lemma asks_effect_then:
  assumes "asks P m R" and "\<And>x. R (Inr x) \<Longrightarrow> asks P (f x) Q" and "\<And>e. Q (Inl e)"
  shows "asks P (effect_then m f) Q"
  unfolding effect_then_def
  by (rule asks_bind [OF assms(1)]) (auto intro: assms(2,3) asks_return split: sum.split)

lemma asks_mut_then:
  assumes "asks P m (\<lambda>(p, r). R p r)" and "\<And>p x. R p (Inr x) \<Longrightarrow> asks P (f x p) (\<lambda>(p, r). Q p r)"
    and "\<And>p e. R p (Inl e) \<Longrightarrow> Q p (Inl e)"
  shows "asks P (mut_then m f) (\<lambda>(p, r). Q p r)"
  unfolding mut_then_def
proof (rule asks_bind [OF assms(1)])
  fix pr :: "'a platform \<times> (platform_error + 'b)"
  assume "case pr of (p, r) \<Rightarrow> R p r"
  then show "asks P (case pr of (p, r) \<Rightarrow>
      (case r of Inl e \<Rightarrow> sure_return (p, Inl e) | Inr x \<Rightarrow> f x p)) (\<lambda>(p, r). Q p r)"
    by (cases pr; cases "snd pr") (auto intro: assms(2) asks_return dest: assms(3))
qed

lemma asks_at: "asks P m Q \<Longrightarrow> m w = (x, qs, w') \<Longrightarrow> list_all P qs \<and> Q x"
  unfolding asks_def by (metis fst_conv snd_conv)

section \<open>Confinement\<close>

text \<open>Every method keeps the namespace, the executor, the clock and the random source, and a
  well-formed working directory.\<close>

definition keeps :: "unicode \<Rightarrow> 'w platform \<Rightarrow> 'w platform \<Rightarrow> bool" where
  "keeps u p p' \<longleftrightarrow>
     s_vfs (pf_session p') = s_vfs (pf_session p) \<and> session_ok u (pf_session p') \<and>
     pf_executor p' = pf_executor p \<and> pf_clock p' = pf_clock p \<and> pf_rng p' = pf_rng p"

text \<open>What the platform's own sources ask of the host.\<close>

definition outside_asks :: "(request \<Rightarrow> bool) \<Rightarrow> 'w platform \<Rightarrow> bool" where
  "outside_asks P p \<longleftrightarrow>
     (\<forall>run c s. pf_executor p = Some run \<longrightarrow> asks P (run c s) (\<lambda>_. True)) \<and>
     asks P (ck_now_nanos (pf_clock p)) (\<lambda>_. True) \<and> asks P (pf_rng p) (\<lambda>_. True)"

definition allowed :: "mount_table \<Rightarrow> (request \<Rightarrow> bool) \<Rightarrow> request \<Rightarrow> bool" where
  "allowed t P q \<longleftrightarrow> request_confined t q \<or> P q"

lemma keeps_outside: "keeps u p p' \<Longrightarrow> outside_asks P p \<Longrightarrow> outside_asks P p'"
  by (simp add: keeps_def outside_asks_def)

lemma platform_keeps_refl: "session_ok u (pf_session p) \<Longrightarrow> keeps u p p"
  by (simp add: keeps_def)

lemma platform_keeps_trans: "keeps u p p' \<Longrightarrow> keeps u p' p'' \<Longrightarrow> keeps u p p''"
  by (simp add: keeps_def)

lemma resolve_asks:
  assumes "nfc_ok u" and "session_ok u (pf_session p)"
  shows "asks P (platform_resolve u p path) (\<lambda>r. \<forall>vp. r = Inr vp \<longrightarrow> wf_path u vp)"
  unfolding platform_resolve_def
  by (rule asks_return) (auto dest: session_resolve_wf [OF assms])

lemma vfs_asks:
  "emits (request_confined t) m Q \<Longrightarrow> asks (allowed t P) (effect m) (\<lambda>r. True)"
  by (rule asks_mono [where P = "request_confined t", OF asks_effect]) (simp_all add: allowed_def)

lemma on_path_asks:
  assumes "nfc_ok u" and "session_ok u (pf_session p)"
    and "\<And>vp. wf_path u vp \<Longrightarrow> emits (request_confined (s_vfs (pf_session p))) (op (s_vfs (pf_session p)) vp) Q"
  shows "asks (allowed (s_vfs (pf_session p)) P) (on_path u p path op) (\<lambda>r. True)"
  unfolding on_path_def
  by (rule asks_effect_then [OF resolve_asks [OF assms(1,2)]]) (auto intro: vfs_asks assms(3))

lemma on_paths_asks:
  assumes "nfc_ok u" and "session_ok u (pf_session p)"
    and "\<And>x y. wf_path u x \<Longrightarrow> wf_path u y \<Longrightarrow>
      emits (request_confined (s_vfs (pf_session p))) (op (s_vfs (pf_session p)) x y) Q"
  shows "asks (allowed (s_vfs (pf_session p)) P) (on_paths u p a b op) (\<lambda>r. True)"
  unfolding on_paths_def
  by (intro asks_effect_then [OF resolve_asks [OF assms(1,2)]]) (auto intro: vfs_asks assms(3))

lemma probe_asks:
  assumes "nfc_ok u" and "session_ok u (pf_session p)"
  shows "asks (allowed (s_vfs (pf_session p)) P) (probe H u p path follow) (\<lambda>r. True)"
  unfolding probe_def
  by (rule asks_effect_then [OF resolve_asks [OF assms]],
      rule asks_effect_then [OF vfs_asks [OF vfs_facts_confined [OF assms(1)]]])
    (simp_all add: asks_return)

lemma read_asks:
  assumes "nfc_ok u" and "session_ok u (pf_session p)"
  shows "asks (allowed (s_vfs (pf_session p)) P) (file_read_bytes H u p path) (\<lambda>r. True)"
  unfolding file_read_bytes_def vfs_open_def
  by (rule on_path_asks [OF assms], rule emits_try_then [OF vfs_open_with_confined [OF assms(1)]])
    (auto intro!: emits_call simp: handle_ok_def confined_request)

lemma write_asks:
  assumes "nfc_ok u" and "session_ok u (pf_session p)"
  shows "asks (allowed (s_vfs (pf_session p)) P)
    (on_path u p path (\<lambda>t vp. try_then (vfs_create H u t vp) (\<lambda>f. call (h_unit H) (WriteAll f bytes))))
    (\<lambda>r. True)"
  unfolding vfs_create_def
  by (rule on_path_asks [OF assms], rule emits_try_then [OF vfs_open_with_confined [OF assms(1)]])
    (auto intro!: emits_call simp: handle_ok_def confined_request is_write_def mode_write_def)

lemma mutate_asks:
  assumes "nfc_ok u" and "session_ok u (pf_session p)"
    and "\<And>t d r. governed t True d \<Longrightarrow> list_all plain_component r \<Longrightarrow> request_confined t (q d r)"
  shows "asks (allowed (s_vfs (pf_session p)) P)
    (on_path u p path (\<lambda>t vp. mutate_at H u t vp follow q)) (\<lambda>r. True)"
  by (rule on_path_asks [OF assms(1,2)], rule mutate_at_confined [OF assms(1)])
    (simp_all add: assms(3))

text \<open>The effects that leave the platform as it is.\<close>

lemma observe_asks:
  assumes "session_ok u (pf_session p)" and "asks P m (\<lambda>r. True)"
  shows "asks P (observe p m) (\<lambda>(p', r). keeps u p p')"
  unfolding observe_def
  by (rule asks_bind [OF assms(2)]) (auto intro: asks_return platform_keeps_refl assms(1))

lemma plain_asks:
  "asks P m (\<lambda>r. True) \<Longrightarrow> asks P (effect_then m (\<lambda>x. sure_return (g x))) (\<lambda>r. True)"
  by (rule asks_effect_then [where R = "\<lambda>r. True"]) (auto intro: asks_return)

lemma may_access_asks:
  assumes "nfc_ok u" and "session_ok u (pf_session p)"
  shows "asks (allowed (s_vfs (pf_session p)) P) (may_access H u p path modes) (\<lambda>r. True)"
  unfolding may_access_def
  by (rule asks_effect_then [OF probe_asks [OF assms] on_path_asks [OF assms]])
    (auto intro: vfs_access_confined [OF assms(1)])

lemma set_executable_asks:
  assumes "nfc_ok u" and "session_ok u (pf_session p)"
  shows "asks (allowed (s_vfs (pf_session p)) P) (file_set_executable H u p path runnable) (\<lambda>r. True)"
  unfolding file_set_executable_def set_executable_def vfs_set_permissions_def
proof (rule asks_effect_then [OF resolve_asks [OF assms]])
  fix vp assume "\<forall>v. (Inr vp :: platform_error + virtual_path) = Inr v \<longrightarrow> wf_path u v"
  then have wf: "wf_path u vp" by simp
  show "asks (allowed (s_vfs (pf_session p)) P) (effect (try_then
      (vfs_metadata H u (s_vfs (pf_session p)) vp) (\<lambda>md. mutate_at H u (s_vfs (pf_session p)) vp True
        (\<lambda>d r. SetPermissions d r (updated_mode runnable (md_mode md)))))) (\<lambda>r. True)"
    by (rule vfs_asks, rule emits_try_then [OF vfs_metadata_confined [OF assms(1) wf]],
        rule mutate_at_confined [OF assms(1) wf]) (simp add: request_confined_def)
qed simp

lemma dir_list_asks:
  assumes "nfc_ok u" and "session_ok u (pf_session p)"
  shows "asks (allowed (s_vfs (pf_session p)) P) (dir_list H u p path) (\<lambda>r. True)"
  unfolding dir_list_def
  by (rule asks_effect_then [OF resolve_asks [OF assms]],
      rule plain_asks [OF vfs_asks [OF vfs_read_dir_names_confined [OF assms(1)]]]) simp_all

lemma path_effect_asks:
  assumes "nfc_ok u" and "session_ok u (pf_session p)"
  shows
    "asks (allowed (s_vfs (pf_session p)) P) (file_read_utf8 H u p path) (\<lambda>r. True)"
    "asks (allowed (s_vfs (pf_session p)) P) (path_type H u p path) (\<lambda>r. True)"
    "asks (allowed (s_vfs (pf_session p)) P) (path_canonicalize H u p path) (\<lambda>r. True)"
    "asks (allowed (s_vfs (pf_session p)) P) (file_size_in_bytes H u p path) (\<lambda>r. True)"
    "asks (allowed (s_vfs (pf_session p)) P) (file_hard_link H u p path path') (\<lambda>r. True)"
    "asks (allowed (s_vfs (pf_session p)) P) (file_rename H u p path path') (\<lambda>r. True)"
  unfolding file_read_utf8_def path_type_def path_canonicalize_def file_size_in_bytes_def
    file_hard_link_def file_rename_def
  using assms
  by (auto intro!: plain_asks [OF read_asks] plain_asks [OF probe_asks]
      plain_asks [OF on_path_asks [where op = "vfs_canonicalize H u"]]
      plain_asks [OF on_path_asks [where op = "vfs_metadata H u"]]
      on_paths_asks [where op = "vfs_hard_link H u"] on_paths_asks [where op = "vfs_rename H u"]
      intro: vfs_canonicalize_confined vfs_metadata_confined vfs_hard_link_confined vfs_rename_confined)

lemma mutation_asks:
  assumes "nfc_ok u" and "session_ok u (pf_session p)"
  shows
    "asks (allowed (s_vfs (pf_session p)) P) (dir_create_all H u p path) (\<lambda>r. True)"
    "asks (allowed (s_vfs (pf_session p)) P) (file_delete H u p path) (\<lambda>r. True)"
    "asks (allowed (s_vfs (pf_session p)) P) (dir_delete_empty H u p path) (\<lambda>r. True)"
    "asks (allowed (s_vfs (pf_session p)) P) (dir_delete_all H u p path) (\<lambda>r. True)"
    "asks (allowed (s_vfs (pf_session p)) P) (dir_create H u p path) (\<lambda>r. True)"
  unfolding dir_create_all_def file_delete_def dir_delete_empty_def dir_delete_all_def
    dir_create_def vfs_mutations
  by (rule mutate_asks [OF assms]; simp add: request_confined_def)+

text \<open>The methods that change the platform.\<close>

lemma output_write_keeps [simp]:
  "pf_session (output_write s b p) = pf_session p" "pf_executor (output_write s b p) = pf_executor p"
  "pf_clock (output_write s b p) = pf_clock p" "pf_rng (output_write s b p) = pf_rng p"
  "pf_jobs (output_write s b p) = pf_jobs p" "pf_next_handle (output_write s b p) = pf_next_handle p"
  by (simp_all add: output_write_def)

lemma input_set_keeps [simp]:
  "pf_session (input_set src p) = pf_session p" "pf_executor (input_set src p) = pf_executor p"
  "pf_clock (input_set src p) = pf_clock p" "pf_rng (input_set src p) = pf_rng p"
  "pf_jobs (input_set src p) = pf_jobs p" "pf_next_handle (input_set src p) = pf_next_handle p"
  by (simp_all add: input_set_def)

lemma store_result_facts:
  assumes "store_result plan res p = (p', h)"
  shows "pf_session p' = pf_session p" "pf_executor p' = pf_executor p" "pf_clock p' = pf_clock p"
    "pf_rng p' = pf_rng p" "h = pf_next_handle p" "pf_next_handle p' = pf_next_handle p + 1"
    "\<exists>fin. pf_jobs p' = (pf_jobs p)(h \<mapsto> fin) \<and> fin_exit fin = rr_exit res"
  using assms
  by (cases "ip_output plan"; auto simp: store_result_def mint_handle_def)+

text \<open>Either the run failed and only the input moved, or its result is stored under a new handle.\<close>

definition spawned :: "'w platform \<Rightarrow> 'w platform \<Rightarrow> platform_error + job_handle \<Rightarrow> bool" where
  "spawned p p' r \<longleftrightarrow>
     pf_session p' = pf_session p \<and> pf_executor p' = pf_executor p \<and> pf_clock p' = pf_clock p \<and>
     pf_rng p' = pf_rng p \<and>
     (case r of
        Inl e \<Rightarrow> pf_jobs p' = pf_jobs p \<and> pf_next_handle p' = pf_next_handle p
      | Inr h \<Rightarrow> h = pf_next_handle p \<and> pf_next_handle p' = pf_next_handle p + 1 \<and>
          (\<exists>fin. pf_jobs p' = (pf_jobs p)(h \<mapsto> fin)))"

lemma spawn_steps:
  assumes "\<And>run s. pf_executor p = Some run \<Longrightarrow> asks P (run c s) (\<lambda>_. True)"
  shows "asks P (spawn c plan p) (\<lambda>(p', r). spawned p p' r)"
proof -
  obtain src stdin where src: "(case ip_stdin plan of
      InheritStdin \<Rightarrow> read_to_end (st_input (pf_stdio p)) | NullStdin \<Rightarrow> (st_input (pf_stdio p), []))
      = (src, stdin)" by (rule prod.exhaust)
  show ?thesis
  proof (cases "pf_executor p")
    case None
    then show ?thesis by (simp add: spawn_def src asks_return spawned_def)
  next
    case (Some run)
    have "asks P (sure_bind (run c stdin) (\<lambda>ran. sure_return
        (case ran of
           Inl e \<Rightarrow> (input_set src p, Inl e)
         | Inr res \<Rightarrow> (let (p, handle) = store_result plan res (input_set src p) in (p, Inr handle)))))
      (\<lambda>(p', r). spawned p p' r)"
    proof (rule asks_bind [OF assms [OF Some]], rule asks_return)
      fix ran :: "platform_error + run_result"
      show "case (case ran of Inl e \<Rightarrow> (input_set src p, Inl e)
          | Inr res \<Rightarrow> (let (p, handle) = store_result plan res (input_set src p) in (p, Inr handle))) of
          (p', r) \<Rightarrow> spawned p p' r"
      proof (cases ran)
        case (Inr res)
        obtain p' h where r: "store_result plan res (input_set src p) = (p', h)" by (rule prod.exhaust)
        from store_result_facts [OF r] Inr r show ?thesis by (auto simp: spawned_def)
      qed (simp add: spawned_def)
    qed
    then show ?thesis by (simp add: spawn_def src Some Let_def)
  qed
qed

lemma spawned_keeps: "spawned p p' r \<Longrightarrow> session_ok u (pf_session p) \<Longrightarrow> keeps u p p'"
  by (simp add: spawned_def keeps_def)

lemma spawn_asks:
  assumes "session_ok u (pf_session p)" and "outside_asks P p"
  shows "asks P (spawn c plan p) (\<lambda>(p', r). keeps u p p')"
  by (rule asks_mono [OF spawn_steps])
    (use assms in \<open>auto simp: outside_asks_def dest: spawned_keeps\<close>)

lemma wait_any_keeps:
  "session_ok u (pf_session p) \<Longrightarrow> keeps u p (fst (wait_any hs p))"
  by (induction hs p rule: wait_any.induct) (auto simp: keeps_def split: option.split)

lemma wait_asks:
  "session_ok u (pf_session p) \<Longrightarrow> asks P (sure_return (wait_any hs p)) (\<lambda>(p', r). keeps u p p')"
  by (rule asks_return) (auto dest: wait_any_keeps [of u p hs] split: prod.split)

text \<open>A method after another, when each keeps what the first found.\<close>

lemma keeps_then:
  assumes "asks P m (\<lambda>(p', r). keeps u p p')"
    and "\<And>p' x. keeps u p p' \<Longrightarrow> asks P (f x p') (\<lambda>(p'', r). keeps u p' p'')"
  shows "asks P (mut_then m f) (\<lambda>(p', r). keeps u p p')"
proof (rule asks_mut_then [OF assms(1)])
  fix p' x assume k: "keeps u p p'"
  show "asks P (f x p') (\<lambda>(p'', r). keeps u p p'')"
    by (rule asks_mono [OF assms(2) [OF k]]) (auto intro: platform_keeps_trans [OF k])
qed

lemma keeps_return: "session_ok u (pf_session p) \<Longrightarrow> asks P (sure_return (p, r)) (\<lambda>(p', r). keeps u p p')"
  by (rule asks_return) (simp add: platform_keeps_refl)

lemma keeps_session: "keeps u p p' \<Longrightarrow> session_ok u (pf_session p')"
  by (simp add: keeps_def)

lemma run_to_end_asks:
  assumes "session_ok u (pf_session p)" and "outside_asks P p"
  shows "asks P (run_to_end c plan p) (\<lambda>(p', r). keeps u p p')"
  unfolding run_to_end_def
proof (rule keeps_then [OF spawn_asks [OF assms]])
  fix p' h assume "keeps u p p'"
  then have s: "session_ok u (pf_session p')" by (rule keeps_session)
  show "asks P (mut_then (sure_return (wait_any [h] p')) (\<lambda>(_, fin). \<lambda>p. sure_return (p, Inr fin)))
    (\<lambda>(p'', r). keeps u p' p'')"
    by (rule keeps_then [OF wait_asks [OF s]]) (auto intro: keeps_return keeps_session split: prod.split)
qed

lemma let_in_answer:
  "(let (a, b) = x in sure_return (p, g a b)) = sure_return (p, let (a, b) = x in g a b)"
  by (simp add: Let_def split: prod.split)

lemma run_then_asks:
  assumes "session_ok u (pf_session p)" and "outside_asks P p"
  shows "asks P (mut_then (run_to_end c plan p) (\<lambda>fin. \<lambda>p. sure_return (p, g fin))) (\<lambda>(p', r). keeps u p p')"
  by (rule keeps_then [OF run_to_end_asks [OF assms]], rule keeps_return, erule keeps_session)

lemma exec_asks:
  assumes "session_ok u (pf_session p)" and "outside_asks P p"
  shows "asks P (cmd_exec_exit_code c p) (\<lambda>(p', r). keeps u p p')"
    "asks P (cmd_exec_status c p) (\<lambda>(p', r). keeps u p p')"
    "asks P (exec_capturing c stdin p) (\<lambda>(p', r). keeps u p p')"
  unfolding cmd_exec_exit_code_def cmd_exec_status_def exec_capturing_def let_in_answer
  by (rule run_then_asks [OF assms])+

lemma set_cwd_asks:
  assumes "nfc_ok u" and "session_ok u (pf_session p)"
  shows "asks (allowed (s_vfs (pf_session p)) P) (env_set_cwd H u path p) (\<lambda>(p', r). keeps u p p')"
  unfolding env_set_cwd_def
proof (rule asks_bind)
  show "asks (allowed (s_vfs (pf_session p)) P) (effect (set_cwd H u (pf_session p) path))
    (\<lambda>r. \<forall>s'. r = Inr s' \<longrightarrow> session_ok u s' \<and> s_vfs s' = s_vfs (pf_session p))"
  proof (rule asks_mono [OF asks_effect [OF set_cwd_emits [OF assms, of H path]]])
    show "allowed (s_vfs (pf_session p)) P q" if "request_confined (s_vfs (pf_session p)) q" for q
      using that by (simp add: allowed_def)
  qed auto
  fix r :: "platform_error + session"
  assume "\<forall>s'. r = Inr s' \<longrightarrow> session_ok u s' \<and> s_vfs s' = s_vfs (pf_session p)"
  then show "asks (allowed (s_vfs (pf_session p)) P)
      (sure_return (case r of Inl e \<Rightarrow> (p, Inl e) | Inr s \<Rightarrow> (p\<lparr>pf_session := s\<rparr>, Inr ())))
      (\<lambda>(p', r). keeps u p p')"
    by (cases r) (simp_all add: asks_return keeps_def assms(2))
qed

lemma advance_asks:
  "asks P m (\<lambda>(p', r). keeps u p p') \<Longrightarrow> asks P (advance m) (\<lambda>(p', r). keeps u p p')"
  unfolding advance_def by (erule asks_bind) (auto intro: asks_return)

lemma allowed_mono: "asks P m Q \<Longrightarrow> asks (allowed t P) m Q"
  by (erule asks_mono) (simp_all add: allowed_def)

lemma sources_ask:
  assumes "outside_asks P p"
  shows "asks P (utc_now p) (\<lambda>r. True)" "asks P (random_seed_u64 p) (\<lambda>r. True)"
  using assms unfolding utc_now_def random_seed_u64_def outside_asks_def
  by (auto intro!: asks_bind asks_return)

lemma outside_allowed: "outside_asks P p \<Longrightarrow> outside_asks (allowed t P) p"
  by (simp add: outside_asks_def allowed_mono)

lemma stream_asks:
  assumes "session_ok u (pf_session p)"
  shows "asks P (stdout_write s p) (\<lambda>(p', r). keeps u p p')"
    "asks P (stderr_write s p) (\<lambda>(p', r). keeps u p p')"
    "asks P (stdout_line s p) (\<lambda>(p', r). keeps u p p')"
    "asks P (stderr_line s p) (\<lambda>(p', r). keeps u p p')"
    "asks P (stdin_line p) (\<lambda>(p', r). keeps u p p')"
    "asks P (stdin_read_to_end p) (\<lambda>(p', r). keeps u p p')"
    "asks P (stdin_bytes p) (\<lambda>(p', r). keeps u p p')"
  using assms
  by (auto simp: stdout_write_def stderr_write_def stdout_line_def stderr_line_def stdin_line_def
      stdin_read_to_end_def stdin_bytes_def keeps_def Let_def intro!: asks_return split: prod.split)

lemma platform_exec_asks:
  assumes "nfc_ok u" and "session_ok u (pf_session p)" and "outside_asks P p"
  shows "asks (allowed (s_vfs (pf_session p)) P) (platform_exec H u op p) (\<lambda>(p', r). keeps u p p')"
proof -
  note here = assms(1,2)
  note out = outside_allowed [OF assms(3)]
  note observed = path_effect_asks [OF here] mutation_asks [OF here] read_asks [OF here]
    write_asks [OF here] may_access_asks [OF here] set_executable_asks [OF here]
    dir_list_asks [OF here] sources_ask [OF out]
  note advanced = set_cwd_asks [OF here] stream_asks [OF here(2)] exec_asks [OF here(2) out]
  have spawned: "asks (allowed (s_vfs (pf_session p)) P)
      (mut_then (spawn c plan p) (\<lambda>h. \<lambda>p. sure_return (p, Inr (Minted h)))) (\<lambda>(p', r). keeps u p p')" for c plan
    by (rule keeps_then [OF spawn_asks [OF here(2) out]], rule keeps_return, erule keeps_session)
  have waited: "asks (allowed (s_vfs (pf_session p)) P) (mut_then (sure_return (wait_any hs p))
      (\<lambda>(h, fin). \<lambda>p. sure_return (p, Inr (Collected h fin)))) (\<lambda>(p', r). keeps u p p')" for hs
  proof (rule keeps_then [OF wait_asks [OF here(2)]])
    fix p' x assume "keeps u p p'"
    then show "asks (allowed (s_vfs (pf_session p)) P)
        ((case x of (h, fin) \<Rightarrow> \<lambda>p. sure_return (p, Inr (Collected h fin))) p') (\<lambda>(p'', r). keeps u p' p'')"
      by (cases x) (simp add: keeps_return keeps_session)
  qed
  show ?thesis
    by (cases op; simp only: platform_exec.simps file_write_utf8_def file_write_bytes_def
        file_is_executable_def file_is_readable_def file_is_writable_def cmd_exec_output_def
        cmd_exec_output_inherit_stdin_def;
      (rule observe_asks [OF here(2)], rule observed; fail
       | rule advance_asks, rule advanced; fail
       | rule spawned | rule waited
       | rule asks_return, use here(2) in \<open>simp add: keeps_def signal_install_def signal_take_def
           signals_take_def deliver_signal_def case_prod_unfold Let_def\<close>; fail))
qed

lemma platform_run_asks:
  assumes "nfc_ok u" and "session_ok u (pf_session p)" and "outside_asks P p"
  shows "asks (allowed (s_vfs (pf_session p)) P) (platform_run H u ops p) (\<lambda>(p', as). keeps u p p')"
  using assms(2,3)
proof (induction ops arbitrary: p)
  case Nil
  then show ?case by (simp add: asks_return platform_keeps_refl)
next
  case (Cons op ops)
  show ?case
    unfolding platform_run.simps
  proof (rule asks_bind [OF platform_exec_asks [OF assms(1) Cons.prems]])
    fix x :: "'a platform \<times> (platform_error + answer)"
    assume "case x of (p', r) \<Rightarrow> keeps u p p'"
    then obtain p' r where x: "x = (p', r)" and k: "keeps u p p'" by auto
    have t: "s_vfs (pf_session p') = s_vfs (pf_session p)" using k by (simp add: keeps_def)
    have "asks (allowed (s_vfs (pf_session p)) P) (sure_bind (platform_run H u ops p')
        (\<lambda>(p, as). sure_return (p, r # as))) (\<lambda>(p'', as). keeps u p p'')"
      by (rule asks_bind [OF Cons.IH [OF keeps_session [OF k] keeps_outside [OF k Cons.prems(2)], unfolded t]])
        (auto intro: asks_return platform_keeps_trans [OF k])
    then show "asks (allowed (s_vfs (pf_session p)) P) (case x of (p, a) \<Rightarrow>
        sure_bind (platform_run H u ops p) (\<lambda>(p, as). sure_return (p, a # as))) (\<lambda>(p'', as). keeps u p p'')"
      by (simp add: x)
  qed
qed

section \<open>Jobs\<close>

text \<open>What one effect does to the job table.\<close>

definition job_step :: "'w platform \<Rightarrow> 'w platform \<Rightarrow> platform_error + answer \<Rightarrow> bool" where
  "job_step p p' a \<longleftrightarrow>
     (case a of
        Inr (Minted h) \<Rightarrow> h = pf_next_handle p \<and> pf_next_handle p' = pf_next_handle p + 1 \<and>
          (\<exists>fin. pf_jobs p' = (pf_jobs p)(h \<mapsto> fin))
      | Inr (Collected h fin) \<Rightarrow> pf_jobs p h = Some fin \<and> pf_jobs p' = (pf_jobs p)(h := None) \<and>
          pf_next_handle p' = pf_next_handle p
      | _ \<Rightarrow> pf_next_handle p' = pf_next_handle p \<and> pf_jobs p' = pf_jobs p \<or>
          pf_next_handle p' = pf_next_handle p + 1 \<and>
          pf_jobs p' = (pf_jobs p)(pf_next_handle p := None))"

lemma asks_any: "asks (\<lambda>_. True) m (\<lambda>_. True)"
  by (simp add: asks_def list_all_iff)

lemma job_step_stay:
  "pf_jobs p' = pf_jobs p \<Longrightarrow> pf_next_handle p' = pf_next_handle p \<Longrightarrow> job_step p p' (plainly r)"
  by (cases r) (simp_all add: job_step_def plainly_def)

lemma observe_jobs: "asks (\<lambda>_. True) (observe p m) (\<lambda>(p', a). job_step p p' a)"
  unfolding observe_def
  by (rule asks_bind [OF asks_any]) (auto intro: asks_return job_step_stay)

lemma wait_any_jobs:
  "wait_any hs p = (p', Inl e) \<Longrightarrow> p' = p"
  "wait_any hs p = (p', Inr (h, fin)) \<Longrightarrow>
     pf_jobs p h = Some fin \<and> pf_jobs p' = (pf_jobs p)(h := None) \<and>
     pf_next_handle p' = pf_next_handle p"
  by (induction hs p rule: wait_any.induct) (auto split: option.splits)

lemma run_to_end_jobs:
  "asks (\<lambda>_. True) (run_to_end c plan p) (\<lambda>(p', r). job_step p p' (plainly r))"
  unfolding run_to_end_def
proof (rule asks_mut_then [OF spawn_steps [OF asks_any]])
  fix p' h assume s: "spawned p p' (Inr h)"
  then obtain fin where h: "h = pf_next_handle p" "pf_next_handle p' = pf_next_handle p + 1"
    "pf_jobs p' = (pf_jobs p)(h \<mapsto> fin)" by (auto simp: spawned_def)
  have "wait_any [h] p' = (p'\<lparr>pf_jobs := (pf_jobs p')(h := None)\<rparr>, Inr (h, fin))" by (simp add: h)
  then show "asks (\<lambda>_. True) (mut_then (sure_return (wait_any [h] p'))
      (\<lambda>(_, fin). \<lambda>p. sure_return (p, Inr fin))) (\<lambda>(p'', r). job_step p p'' (plainly r))"
    by (simp add: mut_then_def asks_def sure_bind_def sure_return_def h job_step_def plainly_def
        del: wait_any.simps)
qed (auto intro: job_step_stay simp: spawned_def)

lemma run_then_jobs:
  "asks (\<lambda>_. True) (mut_then (run_to_end c plan p) (\<lambda>fin. \<lambda>p. sure_return (p, g fin)))
     (\<lambda>(p', r). job_step p p' (plainly r))"
proof (rule asks_mut_then [OF run_to_end_jobs])
  fix p' and x :: finished
  assume "job_step p p' (plainly (Inr x :: platform_error + finished))"
  then show "asks (\<lambda>_. True) (sure_return (p', g x)) (\<lambda>(p'', r). job_step p p'' (plainly r))"
    by (intro asks_return) (cases "g x"; simp add: job_step_def plainly_def)
qed (simp add: job_step_def plainly_def)

lemma advance_jobs:
  "asks (\<lambda>_. True) m (\<lambda>(p', r). job_step p p' (plainly r)) \<Longrightarrow>
     asks (\<lambda>_. True) (advance m) (\<lambda>(p', a). job_step p p' a)"
  unfolding advance_def by (erule asks_bind) (auto intro: asks_return)

lemma exec_jobs:
  "asks (\<lambda>_. True) (cmd_exec_exit_code c p) (\<lambda>(p', r). job_step p p' (plainly r))"
  "asks (\<lambda>_. True) (cmd_exec_status c p) (\<lambda>(p', r). job_step p p' (plainly r))"
  "asks (\<lambda>_. True) (exec_capturing c stdin p) (\<lambda>(p', r). job_step p p' (plainly r))"
  unfolding cmd_exec_exit_code_def cmd_exec_status_def exec_capturing_def let_in_answer
  by (rule run_then_jobs)+

lemma stream_jobs:
  "asks (\<lambda>_. True) (stdout_write s p) (\<lambda>(p', r). job_step p p' (plainly r))"
  "asks (\<lambda>_. True) (stderr_write s p) (\<lambda>(p', r). job_step p p' (plainly r))"
  "asks (\<lambda>_. True) (stdout_line s p) (\<lambda>(p', r). job_step p p' (plainly r))"
  "asks (\<lambda>_. True) (stderr_line s p) (\<lambda>(p', r). job_step p p' (plainly r))"
  "asks (\<lambda>_. True) (stdin_line p) (\<lambda>(p', r). job_step p p' (plainly r))"
  "asks (\<lambda>_. True) (stdin_read_to_end p) (\<lambda>(p', r). job_step p p' (plainly r))"
  "asks (\<lambda>_. True) (stdin_bytes p) (\<lambda>(p', r). job_step p p' (plainly r))"
  by (auto simp: stdout_write_def stderr_write_def stdout_line_def stderr_line_def stdin_line_def
      stdin_read_to_end_def stdin_bytes_def Let_def intro!: asks_return job_step_stay split: prod.split)

lemma set_cwd_jobs:
  "asks (\<lambda>_. True) (env_set_cwd H u path p) (\<lambda>(p', r). job_step p p' (plainly r))"
  unfolding env_set_cwd_def
proof (rule asks_bind [OF asks_any], rule asks_return)
  fix r :: "platform_error + session"
  show "case (case r of Inl e \<Rightarrow> (p, Inl e) | Inr s \<Rightarrow> (p\<lparr>pf_session := s\<rparr>, Inr ())) of
      (p', r) \<Rightarrow> job_step p p' (plainly r)"
    by (cases r) (simp_all add: job_step_stay)
qed

lemma platform_exec_jobs:
  "asks (\<lambda>_. True) (platform_exec H u op p) (\<lambda>(p', a). job_step p p' a)"
proof -
  have spawned: "asks (\<lambda>_. True)
      (mut_then (spawn c plan p) (\<lambda>h. \<lambda>p. sure_return (p, Inr (Minted h)))) (\<lambda>(p', a). job_step p p' a)" for c plan
    by (rule asks_mut_then [OF spawn_steps [OF asks_any]])
      (auto intro!: asks_return simp: spawned_def job_step_def)
  have waited: "asks (\<lambda>_. True) (mut_then (sure_return (wait_any hs p))
      (\<lambda>(h, fin). \<lambda>p. sure_return (p, Inr (Collected h fin)))) (\<lambda>(p', a). job_step p p' a)" for hs
  proof (cases "wait_any hs p")
    case (Pair p' r)
    then show ?thesis
      by (cases r) (auto simp: mut_then_def asks_def sure_bind_def sure_return_def job_step_def
          dest: wait_any_jobs)
  qed
  note advanced = set_cwd_jobs stream_jobs exec_jobs
  show ?thesis
    by (cases op; simp only: platform_exec.simps cmd_exec_output_def cmd_exec_output_inherit_stdin_def;
      (rule observe_jobs | rule advance_jobs, rule advanced; fail | rule spawned | rule waited
       | rule asks_return, simp add: job_step_def signal_install_def signal_take_def
           signals_take_def deliver_signal_def case_prod_unfold Let_def; fail))
qed

text \<open>The handles a run gave out, and those it took back.\<close>

fun minted :: "(platform_error + answer) list \<Rightarrow> job_handle list" where
  "minted [] = []"
| "minted (Inr (Minted h) # as) = h # minted as"
| "minted (a # as) = minted as"

fun collected :: "(platform_error + answer) list \<Rightarrow> job_handle list" where
  "collected [] = []"
| "collected (Inr (Collected h fin) # as) = h # collected as"
| "collected (a # as) = collected as"

text \<open>Handles given out lie below the counter; a job is pending only under one given out and not
  taken back.\<close>

definition jobs_ok :: "'w platform \<Rightarrow> job_handle list \<Rightarrow> job_handle list \<Rightarrow> bool" where
  "jobs_ok p ms cs \<longleftrightarrow>
     distinct ms \<and> distinct cs \<and> set cs \<subseteq> set ms \<and> (\<forall>h \<in> set ms. h < pf_next_handle p) \<and>
     dom (pf_jobs p) = set ms - set cs"

definition answer_minted :: "platform_error + answer \<Rightarrow> job_handle list" where
  "answer_minted a = minted [a]"

definition answer_collected :: "platform_error + answer \<Rightarrow> job_handle list" where
  "answer_collected a = collected [a]"

lemma minted_Cons: "minted (a # as) = answer_minted a @ minted as"
  by (cases "a # as" rule: minted.cases) (auto simp: answer_minted_def)

lemma collected_Cons: "collected (a # as) = answer_collected a @ collected as"
  by (cases "a # as" rule: collected.cases) (auto simp: answer_collected_def)

lemma u64_step:
  fixes n :: u64
  assumes "unat n + 1 < 2 ^ 64"
  shows "n < n + 1" "unat (n + 1) = unat n + 1"
proof -
  show u: "unat (n + 1) = unat n + 1"
    using assms by (simp add: unat_word_ariths)
  show "n < n + 1" using u by (simp add: word_less_nat_alt)
qed

lemma jobs_ok_step:
  assumes "jobs_ok p ms cs" and "job_step p p' a" and "unat (pf_next_handle p) + 1 < 2 ^ 64"
  shows "jobs_ok p' (ms @ answer_minted a) (cs @ answer_collected a)"
    "unat (pf_next_handle p') \<le> unat (pf_next_handle p) + 1"
proof -
  note up = u64_step [OF assms(3)]
  have fresh: "pf_next_handle p \<notin> set ms" using assms(1) by (auto simp: jobs_ok_def)
  have unused: "pf_jobs p (pf_next_handle p) = None"
  proof -
    have "pf_next_handle p \<notin> dom (pf_jobs p)" using assms(1) by (auto simp: jobs_ok_def)
    then show ?thesis by (simp add: domIff)
  qed
  have below: "\<forall>h \<in> set ms. h < pf_next_handle p + 1"
    using assms(1) up(1) by (auto simp: jobs_ok_def intro: less_trans)
  show "unat (pf_next_handle p') \<le> unat (pf_next_handle p) + 1"
    using assms(2) up(2) by (auto simp: job_step_def split: sum.splits answer.splits)
  show "jobs_ok p' (ms @ answer_minted a) (cs @ answer_collected a)"
  proof (cases a)
    case (Inl e)
    then have "pf_next_handle p' = pf_next_handle p \<or> pf_next_handle p' = pf_next_handle p + 1"
      "dom (pf_jobs p') = dom (pf_jobs p)"
      using assms(2) unused by (auto simp: job_step_def split: if_splits)
    then show ?thesis using Inl assms(1) below
      by (auto simp: jobs_ok_def answer_minted_def answer_collected_def)
  next
    case (Inr x)
    show ?thesis
    proof (cases x)
      case Plain
      then have "pf_next_handle p' = pf_next_handle p \<or> pf_next_handle p' = pf_next_handle p + 1"
        "dom (pf_jobs p') = dom (pf_jobs p)"
        using Inr assms(2) unused by (auto simp: job_step_def split: if_splits)
      then show ?thesis using Plain Inr assms(1) below
        by (auto simp: jobs_ok_def answer_minted_def answer_collected_def)
    next
      case (Minted h)
      then have h: "h = pf_next_handle p" "pf_next_handle p' = pf_next_handle p + 1"
        "dom (pf_jobs p') = insert h (dom (pf_jobs p))"
        using Inr assms(2) by (auto simp: job_step_def split: if_splits)
      have m: "answer_minted a = [h]" "answer_collected a = []"
        using Minted Inr by (simp_all add: answer_minted_def answer_collected_def)
      from assms(1) fresh below up(1) show ?thesis unfolding jobs_ok_def h m by auto
    next
      case (Collected h fin)
      then have h: "h \<in> dom (pf_jobs p)" "pf_next_handle p' = pf_next_handle p"
        "dom (pf_jobs p') = dom (pf_jobs p) - {h}"
        using Inr assms(2) by (simp_all add: job_step_def domI)
      have m: "answer_minted a = []" "answer_collected a = [h]"
        using Collected Inr by (simp_all add: answer_minted_def answer_collected_def)
      from assms(1) h(1) show ?thesis unfolding jobs_ok_def h(2,3) m by auto
    qed
  qed
qed

lemma platform_run_jobs:
  assumes "jobs_ok p ms cs" and "unat (pf_next_handle p) + length ops < 2 ^ 64"
  shows "asks (\<lambda>_. True) (platform_run H u ops p)
    (\<lambda>(p', as). jobs_ok p' (ms @ minted as) (cs @ collected as))"
  using assms
proof (induction ops arbitrary: p ms cs)
  case Nil
  then show ?case by (simp add: asks_return)
next
  case (Cons op ops)
  show ?case
    unfolding platform_run.simps
  proof (rule asks_bind [OF platform_exec_jobs])
    fix x :: "'a platform \<times> (platform_error + answer)"
    assume "case x of (p', a) \<Rightarrow> job_step p p' a"
    then obtain p' a where x: "x = (p', a)" and j: "job_step p p' a" by auto
    have n: "unat (pf_next_handle p) + 1 < 2 ^ 64" using Cons.prems(2) by simp
    note step = jobs_ok_step [OF Cons.prems(1) j n]
    have "unat (pf_next_handle p') + length ops < 2 ^ 64" using step(2) Cons.prems(2) by simp
    from Cons.IH [OF step(1) this]
    have "asks (\<lambda>_. True) (sure_bind (platform_run H u ops p') (\<lambda>(p, as). sure_return (p, a # as)))
        (\<lambda>(p'', as). jobs_ok p'' (ms @ minted as) (cs @ collected as))"
      by (rule asks_bind) (auto intro!: asks_return simp: minted_Cons collected_Cons)
    then show "asks (\<lambda>_. True) (case x of (p, a) \<Rightarrow>
        sure_bind (platform_run H u ops p) (\<lambda>(p, as). sure_return (p, a # as)))
        (\<lambda>(p'', as). jobs_ok p'' (ms @ minted as) (cs @ collected as))"
      by (simp add: x)
  qed
qed

section \<open>Properties\<close>

text \<open>Whatever a guest does, in whatever order, every request is confined to the namespace of its
  session or is one that the executor, the clock or the random source make on their own; the
  namespace never changes and the working directory stays well formed.\<close>

theorem platform_confined:
  assumes "nfc_ok u" and "session_ok u (pf_session p)" and "outside_asks P p"
    and "platform_run H u ops p w = ((p', as), qs, w')"
  shows "list_all (\<lambda>q. request_confined (s_vfs (pf_session p)) q \<or> P q) qs \<and>
    s_vfs (pf_session p') = s_vfs (pf_session p) \<and> session_ok u (pf_session p')"
  using asks_at [OF platform_run_asks [OF assms(1-3)] assms(4)]
  by (auto simp: allowed_def [abs_def] keeps_def)

definition quiet_platform :: "unit platform" where
  "quiet_platform =
     (platform_new still_host (session_new demo_table) facts_neutral)
       \<lparr>pf_clock := \<lparr> ck_now_nanos = sure_return (Some 0), ck_tz_offset = sure_return 0 \<rparr>,
        pf_rng := sure_return 4,
        pf_executor := Some (\<lambda>c s. sure_return (Inr \<lparr> rr_exit = ExitCode 0, rr_stdout = s, rr_stderr = [] \<rparr>))\<rparr>"

theorem platform_confined_witness:
  "\<exists>p' as qs w'. platform_run still_host ascii_unicode
       [FileWriteBytes ''/work/a'' ''x'', Spawn (cmd_new ''cat'') plan_inherit] quiet_platform ()
       = ((p', as), qs, w') \<and>
     WriteAll (OpenedFile (MountDir 7) [''a''] (to_cap_std mode_write) 7) ''x'' \<in> set qs \<and>
     list_all (\<lambda>q. request_confined demo_table q \<or> False) qs"
proof -
  let ?ops = "[FileWriteBytes ''/work/a'' ''x'', Spawn (cmd_new ''cat'') plan_inherit]"
  obtain p' as qs w' where r: "platform_run still_host ascii_unicode ?ops quiet_platform ()
      = ((p', as), qs, w')" by (metis prod.exhaust)
  have s: "session_ok ascii_unicode (pf_session quiet_platform)" "s_vfs (pf_session quiet_platform) = demo_table"
    by (simp_all add: quiet_platform_def platform_new_def) (simp add: session_new_def)
  have o: "outside_asks (\<lambda>q. False) quiet_platform"
    by (auto simp: outside_asks_def quiet_platform_def intro: asks_return)
  have "WriteAll (OpenedFile (MountDir 7) [''a''] (to_cap_std mode_write) 7) ''x''
      \<in> set (fst (snd (platform_run still_host ascii_unicode ?ops quiet_platform ())))"
    by code_simp
  with platform_confined [OF nfc_ok_ascii s(1) o r] r s(2) show ?thesis by auto
qed

text \<open>C10. Handles never alias. In fewer than \<^verbatim>\<open>2^64\<close> effects from a new platform, executions and
  waits in any order, no handle is given out twice, none is taken back twice, only handles that
  were given out are taken back, and what is pending is what was given out and not taken back.\<close>

theorem handles_never_alias:
  assumes "length ops < 2 ^ 64"
    and "platform_run H u ops (with_executor ex (platform_new H s facts)) w = ((p', as), qs, w')"
  shows "distinct (minted as) \<and> distinct (collected as) \<and> set (collected as) \<subseteq> set (minted as) \<and>
    dom (pf_jobs p') = set (minted as) - set (collected as)"
proof -
  let ?p = "with_executor ex (platform_new H s facts)"
  have j: "jobs_ok ?p [] []" by (simp add: jobs_ok_def with_executor_def platform_new_def)
  have n: "unat (pf_next_handle ?p) + length ops < 2 ^ 64"
    using assms(1) by (simp add: with_executor_def platform_new_def)
  have "jobs_ok p' (minted as) (collected as)"
    using asks_at [OF platform_run_jobs [OF j n] assms(2)] by simp
  then show ?thesis by (simp add: jobs_ok_def)
qed

definition echo :: "unit executor" where
  "echo c stdin = sure_return (Inr \<lparr> rr_exit = ExitCode 0, rr_stdout = stdin, rr_stderr = [] \<rparr>)"

theorem handles_never_alias_witness:
  "\<exists>p' as qs w'. platform_run still_host ascii_unicode
      [Spawn (cmd_new ''a'') plan_inherit, Spawn (cmd_new ''b'') plan_inherit, WaitAny [1, 0], WaitAny [1]]
      (with_executor echo (platform_new still_host (session_new demo_table) facts_neutral)) ()
      = ((p', as), qs, w') \<and>
    minted as = [0, 1] \<and> collected as = [1] \<and> dom (pf_jobs p') = {0}"
proof -
  let ?ops = "[Spawn (cmd_new ''a'') plan_inherit, Spawn (cmd_new ''b'') plan_inherit, WaitAny [1, 0], WaitAny [1]]"
  let ?p = "with_executor echo (platform_new still_host (session_new demo_table) facts_neutral)"
  obtain p' as qs w' where r: "platform_run still_host ascii_unicode ?ops ?p () = ((p', as), qs, w')"
    by (metis prod.exhaust)
  have "minted (snd (fst (platform_run still_host ascii_unicode ?ops ?p ()))) = [0, 1]"
    "collected (snd (fst (platform_run still_host ascii_unicode ?ops ?p ()))) = [1]" by code_simp+
  with r have a: "minted as = [0, 1]" "collected as = [1]" by simp_all
  with handles_never_alias [OF _ r] have "dom (pf_jobs p') = {0}" by auto
  with a r show ?thesis by blast
qed

text \<open>The paths of an effect that the filesystem would act on.\<close>

fun op_strings :: "platform_op \<Rightarrow> string list" where
  "op_strings (FileReadUtf8 s) = [s]"
| "op_strings (FileReadBytes s) = [s]"
| "op_strings (FileWriteUtf8 s c) = [s]"
| "op_strings (FileWriteBytes s c) = [s]"
| "op_strings (PathType s) = [s]"
| "op_strings (DirCreateAll s) = [s]"
| "op_strings (DirList s) = [s]"
| "op_strings (FileDelete s) = [s]"
| "op_strings (PathCanonicalize s) = [s]"
| "op_strings (FileSetExecutable s b) = [s]"
| "op_strings (FileIsExecutable s) = [s]"
| "op_strings (FileIsReadable s) = [s]"
| "op_strings (FileIsWritable s) = [s]"
| "op_strings (DirDeleteEmpty s) = [s]"
| "op_strings (DirDeleteAll s) = [s]"
| "op_strings (DirCreate s) = [s]"
| "op_strings (FileSize s) = [s]"
| "op_strings (FileHardLink a b) = [a, b]"
| "op_strings (FileRename a b) = [a, b]"
| "op_strings _ = []"

lemma effect_then_return [simp]:
  "effect_then (sure_return (Inl e)) f = sure_return (Inl e)"
  "effect_then (sure_return (Inr x)) f = f x"
  by (simp_all add: effect_then_def sure_bind_def sure_return_def fun_eq_iff case_prod_unfold)

lemma resolve_refused:
  "session_resolve u (pf_session p) s = Inl e \<Longrightarrow> platform_resolve u p s = sure_return (Inl PeNotFound)"
  by (simp add: platform_resolve_def)

lemma resolve_answers:
  "(\<exists>vp. platform_resolve u p s = sure_return (Inr vp)) \<or> platform_resolve u p s = sure_return (Inl PeNotFound)"
  by (cases "session_resolve u (pf_session p) s") (auto simp: platform_resolve_def)

text \<open>A path the grammar refuses is not found, however it came to be unnameable: every effect on
  such a path, either path of a link or a rename included, answers so, asks the host nothing and
  leaves the platform as it was.\<close>

theorem unnameable_is_not_found:
  assumes "s \<in> set (op_strings op)" and "session_resolve u (pf_session p) s = Inl e"
  shows "platform_exec H u op p w = ((p, Inl PeNotFound), [], w)"
proof -
  note refused = resolve_refused [OF assms(2)]
  have one: "on_path u p s f = sure_return (Inl PeNotFound)" for f :: "mount_table \<Rightarrow> virtual_path \<Rightarrow> ('a, 'b) io"
    by (simp add: on_path_def refused)
  have two: "on_paths u p a b f = sure_return (Inl PeNotFound)" if "s = a \<or> s = b" for a b
    and f :: "mount_table \<Rightarrow> virtual_path \<Rightarrow> virtual_path \<Rightarrow> ('a, unit) io"
    using that resolve_answers [of u p a] refused by (auto simp: on_paths_def)
  have stays: "observe p (sure_return (Inl PeNotFound)) w = ((p, Inl PeNotFound), [], w)"
    by (simp add: observe_def sure_bind_def sure_return_def plainly_def)
  show ?thesis
    using assms(1)
    by (cases op) (auto simp: file_read_utf8_def file_read_bytes_def file_write_utf8_def
        file_write_bytes_def path_type_def probe_def dir_create_all_def dir_list_def file_delete_def
        path_canonicalize_def file_set_executable_def file_is_executable_def file_is_readable_def
        file_is_writable_def may_access_def dir_delete_empty_def dir_delete_all_def dir_create_def
        file_size_in_bytes_def file_hard_link_def file_rename_def refused one two stays)
qed

theorem unnameable_is_not_found_witness:
  "platform_exec still_host ascii_unicode (FileRename ''/work/a'' ''aux.txt'') quiet_platform ()
     = ((quiet_platform, Inl PeNotFound), [], ())"
proof (rule unnameable_is_not_found)
  show "''aux.txt'' \<in> set (op_strings (FileRename ''/work/a'' ''aux.txt''))" by simp
  show "session_resolve ascii_unicode (pf_session quiet_platform) ''aux.txt'' = Inl (ReservedName ''aux.txt'')"
    by code_simp
qed

text \<open>Setting the executable bits changes the three of them and no other.\<close>

theorem updated_mode_exact:
  "bit (updated_mode runnable m) n \<longleftrightarrow> (if n \<in> {0, 3, 6} then runnable else bit m n)"
proof -
  have e: "bit EXEC_BITS n \<longleftrightarrow> n \<in> {0, 3, 6}"
  proof (cases "n < 32")
    case True
    then have "n \<in> set [0..<32]" by simp
    moreover have "list_all (\<lambda>n. bit EXEC_BITS n \<longleftrightarrow> n \<in> {0, 3, 6}) [0..<32]" by code_simp
    ultimately show ?thesis by (simp add: list_all_iff)
  next
    case False
    then show ?thesis using bit_imp_le_length [of EXEC_BITS n] by auto
  qed
  have set_bits: "bit EXEC_BITS 0" "bit EXEC_BITS 3" "bit EXEC_BITS 6" by code_simp+
  show ?thesis
  proof (cases "n < LENGTH(32)")
    case True
    then show ?thesis by (simp add: updated_mode_def bit_or_iff bit_and_iff bit_not_iff e set_bits)
  next
    case False
    then show ?thesis
      using bit_imp_le_length [of m n] bit_imp_le_length [of "updated_mode runnable m" n] by auto
  qed
qed

text \<open>Changing directory is the exception to the rule on unnameable paths: the session's error
  reaches the guest with its message.\<close>

theorem set_cwd_tells_apart:
  "snd (fst (platform_exec still_host ascii_unicode (EnvSetCwd ''aux.txt'') quiet_platform ()))
     = Inl (PeOther (ErrorText (invalid_path (ReservedName ''aux.txt''))))"
  by code_simp

text \<open>One entry with a name the grammar refuses makes its whole directory unlistable.\<close>

theorem one_entry_hides_the_rest:
  "fst (dir_list (still_host\<lparr>h_names := \<lambda>w q. (Inr [Inr ''a'', Inr ''aux.txt''], w)\<rparr>) ascii_unicode
     quiet_platform ''/work'' ()) = Inl PeNotFound"
  by code_simp

text \<open>An execution that never starts has already drained the input.\<close>

theorem failed_run_eats_input:
  "fst (fst (platform_exec still_host ascii_unicode (Spawn (cmd_new ''cat'') plan_inherit)
       (with_stdin ''line'' (platform_new still_host (session_new demo_table) facts_neutral)) ()))
     = input_set \<lparr> si_bytes = ''line'', si_cursor = 4 \<rparr>
         (with_stdin ''line'' (platform_new still_host (session_new demo_table) facts_neutral)) \<and>
   snd (fst (platform_exec still_host ascii_unicode (Spawn (cmd_new ''cat'') plan_inherit)
       (with_stdin ''line'' (platform_new still_host (session_new demo_table) facts_neutral)) ()))
     = Inl PeUnsupported"
  by (simp add: spawn_def plan_inherit_def with_stdin_def platform_new_def stdio_new_def stdin_new_def
      read_to_end_def input_set_def mut_then_def sure_bind_def sure_return_def NO_EXECUTOR_def)

end
