(* ===== verification/Child_Exec.thy ===== *)
theory Child_Exec
  imports Platform Broker Exec_Policy
begin

text \<open>
  The executor behind the platform's commands (\<^verbatim>\<open>brush-broker-exec/src/lib.rs\<close>): it runs one
  program only, the trusted launcher with the dispatch flag, and serves the child this session's
  namespace through the broker. A child is started, fed and collected by requests of the host. The
  process-wide counter that names a rendezvous is kept in the world; \<open>draw\<close> takes its next value.

  The thread that feeds standard input runs beside the reading of the output in the code; its
  request comes first here. Its failure is ignored there and here.
\<close>

unbundle bit_operations_syntax

section \<open>The executor\<close>

record broker_executor =
  be_session :: session
  be_launcher :: string
  be_dispatch_flag :: string

definition executor_new :: "session \<Rightarrow> string \<Rightarrow> string \<Rightarrow> broker_executor" where
  "executor_new s launcher dispatch_flag =
     \<lparr> be_session = s, be_launcher = launcher, be_dispatch_flag = dispatch_flag \<rparr>"

definition for_current_exe :: "'w host \<Rightarrow> session \<Rightarrow> string \<Rightarrow> ('w, broker_executor) io" where
  "for_current_exe H s dispatch_flag =
     try_then (call (h_bytes H) CurrentExe) (\<lambda>exe. ok (executor_new s exe dispatch_flag))"

text \<open>\<^verbatim>\<open>std::process::Command\<close>: a program, its arguments, and the changes to its environment, which
  is a map in name order.\<close>

record command =
  cm_program :: string
  cm_args :: "string list"
  cm_cleared :: bool
  cm_envs :: "(string \<times> string) list"

definition command_new :: "string \<Rightarrow> command" where
  "command_new program =
     \<lparr> cm_program = program, cm_args = [], cm_cleared = False, cm_envs = [] \<rparr>"

definition command_args :: "string list \<Rightarrow> command \<Rightarrow> command" where
  "command_args args c = c\<lparr>cm_args := cm_args c @ args\<rparr>"

definition env_clear :: "command \<Rightarrow> command" where
  "env_clear c = c\<lparr>cm_cleared := True, cm_envs := []\<rparr>"

definition command_env :: "string \<Rightarrow> string \<Rightarrow> command \<Rightarrow> command" where
  "command_env name value c = c\<lparr>cm_envs := bt_insert name value (cm_envs c)\<rparr>"

definition launch_command :: "broker_executor \<Rightarrow> cmd \<Rightarrow> string \<Rightarrow> command" where
  "launch_command ex c rendezvous_path =
     (let k = command_args (cmd_args c)
                (command_args [be_dispatch_flag ex, cmd_program c] (command_new (be_launcher ex)));
          k = (if cmd_clear_envs c then env_clear k else k);
          k = fold (\<lambda>(name, value). command_env name value) (cmd_envs c) k
      in command_env RENDEZVOUS_ENV rendezvous_path k)"

text \<open>\<^verbatim>\<open>std::process::ExitStatus\<close> over the wait status of the kernel.\<close>

definition status_signal :: "i32 \<Rightarrow> i32 option" where
  "status_signal s =
     (let n = s AND 0x7F in if n \<noteq> 0 \<and> n \<noteq> 0x7F then Some n else None)"

definition status_code :: "i32 \<Rightarrow> i32 option" where
  "status_code s = (if s AND 0x7F = 0 then Some (drop_bit 8 s AND 0xFF) else None)"

definition exit_of :: "i32 \<Rightarrow> exit" where
  "exit_of s =
     (case status_signal s of
        Some signal \<Rightarrow> ExitSignal signal
      | None \<Rightarrow> ExitCode (case status_code s of Some code \<Rightarrow> code | None \<Rightarrow> 1))"

definition broker_failed :: "io_error \<Rightarrow> platform_error" where
  "broker_failed e = PeOther (PrefixedText ''session broker: '' e)"

definition spawn_failed :: "io_error \<Rightarrow> platform_error" where
  "spawn_failed e =
     (case kind e of
        PermissionDenied \<Rightarrow> PePermissionDenied
      | BrokenPipe \<Rightarrow> PeBrokenPipe
      | Interrupted \<Rightarrow> PeInterrupted
      | _ \<Rightarrow> PeOther (PrefixedText ''could not run the launcher: '' e))"

definition effect_with :: "(io_error \<Rightarrow> platform_error) \<Rightarrow> ('w, 'a) io \<Rightarrow> ('w, 'a) effect" where
  "effect_with f m = (\<lambda>w. case m w of (r, qs, w') \<Rightarrow> (map_err f r, qs, w'))"

text \<open>Spawn; where it fails the rendezvous is dropped on the way out.\<close>

definition spawn_child :: "'w host \<Rightarrow> rendezvous \<Rightarrow> command \<Rightarrow> ('w, nat) io" where
  "spawn_child H rv k =
     try_then (attempt (call (h_num H)
       (SpawnChild (cm_program k) (cm_args k) (cm_cleared k) (cm_envs k))))
       (\<lambda>r. case r of Inl e \<Rightarrow> and_drop H rv (fail e) | Inr n \<Rightarrow> ok n)"

text \<open>Feed the input and \<^verbatim>\<open>wait_with_output\<close>.\<close>

definition collect_child :: "'w host \<Rightarrow> nat \<Rightarrow> string \<Rightarrow> ('w, run_result) io" where
  "collect_child H n stdin =
     try_then (attempt (call (h_unit H) (ChildStdin n stdin))) (\<lambda>_.
     try_then (call (h_bytes H) (ChildStdout n)) (\<lambda>out.
     try_then (call (h_bytes H) (ChildStderr n)) (\<lambda>err.
     try_then (call (h_int H) (ChildWait n)) (\<lambda>status.
       ok \<lparr> rr_exit = exit_of (word_of_int status), rr_stdout = out, rr_stderr = err \<rparr>))))"

text \<open>\<^verbatim>\<open>child.id() as i32\<close>.\<close>

definition pid_of :: "nat \<Rightarrow> int" where
  "pid_of n = sint (word_of_nat n :: i32)"

text \<open>\<^const>\<open>None\<close> where the broker's accept loop runs out of \<open>fuel\<close>.\<close>

definition broker_run ::
  "'w host \<Rightarrow> nat \<Rightarrow> string \<Rightarrow> nat \<Rightarrow> ('w \<Rightarrow> u64 \<times> 'w) \<Rightarrow> broker_executor \<Rightarrow> cmd \<Rightarrow> string \<Rightarrow>
   ('w, run_result option) effect" where
  "broker_run H fuel temp_dir own_pid draw ex c stdin =
     sure_bind (\<lambda>w. case draw w of (counter, w') \<Rightarrow> (counter, [], w')) (\<lambda>counter.
     effect_then (effect_with broker_failed (rendezvous_create H temp_dir own_pid counter)) (\<lambda>(rv, _).
     effect_then (effect_with spawn_failed (spawn_child H rv (launch_command ex c (rv_path rv)))) (\<lambda>n.
     effect_then (effect_with broker_failed (broker_serve H fuel rv (Some (pid_of n)) (be_session ex)))
       (\<lambda>served. case served of
          None \<Rightarrow> sure_return (Inr None)
        | Some _ \<Rightarrow>
            effect_then (effect_with spawn_failed (collect_child H n stdin))
              (\<lambda>res. sure_return (Inr (Some res)))))))"

text \<open>The executor as the platform takes it. With fuel for the whole accept timeout the last case
  does not arise.\<close>

definition brokered ::
  "'w host \<Rightarrow> nat \<Rightarrow> string \<Rightarrow> nat \<Rightarrow> ('w \<Rightarrow> u64 \<times> 'w) \<Rightarrow> broker_executor \<Rightarrow> 'w executor" where
  "brokered H fuel temp_dir own_pid draw ex c stdin =
     effect_then (broker_run H fuel temp_dir own_pid draw ex c stdin) (\<lambda>r.
       sure_return (case r of
         Some res \<Rightarrow> Inr res
       | None \<Rightarrow> Inl (PeOther (FixedText ''session broker: out of fuel''))))"

section \<open>What it asks for\<close>

text \<open>The directory and the socket a process's rendezvous with a number has.\<close>

definition rendezvous_dir :: "string \<Rightarrow> nat \<Rightarrow> string" where
  "rendezvous_dir temp_dir own_pid = temp_dir @ ''/brush-broker-'' @ decimal own_pid"

definition rendezvous_socket :: "string \<Rightarrow> nat \<Rightarrow> u64 \<Rightarrow> string" where
  "rendezvous_socket temp_dir own_pid i = rendezvous_dir temp_dir own_pid @ ''/s'' @ decimal (unat i)"

definition launches :: "broker_executor \<Rightarrow> cmd \<Rightarrow> string \<Rightarrow> request \<Rightarrow> bool" where
  "launches ex c socket q \<longleftrightarrow>
     (\<exists>envs. q = SpawnChild (be_launcher ex) (be_dispatch_flag ex # cmd_program c # cmd_args c)
               (cmd_clear_envs c) envs \<and>
        map_of envs = (map_of (rev (cmd_envs c)))(RENDEZVOUS_ENV \<mapsto> socket))"

fun is_child_io :: "request \<Rightarrow> bool" where
  "is_child_io (ChildStdin n s) = True"
| "is_child_io (ChildStdout n) = True"
| "is_child_io (ChildStderr n) = True"
| "is_child_io (ChildWait n) = True"
| "is_child_io _ = False"

fun is_spawn :: "request \<Rightarrow> bool" where
  "is_spawn (SpawnChild l args cleared envs) = True"
| "is_spawn _ = False"

lemma fold_command_env:
  "map_of (cm_envs (fold (\<lambda>(name, value). command_env name value) es k)) =
     map_of (cm_envs k) ++ map_of (rev es)"
  "cm_program (fold (\<lambda>(name, value). command_env name value) es k) = cm_program k"
  "cm_args (fold (\<lambda>(name, value). command_env name value) es k) = cm_args k"
  "cm_cleared (fold (\<lambda>(name, value). command_env name value) es k) = cm_cleared k"
  by (induction es arbitrary: k)
    (auto simp: command_env_def map_of_bt_insert map_add_def fun_eq_iff split: option.split)

lemma launch_command_facts:
  "cm_program (launch_command ex c socket) = be_launcher ex"
  "cm_args (launch_command ex c socket) = be_dispatch_flag ex # cmd_program c # cmd_args c"
  "cm_cleared (launch_command ex c socket) = cmd_clear_envs c"
  "map_of (cm_envs (launch_command ex c socket)) =
     (map_of (rev (cmd_envs c)))(RENDEZVOUS_ENV \<mapsto> socket)"
proof -
  let ?k = "(if cmd_clear_envs c
     then env_clear (command_args (cmd_args c)
            (command_args [be_dispatch_flag ex, cmd_program c] (command_new (be_launcher ex))))
     else command_args (cmd_args c)
            (command_args [be_dispatch_flag ex, cmd_program c] (command_new (be_launcher ex))))"
  have k: "cm_program ?k = be_launcher ex" "cm_cleared ?k = cmd_clear_envs c" "cm_envs ?k = []"
    "cm_args ?k = be_dispatch_flag ex # cmd_program c # cmd_args c"
    by (simp_all add: command_args_def env_clear_def command_new_def)
  have l: "launch_command ex c socket = command_env RENDEZVOUS_ENV socket
      (fold (\<lambda>(name, value). command_env name value) (cmd_envs c) ?k)"
    by (simp add: launch_command_def Let_def)
  show "cm_program (launch_command ex c socket) = be_launcher ex"
    "cm_args (launch_command ex c socket) = be_dispatch_flag ex # cmd_program c # cmd_args c"
    "cm_cleared (launch_command ex c socket) = cmd_clear_envs c"
    unfolding l by (simp_all only: command_env_def fold_command_env k command.simps)
      (simp_all add: fold_command_env k)
  show "map_of (cm_envs (launch_command ex c socket)) =
     (map_of (rev (cmd_envs c)))(RENDEZVOUS_ENV \<mapsto> socket)"
    unfolding l by (simp add: command_env_def map_of_bt_insert fold_command_env k)
qed

text \<open>What handing a session over asks of the host, what a run does before the child is served, and in
  all.\<close>

definition handover_asks :: "string \<Rightarrow> nat \<Rightarrow> session \<Rightarrow> request \<Rightarrow> bool" where
  "handover_asks temp_dir own_pid s q \<longleftrightarrow>
     (case q of
        HostMkdir dir mode recursive \<Rightarrow> dir = rendezvous_dir temp_dir own_pid
      | SocketBind socket \<Rightarrow> \<exists>i. socket = rendezvous_socket temp_dir own_pid i
      | HostUnlink socket \<Rightarrow> \<exists>i. socket = rendezvous_socket temp_dir own_pid i
      | HostRmdir dir \<Rightarrow> dir = rendezvous_dir temp_dir own_pid
      | TryClone d \<Rightarrow> \<exists>m \<in> set (mounts (s_vfs s)). d = m_dir m
      | SocketSend stream bytes fds \<Rightarrow> True
      | SocketNonblocking l \<Rightarrow> True | SocketAccept l \<Rightarrow> True | SocketPeerPid n \<Rightarrow> True
      | ClockNow \<Rightarrow> True | SleepMillis n \<Rightarrow> True | _ \<Rightarrow> False)"

definition setup_asks :: "string \<Rightarrow> nat \<Rightarrow> broker_executor \<Rightarrow> cmd \<Rightarrow> request \<Rightarrow> bool" where
  "setup_asks temp_dir own_pid ex c q \<longleftrightarrow>
     handover_asks temp_dir own_pid (be_session ex) q \<or>
     (\<exists>i. launches ex c (rendezvous_socket temp_dir own_pid i) q)"

fun feeds :: "string \<Rightarrow> request \<Rightarrow> bool" where
  "feeds stdin (ChildStdin n s) = (s = stdin)"
| "feeds stdin q = is_child_io q"

definition run_asks ::
  "string \<Rightarrow> nat \<Rightarrow> broker_executor \<Rightarrow> cmd \<Rightarrow> string \<Rightarrow> request \<Rightarrow> bool" where
  "run_asks temp_dir own_pid ex c stdin q \<longleftrightarrow> setup_asks temp_dir own_pid ex c q \<or> feeds stdin q"

lemma handover_asks_cases [simp]:
  "handover_asks temp_dir own_pid s (HostMkdir (rendezvous_dir temp_dir own_pid) mode r)"
  "handover_asks temp_dir own_pid s (SocketBind (rendezvous_socket temp_dir own_pid i))"
  "handover_asks temp_dir own_pid s (HostUnlink (rendezvous_socket temp_dir own_pid i))"
  "handover_asks temp_dir own_pid s (HostRmdir (rendezvous_dir temp_dir own_pid))"
  "handover_asks temp_dir own_pid s (TryClone d) \<longleftrightarrow> (\<exists>m \<in> set (mounts (s_vfs s)). d = m_dir m)"
  "\<not> handover_asks temp_dir own_pid s (SpawnChild l args cleared envs)"
  "handover_asks temp_dir own_pid s (SocketSend stream bytes fds)"
  "handover_asks temp_dir own_pid s (SocketNonblocking n)"
  "handover_asks temp_dir own_pid s (SocketAccept n)"
  "handover_asks temp_dir own_pid s (SocketPeerPid n)"
  "handover_asks temp_dir own_pid s ClockNow"
  "handover_asks temp_dir own_pid s (SleepMillis n)"
  by (auto simp: handover_asks_def)

lemma setup_spawns [simp]:
  "setup_asks temp_dir own_pid ex c (SpawnChild l args cleared envs) \<longleftrightarrow>
     (\<exists>i. launches ex c (rendezvous_socket temp_dir own_pid i) (SpawnChild l args cleared envs))"
  by (simp add: setup_asks_def)

lemma setup_no_child_io: "setup_asks temp_dir own_pid ex c q \<Longrightarrow> \<not> is_child_io q"
  by (cases q) (simp_all add: setup_asks_def handover_asks_def launches_def)

lemma emits_setup:
  "emits (handover_asks temp_dir own_pid (be_session ex)) m Q \<Longrightarrow> emits (setup_asks temp_dir own_pid ex c) m Q"
  by (erule emits_mono) (simp_all add: setup_asks_def)

lemma create_handover:
  "emits (handover_asks temp_dir own_pid s) (rendezvous_create H temp_dir own_pid counter)
     (\<lambda>(rv, _). rv_dir rv = rendezvous_dir temp_dir own_pid \<and>
        rv_path rv = rendezvous_socket temp_dir own_pid counter)"
  unfolding rendezvous_create_def Let_def next_id_def prod.case
  by (fold rendezvous_dir_def, fold rendezvous_socket_def)
    (intro emits_try_call emits_ok; simp)

lemma drop_handover:
  assumes "rv_dir rv = rendezvous_dir temp_dir own_pid"
    and "rv_path rv = rendezvous_socket temp_dir own_pid i"
  shows "emits (handover_asks temp_dir own_pid s) (rendezvous_drop H rv) (\<lambda>_. True)"
  unfolding rendezvous_drop_def
  by (intro emits_attempt_call emits_ok) (simp_all add: assms)

lemma and_drop_handover:
  assumes "rv_dir rv = rendezvous_dir temp_dir own_pid"
    and "rv_path rv = rendezvous_socket temp_dir own_pid i"
    and "emits (handover_asks temp_dir own_pid s) m Q"
  shows "emits (handover_asks temp_dir own_pid s) (and_drop H rv m) Q"
  unfolding and_drop_def
  by (rule emits_try_then [OF emits_attempt [OF assms(3)]], rule emits_try_then [OF drop_handover [OF assms(1,2)]])
    (auto intro: emits_lift_result)

lemma accept_handover: "emits (handover_asks temp_dir own_pid s) (accept_before H fuel l deadline) (\<lambda>_. True)"
proof (induction fuel)
  case 0
  show ?case by (simp add: emits_ok)
next
  case (Suc fuel)
  show ?case unfolding accept_before.simps clock_now_def
  proof (rule emits_attempt_call)
    show "handover_asks temp_dir own_pid s (SocketAccept l)" by simp
  qed (auto intro!: emits_ok emits_fail emits_try_call Suc emits_if split: sum.split)
qed

lemma duplicate_handover:
  "\<forall>(p, acc, d) \<in> set loans. \<exists>m \<in> set (mounts (s_vfs (s))). d = m_dir m \<Longrightarrow>
     emits (handover_asks temp_dir own_pid s) (duplicate_all H loans) (\<lambda>_. True)"
proof (induction loans)
  case Nil
  show ?case by (simp add: emits_ok)
next
  case (Cons l loans)
  obtain p acc d where l: "l = (p, acc, d)" by (cases l)
  show ?case unfolding l duplicate_all.simps
    by (rule emits_try_call, use Cons.prems l in simp)
      (rule emits_try_then [OF Cons.IH], use Cons.prems in \<open>auto intro: emits_ok\<close>)
qed

lemma capture_handover: "emits (handover_asks temp_dir own_pid s) (capture H (s)) (\<lambda>_. True)"
  unfolding capture_def
  by (rule emits_try_then [OF duplicate_handover]) (auto simp: lend_to_child_def intro: emits_ok)

lemma serve_handover:
  assumes "rv_dir rv = rendezvous_dir temp_dir own_pid"
    and "rv_path rv = rendezvous_socket temp_dir own_pid i"
  shows "emits (handover_asks temp_dir own_pid s) (broker_serve H fuel rv pid (s)) (\<lambda>_. True)"
proof -
  let ?P = "handover_asks temp_dir own_pid s"
  have peer: "emits ?P (peer_pid H stream) (\<lambda>_. True)" for stream
    unfolding peer_pid_def by (rule emits_try_call) (auto intro!: emits_if emits_fail emits_ok)
  have inside: "emits ?P (rendezvous_serve H fuel rv n payload) (\<lambda>_. True)" for n payload
    unfolding rendezvous_serve_def clock_now_def
  proof (rule and_drop_handover [OF assms], rule emits_try_call)
    show "?P ClockNow" by simp
    show "emits ?P (try_then (accept_before H fuel (rv_listener rv) (start + ACCEPT_TIMEOUT)) (\<lambda>accepted.
        case accepted of None \<Rightarrow> ok None
        | Some stream \<Rightarrow> try_then (peer_pid H stream) (\<lambda>peer. if peer \<noteq> n
            then fail (Custom PermissionDenied (Text (''session broker: expected a connection from pid ''
              @ decimal n @ '', got '' @ decimal peer)))
            else try_then (call (h_unit H) (SocketSend stream (encode (p_cwd payload) (p_mounts payload))
              (map (\<lambda>(at, acc, fd). fd) (p_mounts payload)))) (\<lambda>_. ok (Some ()))))) (\<lambda>_. True)" for start
      by (rule emits_try_then [OF accept_handover])
        (auto intro!: emits_ok emits_fail emits_if emits_try_call emits_try_then [OF peer]
          split: option.split)
  qed
  show ?thesis
    unfolding broker_serve_def
    by (auto intro!: and_drop_handover [OF assms] emits_fail emits_try_attempt [OF capture_handover] inside emits_if
        split: option.split)
qed

lemma spawn_child_asks:
  assumes "rv_dir rv = rendezvous_dir temp_dir own_pid"
    and "rv_path rv = rendezvous_socket temp_dir own_pid i"
  shows "emits (setup_asks temp_dir own_pid ex c)
    (spawn_child H rv (launch_command ex c (rv_path rv))) (\<lambda>_. True)"
  unfolding spawn_child_def
proof (rule emits_attempt_call)
  show "setup_asks temp_dir own_pid ex c (SpawnChild (cm_program (launch_command ex c (rv_path rv)))
      (cm_args (launch_command ex c (rv_path rv))) (cm_cleared (launch_command ex c (rv_path rv)))
      (cm_envs (launch_command ex c (rv_path rv))))"
    by (auto simp: launches_def launch_command_facts assms(2))
  show "emits (setup_asks temp_dir own_pid ex c)
      (case r of Inl e \<Rightarrow> and_drop H rv (fail e) | Inr n \<Rightarrow> ok n) (\<lambda>_. True)" for r
    by (cases r) (auto intro: emits_setup and_drop_handover [OF assms] emits_fail emits_ok)
qed

lemma collect_asks: "emits (run_asks temp_dir own_pid ex c stdin) (collect_child H n stdin) (\<lambda>_. True)"
  unfolding collect_child_def
  by (intro emits_attempt_call emits_try_call emits_ok) (simp_all add: run_asks_def)

lemma asks_effect_with: "emits P m Q \<Longrightarrow> asks P (effect_with f m) (\<lambda>r. \<forall>x. r = Inr x \<longrightarrow> Q x)"
  by (auto simp: asks_def effect_with_def emits_def split: prod.split)
    (metis requests_simp, metis result.simps)

lemma setup_effect:
  "emits (setup_asks temp_dir own_pid ex c) m Q \<Longrightarrow>
     asks (run_asks temp_dir own_pid ex c stdin) (effect_with f m) (\<lambda>r. \<forall>x. r = Inr x \<longrightarrow> Q x)"
  by (rule asks_mono [where P = "setup_asks temp_dir own_pid ex c", OF asks_effect_with])
    (simp_all add: run_asks_def)

lemma asks_draw: "asks P (\<lambda>w. case draw w of (n, w') \<Rightarrow> (n, [], w')) (\<lambda>_. True)"
  by (simp add: asks_def split: prod.split)

lemma broker_run_asks:
  "asks (run_asks temp_dir own_pid ex c stdin) (broker_run H fuel temp_dir own_pid draw ex c stdin) (\<lambda>_. True)"
  unfolding broker_run_def
proof (rule asks_bind [OF asks_draw], rule asks_effect_then [OF setup_effect [OF emits_setup [OF create_handover]]])
  fix counter and x :: "rendezvous \<times> u64"
  obtain rv n' where x: "x = (rv, n')" by (cases x)
  assume "\<forall>y. (Inr x :: platform_error + rendezvous \<times> u64) = Inr y \<longrightarrow>
    (case y of (rv, _) \<Rightarrow> rv_dir rv = rendezvous_dir temp_dir own_pid \<and>
       rv_path rv = rendezvous_socket temp_dir own_pid counter)"
  then have rv: "rv_dir rv = rendezvous_dir temp_dir own_pid"
    "rv_path rv = rendezvous_socket temp_dir own_pid counter" by (simp_all add: x)
  show "asks (run_asks temp_dir own_pid ex c stdin) (case x of (rv, _) \<Rightarrow>
      effect_then (effect_with spawn_failed (spawn_child H rv (launch_command ex c (rv_path rv)))) (\<lambda>n.
      effect_then (effect_with broker_failed (broker_serve H fuel rv (Some (pid_of n)) (be_session ex)))
       (\<lambda>served. case served of
          None \<Rightarrow> sure_return (Inr None)
        | Some _ \<Rightarrow>
            effect_then (effect_with spawn_failed (collect_child H n stdin))
              (\<lambda>res. sure_return (Inr (Some res)))))) (\<lambda>_. True)"
    unfolding x prod.case
    by (intro asks_effect_then [OF setup_effect [OF spawn_child_asks [OF rv]]]
        asks_effect_then [OF setup_effect [OF emits_setup [OF serve_handover [OF rv]]]])
      (auto intro!: asks_return asks_effect_then [OF asks_effect_with [OF collect_asks]] split: option.split)
qed simp

lemma brokered_asks:
  "asks (\<lambda>q. \<exists>c stdin. run_asks temp_dir own_pid ex c stdin q)
     (brokered H fuel temp_dir own_pid draw ex c stdin) (\<lambda>_. True)"
proof -
  have "asks (run_asks temp_dir own_pid ex c stdin) (brokered H fuel temp_dir own_pid draw ex c stdin) (\<lambda>_. True)"
    unfolding brokered_def by (rule asks_effect_then [OF broker_run_asks]) (simp_all add: asks_return)
  then show ?thesis by (rule asks_mono) auto
qed

text \<open>What a platform with the system's sources and a brokered executor asks of the host besides its
  namespace: the clock, randomness, and the requests of a run.\<close>

definition host_side :: "string \<Rightarrow> nat \<Rightarrow> broker_executor \<Rightarrow> request \<Rightarrow> bool" where
  "host_side temp_dir own_pid ex q \<longleftrightarrow>
     q = WallClock \<or> q = RandomU64 \<or> (\<exists>c stdin. run_asks temp_dir own_pid ex c stdin q)"

lemma system_sources_ask:
  "outside_asks (host_side temp_dir own_pid ex)
     (with_executor (brokered H fuel temp_dir own_pid draw ex) (platform_new H s facts))"
  unfolding outside_asks_def
proof (intro conjI allI impI)
  fix run c stdin
  assume "pf_executor (with_executor (brokered H fuel temp_dir own_pid draw ex) (platform_new H s facts)) = Some run"
  then have "run = brokered H fuel temp_dir own_pid draw ex" by (simp add: with_executor_def)
  then show "asks (host_side temp_dir own_pid ex) (run c stdin) (\<lambda>_. True)"
    by (simp, intro asks_mono [OF brokered_asks]) (auto simp: host_side_def)
next
  show "asks (host_side temp_dir own_pid ex) (ck_now_nanos (pf_clock
      (with_executor (brokered H fuel temp_dir own_pid draw ex) (platform_new H s facts)))) (\<lambda>_. True)"
    by (simp add: with_executor_def platform_new_def system_clock_def asks_def call_def host_side_def
        split: prod.split)
  show "asks (host_side temp_dir own_pid ex) (pf_rng
      (with_executor (brokered H fuel temp_dir own_pid draw ex) (platform_new H s facts))) (\<lambda>_. True)"
    by (simp add: with_executor_def platform_new_def system_rng_def asks_def call_def host_side_def
        split: prod.split)
qed

section \<open>The order of a run\<close>

lemma emits_run: "emits P m Q \<Longrightarrow> m w = (r, qs, w') \<Longrightarrow> list_all P qs \<and> (\<forall>x. r = Inr x \<longrightarrow> Q x)"
  unfolding emits_def by (metis requests_simp result.simps)

lemma spawn_child_spawns:
  "spawn_child H rv k w = (Inr n, qs, w') \<Longrightarrow> list_ex is_spawn qs"
  by (auto simp: spawn_child_def try_then_def attempt_def call_def and_drop_def fail_def ok_def
      lift_result_def split: prod.splits sum.splits)

lemma serve_sends:
  "broker_serve H fuel rv pid s w = (Inr (Some ()), qs, w') \<Longrightarrow> list_ex is_send qs"
proof -
  have drop: "and_drop H rv m w = (Inr x, qs, w') \<Longrightarrow> \<exists>qs' qs'' v. m w = (Inr x, qs', v) \<and> qs = qs' @ qs''"
    for m :: "('a, unit option) io" and x qs w w'
    by (auto simp: and_drop_def try_then_def attempt_def lift_result_def split: prod.splits sum.splits)
  have inner: "list_ex is_send qs" if r: "rendezvous_serve H fuel rv n payload w = (Inr (Some ()), qs, w')"
    for n payload qs w w'
  proof -
    from drop [OF r [unfolded rendezvous_serve_def]] obtain qs' qs'' v where
      m: "try_then (clock_now H) (\<lambda>start.
        try_then (accept_before H fuel (rv_listener rv) (start + ACCEPT_TIMEOUT)) (\<lambda>accepted.
        case accepted of None \<Rightarrow> ok None
        | Some stream \<Rightarrow> try_then (peer_pid H stream) (\<lambda>peer. if peer \<noteq> n
            then fail (Custom PermissionDenied (Text (''session broker: expected a connection from pid ''
              @ decimal n @ '', got '' @ decimal peer)))
            else try_then (call (h_unit H) (SocketSend stream (encode (p_cwd payload) (p_mounts payload))
              (map (\<lambda>(at, acc, fd). fd) (p_mounts payload)))) (\<lambda>_. ok (Some ()))))) w
        = (Inr (Some ()), qs', v)" and q: "qs = qs' @ qs''" by blast
    have "list_ex is_send qs'"
      using m by (auto simp: try_then_def call_def ok_def fail_def split: prod.splits sum.splits
          option.splits if_splits)
    with q show ?thesis by simp
  qed
  have fails: "and_drop H rv (fail e) w = (Inr x, qs, w') \<Longrightarrow> False" for e and x :: "unit option" and qs w w'
    by (auto dest!: drop simp: fail_def)
  assume "broker_serve H fuel rv pid s w = (Inr (Some ()), qs, w')"
  then show ?thesis
    unfolding broker_serve_def
    by (auto simp: try_then_def attempt_def dest: inner fails split: option.splits if_splits prod.splits sum.splits)
qed

text \<open>Nothing is exchanged with a child before it was spawned and sent its namespace.\<close>

definition child_last :: "request list \<Rightarrow> bool" where
  "child_last qs \<longleftrightarrow>
     (\<forall>xs q ys. qs = xs @ q # ys \<and> is_child_io q \<longrightarrow> list_ex is_spawn xs \<and> list_ex is_send xs)"

lemma child_last_none: "list_all (\<lambda>q. \<not> is_child_io q) qs \<Longrightarrow> child_last qs"
  by (auto simp: child_last_def)

lemma child_last_after:
  assumes "list_all (\<lambda>q. \<not> is_child_io q) qs" and "list_ex is_spawn qs" and "list_ex is_send qs"
  shows "child_last (qs @ rest)"
  unfolding child_last_def
proof (intro allI impI)
  fix xs q ys assume h: "qs @ rest = xs @ q # ys \<and> is_child_io q"
  then obtain us where "qs @ us = xs \<and> rest = us @ q # ys \<or> qs = xs @ us \<and> us @ rest = q # ys"
    by (auto simp: append_eq_append_conv2)
  then show "list_ex is_spawn xs \<and> list_ex is_send xs"
  proof
    assume "qs @ us = xs \<and> rest = us @ q # ys"
    with assms(2,3) show ?thesis by (auto simp: list_ex_iff)
  next
    assume u: "qs = xs @ us \<and> us @ rest = q # ys"
    show ?thesis
    proof (cases us)
      case Nil
      with u assms(2,3) show ?thesis by simp
    next
      case (Cons a as)
      with u h assms(1) show ?thesis by simp
    qed
  qed
qed

lemma effect_run:
  "m w = (r, qs, w') \<Longrightarrow>
     effect_then (effect_with g m) f w = (case r of
        Inl e \<Rightarrow> (Inl (g e), qs, w')
      | Inr x \<Rightarrow> (case f x w' of (r', qs', w'') \<Rightarrow> (r', qs @ qs', w'')))"
  by (cases r) (simp_all add: effect_then_def effect_with_def sure_bind_def sure_return_def)

lemma setup_run:
  "emits (setup_asks temp_dir own_pid ex c) m Q \<Longrightarrow> m w = (r, qs, w') \<Longrightarrow>
     list_all (\<lambda>q. \<not> is_child_io q) qs \<and> (\<forall>x. r = Inr x \<longrightarrow> Q x)"
  by (drule (1) emits_run) (auto simp: list_all_iff dest: setup_no_child_io)

lemma broker_run_order:
  "child_last (fst (snd (broker_run H fuel temp_dir own_pid draw ex c stdin w)))"
proof -
  obtain counter w0 where d: "draw w = (counter, w0)" by (rule prod.exhaust)
  obtain r1 qs1 w1 where c: "rendezvous_create H temp_dir own_pid counter w0 = (r1, qs1, w1)"
    by (rule prod_cases3)
  note create = setup_run [OF emits_setup [OF create_handover] c]
  then have first: "list_all (\<lambda>q. \<not> is_child_io q) qs1" by blast
  note run = broker_run_def sure_bind_def d effect_run [where m = "rendezvous_create H temp_dir own_pid counter", OF c]
  show ?thesis
  proof (cases r1)
    case (Inl e)
    then show ?thesis using first by (simp add: run child_last_none)
  next
    case (Inr x)
    obtain rv n' where x: "x = (rv, n')" by (cases x)
    from create Inr x have rv: "rv_dir rv = rendezvous_dir temp_dir own_pid"
      "rv_path rv = rendezvous_socket temp_dir own_pid counter" by auto
    let ?k = "launch_command ex c (rv_path rv)"
    obtain r2 qs2 w2 where s: "spawn_child H rv ?k w1 = (r2, qs2, w2)" by (rule prod_cases3)
    note spawn = setup_run [OF spawn_child_asks [OF rv] s]
    note run = run effect_run [where m = "spawn_child H rv ?k", OF s]
    show ?thesis
    proof (cases r2)
      case (Inl e)
      then show ?thesis using first spawn
        by (simp add: run \<open>r1 = Inr x\<close> x child_last_none list_all_append)
    next
      case (Inr n)
      obtain r3 qs3 w3 where v: "broker_serve H fuel rv (Some (pid_of n)) (be_session ex) w2 = (r3, qs3, w3)"
        by (rule prod_cases3)
      note serve = setup_run [OF emits_setup [OF serve_handover [OF rv]] v]
      note run = run effect_run [where m = "broker_serve H fuel rv (Some (pid_of n)) (be_session ex)", OF v] \<open>r1 = Inr x\<close> x \<open>r2 = Inr n\<close>
      have before: "list_all (\<lambda>q. \<not> is_child_io q) (qs1 @ qs2 @ qs3)"
        using first spawn serve by (simp add: list_all_append)
      show ?thesis
      proof (cases "r3 = Inr (Some ())")
        case True
        have "list_ex is_spawn qs2" using s \<open>r2 = Inr n\<close> by (auto dest: spawn_child_spawns)
        moreover have "list_ex is_send qs3" using v True by (auto dest: serve_sends)
        ultimately have "child_last ((qs1 @ qs2 @ qs3) @ rest)" for rest
          by (intro child_last_after [OF before]) simp_all
        then show ?thesis by (simp add: run True case_prod_unfold)
      next
        case False
        then have "r3 = Inr None \<or> (\<exists>e. r3 = Inl e)" by (cases r3; cases "projr r3") auto
        then show ?thesis using child_last_none [OF before] by (auto simp: run sure_return_def)
      qed
    qed
  qed
qed

section \<open>Who is served\<close>








section \<open>Properties\<close>

text \<open>The world is closed by construction. Whatever command a guest asks for, with whatever
  environment, the only program a run starts is the launcher, with the dispatch flag, the command's
  name and its arguments: exactly what the policy on external programs permits for an admitted name.
  The environment is the command's with the rendezvous put last, so the command cannot name another.\<close>

theorem only_the_launcher_runs:
  assumes "SpawnChild l args cleared envs
    \<in> set (fst (snd (broker_run H fuel temp_dir own_pid draw ex c stdin w)))"
  shows "l = be_launcher ex \<and> args = be_dispatch_flag ex # cmd_program c # cmd_args c \<and>
    cleared = cmd_clear_envs c \<and>
    (\<exists>i. map_of envs = (map_of (rev (cmd_envs c)))
           (RENDEZVOUS_ENV \<mapsto> rendezvous_socket temp_dir own_pid i)) \<and>
    permit (Bundled \<lparr> tl_path = be_launcher ex, tl_dispatch_flag = be_dispatch_flag ex \<rparr>)
      l (Some (hd args)) (Some (hd (tl args))) pol =
      (if admits pol (cmd_program c) then Some (TrustedLauncher l) else None)"
proof -
  obtain r qs w' where r: "broker_run H fuel temp_dir own_pid draw ex c stdin w = (r, qs, w')"
    by (rule prod_cases3)
  from asks_at [OF broker_run_asks r] assms
  have "run_asks temp_dir own_pid ex c stdin (SpawnChild l args cleared envs)"
    by (simp add: r list_all_iff)
  then obtain i where "launches ex c (rendezvous_socket temp_dir own_pid i) (SpawnChild l args cleared envs)"
    by (auto simp: run_asks_def)
  then show ?thesis by (auto simp: launches_def same_path_def)
qed

definition demo_executor :: broker_executor where
  "demo_executor = executor_new (session_new demo_table) ''/bin/app'' ''--invoke-bundled''"

definition demo_cmd :: cmd where
  "demo_cmd = (cmd_with_args [''-n''] (cmd_new ''cat''))
     \<lparr>cmd_envs := [(RENDEZVOUS_ENV, ''/evil'')]\<rparr>"

definition demo_socket :: string where
  "demo_socket = rendezvous_socket ''/tmp'' 5 0"

text \<open>A run on the host of the examples, step by step.\<close>

lemmas run_steps = broker_run_def sure_bind_def effect_then_def effect_with_def sure_return_def
  spawn_child_def broker_serve_def rendezvous_serve_def
  and_drop_def rendezvous_drop_def clock_now_def peer_pid_def collect_child_def
  try_then_def attempt_def call_def run_simps
  accept_before.simps(2) [of _ 0, simplified]

lemma still_answers:
  "h_unit still_host w q = (Inr (), w)" "h_num still_host w q = (Inr 7, w)"
  "h_int still_host w q = (Inr 7, w)" "h_bytes still_host w q = (Inr [], w)"
  by (simp_all add: still_host_def)

lemma demo_create:
  "rendezvous_create H ''/tmp'' 5 0 =
     try_then (call (h_unit H) (HostMkdir (rendezvous_dir ''/tmp'' 5) 0x1C0 True)) (\<lambda>_.
     try_then (call (h_num H) (SocketBind demo_socket)) (\<lambda>l.
     try_then (call (h_unit H) (SocketNonblocking l)) (\<lambda>_.
       ok (\<lparr> rv_dir = rendezvous_dir ''/tmp'' 5, rv_path = demo_socket, rv_listener = l \<rparr>, 1))))"
  unfolding rendezvous_create_def Let_def next_id_def prod.case demo_socket_def rendezvous_socket_def
    rendezvous_dir_def by simp

lemma demo_launch:
  "launch_command demo_executor demo_cmd demo_socket =
     \<lparr> cm_program = ''/bin/app'', cm_args = [''--invoke-bundled'', ''cat'', ''-n''], cm_cleared = False,
       cm_envs = [(RENDEZVOUS_ENV, demo_socket)] \<rparr>"
  by (simp add: launch_command_def demo_executor_def demo_cmd_def executor_new_def cmd_with_args_def
      cmd_new_def command_args_def command_new_def command_env_def)

lemma demo_pid: "pid_of 7 = 7"
  by (simp add: pid_of_def)

lemma demo_session: "be_session demo_executor = session_new demo_table"
  by (simp add: demo_executor_def executor_new_def)

lemma demo_capture:
  "capture still_host (session_new demo_table) () =
     (Inr \<lparr> p_cwd = ''/'', p_mounts = [(''/work/.git'', ReadOnly, 7), (''/work'', ReadWrite, 7 :: nat)] \<rparr>,
      [TryClone (MountDir 7), TryClone (MountDir 7)], ())"
  by code_simp

lemma demo_run:
  "broker_run still_host 1 ''/tmp'' 5 (\<lambda>w. (0, w)) demo_executor demo_cmd ''in'' () =
     (Inr (Some \<lparr> rr_exit = exit_of 7, rr_stdout = [], rr_stderr = [] \<rparr>),
      [HostMkdir (rendezvous_dir ''/tmp'' 5) 0x1C0 True, SocketBind demo_socket, SocketNonblocking 7,
       SpawnChild ''/bin/app'' [''--invoke-bundled'', ''cat'', ''-n''] False [(RENDEZVOUS_ENV, demo_socket)],
       TryClone (MountDir 7), TryClone (MountDir 7), ClockNow, SocketAccept 7, SocketPeerPid 7,
       SocketSend 7 (encode ''/'' [(''/work/.git'', ReadOnly, 7), (''/work'', ReadWrite, 7 :: nat)]) [7, 7],
       HostUnlink demo_socket, HostRmdir (rendezvous_dir ''/tmp'' 5),
       ChildStdin 7 ''in'', ChildStdout 7, ChildStderr 7, ChildWait 7], ())"
  by (simp add: run_steps still_answers demo_create demo_launch demo_pid demo_session demo_capture)

theorem only_the_launcher_runs_witness:
  "\<exists>l args cleared envs. SpawnChild l args cleared envs \<in> set (fst (snd
      (broker_run still_host 1 ''/tmp'' 5 (\<lambda>w. (0, w)) demo_executor demo_cmd ''in'' ()))) \<and>
    l = ''/bin/app'' \<and> args = [''--invoke-bundled'', ''cat'', ''-n''] \<and>
    (\<exists>i. map_of envs RENDEZVOUS_ENV = Some (rendezvous_socket ''/tmp'' 5 i))"
proof -
  let ?envs = "[(RENDEZVOUS_ENV, demo_socket)]"
  have "SpawnChild ''/bin/app'' [''--invoke-bundled'', ''cat'', ''-n''] False ?envs \<in> set (fst (snd
      (broker_run still_host 1 ''/tmp'' 5 (\<lambda>w. (0, w)) demo_executor demo_cmd ''in'' ())))"
    unfolding demo_run by simp
  with only_the_launcher_runs [OF this] show ?thesis by fastforce
qed

text \<open>A run keeps its order: whatever the host answers, nothing is written to a child, read from
  it or waited for before the child was spawned and sent its namespace.\<close>

theorem served_before_heard:
  "child_last (fst (snd (broker_run H fuel temp_dir own_pid draw ex c stdin w)))"
  by (rule broker_run_order)



lemma low_bits: "s AND 0x7F = take_bit 7 (s :: i32)"
  by (simp add: take_bit_eq_mask mask_eq_exp_minus_1)

lemma low_byte: "s AND 0xFF = take_bit 8 (s :: i32)"
  by (simp add: take_bit_eq_mask mask_eq_exp_minus_1)

lemma exit_of_code: "exit_of (push_bit 8 (ucast (code :: byte))) = ExitCode (ucast code)"
proof -
  have "take_bit 7 (push_bit 8 (ucast code :: i32)) = 0"
    by (rule bit_eqI) (auto simp: bit_simps)
  moreover have "take_bit 8 (drop_bit 8 (push_bit 8 (ucast code :: i32))) = ucast code"
    by (rule bit_eqI) (auto simp: bit_simps dest: bit_imp_le_length)
  ultimately show ?thesis
    by (simp add: exit_of_def status_signal_def status_code_def low_bits low_byte)
qed

lemma exit_of_signal:
  assumes "0 < n" and "n < 127"
  shows "exit_of n = ExitSignal n" "exit_of (n OR 0x80) = ExitSignal n"
proof -
  have "n < 2 ^ 7" using assms(2) by (rule order.strict_trans) simp
  then have t: "take_bit 7 n = n" by (simp add: less_mask_eq take_bit_eq_mask)
  have "take_bit 7 (0x80 :: i32) = 0" by simp
  then have u: "take_bit 7 (n OR 0x80) = n" using t by (simp add: take_bit_or)
  have "n \<noteq> 0" "n \<noteq> 0x7F" using assms by auto
  then show "exit_of n = ExitSignal n" "exit_of (n OR 0x80) = ExitSignal n"
    by (simp_all add: exit_of_def status_signal_def low_bits t u Let_def)
qed

text \<open>A child's end is read back as it happened: a code of \<^verbatim>\<open>exit\<close> as the code; a signal that
  killed it, core dumped or not, as the signal.\<close>

theorem exit_status_exact:
  "exit_of (push_bit 8 (ucast (code :: byte))) = ExitCode (ucast code) \<and>
   (0 < n \<and> n < 127 \<longrightarrow> exit_of n = ExitSignal n \<and> exit_of (n OR 0x80) = ExitSignal n)"
  using exit_of_code exit_of_signal by blast

theorem exit_status_exact_witness:
  "exit_of 0x300 = ExitCode 3 \<and> exit_of 9 = ExitSignal 9 \<and> exit_of 0x8B = ExitSignal 11"
  using exit_status_exact [of 3 9] exit_status_exact [of 3 11] by simp

text \<open>A child that could not be served is neither killed nor waited for: it stays behind, holding a
  slot of the process table.\<close>

definition deaf_host :: "unit host" where
  "deaf_host = still_host\<lparr>h_int := (\<lambda>w q. (Inr 8, w))\<rparr>"

lemma deaf_answers:
  "h_unit deaf_host w q = (Inr (), w)" "h_num deaf_host w q = (Inr 7, w)"
  "h_int deaf_host w q = (Inr 8, w)"
  by (simp_all add: deaf_host_def still_answers)

lemma deaf_capture:
  "capture deaf_host (session_new demo_table) () =
     (Inr \<lparr> p_cwd = ''/'', p_mounts = [(''/work/.git'', ReadOnly, 7), (''/work'', ReadWrite, 7)] \<rparr>,
      [TryClone (MountDir 7), TryClone (MountDir 7)], ())"
  by (simp add: capture_def lend_to_child_def session_new_def demo_table_def demo_mount_def deaf_answers
      try_then_def call_def run_simps root_def render_def)

theorem unserved_child_left_behind:
  "list_ex is_spawn (fst (snd
      (broker_run deaf_host 1 ''/tmp'' 5 (\<lambda>w. (0, w)) demo_executor demo_cmd ''in'' ()))) \<and>
   \<not> list_ex is_child_io (fst (snd
      (broker_run deaf_host 1 ''/tmp'' 5 (\<lambda>w. (0, w)) demo_executor demo_cmd ''in'' ())))"
  by (simp add: run_steps deaf_answers demo_create demo_launch demo_pid demo_session deaf_capture)

end
