(* ===== verification/Command_Ast.thy ===== *)
theory Command_Ast
  imports Prelude
begin

text \<open>
  The syntax tree of commands (\<^verbatim>\<open>brush-parser/src/ast.rs\<close>), without the source spans. The types
  that a tree contains commands through take the type of commands as a parameter, so that only
  commands and compound commands are mutually recursive. A word is its text; expressions of extended
  tests and of arithmetic stay text too, since their evaluation is not part of the interpreter's
  control flow.
\<close>

type_synonym word_text = string

datatype separator = AsyncSep | SequenceSep

datatype case_post_action =
    ExitCase | UnconditionallyExecuteNextCaseItem | ContinueEvaluatingCases

datatype process_substitution_kind = ReadSubstitution | WriteSubstitution

datatype io_file_redirect_kind =
    ReadFile | WriteFile | AppendFile | ReadAndWriteFile | ClobberFile | DuplicateInput | DuplicateOutput

datatype pipeline_timed = Timed | TimedWithPosixOutput

datatype assignment_name = VariableName string | ArrayElementName string string

datatype assignment_value =
    ScalarWord word_text
  | ArrayWords "(word_text option \<times> word_text) list"

record assignment =
  as_name :: assignment_name
  as_value :: assignment_value
  as_append :: bool

section \<open>Lists and pipelines\<close>

datatype (plugins only: code size) 'c pipeline = Pipeline "pipeline_timed option" bool "'c list"

datatype (plugins only: code size) 'c and_or = And "'c pipeline" | Or "'c pipeline"

datatype (plugins only: code size) 'c and_or_list = AndOrList "'c pipeline" "'c and_or list"

datatype (plugins only: code size) 'c compound_list = CompoundList "('c and_or_list \<times> separator) list"

section \<open>Redirections and simple commands\<close>

datatype (plugins only: code size) 'c redirect_target =
    Filename word_text
  | Fd int
  | ProcessSubstitutionTarget process_substitution_kind "'c compound_list"
  | Duplicate word_text

datatype (plugins only: code size) 'c io_redirect =
    FileRedirect "int option" io_file_redirect_kind "'c redirect_target"
  | HereDocument "int option" bool bool word_text
  | HereString "int option" word_text
  | OutputAndError word_text bool

datatype (plugins only: code size) 'c prefix_or_suffix_item =
    IoRedirect "'c io_redirect"
  | ItemWord word_text
  | AssignmentWord assignment word_text
  | ProcessSubstitution process_substitution_kind "'c compound_list"

datatype (plugins only: code size) 'c simple_command =
    SimpleCommand "'c prefix_or_suffix_item list" "word_text option" "'c prefix_or_suffix_item list"

section \<open>Compound commands\<close>

datatype (plugins only: code size) 'c case_item =
    CaseItem "word_text list" "'c compound_list option" case_post_action

datatype (plugins only: code size) 'c else_clause =
    ElseClause "'c compound_list option" "'c compound_list"

datatype (plugins only: code size) ('c, 'k) function_body = FunctionBody 'k "'c io_redirect list"

datatype (plugins only: code size) command =
    SimpleCmd "command simple_command"
  | CompoundCmd compound_command "command io_redirect list"
  | FunctionCmd word_text "(command, compound_command) function_body"
  | ExtendedTestCmd string "command io_redirect list"
and compound_command =
    ArithmeticCommand string
  | ArithmeticForClause "string option" "string option" "string option" "command compound_list"
  | BraceGroup "command compound_list"
  | Subshell "command compound_list"
  | ForClause string "word_text list option" "command compound_list"
  | CaseClause word_text "command case_item list"
  | IfClause "command compound_list" "command compound_list" "command else_clause list"
  | WhileClause "command compound_list" "command compound_list"
  | UntilClause "command compound_list" "command compound_list"
  | Coprocess "word_text option" command

type_synonym shell_list = "command compound_list"
type_synonym shell_pipeline = "command pipeline"
type_synonym shell_function_body = "(command, compound_command) function_body"

record program =
  complete_commands :: "shell_list list"

end
