(* ===== verification/Call_Stack.thy ===== *)
theory Call_Stack
  imports Command_Ast
begin

text \<open>
  The call stack of a shell (\<^verbatim>\<open>brush-core/src/callstack.rs\<close>, \<^verbatim>\<open>sourceinfo.rs\<close>, \<^verbatim>\<open>functions.rs\<close>, and the
  operations of \<^verbatim>\<open>shell/callstack.rs\<close> that touch nothing else): frames, the counters kept beside
  them, the traps being handled, and source positions. Frames are listed with the top first, as the
  deque is. A position is on natural numbers; lines and columns count from one.
\<close>

section \<open>Positions\<close>

record source_position =
  ps_index :: nat
  ps_line :: nat
  ps_column :: nat

record source_info =
  si_source :: string
  si_start :: "source_position option"

definition source_named :: "string \<Rightarrow> source_info" where
  "source_named s = \<lparr> si_source = s, si_start = None \<rparr>"

section \<open>Frames\<close>

text \<open>\<open>fr_span_start\<close> is \<^verbatim>\<open>definition().location().map(|span| span.start)\<close>.\<close>

record function_registration =
  fr_name :: word_text
  fr_body :: shell_function_body
  fr_span_start :: "source_position option"
  fr_source :: source_info
  fr_exported :: bool

datatype trap_signal = SystemSignal int | DebugTrap | ErrTrap | ExitTrap | ReturnTrap

datatype script_call_type = SourceCall | RunCall

datatype frame_type =
    ScriptFrame script_call_type source_info
  | FunctionFrame string function_registration
  | TrapFrame trap_signal
  | EvalFrame
  | CommandStringFrame
  | InteractiveFrame

record frame =
  fm_type :: frame_type
  fm_source :: source_info
  fm_entry :: "source_position option"
  fm_current :: "source_position option"
  fm_args :: "string list"
  fm_line_offset :: nat

definition is_function_frame :: "frame \<Rightarrow> bool" where
  "is_function_frame f \<longleftrightarrow> (case fm_type f of FunctionFrame n r \<Rightarrow> True | _ \<Rightarrow> False)"

definition is_sourced_frame :: "frame \<Rightarrow> bool" where
  "is_sourced_frame f \<longleftrightarrow> (case fm_type f of ScriptFrame c s \<Rightarrow> c = SourceCall | _ \<Rightarrow> False)"

definition is_run_frame :: "frame \<Rightarrow> bool" where
  "is_run_frame f \<longleftrightarrow> (case fm_type f of ScriptFrame c s \<Rightarrow> c = RunCall | _ \<Rightarrow> False)"

fun frame_signal :: "frame_type \<Rightarrow> trap_signal set" where
  "frame_signal (TrapFrame s) = {s}"
| "frame_signal t = {}"

definition pos_as_source_info :: "frame \<Rightarrow> source_position option \<Rightarrow> source_info" where
  "pos_as_source_info f pos =
     (let start =
        (case si_start (fm_source f) of
           Some s \<Rightarrow>
             (case pos of
                Some c \<Rightarrow>
                  Some \<lparr> ps_index = ps_index s + ps_index c,
                         ps_line = ps_line s + (ps_line c - 1),
                         ps_column = (if ps_line c \<le> 1 then ps_column s + (ps_column c - 1)
                                      else ps_column c) \<rparr>
              | None \<Rightarrow> Some s)
         | None \<Rightarrow> pos);
      start =
        (if fm_line_offset f = 0 then start
         else (case start of
                 Some p \<Rightarrow> Some (p\<lparr>ps_line := ps_line p + fm_line_offset f\<rparr>)
               | None \<Rightarrow> Some \<lparr> ps_index = 0, ps_line = fm_line_offset f + 1, ps_column = 1 \<rparr>))
      in \<lparr> si_source = si_source (fm_source f), si_start = start \<rparr>)"

definition adjusted_source_info :: "frame \<Rightarrow> source_info" where
  "adjusted_source_info f = pos_as_source_info f None"

definition current_pos_as_source_info :: "frame \<Rightarrow> source_info" where
  "current_pos_as_source_info f = pos_as_source_info f (fm_current f)"

definition current_line :: "frame \<Rightarrow> nat option" where
  "current_line f =
     (let start_line = (case si_start (fm_source f) of None \<Rightarrow> 1 | Some p \<Rightarrow> ps_line p)
      in map_option (\<lambda>c. start_line - 1 + ps_line c + fm_line_offset f) (fm_current f))"

definition current_frame_relative_line :: "frame \<Rightarrow> nat option" where
  "current_frame_relative_line f =
     (let entry_line = (case fm_entry f of None \<Rightarrow> 1 | Some p \<Rightarrow> ps_line p)
      in map_option (\<lambda>c. ps_line c - entry_line + fm_line_offset f + 1) (fm_current f))"

section \<open>The stack\<close>

record call_stack =
  cs_frames :: "frame list"
  cs_func_depth :: nat
  cs_source_depth :: nat
  cs_active :: "trap_signal set"
  cs_suppressed :: nat

definition stack_new :: call_stack where
  "stack_new = \<lparr> cs_frames = [], cs_func_depth = 0, cs_source_depth = 0, cs_active = {}, cs_suppressed = 0 \<rparr>"

definition plain_frame :: "frame_type \<Rightarrow> source_info \<Rightarrow> string list \<Rightarrow> frame" where
  "plain_frame t s args = \<lparr> fm_type = t, fm_source = s, fm_entry = None, fm_current = None,
     fm_args = args, fm_line_offset = 0 \<rparr>"

definition push_frame :: "call_stack \<Rightarrow> frame \<Rightarrow> call_stack" where
  "push_frame s f = s\<lparr>cs_frames := f # cs_frames s\<rparr>"

definition push_script :: "call_stack \<Rightarrow> script_call_type \<Rightarrow> source_info \<Rightarrow> string list \<Rightarrow> call_stack" where
  "push_script s c source args =
     (let s = push_frame s (plain_frame (ScriptFrame c source) source args)
      in if c = SourceCall then s\<lparr>cs_source_depth := cs_source_depth s + 1\<rparr> else s)"

definition push_trap_handler :: "call_stack \<Rightarrow> trap_signal \<Rightarrow> source_info option \<Rightarrow> call_stack" where
  "push_trap_handler s signal source =
     (let s = push_frame s (plain_frame (TrapFrame signal)
                (case source of None \<Rightarrow> source_named [] | Some i \<Rightarrow> i) [])
      in s\<lparr>cs_active := insert signal (cs_active s)\<rparr>)"

definition push_eval :: "call_stack \<Rightarrow> call_stack" where
  "push_eval s = push_frame s (plain_frame EvalFrame (source_named ''eval'') [])"

definition push_command_string :: "call_stack \<Rightarrow> call_stack" where
  "push_command_string s = push_frame s (plain_frame CommandStringFrame (source_named ''environment'') [])"

definition push_interactive_session :: "call_stack \<Rightarrow> call_stack" where
  "push_interactive_session s = push_frame s (plain_frame InteractiveFrame (source_named ''main'') [])"

definition push_function :: "call_stack \<Rightarrow> string \<Rightarrow> function_registration \<Rightarrow> string list \<Rightarrow> call_stack" where
  "push_function s name r args =
     (let s = push_frame s ((plain_frame (FunctionFrame name r) (fr_source r) args)
                \<lparr>fm_entry := fr_span_start r\<rparr>)
      in s\<lparr>cs_func_depth := cs_func_depth s + 1\<rparr>)"

definition stack_pop :: "call_stack \<Rightarrow> call_stack \<times> frame option" where
  "stack_pop s =
     (case cs_frames s of
        [] \<Rightarrow> (s, None)
      | f # fs \<Rightarrow>
          (s\<lparr>cs_frames := fs,
             cs_func_depth := (if is_function_frame f then cs_func_depth s - 1 else cs_func_depth s),
             cs_source_depth := (if is_sourced_frame f then cs_source_depth s - 1 else cs_source_depth s),
             cs_active := cs_active s - frame_signal (fm_type f)\<rparr>, Some f))"

definition current_frame :: "call_stack \<Rightarrow> frame option" where
  "current_frame s = (case cs_frames s of [] \<Rightarrow> None | f # fs \<Rightarrow> Some f)"

definition set_current_pos :: "call_stack \<Rightarrow> source_position option \<Rightarrow> call_stack" where
  "set_current_pos s pos =
     (case cs_frames s of [] \<Rightarrow> s | f # fs \<Rightarrow> s\<lparr>cs_frames := f\<lparr>fm_current := pos\<rparr> # fs\<rparr>)"

definition increment_current_line_offset :: "call_stack \<Rightarrow> nat \<Rightarrow> call_stack" where
  "increment_current_line_offset s delta =
     (case cs_frames s of
        [] \<Rightarrow> s
      | f # fs \<Rightarrow> s\<lparr>cs_frames := f\<lparr>fm_line_offset := fm_line_offset f + delta\<rparr> # fs\<rparr>)"

definition clear_active_trap_signals :: "call_stack \<Rightarrow> call_stack" where
  "clear_active_trap_signals s = s\<lparr>cs_active := {}\<rparr>"

definition acquire_trap_delivery_block :: "call_stack \<Rightarrow> call_stack" where
  "acquire_trap_delivery_block s = s\<lparr>cs_suppressed := cs_suppressed s + 1\<rparr>"

definition release_trap_delivery_block :: "call_stack \<Rightarrow> call_stack" where
  "release_trap_delivery_block s = s\<lparr>cs_suppressed := cs_suppressed s - 1\<rparr>"

definition is_trap_signal_active :: "call_stack \<Rightarrow> trap_signal \<Rightarrow> bool" where
  "is_trap_signal_active s signal \<longleftrightarrow> signal \<in> cs_active s"

definition is_trap_delivery_suppressed :: "call_stack \<Rightarrow> bool" where
  "is_trap_delivery_suppressed s \<longleftrightarrow> 0 < cs_suppressed s"

definition in_function :: "call_stack \<Rightarrow> bool" where
  "in_function s \<longleftrightarrow> list_ex is_function_frame (cs_frames s)"

text \<open>The youngest script call decides.\<close>

definition in_sourced_script :: "call_stack \<Rightarrow> bool" where
  "in_sourced_script s =
     (case find (\<lambda>f. is_sourced_frame f \<or> is_run_frame f) (cs_frames s) of
        None \<Rightarrow> False | Some f \<Rightarrow> is_sourced_frame f)"

text \<open>The session brackets: the frame on top must be the one being closed.\<close>

definition end_interactive_session :: "call_stack \<Rightarrow> call_stack option" where
  "end_interactive_session s =
     (case current_frame s of
        Some f \<Rightarrow> (if fm_type f = InteractiveFrame then Some (fst (stack_pop s)) else None)
      | None \<Rightarrow> None)"

definition end_command_string_mode :: "call_stack \<Rightarrow> call_stack option" where
  "end_command_string_mode s =
     (case current_frame s of
        Some f \<Rightarrow> (if fm_type f = CommandStringFrame then Some (fst (stack_pop s)) else None)
      | None \<Rightarrow> None)"

text \<open>Functions and executed scripts shadow the positional parameters, sourced scripts do if they
  have arguments of their own.\<close>

fun frame_args :: "frame list \<Rightarrow> string list \<Rightarrow> string list" where
  "frame_args [] args = args"
| "frame_args (f # fs) args =
     (if is_function_frame f \<or> is_run_frame f then fm_args f
      else if is_sourced_frame f \<and> fm_args f \<noteq> [] then fm_args f
      else frame_args fs args)"

section \<open>The stack as it evolves\<close>

inductive stack_step :: "call_stack \<Rightarrow> call_stack \<Rightarrow> bool" where
  script: "stack_step s (push_script s c source args)"
| trap: "stack_step s (push_trap_handler s signal handler)"
| eval: "stack_step s (push_eval s)"
| command_string: "stack_step s (push_command_string s)"
| interactive: "stack_step s (push_interactive_session s)"
| function_call: "stack_step s (push_function s name r args)"
| pop: "stack_step s (fst (stack_pop s))"
| position: "stack_step s (set_current_pos s pos)"
| line: "stack_step s (increment_current_line_offset s delta)"
| fork: "stack_step s (clear_active_trap_signals s)"
| block: "stack_step s (acquire_trap_delivery_block s)"
| unblock: "stack_step s (release_trap_delivery_block s)"

inductive stack_reach :: "call_stack \<Rightarrow> bool" where
  start: "stack_reach stack_new"
| step: "stack_reach s \<Longrightarrow> stack_step s s' \<Longrightarrow> stack_reach s'"

definition stack_ok :: "call_stack \<Rightarrow> bool" where
  "stack_ok s \<longleftrightarrow>
     cs_func_depth s = length (filter is_function_frame (cs_frames s)) \<and>
     cs_source_depth s = length (filter is_sourced_frame (cs_frames s)) \<and>
     cs_active s \<subseteq> (\<Union>f \<in> set (cs_frames s). frame_signal (fm_type f))"

lemma frame_kinds [simp]:
  "is_function_frame (plain_frame t s a) \<longleftrightarrow> (case t of FunctionFrame n r \<Rightarrow> True | _ \<Rightarrow> False)"
  "is_sourced_frame (plain_frame t s a) \<longleftrightarrow> (case t of ScriptFrame c i \<Rightarrow> c = SourceCall | _ \<Rightarrow> False)"
  "fm_type (plain_frame t s a) = t" "fm_args (plain_frame t s a) = a"
  "is_function_frame (f\<lparr>fm_entry := p\<rparr>) = is_function_frame f"
  "is_sourced_frame (f\<lparr>fm_entry := p\<rparr>) = is_sourced_frame f"
  "is_function_frame (f\<lparr>fm_current := p\<rparr>) = is_function_frame f"
  "is_sourced_frame (f\<lparr>fm_current := p\<rparr>) = is_sourced_frame f"
  "is_function_frame (f\<lparr>fm_line_offset := n\<rparr>) = is_function_frame f"
  "is_sourced_frame (f\<lparr>fm_line_offset := n\<rparr>) = is_sourced_frame f"
  by (simp_all add: plain_frame_def is_function_frame_def is_sourced_frame_def)

lemmas stack_op_defs = push_script_def push_trap_handler_def push_eval_def push_command_string_def
  push_interactive_session_def push_function_def push_frame_def Let_def set_current_pos_def
  increment_current_line_offset_def clear_active_trap_signals_def acquire_trap_delivery_block_def
  release_trap_delivery_block_def

lemma stack_step_ok: "stack_step s s' \<Longrightarrow> stack_ok s \<Longrightarrow> stack_ok s'"
proof (induction rule: stack_step.induct)
  case (pop s)
  show ?case
  proof (cases "cs_frames s")
    case Nil
    with pop show ?thesis by (simp add: stack_pop_def)
  next
    case (Cons f fs)
    from pop have "cs_active s \<subseteq> frame_signal (fm_type f) \<union> (\<Union>f \<in> set fs. frame_signal (fm_type f))"
      by (simp add: stack_ok_def Cons)
    then have "cs_active s - frame_signal (fm_type f) \<subseteq> (\<Union>f \<in> set fs. frame_signal (fm_type f))" by blast
    with pop show ?thesis by (simp add: stack_pop_def stack_ok_def Cons)
  qed
next
  case (position s pos)
  then show ?case by (cases "cs_frames s") (simp_all add: stack_op_defs stack_ok_def)
next
  case (line s delta)
  then show ?case by (cases "cs_frames s") (simp_all add: stack_op_defs stack_ok_def)
qed (auto simp: stack_op_defs stack_ok_def split: script_call_type.split)

lemma stack_reach_ok: "stack_reach s \<Longrightarrow> stack_ok s"
proof (induction rule: stack_reach.induct)
  case start
  then show ?case by (simp add: stack_ok_def stack_new_def)
qed (rule stack_step_ok)

section \<open>Properties\<close>

text \<open>The counters agree with the frames, whatever is pushed and popped in whatever order: the depth
  the recursion limit compares is the number of calls on the stack, a shell is in a function exactly
  when that depth is positive, and only a trap that has a frame counts as being handled.\<close>

theorem call_depth_exact:
  assumes "stack_reach s"
  shows "cs_func_depth s = length (filter is_function_frame (cs_frames s)) \<and>
    cs_source_depth s = length (filter is_sourced_frame (cs_frames s)) \<and>
    (in_function s \<longleftrightarrow> 0 < cs_func_depth s) \<and>
    cs_active s \<subseteq> (\<Union>f \<in> set (cs_frames s). frame_signal (fm_type f))"
  using stack_reach_ok [OF assms]
  by (auto simp: stack_ok_def in_function_def list_ex_iff filter_empty_conv)

text \<open>Leaving undoes entering. Popping gives back the stack before the push, counters included; for a
  trap handler when that trap was not already being handled, which its caller checks.\<close>

theorem pop_undoes_push:
  "stack_pop (push_function s name r args) =
     (s, Some ((plain_frame (FunctionFrame name r) (fr_source r) args)\<lparr>fm_entry := fr_span_start r\<rparr>))"
  "fst (stack_pop (push_script s c source args)) = s"
  "fst (stack_pop (push_eval s)) = s"
  "end_command_string_mode (push_command_string s) = Some s"
  "end_interactive_session (push_interactive_session s) = Some s"
  "signal \<notin> cs_active s \<Longrightarrow> fst (stack_pop (push_trap_handler s signal handler)) = s"
  by (simp_all add: stack_op_defs stack_pop_def end_command_string_mode_def end_interactive_session_def
      current_frame_def)

text \<open>The two ways of asking for a line agree: the line number on its own, and the line of the
  position the frame reports.\<close>

theorem current_line_agrees:
  assumes "fm_current f = Some c" and "1 \<le> ps_line c"
    and "list_all (\<lambda>p. 1 \<le> ps_line p) (case si_start (fm_source f) of None \<Rightarrow> [] | Some p \<Rightarrow> [p])"
  shows "current_line f = map_option ps_line (si_start (current_pos_as_source_info f))"
  using assms
  by (auto simp: current_line_def current_pos_as_source_info_def pos_as_source_info_def Let_def
      split: option.split)

definition demo_registration :: function_registration where
  "demo_registration = \<lparr> fr_name = ''f'', fr_body = FunctionBody (BraceGroup (CompoundList [])) [],
     fr_span_start = None, fr_source = source_named ''s'', fr_exported = False \<rparr>"

definition demo_stack :: call_stack where
  "demo_stack = push_trap_handler
     (push_function (push_script stack_new RunCall (source_named ''s'') [''x'']) ''f'' demo_registration [''y''])
     ErrTrap None"

theorem call_depth_exact_witness:
  "cs_func_depth demo_stack = 1 \<and> in_function demo_stack"
proof -
  let ?s1 = "push_script stack_new RunCall (source_named ''s'') [''x'']"
  let ?s2 = "push_function ?s1 ''f'' demo_registration [''y'']"
  have "stack_reach ?s1" by (rule stack_reach.step [OF stack_reach.start]) (rule stack_step.script)
  then have "stack_reach ?s2" by (rule stack_reach.step) (rule stack_step.function_call)
  then have r: "stack_reach demo_stack"
    unfolding demo_stack_def by (rule stack_reach.step) (rule stack_step.trap)
  have "length (filter is_function_frame (cs_frames demo_stack)) = 1"
    unfolding demo_stack_def by (simp add: stack_op_defs stack_new_def)
  with call_depth_exact [OF r] show ?thesis by simp
qed

end
