(* ===== verification/Jobs.thy ===== *)
theory Jobs
  imports Exec_Result "HOL-Library.Sublist"
begin

text \<open>
  Job management (\<^verbatim>\<open>brush-core/src/jobs.rs\<close>): the table of background and stopped jobs with every
  operation on it. The runtime that answers when a process or a task is waited for or polled is an
  argument, a record of functions on an arbitrary world; so are the signals sent to a process
  group.
\<close>

section \<open>Data\<close>

datatype job_task = ExternalTask child_process | InternalTask nat

datatype job_state = UnknownState | RunningState | StoppedState | DoneState

datatype job_annotation = NoAnnotation | CurrentJob | PreviousJob

record job =
  jb_tasks :: "job_task list"
  jb_pgid :: "int option"
  jb_annotation :: job_annotation
  jb_id :: nat
  jb_command_line :: string
  jb_state :: job_state

type_synonym job_manager = "job list"

text \<open>\<open>rt_wait_child\<close> and \<open>rt_join\<close> wait; \<open>rt_poll_child\<close> and \<open>rt_poll_task\<close> answer \<open>None\<close> for what has
  not ended yet.\<close>

record 'w runtime =
  rt_wait_child :: "child_process \<Rightarrow> 'w \<Rightarrow> (failure + process_wait) \<times> 'w"
  rt_join :: "nat \<Rightarrow> 'w \<Rightarrow> (failure + exec_result) \<times> 'w"
  rt_poll_child :: "child_process \<Rightarrow> 'w \<Rightarrow> (failure + process_output) option \<times> 'w"
  rt_poll_task :: "nat \<Rightarrow> 'w \<Rightarrow> (failure + exec_result) option \<times> 'w"
  rt_continue :: "int \<Rightarrow> 'w \<Rightarrow> (failure + unit) \<times> 'w"
  rt_foreground :: "int \<Rightarrow> 'w \<Rightarrow> (failure + unit) \<times> 'w"
  rt_kill :: "int \<Rightarrow> string \<Rightarrow> 'w \<Rightarrow> (failure + unit) \<times> 'w"

section \<open>Jobs\<close>

definition job_new :: "job_task list \<Rightarrow> string \<Rightarrow> job_state \<Rightarrow> job" where
  "job_new tasks line st = \<lparr> jb_tasks = tasks, jb_pgid = None, jb_annotation = NoAnnotation,
     jb_id = 0, jb_command_line = line, jb_state = st \<rparr>"

primrec annotation_text :: "job_annotation \<Rightarrow> string" where
  "annotation_text NoAnnotation = []"
| "annotation_text CurrentJob = ''+''"
| "annotation_text PreviousJob = ''-''"

primrec state_text :: "job_state \<Rightarrow> string" where
  "state_text UnknownState = ''Unknown''"
| "state_text RunningState = ''Running''"
| "state_text StoppedState = ''Stopped''"
| "state_text DoneState = ''Done''"

text \<open>\<^verbatim>\<open>{:3}\<close> on an annotation pads nothing: its \<^verbatim>\<open>Display\<close> writes with \<^verbatim>\<open>write!\<close>, which starts a
  formatter of its own.\<close>

definition job_text :: "job \<Rightarrow> string" where
  "job_text j = ''['' @ decimal (jb_id j) @ '']'' @ annotation_text (jb_annotation j) @
     state_text (jb_state j) @ [CHR 0x09] @ jb_command_line j"

fun task_pid :: "job_task \<Rightarrow> int option" where
  "task_pid (ExternalTask p) = cp_pid p"
| "task_pid (InternalTask t) = None"

fun representative_pid :: "job_task list \<Rightarrow> int option" where
  "representative_pid [] = None"
| "representative_pid (t # ts) =
     (case task_pid t of Some pid \<Rightarrow> Some pid | None \<Rightarrow> representative_pid ts)"

definition process_group_id :: "job \<Rightarrow> int option" where
  "process_group_id j =
     (case jb_pgid j of Some p \<Rightarrow> Some p | None \<Rightarrow> representative_pid (jb_tasks j))"

definition job_owns_pid :: "job \<Rightarrow> int \<Rightarrow> bool" where
  "job_owns_pid j pid \<longleftrightarrow>
     jb_pgid j = Some pid \<or> list_ex (\<lambda>t. task_pid t = Some pid) (jb_tasks j)"

definition pid_style_text :: "job \<Rightarrow> string" where
  "pid_style_text j = ''['' @ decimal (jb_id j) @ '']'' @ annotation_text (jb_annotation j) @ [CHR 0x09] @
     (case representative_pid (jb_tasks j) of None \<Rightarrow> ''<pid unknown>'' | Some pid \<Rightarrow> show_int pid)"

text \<open>A task is waited for from the back of the queue.\<close>

definition task_wait :: "'w runtime \<Rightarrow> job_task \<Rightarrow> 'w \<Rightarrow> (failure + exec_result option) \<times> 'w" where
  "task_wait R t w =
     (case t of
        ExternalTask p \<Rightarrow>
          (case rt_wait_child R p w of
             (Inl e, w) \<Rightarrow> (Inl e, w)
           | (Inr (ProcessCompleted out), w) \<Rightarrow> (Inr (Some (result_of_output out)), w)
           | (Inr ProcessStopped, w) \<Rightarrow> (Inr None, w))
      | InternalTask h \<Rightarrow>
          (case rt_join R h w of (Inl e, w) \<Rightarrow> (Inl e, w) | (Inr r, w) \<Rightarrow> (Inr (Some r), w)))"

fun wait_backwards ::
  "'w runtime \<Rightarrow> job_task list \<Rightarrow> exec_result \<Rightarrow> 'w \<Rightarrow>
   job_task list \<times> (failure + exec_result option) \<times> 'w" where
  "wait_backwards R [] r w = ([], Inr (Some r), w)"
| "wait_backwards R (t # ts) r w =
     (case task_wait R t w of
        (Inl e, w) \<Rightarrow> (t # ts, Inl e, w)
      | (Inr None, w) \<Rightarrow> (t # ts, Inr None, w)
      | (Inr (Some r'), w) \<Rightarrow> wait_backwards R ts r' w)"

definition job_wait :: "'w runtime \<Rightarrow> job \<Rightarrow> 'w \<Rightarrow> job \<times> (failure + exec_result) \<times> 'w" where
  "job_wait R j w =
     (case wait_backwards R (rev (jb_tasks j)) result_success w of
        (ts, Inl e, w) \<Rightarrow> (j\<lparr>jb_tasks := rev ts\<rparr>, Inl e, w)
      | (ts, Inr None, w) \<Rightarrow> (j\<lparr>jb_tasks := rev ts, jb_state := StoppedState\<rparr>, Inr result_stopped, w)
      | (ts, Inr (Some r), w) \<Rightarrow> (j\<lparr>jb_tasks := rev ts, jb_state := DoneState\<rparr>, Inr r, w))"

definition task_poll :: "'w runtime \<Rightarrow> job_task \<Rightarrow> 'w \<Rightarrow> (failure + exec_result) option \<times> 'w" where
  "task_poll R t w =
     (case t of
        ExternalTask p \<Rightarrow>
          (case rt_poll_child R p w of (r, w) \<Rightarrow> (map_option (map_sum id result_of_output) r, w))
      | InternalTask h \<Rightarrow> rt_poll_task R h w)"

text \<open>\<^verbatim>\<open>poll_done\<close> drops tasks from the front while they have ended; the last one's result counts.\<close>

fun poll_tasks ::
  "'w runtime \<Rightarrow> job_task list \<Rightarrow> (failure + exec_result) option \<Rightarrow> 'w \<Rightarrow>
   job_task list \<times> (failure + exec_result) option \<times> 'w" where
  "poll_tasks R [] r w = ([], r, w)"
| "poll_tasks R (t # ts) r w =
     (case task_poll R t w of
        (Some r', w) \<Rightarrow> poll_tasks R ts (Some r') w
      | (None, w) \<Rightarrow> (t # ts, None, w))"

definition poll_done :: "'w runtime \<Rightarrow> job \<Rightarrow> 'w \<Rightarrow> job \<times> (failure + exec_result) option \<times> 'w" where
  "poll_done R j w =
     (case poll_tasks R (jb_tasks j) None w of
        (ts, r, w) \<Rightarrow>
          (j\<lparr>jb_tasks := ts, jb_state := (if ts = [] then DoneState else jb_state j)\<rparr>, r, w))"

definition move_to_background :: "'w runtime \<Rightarrow> job \<Rightarrow> 'w \<Rightarrow> job \<times> (failure + unit) \<times> 'w" where
  "move_to_background R j w =
     (if jb_state j = StoppedState
      then (case process_group_id j of
              Some pgid \<Rightarrow>
                (case rt_continue R pgid w of
                   (Inl e, w) \<Rightarrow> (j, Inl e, w)
                 | (Inr _, w) \<Rightarrow> (j\<lparr>jb_state := RunningState\<rparr>, Inr (), w))
            | None \<Rightarrow> (j, Inl (failure_of (OtherFailure ''failed to send signal'')), w))
      else (j, Inl (failure_of (ShellFailure (Unimplemented ''move job to background''))), w))"

definition move_to_foreground :: "'w runtime \<Rightarrow> job \<Rightarrow> 'w \<Rightarrow> job \<times> (failure + unit) \<times> 'w" where
  "move_to_foreground R j w =
     (let front = (\<lambda>j w. case process_group_id j of
            Some pgid \<Rightarrow> (case rt_foreground R pgid w of (r, w) \<Rightarrow> (j, r, w))
          | None \<Rightarrow> (j, Inr (), w))
      in if jb_state j = StoppedState
         then (case process_group_id j of
                 Some pgid \<Rightarrow>
                   (case rt_continue R pgid w of
                      (Inl e, w) \<Rightarrow> (j, Inl e, w)
                    | (Inr _, w) \<Rightarrow> front (j\<lparr>jb_state := RunningState\<rparr>) w)
               | None \<Rightarrow> (j, Inl (failure_of (OtherFailure ''failed to send signal'')), w))
         else front j w)"

definition job_kill :: "'w runtime \<Rightarrow> job \<Rightarrow> string \<Rightarrow> 'w \<Rightarrow> (failure + unit) \<times> 'w" where
  "job_kill R j signal w =
     (case process_group_id j of
        Some pid \<Rightarrow> rt_kill R pid signal w
      | None \<Rightarrow> (Inl (failure_of (OtherFailure ''failed to send signal'')), w))"

section \<open>The manager\<close>

text \<open>\<^verbatim>\<open>next_id\<close>: count up from one while the number is taken.\<close>

function next_free :: "nat list \<Rightarrow> nat \<Rightarrow> nat" where
  "next_free ids n = (if n \<in> set ids then next_free ids (n + 1) else n)"
  by pat_completeness auto

termination next_free
proof (relation "measure (\<lambda>(ids, n). card {i \<in> set ids. n \<le> i})")
  fix ids :: "nat list" and n assume "n \<in> set ids"
  then have "n \<in> {i \<in> set ids. n \<le> i}" and "n \<notin> {i \<in> set ids. n + 1 \<le> i}" by simp_all
  moreover have "{i \<in> set ids. n + 1 \<le> i} \<subseteq> {i \<in> set ids. n \<le> i}" by auto
  ultimately have "{i \<in> set ids. n + 1 \<le> i} \<subset> {i \<in> set ids. n \<le> i}" by blast
  then have "card {i \<in> set ids. n + 1 \<le> i} < card {i \<in> set ids. n \<le> i}"
    by (intro psubset_card_mono) simp_all
  then show "((ids, n + 1), (ids, n)) \<in> measure (\<lambda>(ids, n). card {i \<in> set ids. n \<le> i})"
    by simp
qed simp

declare next_free.simps [simp del]

definition next_id :: "job_manager \<Rightarrow> nat" where
  "next_id js = next_free (map jb_id js) 1"

text \<open>The first current job becomes the previous one.\<close>

fun demote_current :: "job_manager \<Rightarrow> job_manager" where
  "demote_current [] = []"
| "demote_current (j # js) =
     (if jb_annotation j = CurrentJob then j\<lparr>jb_annotation := PreviousJob\<rparr> # js
      else j # demote_current js)"

definition add_as_current :: "job_manager \<Rightarrow> job \<Rightarrow> job_manager" where
  "add_as_current js j =
     (let js = demote_current js in js @ [j\<lparr>jb_id := next_id js, jb_annotation := CurrentJob\<rparr>])"

definition current_job :: "job_manager \<Rightarrow> job option" where
  "current_job js = find (\<lambda>j. jb_annotation j = CurrentJob) js"

definition prev_job :: "job_manager \<Rightarrow> job option" where
  "prev_job js = find (\<lambda>j. jb_annotation j = PreviousJob) js"

definition resolve_job_spec :: "job_manager \<Rightarrow> string \<Rightarrow> job option" where
  "resolve_job_spec js spec =
     (case spec of
        [] \<Rightarrow> None
      | c # s \<Rightarrow>
          if c \<noteq> CHR ''%'' then None
          else if s = ''%'' \<or> s = ''+'' then current_job js
          else if s = ''-'' then prev_job js
          else if list_all is_digit s
          then (case parse_u64 s of None \<Rightarrow> None | Some n \<Rightarrow> find (\<lambda>j. jb_id j = unat n) js)
          else None)"

definition owns_pid :: "job_manager \<Rightarrow> int \<Rightarrow> bool" where
  "owns_pid js pid \<longleftrightarrow> list_ex (\<lambda>j. job_owns_pid j pid) js"

fun wait_each :: "'w runtime \<Rightarrow> job_manager \<Rightarrow> 'w \<Rightarrow> job_manager \<times> (failure + unit) \<times> 'w" where
  "wait_each R [] w = ([], Inr (), w)"
| "wait_each R (j # js) w =
     (case job_wait R j w of
        (j, Inl e, w) \<Rightarrow> (j # js, Inl e, w)
      | (j, Inr _, w) \<Rightarrow> (case wait_each R js w of (js, r, w) \<Rightarrow> (j # js, r, w)))"

text \<open>Both sweeps remove by index while they walk: the kept and the removed, in order.\<close>

definition sweep_completed_jobs :: "job_manager \<Rightarrow> job_manager \<times> job list" where
  "sweep_completed_jobs js = (filter (\<lambda>j. jb_tasks j \<noteq> []) js, filter (\<lambda>j. jb_tasks j = []) js)"

definition wait_all :: "'w runtime \<Rightarrow> job_manager \<Rightarrow> 'w \<Rightarrow> job_manager \<times> (failure + job list) \<times> 'w" where
  "wait_all R js w =
     (case wait_each R js w of
        (js, Inl e, w) \<Rightarrow> (js, Inl e, w)
      | (js, Inr _, w) \<Rightarrow> (case sweep_completed_jobs js of (kept, swept) \<Rightarrow> (kept, Inr swept, w)))"

fun jobs_poll ::
  "'w runtime \<Rightarrow> job_manager \<Rightarrow> 'w \<Rightarrow>
   job_manager \<times> (job \<times> (failure + exec_result)) list \<times> 'w" where
  "jobs_poll R [] w = ([], [], w)"
| "jobs_poll R (j # js) w =
     (case poll_done R j w of
        (j, Some r, w) \<Rightarrow> (case jobs_poll R js w of (kept, out, w) \<Rightarrow> (kept, (j, r) # out, w))
      | (j, None, w) \<Rightarrow>
          (case jobs_poll R js w of
             (kept, out, w) \<Rightarrow>
               if jb_state j = DoneState then (kept, (j, Inr result_success) # out, w)
               else (j # kept, out, w)))"

section \<open>The table as it evolves\<close>

text \<open>What happens to a shell's jobs: a new one, a poll, a wait for all, and \<^verbatim>\<open>fg\<close>, \<^verbatim>\<open>bg\<close> and \<^verbatim>\<open>wait\<close>
  on one of them.\<close>

inductive jobs_step :: "'w runtime \<Rightarrow> job_manager \<Rightarrow> job_manager \<Rightarrow> bool" for R :: "'w runtime" where
  add: "jobs_step R js (add_as_current js j)"
| poll: "jobs_step R js (fst (jobs_poll R js w))"
| wait_all: "jobs_step R js (fst (wait_all R js w))"
| wait_one: "i < length js \<Longrightarrow> jobs_step R js (js[i := fst (job_wait R (js ! i) w)])"
| background: "i < length js \<Longrightarrow> jobs_step R js (js[i := fst (move_to_background R (js ! i) w)])"
| foreground: "i < length js \<Longrightarrow> jobs_step R js (js[i := fst (move_to_foreground R (js ! i) w)])"

inductive jobs_reach :: "'w runtime \<Rightarrow> job_manager \<Rightarrow> bool" for R :: "'w runtime" where
  start: "jobs_reach R []"
| step: "jobs_reach R js \<Longrightarrow> jobs_step R js js' \<Longrightarrow> jobs_reach R js'"

definition numbered :: "(nat \<times> job_annotation) list \<Rightarrow> bool" where
  "numbered ts \<longleftrightarrow> distinct (map fst ts) \<and> 0 \<notin> set (map fst ts) \<and>
     length (filter (\<lambda>t. snd t = CurrentJob) ts) \<le> 1"

definition tag :: "job \<Rightarrow> nat \<times> job_annotation" where
  "tag j = (jb_id j, jb_annotation j)"

definition job_table_ok :: "job_manager \<Rightarrow> bool" where
  "job_table_ok js \<longleftrightarrow> numbered (map tag js)"

lemma next_free_exact: "next_free ids n \<notin> set ids \<and> n \<le> next_free ids n \<and> {n..<next_free ids n} \<subseteq> set ids"
proof (induction ids n rule: next_free.induct)
  case (1 ids n)
  show ?case
  proof (cases "n \<in> set ids")
    case True
    then have e: "next_free ids n = next_free ids (n + 1)" by (simp add: next_free.simps [of ids n])
    have "{n..<next_free ids (n + 1)} \<subseteq> insert n {n + 1..<next_free ids (n + 1)}" by auto
    with 1 [OF True] True show ?thesis unfolding e by auto
  next
    case False
    then show ?thesis by (simp add: next_free.simps [of ids n])
  qed
qed

lemma numbered_subseq:
  assumes "subseq ts ts'" and "numbered ts'"
  shows "numbered ts"
proof -
  from assms(1) obtain N where n: "ts = nths ts' N" by (auto simp: subseq_conv_nths)
  have "length (filter (\<lambda>t. snd t = CurrentJob) ts) \<le> length (filter (\<lambda>t. snd t = CurrentJob) ts')"
    by (rule list_emb_length [OF subseq_filter [OF assms(1)]])
  moreover have "map fst ts = nths (map fst ts') N" by (simp add: n nths_map)
  then have "distinct (map fst ts)" "set (map fst ts) \<subseteq> set (map fst ts')"
    using assms(2) by (simp_all add: numbered_def distinct_nthsI set_nths_subset del: set_map)
  ultimately show ?thesis using assms(2) by (auto simp: numbered_def)
qed

lemma demote_ids [simp]: "map jb_id (demote_current js) = map jb_id js"
  by (induction js rule: demote_current.induct) auto

lemma demote_none:
  "length (filter (\<lambda>t. snd t = CurrentJob) (map tag js)) \<le> 1 \<Longrightarrow>
     filter (\<lambda>t. snd t = CurrentJob) (map tag (demote_current js)) = []"
  by (induction js rule: demote_current.induct) (auto simp: tag_def filter_map o_def)

lemma map_fst_tag [simp]: "map (fst \<circ> tag) js = map jb_id js"
  by (simp add: tag_def)

lemma job_table_ok_add: "job_table_ok js \<Longrightarrow> job_table_ok (add_as_current js j)"
proof -
  assume ok: "job_table_ok js"
  then have d: "distinct (map jb_id js)" "0 \<notin> set (map jb_id js)"
    by (simp_all add: job_table_ok_def numbered_def)
  have "next_id (demote_current js) \<notin> set (map jb_id js)" "1 \<le> next_id (demote_current js)"
    using next_free_exact [of "map jb_id js" 1] by (simp_all add: next_id_def)
  moreover have "filter (\<lambda>t. snd t = CurrentJob) (map tag (demote_current js)) = []"
    using ok by (intro demote_none) (simp add: job_table_ok_def numbered_def)
  ultimately show ?thesis
    using d by (simp add: job_table_ok_def numbered_def add_as_current_def Let_def) (simp add: tag_def)
qed

lemma tag_job_wait [simp]: "tag (fst (job_wait R j w)) = tag j"
  by (simp add: job_wait_def tag_def split: prod.split sum.split option.split)

lemma tag_poll_done [simp]: "tag (fst (poll_done R j w)) = tag j"
  by (simp add: poll_done_def tag_def split: prod.split)

lemma tag_background [simp]: "tag (fst (move_to_background R j w)) = tag j"
  by (simp add: move_to_background_def tag_def split: prod.split sum.split option.split)

lemma tag_foreground [simp]: "tag (fst (move_to_foreground R j w)) = tag j"
  by (simp add: move_to_foreground_def Let_def tag_def split: prod.split sum.split option.split)

lemma map_update_same: "f x = f (xs ! i) \<Longrightarrow> i < length xs \<Longrightarrow> map f (xs[i := x]) = map f xs"
  by (metis list_update_id map_update)

lemma tags_wait_each [simp]: "map tag (fst (wait_each R js w)) = map tag js"
proof (induction js arbitrary: w)
  case (Cons j js)
  obtain j' r w1 where p: "job_wait R j w = (j', r, w1)" by (metis prod_cases3)
  obtain js' r' w2 where q: "wait_each R js w1 = (js', r', w2)" by (metis prod_cases3)
  have "tag j' = tag j" using tag_job_wait [of R j w] by (simp add: p)
  moreover have "map tag js' = map tag js" using Cons.IH [of w1] by (simp add: q)
  ultimately show ?case by (cases r) (simp_all add: p q)
qed simp

lemma poll_tasks_ends: "poll_tasks R ts r w = (ts', Some r', w') \<Longrightarrow> ts' = []"
  by (induction R ts r w rule: poll_tasks.induct) (auto split: prod.splits option.splits)

lemma poll_done_ends: "poll_done R j w = (j', Some r, w') \<Longrightarrow> jb_tasks j' = [] \<and> jb_state j' = DoneState"
  by (auto simp: poll_done_def dest: poll_tasks_ends split: prod.splits)

text \<open>A poll splits the table: what it hands out has ended, what it keeps has something left.\<close>

lemma jobs_poll_splits:
  "case jobs_poll R js w of (kept, out, w') \<Rightarrow>
     map tag js \<in> shuffles (map tag kept) (map (\<lambda>a. tag (fst a)) out) \<and>
     list_all (\<lambda>(j, r). jb_state j = DoneState) out \<and>
     list_all (\<lambda>j. jb_tasks j \<noteq> [] \<and> jb_state j \<noteq> DoneState) kept"
proof (induction js arbitrary: w)
  case Nil
  then show ?case by simp
next
  case (Cons j js)
  obtain j' r w1 where p: "poll_done R j w = (j', r, w1)" by (metis prod_cases3)
  obtain kept out w2 where q: "jobs_poll R js w1 = (kept, out, w2)" by (metis prod_cases3)
  have t: "tag j = tag j'" using tag_poll_done [of R j w] by (simp add: p)
  have left: "jb_tasks j' \<noteq> [] \<or> jb_state j' = DoneState" using p by (auto simp: poll_done_def split: prod.splits)
  from Cons.IH [of w1] have ih: "map tag js \<in> shuffles (map tag kept) (map (\<lambda>a. tag (fst a)) out)"
      "list_all (\<lambda>(j, r). jb_state j = DoneState) out"
      "list_all (\<lambda>j. jb_tasks j \<noteq> [] \<and> jb_state j \<noteq> DoneState) kept"
    by (simp_all add: q)
  note both = Cons_in_shuffles_leftI [OF ih(1)] Cons_in_shuffles_rightI [OF ih(1)]
  show ?case
  proof (cases r)
    case None
    with p q t left ih(2,3) both show ?thesis by (cases "jb_state j' = DoneState") simp_all
  next
    case (Some x)
    with p q t ih(2,3) both poll_done_ends [of R j w j' x w1] show ?thesis by simp
  qed
qed

lemma shuffles_subseq: "zs \<in> shuffles xs ys \<Longrightarrow> subseq xs zs"
proof (induction zs arbitrary: xs ys)
  case (Cons z zs)
  then show ?case by (cases xs) (auto simp: Cons_in_shuffles_iff dest: subseq_Cons')
qed simp

lemma jobs_poll_ok: "job_table_ok js \<Longrightarrow> job_table_ok (fst (jobs_poll R js w))"
  using jobs_poll_splits [where R = R and js = js and w = w] unfolding job_table_ok_def
  by (auto dest: shuffles_subseq intro: numbered_subseq split: prod.splits)

lemma wait_all_ok: "job_table_ok js \<Longrightarrow> job_table_ok (fst (wait_all R js w))"
proof -
  assume ok: "job_table_ok js"
  obtain js' r w' where q: "wait_each R js w = (js', r, w')" by (metis prod_cases3)
  have t: "map tag js' = map tag js" using tags_wait_each [of R js w] by (simp add: q)
  have "subseq (map tag (filter (\<lambda>j. jb_tasks j \<noteq> []) js')) (map tag js')" by (intro subseq_map) simp
  with ok t show ?thesis
    by (cases r) (auto simp: wait_all_def q sweep_completed_jobs_def job_table_ok_def intro: numbered_subseq)
qed

lemma jobs_update_ok: "job_table_ok js \<Longrightarrow> i < length js \<Longrightarrow> tag j = tag (js ! i) \<Longrightarrow> job_table_ok (js[i := j])"
  by (simp add: job_table_ok_def map_update_same)

lemma jobs_step_ok: "jobs_step R js js' \<Longrightarrow> job_table_ok js \<Longrightarrow> job_table_ok js'"
  by (induction rule: jobs_step.induct)
     (simp_all add: job_table_ok_add jobs_poll_ok wait_all_ok jobs_update_ok)

lemma jobs_reach_ok: "jobs_reach R js \<Longrightarrow> job_table_ok js"
  by (induction rule: jobs_reach.induct) (auto simp: job_table_ok_def numbered_def dest: jobs_step_ok)

section \<open>Properties\<close>


text \<open>The number a new job gets is the smallest that is free.\<close>

theorem next_id_smallest:
  "next_id js \<notin> set (map jb_id js) \<and> 1 \<le> next_id js \<and> {1..<next_id js} \<subseteq> set (map jb_id js)"
  unfolding next_id_def by (rule next_free_exact)

text \<open>A number typed after a percent sign names the job that has it.\<close>

theorem job_spec_roundtrip:
  assumes "jobs_reach R js" and "j \<in> set js" and "jb_id j < 2 ^ 64"
  shows "resolve_job_spec js (CHR ''%'' # decimal (jb_id j)) = Some j"
proof -
  obtain c r where d: "decimal (jb_id j) = c # r" using decimal_digits by (metis neq_Nil_conv)
  with decimal_digits [of "jb_id j"] have c: "is_digit c" "list_all is_digit r" by simp_all
  then have n: "c \<noteq> CHR ''%''" "c \<noteq> CHR ''+''" "c \<noteq> CHR ''-''" by (auto simp: is_digit_def in_range_def)
  have p: "parse_u64 (c # r) = Some (word_of_nat (jb_id j))"
    using parse_decimal [of "jb_id j"] assms(3) n(2) by (simp add: parse_u64_def d)
  have u: "unat (word_of_nat (jb_id j) :: u64) = jb_id j"
    using assms(3) by (simp add: unat_of_nat take_bit_nat_def)
  have "distinct (map jb_id js)" using jobs_reach_ok [OF assms(1)] by (simp add: job_table_ok_def numbered_def)
  with assms(2) have "find (\<lambda>i. jb_id i = jb_id j) js = Some j"
    by (induction js) (auto simp: image_iff)
  with c n p u show ?thesis by (simp add: resolve_job_spec_def d)
qed

text \<open>A poll loses no job and hands out none that still runs: the table is what it keeps and what it
  hands out, each in order, with their numbers; what is handed out is done, what is kept is not.\<close>

theorem poll_loses_no_job:
  "case jobs_poll R js w of (kept, out, w') \<Rightarrow>
     map tag js \<in> shuffles (map tag kept) (map (\<lambda>a. tag (fst a)) out) \<and>
     list_all (\<lambda>(j, r). jb_state j = DoneState) out \<and>
     list_all (\<lambda>j. jb_tasks j \<noteq> [] \<and> jb_state j \<noteq> DoneState) kept"
  by (rule jobs_poll_splits)

section \<open>Concrete tables\<close>

definition background_job :: "nat \<Rightarrow> job" where
  "background_job t = job_new [InternalTask t] ''sleep 9'' RunningState"

definition three_jobs :: job_manager where
  "three_jobs =
     add_as_current (add_as_current (add_as_current [] (background_job 0)) (background_job 1))
       (background_job 2)"

lemma three_jobs_are:
  "three_jobs =
     [(background_job 0)\<lparr>jb_id := 1, jb_annotation := PreviousJob\<rparr>,
      (background_job 1)\<lparr>jb_id := 2, jb_annotation := PreviousJob\<rparr>,
      (background_job 2)\<lparr>jb_id := 3, jb_annotation := CurrentJob\<rparr>]"
  by (simp add: three_jobs_def add_as_current_def Let_def background_job_def job_new_def next_id_def
      next_free.simps)

lemma three_jobs_reached: "jobs_reach R three_jobs"
  unfolding three_jobs_def by (intro jobs_reach.step [OF _ jobs_step.add] jobs_reach.start)


theorem job_spec_roundtrip_witness:
  "resolve_job_spec three_jobs ''%2'' = Some ((background_job 1)\<lparr>jb_id := 2, jb_annotation := PreviousJob\<rparr>)"
proof -
  let ?j = "(background_job 1)\<lparr>jb_id := 2, jb_annotation := PreviousJob\<rparr>"
  have "?j \<in> set three_jobs" by (simp add: three_jobs_are)
  moreover have "jb_id ?j < 2 ^ 64" by simp
  moreover have "decimal (jb_id ?j) = ''2''" by code_simp
  ultimately show ?thesis using job_spec_roundtrip [OF three_jobs_reached] by metis
qed

text \<open>Demoting the current job leaves the previous ones marked, so the mark for the previous job
  piles up and names the oldest. And when the current job ends no other takes its place, though
  jobs are left.\<close>

definition third_ended :: "nat runtime" where
  "third_ended = \<lparr> rt_wait_child = (\<lambda>c w. (Inr ProcessStopped, w)), rt_join = (\<lambda>t w. (Inr result_success, w)),
     rt_poll_child = (\<lambda>c w. (None, w)),
     rt_poll_task = (\<lambda>t w. (if t = 2 then Some (Inr result_success) else None, w)),
     rt_continue = (\<lambda>p w. (Inr (), w)), rt_foreground = (\<lambda>p w. (Inr (), w)),
     rt_kill = (\<lambda>p s w. (Inr (), w)) \<rparr>"

theorem job_marks_go_stale:
  "map jb_annotation three_jobs = [PreviousJob, PreviousJob, CurrentJob] \<and>
   map_option jb_id (prev_job three_jobs) = Some 1 \<and>
   map jb_id (fst (jobs_poll third_ended three_jobs 0)) = [1, 2] \<and>
   current_job (fst (jobs_poll third_ended three_jobs 0)) = None"
  by (simp add: three_jobs_are prev_job_def current_job_def third_ended_def poll_done_def task_poll_def
      background_job_def job_new_def)

text \<open>The width given for the mark in a job's line has no effect.\<close>

theorem job_line_unpadded:
  "job_text ((background_job 0)\<lparr>jb_id := 1, jb_annotation := CurrentJob\<rparr>) =
     ''[1]+Running'' @ [CHR 0x09] @ ''sleep 9''"
  by (simp add: job_text_def background_job_def job_new_def decimal.simps) code_simp

end
