(* ===== verification/Shell_State.thy ===== *)
theory Shell_State
  imports Call_Stack Jobs Environment Exec_Policy
begin

text \<open>
  The state a shell carries while it runs commands (\<^verbatim>\<open>brush-core/src/shell.rs\<close>, \<^verbatim>\<open>options.rs\<close>,
  \<^verbatim>\<open>openfiles.rs\<close>, the parameters of \<^verbatim>\<open>interp.rs\<close>, \<^verbatim>\<open>shell/callstack.rs\<close>), and the form of code
  that runs in it: a function of the state that may not return (\<open>None\<close>), or returns an error or a
  value with the state after it. Open files are named by numbers, so are builtins' implementations.
  What the interpreter does not itself read of a shell is its \<open>sh_rest\<close>.
\<close>

section \<open>Code that runs\<close>

type_synonym ('t, 'a) run = "'t \<Rightarrow> ((failure + 'a) \<times> 't) option"

definition pure :: "'a \<Rightarrow> ('t, 'a) run" where
  "pure x = (\<lambda>t. Some (Inr x, t))"

definition raise :: "failure \<Rightarrow> ('t, 'a) run" where
  "raise e = (\<lambda>t. Some (Inl e, t))"

definition andthen :: "('t, 'a) run \<Rightarrow> ('a \<Rightarrow> ('t, 'b) run) \<Rightarrow> ('t, 'b) run" where
  "andthen m f =
     (\<lambda>t. case m t of
            None \<Rightarrow> None
          | Some (Inl e, t') \<Rightarrow> Some (Inl e, t')
          | Some (Inr x, t') \<Rightarrow> f x t')"

text \<open>A call whose \<^verbatim>\<open>Result\<close> is looked at. A panic is not a \<^verbatim>\<open>Result\<close>: it goes through.\<close>

definition panicked :: failure where
  "panicked = failure_of (ShellFailure Panicked)"

fun is_panic :: "failure + 'a \<Rightarrow> bool" where
  "is_panic (Inl e) \<longleftrightarrow> e = panicked"
| "is_panic (Inr x) \<longleftrightarrow> False"

lemma is_panic_iff [simp]: "is_panic r \<longleftrightarrow> r = Inl panicked"
  by (cases r) simp_all

definition attempted :: "('t, 'a) run \<Rightarrow> ('t, failure + 'a) run" where
  "attempted m =
     (\<lambda>t. case m t of
            None \<Rightarrow> None
          | Some (r, t') \<Rightarrow> (if is_panic r then Some (Inl panicked, t') else Some (Inr r, t')))"

definition caught :: "('t, 'a) run \<Rightarrow> (failure \<Rightarrow> ('t, 'a) run) \<Rightarrow> ('t, 'a) run" where
  "caught m h = andthen (attempted m) (\<lambda>r. case r of Inl e \<Rightarrow> h e | Inr x \<Rightarrow> pure x)"

definition of_result :: "failure + 'a \<Rightarrow> ('t, 'a) run" where
  "of_result r = (\<lambda>t. Some (r, t))"

text \<open>\<^verbatim>\<open>let _ = \<dots>\<close>.\<close>

definition ignoring :: "('t, 'a) run \<Rightarrow> ('t, unit) run" where
  "ignoring m = andthen (attempted m) (\<lambda>r. pure ())"

fun each :: "('a \<Rightarrow> ('t, unit) run) \<Rightarrow> 'a list \<Rightarrow> ('t, unit) run" where
  "each f [] = pure ()"
| "each f (x # xs) = andthen (f x) (\<lambda>u. each f xs)"

fun collected_each :: "('a \<Rightarrow> ('t, 'b list) run) \<Rightarrow> 'a list \<Rightarrow> ('t, 'b list) run" where
  "collected_each f [] = pure []"
| "collected_each f (x # xs) =
     andthen (f x) (\<lambda>ys. andthen (collected_each f xs) (\<lambda>zs. pure (ys @ zs)))"

text \<open>The state is a shell and the world around it.\<close>

definition asks_shell :: "('s \<Rightarrow> 'a) \<Rightarrow> ('s \<times> 'w, 'a) run" where
  "asks_shell f = (\<lambda>(sh, w). Some (Inr (f sh), sh, w))"

definition modifies :: "('s \<Rightarrow> 's) \<Rightarrow> ('s \<times> 'w, unit) run" where
  "modifies f = (\<lambda>(sh, w). Some (Inr (), f sh, w))"

definition updates :: "('s \<Rightarrow> 's \<times> (failure + 'a)) \<Rightarrow> ('s \<times> 'w, 'a) run" where
  "updates f = (\<lambda>(sh, w). case f sh of (sh', r) \<Rightarrow> Some (r, sh', w))"

definition performs :: "('s \<Rightarrow> 'w \<Rightarrow> (failure + 'a) \<times> 'w) \<Rightarrow> ('s \<times> 'w, 'a) run" where
  "performs f = (\<lambda>(sh, w). case f sh w of (r, w') \<Rightarrow> Some (r, sh, w'))"

section \<open>Options\<close>

text \<open>The runtime options the interpreter reads; those it does not are in the shell's \<open>sh_rest\<close>.\<close>

record runtime_options =
  op_allexport :: bool
  op_errexit :: bool
  op_job_control :: bool
  op_noexec :: bool
  op_noclobber :: bool
  op_xtrace :: bool
  op_errtrace :: bool
  op_functrace :: bool
  op_pipefail :: bool
  op_posix :: bool
  op_subst_inherits_errexit :: bool
  op_lastpipe :: bool
  op_interactive :: bool
  op_max_call_depth :: "nat option"
  op_leads_session :: bool
  op_kill_on_drop :: bool
  op_nounset :: bool
  op_braceexpand :: bool
  op_noglob :: bool
  op_failglob :: bool
  op_nullglob :: bool
  op_dotglob :: bool
  op_extglob :: bool
  op_nocaseglob :: bool
  op_nocasematch :: bool
  op_sh_mode :: bool

section \<open>Open files\<close>

type_synonym open_files = "int \<rightharpoonup> nat option"

datatype open_file_entry = OpenEntry nat | NotPresentEntry | NotSpecifiedEntry

definition fd_entry :: "open_files \<Rightarrow> int \<Rightarrow> open_file_entry" where
  "fd_entry fs fd =
     (case fs fd of
        None \<Rightarrow> NotSpecifiedEntry
      | Some (Some f) \<Rightarrow> OpenEntry f
      | Some None \<Rightarrow> NotPresentEntry)"

definition files_try_fd :: "open_files \<Rightarrow> int \<Rightarrow> nat option" where
  "files_try_fd fs fd = (case fs fd of None \<Rightarrow> None | Some f \<Rightarrow> f)"

definition files_set_fd :: "open_files \<Rightarrow> int \<Rightarrow> nat \<Rightarrow> open_files" where
  "files_set_fd fs fd f = fs(fd \<mapsto> Some f)"

definition files_remove_fd :: "open_files \<Rightarrow> int \<Rightarrow> open_files" where
  "files_remove_fd fs fd = fs(fd \<mapsto> None)"

text \<open>\<^verbatim>\<open>OpenFiles::add\<close>: the descriptors from 3 that have an entry are skipped, up to 1024.\<close>

function first_free_fd :: "open_files \<Rightarrow> int \<Rightarrow> int option" where
  "first_free_fd fs fd =
     (if fs fd = None then Some fd
      else if fd \<ge> 1024 then None
      else first_free_fd fs (fd + 1))"
  by pat_completeness auto

termination first_free_fd
  by (relation "measure (\<lambda>(fs, fd). nat (1024 - fd))") auto

declare first_free_fd.simps [simp del]

definition files_add :: "open_files \<Rightarrow> nat \<Rightarrow> open_files \<times> (failure + int)" where
  "files_add fs f =
     (case first_free_fd fs 3 of
        None \<Rightarrow> (fs, Inl (failure_of (OtherFailure ''too many open files'')))
      | Some fd \<Rightarrow> (fs(fd \<mapsto> Some f), Inr fd))"

section \<open>The shell\<close>

record trap_handler =
  th_command :: string
  th_source :: source_info

record 's shell =
  sh_options :: runtime_options
  sh_status :: byte
  sh_status_changes :: nat
  sh_pipeline_statuses :: "byte list"
  sh_env :: environment
  sh_funcs :: "string \<rightharpoonup> function_registration"
  sh_aliases :: "string \<rightharpoonup> string"
  sh_builtins :: "string \<rightharpoonup> nat registration"
  sh_traps :: "trap_signal \<rightharpoonup> trap_handler"
  sh_stack :: call_stack
  sh_args :: "string list"
  sh_depth :: nat
  sh_jobs :: job_manager
  sh_files :: open_files
  sh_execution :: external_execution
  sh_builtin_policy :: builtin_policy
  sh_rest :: 's

text \<open>\<^verbatim>\<open>Shell::clone\<close>: a subshell has no jobs, is one deeper and handles no trap.\<close>

definition clone :: "'s shell \<Rightarrow> 's shell" where
  "clone sh = sh\<lparr>sh_jobs := [], sh_stack := clear_active_trap_signals (sh_stack sh),
     sh_depth := sh_depth sh + 1\<rparr>"

definition is_subshell :: "'s shell \<Rightarrow> bool" where
  "is_subshell sh \<longleftrightarrow> 0 < sh_depth sh"

definition set_last_exit_status :: "byte \<Rightarrow> 's shell \<Rightarrow> 's shell" where
  "set_last_exit_status n sh =
     sh\<lparr>sh_status := n, sh_status_changes := sh_status_changes sh + 1\<rparr>"

definition apply_errexit :: "'s shell \<Rightarrow> exec_result \<Rightarrow> exec_result" where
  "apply_errexit sh r =
     (if op_errexit (sh_options sh) \<and> \<not> succeeded r \<and> is_normal_flow r
      then r\<lparr>er_flow := ExitShell\<rparr> else r)"

definition update_last_arg_variable :: "string option \<Rightarrow> 's shell \<Rightarrow> 's shell" where
  "update_last_arg_variable last_arg sh =
     (case get_using_policy (sh_env sh) ''_'' Anywhere of
        Some v \<Rightarrow> if v_readonly v then sh else sh\<lparr>sh_env := fst (set_global (sh_env sh) ''_''
                    (variable_new (Scalar_Value (case last_arg of None \<Rightarrow> [] | Some s \<Rightarrow> s))))\<rparr>
      | None \<Rightarrow> sh\<lparr>sh_env := fst (set_global (sh_env sh) ''_''
                    (variable_new (Scalar_Value (case last_arg of None \<Rightarrow> [] | Some s \<Rightarrow> s))))\<rparr>)"

definition current_shell_args :: "'s shell \<Rightarrow> string list" where
  "current_shell_args sh = frame_args (cs_frames (sh_stack sh)) (sh_args sh)"

definition pushed_scope :: "env_scope \<Rightarrow> 's shell \<Rightarrow> 's shell" where
  "pushed_scope sc sh = sh\<lparr>sh_env := push_scope (sh_env sh) sc\<rparr>"

definition popped_scope :: "env_scope \<Rightarrow> 's shell \<Rightarrow> 's shell \<times> (failure + unit)" where
  "popped_scope sc sh =
     (case pop_scope (sh_env sh) sc of
        (e, r) \<Rightarrow> (sh\<lparr>sh_env := e\<rparr>, map_sum (\<lambda>e. failure_of (ShellFailure e)) id r))"

definition enter_function ::
  "string \<Rightarrow> function_registration \<Rightarrow> string list \<Rightarrow> 's shell \<Rightarrow> 's shell \<times> (failure + unit)" where
  "enter_function name r args sh =
     (let depth = cs_func_depth (sh_stack sh) in
      case op_max_call_depth (sh_options sh) of
        Some limit \<Rightarrow>
          if limit \<le> depth then (sh, Inl (failure_of MaxFunctionCallDepthExceeded))
          else (pushed_scope Local (sh\<lparr>sh_stack := push_function (sh_stack sh) name r args\<rparr>), Inr ())
      | None \<Rightarrow> (pushed_scope Local (sh\<lparr>sh_stack := push_function (sh_stack sh) name r args\<rparr>), Inr ()))"

definition leave_function :: "'s shell \<Rightarrow> 's shell \<times> (failure + unit)" where
  "leave_function sh =
     (case popped_scope Local sh of
        (sh, Inl e) \<Rightarrow> (sh, Inl e)
      | (sh, Inr _) \<Rightarrow>
          (case stack_pop (sh_stack sh) of
             (s, None) \<Rightarrow> (sh\<lparr>sh_stack := s\<rparr>, Inr ())
           | (s, Some f) \<Rightarrow>
               (sh\<lparr>sh_stack := s\<rparr>,
                if is_function_frame f then Inr ()
                else Inl (into_fatal (failure_of (InternalFailure ''mismatched call stack state''))))))"

section \<open>Execution parameters\<close>

datatype process_group_policy = NewProcessGroup | SameProcessGroup

record exec_params =
  pa_files :: open_files
  pa_policy :: process_group_policy
  pa_suppress :: bool

definition params_default :: exec_params where
  "params_default = \<lparr> pa_files = Map.empty, pa_policy = NewProcessGroup, pa_suppress = False \<rparr>"

definition default_exec_params :: "'s shell \<Rightarrow> exec_params" where
  "default_exec_params sh = params_default\<lparr>pa_policy :=
     (if op_job_control (sh_options sh) then NewProcessGroup else SameProcessGroup)\<rparr>"

definition params_try_fd :: "'s shell \<Rightarrow> exec_params \<Rightarrow> int \<Rightarrow> nat option" where
  "params_try_fd sh p fd =
     (case fd_entry (pa_files p) fd of
        OpenEntry f \<Rightarrow> Some f
      | NotPresentEntry \<Rightarrow> None
      | NotSpecifiedEntry \<Rightarrow> files_try_fd (sh_files sh) fd)"

definition params_set_fd :: "int \<Rightarrow> nat \<Rightarrow> exec_params \<Rightarrow> exec_params" where
  "params_set_fd fd f p = p\<lparr>pa_files := files_set_fd (pa_files p) fd f\<rparr>"

definition suppressing :: "exec_params \<Rightarrow> exec_params" where
  "suppressing p = p\<lparr>pa_suppress := True\<rparr>"

section \<open>A shell for examples\<close>

definition demo_options :: runtime_options where
  "demo_options = \<lparr> op_allexport = False, op_errexit = False, op_job_control = False, op_noexec = False,
     op_noclobber = False, op_xtrace = False, op_errtrace = False, op_functrace = False,
     op_pipefail = False, op_posix = False, op_subst_inherits_errexit = False, op_lastpipe = False,
     op_interactive = False, op_max_call_depth = None, op_leads_session = False,
     op_kill_on_drop = False, op_nounset = False, op_braceexpand = True, op_noglob = False,
     op_failglob = False, op_nullglob = False, op_dotglob = False, op_extglob = False,
     op_nocaseglob = False, op_nocasematch = False, op_sh_mode = False \<rparr>"

definition blank_shell :: "external_execution \<Rightarrow> builtin_policy \<Rightarrow> 's \<Rightarrow> 's shell" where
  "blank_shell ex policy more_state =
     \<lparr> sh_options = demo_options, sh_status = 0, sh_status_changes = 0, sh_pipeline_statuses = [],
       sh_env = env_new, sh_funcs = Map.empty, sh_aliases = Map.empty, sh_builtins = Map.empty,
       sh_traps = Map.empty, sh_stack = stack_new, sh_args = [], sh_depth = 0, sh_jobs = [],
       sh_files = Map.empty, sh_execution = ex, sh_builtin_policy = policy, sh_rest = more_state \<rparr>"

end
