(* ===== verification/Assignments.thy ===== *)
theory Assignments
  imports Shell_State
begin

text \<open>
  Assignments as commands make them (the end of \<^verbatim>\<open>apply_assignment\<close> in \<^verbatim>\<open>brush-core/src/interp.rs\<close>):
  once name, subscript and value are expanded, which scope takes the value and with which
  attributes. The environment's operations are those of \<open>Environment\<close>.
\<close>

section \<open>Text\<close>

primrec assignment_name_text :: "assignment_name \<Rightarrow> string" where
  "assignment_name_text (VariableName n) = n"
| "assignment_name_text (ArrayElementName n i) = n @ ''['' @ i @ '']''"

fun array_words_text :: "(word_text option \<times> word_text) list \<Rightarrow> string" where
  "array_words_text [] = []"
| "array_words_text ((k, v) # rest) =
     (case k of None \<Rightarrow> v | Some k \<Rightarrow> ''['' @ k @ '']='' @ v) @
     (if rest = [] then [] else CHR '' '' # array_words_text rest)"

primrec assignment_value_text :: "assignment_value \<Rightarrow> string" where
  "assignment_value_text (ScalarWord w) = w"
| "assignment_value_text (ArrayWords ws) = ''('' @ array_words_text ws @ '')''"

definition assignment_text :: "assignment \<Rightarrow> string" where
  "assignment_text a = assignment_name_text (as_name a) @
     (if as_append a then ''+'' else []) @ ''='' @ assignment_value_text (as_value a)"

section \<open>Where a value goes\<close>

text \<open>A subscript is evaluated unless the variable found is, or is declared, associative.\<close>

definition will_be_indexed :: "environment \<Rightarrow> string \<Rightarrow> bool" where
  "will_be_indexed e name =
     (case env_get e name of
        Some (sc, v) \<Rightarrow>
          (case v_value v of
             AssociativeArray m \<Rightarrow> False
           | Unset t \<Rightarrow> t \<noteq> UnsetAssociative
           | _ \<Rightarrow> True)
      | None \<Rightarrow> True)"

text \<open>The variable found first, when its scope will do; an index turns the assignment into one of an
  element.\<close>

definition assign_found ::
  "casing \<Rightarrow> bool \<Rightarrow> string option \<Rightarrow> value_literal \<Rightarrow> bool \<Rightarrow> bool \<Rightarrow>
   shell_variable \<Rightarrow> shell_variable upd" where
  "assign_found k allexport index lit add export v =
     (case index of
        Some i \<Rightarrow>
          (case lit of
             Scalar s \<Rightarrow>
               and_then (assign_at_index k v i s add) (\<lambda>v. (export_var export v, Inr ()))
           | Array es \<Rightarrow> (v, Inl (Unimplemented ''replacing an array item with an array'')))
      | None \<Rightarrow>
          and_then (assign k v lit add)
            (\<lambda>v. (export_var (export \<or> allexport \<and> (case lit of Array es \<Rightarrow> False | Scalar s \<Rightarrow> True)) v,
                  Inr ())))"

definition assign_new ::
  "bool \<Rightarrow> string option \<Rightarrow> value_literal \<Rightarrow> bool \<Rightarrow> shell_error + shell_variable" where
  "assign_new allexport index lit export =
     (case index of
        Some i \<Rightarrow>
          (case lit of
             Scalar s \<Rightarrow>
               Inr (export_var export
                 (variable_new (indexed_array_from_literals [(Some i, s)])))
           | Array es \<Rightarrow> Inl (Unimplemented ''cannot assign list to array member''))
      | None \<Rightarrow>
          (case lit of
             Scalar s \<Rightarrow> Inr (export_var (export \<or> allexport) (variable_new (Scalar_Value s)))
           | Array es \<Rightarrow>
               Inr (export_var export (variable_new (indexed_array_from_literals es)))))"

definition assign_in_env ::
  "casing \<Rightarrow> bool \<Rightarrow> environment \<Rightarrow> string \<Rightarrow> string option \<Rightarrow> value_literal \<Rightarrow> bool \<Rightarrow> bool \<Rightarrow>
   env_scope option \<Rightarrow> env_scope \<Rightarrow> environment upd" where
  "assign_in_env k allexport e name index lit add export required creation =
     (let fresh =
        (case assign_new allexport index lit export of
           Inl err \<Rightarrow> (e, Inl err)
         | Inr v \<Rightarrow> env_add e name v creation)
      in case find_scope Anywhere 0 (e_scopes e) name of
           Some i \<Rightarrow>
             if required = None \<or> required = Some (fst (e_scopes e ! i))
             then update_found e i name (assign_found k allexport index lit add export)
             else fresh
         | None \<Rightarrow> fresh)"

section \<open>Lemmas\<close>

lemma assign_in_env_agree:
  "agree_but name e (fst (assign_in_env k allexport e name index lit add export required creation))"
  by (simp add: assign_in_env_def Let_def agree_but_update agree_but_add split: option.split sum.split)



text \<open>The variable found by its index, in the scope it is in.\<close>

lemma update_found_first:
  "e_scopes e = (sc, m) # scs \<Longrightarrow> m name = Some v \<Longrightarrow>
     update_found e 0 name f = (case f v of (v', r) \<Rightarrow> (e\<lparr>e_scopes := (sc, m(name \<mapsto> v')) # scs\<rparr>, r))"
  by (simp add: update_found_def set_in_scope_def split: prod.split)

section \<open>Properties\<close>

text \<open>An assignment changes the variable it names and no other, in no scope, and leaves the stack of
  scopes as deep as it was, whether it succeeds or fails.\<close>

theorem assignment_changes_one_name:
  "agree_but name e (fst (assign_in_env k allexport e name index lit add export required creation))"
  by (rule assign_in_env_agree)



section \<open>Witnesses\<close>

definition assigned :: "environment \<Rightarrow> string \<Rightarrow> environment upd" where
  "assigned e v =
     assign_in_env ascii_casing False (push_scope e Command) ''A'' None (Scalar v) False True (Some Command) Command"


section \<open>Divergences\<close>

text \<open>When an outer command's scope holds the name, as in a function called with an assignment that
  runs a command with another, the inner assignment changes the outer's variable, and it stays
  changed when the inner scope is gone.\<close>

theorem nested_assignment_leaks:
  "map_option (v_value \<circ> snd)
     (env_get (fst (pop_scope (fst (assigned (fst (assigned env_new ''1'')) ''2'')) Command)) ''A'') =
   Some (Scalar_Value ''2'')"
  by code_simp

text \<open>An appending assignment before a command appends to nothing, and the readonly attribute of the
  variable it hides does not stop it.\<close>

theorem command_append_ignores_value:
  "map_option (v_value \<circ> snd) (env_get (fst (assign_in_env ascii_casing False
       (push_scope (fst (set_global env_new ''A'' ((variable_new (Scalar_Value ''1''))\<lparr>v_readonly := True\<rparr>))) Command)
       ''A'' None (Scalar ''2'') True True (Some Command) Command)) ''A'') =
   Some (Scalar_Value ''2'')"
  by code_simp

end
