(* ===== verification/Execution.thy ===== *)
theory Execution
  imports Assignments Vfs
begin

text \<open>
  What the interpreter is built on (\<^verbatim>\<open>brush-core/src/interp.rs\<close>, \<^verbatim>\<open>shell/execution.rs\<close>,
  \<^verbatim>\<open>shell/traps.rs\<close>): the record of functions it calls, lists of commands over a function that
  runs a pipeline, strings and trap handlers. The record, \<open>interface\<close>, holds what is not control flow:
  the expansions of words, arithmetic and tests, the builtins, the parser, the spawning of processes
  and tasks, the display of errors.
\<close>

section \<open>What the interpreter calls\<close>

datatype command_arg = StringArg string | AssignmentArg assignment

definition arg_text :: "command_arg \<Rightarrow> string" where
  "arg_text a = (case a of StringArg s \<Rightarrow> s | AssignmentArg x \<Rightarrow> assignment_text x)"

text \<open>What is handed to \<^verbatim>\<open>tokio::spawn\<close>, as data: the shell and the parameters go with it.\<close>

datatype spawned =
    SpawnAndOrList "command and_or_list"
  | SpawnCompoundList shell_list
  | SpawnCommand command
  | SpawnBuiltin "nat registration" string "command_arg list"

type_synonym ('s, 'w, 'a) sh = "('s shell \<times> 'w, 'a) run"

record ('s, 'w) interface =
  x_fields :: "word_text \<Rightarrow> exec_params \<Rightarrow> ('s, 'w, string list) sh"
  x_word :: "word_text \<Rightarrow> exec_params \<Rightarrow> ('s, 'w, string) sh"
  x_assignment_word :: "word_text \<Rightarrow> exec_params \<Rightarrow> ('s, 'w, string) sh"
  x_heredoc_word :: "word_text \<Rightarrow> exec_params \<Rightarrow> ('s, 'w, string) sh"
  x_pattern_matches :: "word_text \<Rightarrow> string \<Rightarrow> exec_params \<Rightarrow> ('s, 'w, bool) sh"
  x_arith :: "string \<Rightarrow> bool \<Rightarrow> exec_params \<Rightarrow> ('s, 'w, int) sh"
  x_test :: "string \<Rightarrow> exec_params \<Rightarrow> ('s, 'w, bool) sh"
  x_builtin :: "nat \<Rightarrow> string \<Rightarrow> command_arg list \<Rightarrow> exec_params \<Rightarrow> ('s, 'w, exec_result) sh"
  x_trace :: "string \<Rightarrow> exec_params \<Rightarrow> ('s, 'w, unit) sh"
  x_parse :: "string \<Rightarrow> 's shell \<Rightarrow> failure + program"
  x_open :: "open_mode \<Rightarrow> string \<Rightarrow> 's shell \<Rightarrow> exec_params \<Rightarrow> 'w \<Rightarrow> (failure + nat) \<times> 'w"
  x_regular :: "string \<Rightarrow> 's shell \<Rightarrow> 'w \<Rightarrow> bool \<times> 'w"
  x_temp_file :: "string \<Rightarrow> 'w \<Rightarrow> (failure + nat) \<times> 'w"
  x_pipe :: "'w \<Rightarrow> (failure + nat \<times> nat) \<times> 'w"
  x_null :: "'w \<Rightarrow> (failure + nat) \<times> 'w"
  x_write_stderr :: "string \<Rightarrow> 's shell \<Rightarrow> exec_params \<Rightarrow> 'w \<Rightarrow> (failure + unit) \<times> 'w"
  x_display :: "failure \<Rightarrow> nat option \<Rightarrow> 's shell \<Rightarrow> 'w \<Rightarrow> (failure + unit) \<times> 'w"
  x_quote :: "string \<Rightarrow> string"
  x_error_text :: "failure \<Rightarrow> string"
  x_spawn :: "spawned \<Rightarrow> 's shell \<Rightarrow> exec_params \<Rightarrow> 'w \<Rightarrow> nat \<times> 'w"
  x_external :: "'s shell \<Rightarrow> exec_params \<Rightarrow> string \<Rightarrow> string \<Rightarrow> int option \<Rightarrow> string list \<Rightarrow> 'w \<Rightarrow>
    (failure + child_process) \<times> 'w"
  x_executable :: "string \<Rightarrow> 's shell \<Rightarrow> 'w \<Rightarrow> bool \<times> 'w"
  x_find_executable :: "string \<Rightarrow> 's shell \<times> 'w \<Rightarrow> string option \<times> 's shell \<times> 'w"
  x_foreground :: "'w \<Rightarrow> (failure + unit) \<times> 'w"
  x_start_timing :: "'w \<Rightarrow> (failure + nat) \<times> 'w"
  x_report_timing :: "pipeline_timed \<Rightarrow> nat \<Rightarrow> nat \<Rightarrow> 'w \<Rightarrow> (failure + unit) \<times> 'w"
  x_runtime :: "'w runtime"
  x_casing :: casing
  x_absolute :: "'s shell \<Rightarrow> string \<Rightarrow> string"
  x_location :: "command \<Rightarrow> source_position option"
  x_pipeline_text :: "shell_pipeline \<Rightarrow> string"
  x_and_or_text :: "command and_or_list \<Rightarrow> string"

definition failing :: "failure_kind \<Rightarrow> ('s, 'w, 'a) sh" where
  "failing k = raise (failure_of k)"

definition env_update :: "(environment \<Rightarrow> environment upd) \<Rightarrow> ('s, 'w, unit) sh" where
  "env_update f = updates (\<lambda>sh. case f (sh_env sh) of
     (e, r) \<Rightarrow> (sh\<lparr>sh_env := e\<rparr>, map_sum (\<lambda>e. failure_of (ShellFailure e)) id r))"

definition tracing_commands :: "('s, 'w) interface \<Rightarrow> string \<Rightarrow> exec_params \<Rightarrow> ('s, 'w, unit) sh" where
  "tracing_commands I s p =
     andthen (asks_shell (\<lambda>sh. op_xtrace (sh_options sh)))
       (\<lambda>x. if x then ignoring (x_trace I s p) else pure ())"

text \<open>\<^verbatim>\<open>shell.display_error(\<dots>)\<close> with its result dropped, then \<^verbatim>\<open>err.into_result\<close>.\<close>

definition reported :: "('s, 'w) interface \<Rightarrow> nat option \<Rightarrow> failure \<Rightarrow> ('s, 'w, exec_result) sh" where
  "reported I stderr e =
     andthen (ignoring (performs (x_display I e stderr)))
       (\<lambda>u. asks_shell (\<lambda>sh. into_result (op_interactive (sh_options sh)) e))"

text \<open>The same where the standard error is the one the parameters name at that time.\<close>

definition reported_now :: "('s, 'w) interface \<Rightarrow> exec_params \<Rightarrow> failure \<Rightarrow> ('s, 'w, exec_result) sh" where
  "reported_now I p e = andthen (asks_shell (\<lambda>sh. params_try_fd sh p 2)) (\<lambda>f. reported I f e)"

definition noting_status :: "exec_result \<Rightarrow> ('s, 'w, exec_result) sh" where
  "noting_status r =
     andthen (modifies (set_last_exit_status (u8_of_code (er_code r)))) (\<lambda>u. pure r)"

text \<open>Running something in a clone of the shell: the world moves on, the shell does not.\<close>

definition in_clone ::
  "('s shell \<Rightarrow> 's shell) \<Rightarrow> ('s, 'w, 'a) sh \<Rightarrow> ('s, 'w, (failure + 'a) \<times> 's shell) sh" where
  "in_clone prepare m =
     (\<lambda>(sh, w). case m (prepare (clone sh), w) of
        None \<Rightarrow> None
      | Some (r, sub, w') \<Rightarrow>
          (if is_panic r then Some (Inl panicked, sh, w') else Some (Inr (r, sub), sh, w')))"

section \<open>Lists\<close>

type_synonym ('s, 'w) runner = "shell_pipeline \<Rightarrow> exec_params \<Rightarrow> ('s, 'w, exec_result) sh"

primrec and_or_parts :: "command and_or \<Rightarrow> bool \<times> shell_pipeline" where
  "and_or_parts (And p) = (True, p)"
| "and_or_parts (Or p) = (False, p)"

fun additional_execute ::
  "('s, 'w) runner \<Rightarrow> exec_params \<Rightarrow> exec_result \<Rightarrow> command and_or list \<Rightarrow> ('s, 'w, exec_result) sh" where
  "additional_execute run p r [] = pure r"
| "additional_execute run p r (a # rest) =
     (if \<not> is_normal_flow r then pure r
      else (case and_or_parts a of
              (is_and, pl) \<Rightarrow>
                if is_and \<noteq> succeeded r then additional_execute run p r rest
                else andthen (run pl (if rest = [] then p else suppressing p))
                       (\<lambda>r. additional_execute run p r rest)))"

definition and_or_execute ::
  "('s, 'w) runner \<Rightarrow> command and_or_list \<Rightarrow> exec_params \<Rightarrow> ('s, 'w, exec_result) sh" where
  "and_or_execute run l p =
     (case l of
        AndOrList first additional \<Rightarrow>
          andthen (run first (if additional = [] then p else suppressing p))
            (\<lambda>r. additional_execute run p r additional))"

text \<open>An asynchronous list runs in a task of its own, in a clone that is not interactive and reads from
  the null device, and becomes the current job.\<close>

definition spawn_async ::
  "('s, 'w) interface \<Rightarrow> command and_or_list \<Rightarrow> exec_params \<Rightarrow> ('s, 'w, job) sh" where
  "spawn_async I l p =
     andthen (attempted (performs (\<lambda>sh. x_null I)))
       (\<lambda>null. let p' = (case null of Inr f \<Rightarrow> params_set_fd 0 f p | Inl e \<Rightarrow> p) in
        andthen (performs (\<lambda>sh w. case x_spawn I (SpawnAndOrList l)
            ((clone sh)\<lparr>sh_options := (sh_options sh)\<lparr>op_interactive := False\<rparr>\<rparr>) p' w of
              (h, w') \<Rightarrow> (Inr h, w')))
          (\<lambda>h. andthen (modifies (\<lambda>sh. sh\<lparr>sh_jobs := add_as_current (sh_jobs sh)
                  (job_new [InternalTask h] (x_and_or_text I l) RunningState)\<rparr>))
            (\<lambda>u. asks_shell (\<lambda>sh. last (sh_jobs sh)))))"

fun items_execute ::
  "('s, 'w) interface \<Rightarrow> ('s, 'w) runner \<Rightarrow> exec_params \<Rightarrow> exec_result \<Rightarrow>
   (command and_or_list \<times> separator) list \<Rightarrow> ('s, 'w, exec_result) sh" where
  "items_execute I run p r [] = pure r"
| "items_execute I run p r ((l, sep) # rest) =
     andthen
       (if sep = AsyncSep
        then andthen (spawn_async I l p)
               (\<lambda>j. andthen (asks_shell (\<lambda>sh. op_interactive (sh_options sh) \<and> \<not> is_subshell sh))
                  (\<lambda>tell. andthen
                     (if tell then performs (\<lambda>sh. x_write_stderr I (pid_style_text j @ [CHR 0x0A]) sh p)
                      else pure ())
                     (\<lambda>u. pure result_success)))
        else andthen (and_or_execute run l p) noting_status)
       (\<lambda>r. if is_normal_flow r then items_execute I run p r rest else pure r)"

definition list_execute ::
  "('s, 'w) interface \<Rightarrow> ('s, 'w) runner \<Rightarrow> shell_list \<Rightarrow> exec_params \<Rightarrow> ('s, 'w, exec_result) sh" where
  "list_execute I run l p =
     (case l of CompoundList items \<Rightarrow> items_execute I run p result_success items)"

fun commands_execute ::
  "('s, 'w) interface \<Rightarrow> ('s, 'w) runner \<Rightarrow> exec_params \<Rightarrow> exec_result \<Rightarrow> shell_list list \<Rightarrow>
   ('s, 'w, exec_result) sh" where
  "commands_execute I run p r [] = pure r"
| "commands_execute I run p r (c # rest) =
     andthen (andthen (caught (list_execute I run c p) (reported_now I p)) noting_status)
       (\<lambda>r. if is_normal_flow r then commands_execute I run p r rest else pure r)"

definition program_execute ::
  "('s, 'w) interface \<Rightarrow> ('s, 'w) runner \<Rightarrow> program \<Rightarrow> exec_params \<Rightarrow> ('s, 'w, exec_result) sh" where
  "program_execute I run prog p = commands_execute I run p result_success (complete_commands prog)"

section \<open>Strings and traps\<close>

definition run_string ::
  "('s, 'w) interface \<Rightarrow> ('s, 'w) runner \<Rightarrow> string \<Rightarrow> exec_params \<Rightarrow> ('s, 'w, exec_result) sh" where
  "run_string I run text p =
     andthen (asks_shell (x_parse I text))
       (\<lambda>parsed. caught
          (case parsed of
             Inr prog \<Rightarrow> program_execute I run prog p
           | Inl e \<Rightarrow> raise (into_fatal (failure_of ParseFailure)))
          (\<lambda>e. andthen (reported_now I p e) noting_status))"

definition trap_inherited :: "'s shell \<Rightarrow> trap_signal \<Rightarrow> bool" where
  "trap_inherited sh signal =
     (case signal of
        ErrTrap \<Rightarrow> op_errtrace (sh_options sh)
      | DebugTrap \<Rightarrow> op_functrace (sh_options sh)
      | ReturnTrap \<Rightarrow> op_functrace (sh_options sh)
      | _ \<Rightarrow> True)"

text \<open>Which handler runs, if any.\<close>

definition deliverable :: "'s shell \<Rightarrow> trap_signal \<Rightarrow> trap_handler option" where
  "deliverable sh signal =
     (if is_trap_signal_active (sh_stack sh) signal \<or> is_trap_delivery_suppressed (sh_stack sh) then None
      else if (in_function (sh_stack sh) \<or> is_subshell sh) \<and> \<not> trap_inherited sh signal then None
      else sh_traps sh signal)"

definition invoke_trap_handler ::
  "('s, 'w) interface \<Rightarrow> ('s, 'w) runner \<Rightarrow> trap_signal \<Rightarrow> exec_params \<Rightarrow> ('s, 'w, exec_result) sh" where
  "invoke_trap_handler I run signal p =
     andthen (asks_shell (\<lambda>sh. (deliverable sh signal, sh_status sh)))
       (\<lambda>(handler, status). case handler of
          None \<Rightarrow> pure result_success
        | Some h \<Rightarrow>
            andthen (modifies (\<lambda>sh. sh\<lparr>sh_stack := push_trap_handler (sh_stack sh) signal (Some (th_source h))\<rparr>))
              (\<lambda>u. andthen (attempted (run_string I run (th_command h) (p\<lparr>pa_policy := SameProcessGroup\<rparr>)))
                (\<lambda>r. andthen (modifies (\<lambda>sh. sh\<lparr>sh_stack := fst (stack_pop (sh_stack sh)), sh_status := status\<rparr>))
                  (\<lambda>u. of_result r))))"

section \<open>What a run leaves\<close>

text \<open>The brackets of a shell: its scopes, the frames of its stack, and their counters.\<close>

type_synonym brackets = "env_scope list \<times> frame_type list \<times> nat \<times> nat \<times> trap_signal set"

definition stack_shape :: "call_stack \<Rightarrow> frame_type list \<times> nat \<times> nat \<times> trap_signal set" where
  "stack_shape s = (map fm_type (cs_frames s), cs_func_depth s, cs_source_depth s, cs_active s)"

definition shape :: "'s shell \<Rightarrow> brackets" where
  "shape sh = (map fst (e_scopes (sh_env sh)), stack_shape (sh_stack sh))"

text \<open>A run from brackets \<open>x\<close> ends, unless it panics, in \<open>y\<close> when it returns and in \<open>z\<close> when it fails.\<close>

definition leads :: "brackets \<Rightarrow> ('s, 'w, 'a) sh \<Rightarrow> brackets \<Rightarrow> brackets \<Rightarrow> bool" where
  "leads x m y z \<longleftrightarrow>
     (\<forall>sh w r sh' w'. m (sh, w) = Some (r, sh', w') \<longrightarrow> shape sh = x \<longrightarrow> r \<noteq> Inl panicked \<longrightarrow>
        shape sh' = (case r of Inr v \<Rightarrow> y | Inl e \<Rightarrow> z))"

definition keeps :: "('s, 'w, 'a) sh \<Rightarrow> bool" where
  "keeps m \<longleftrightarrow> (\<forall>x. leads x m x x)"

text \<open>A run that returns still does, and the same, when what it calls returns more often.\<close>

definition extends :: "('t, 'a) run \<Rightarrow> ('t, 'a) run \<Rightarrow> bool" where
  "extends m m' \<longleftrightarrow> (\<forall>t. m t \<noteq> None \<longrightarrow> m' t = m t)"

named_theorems keeping
named_theorems extending

lemmas run_defs = pure_def raise_def of_result_def andthen_def attempted_def caught_def ignoring_def
  asks_shell_def modifies_def updates_def performs_def failing_def

lemma leadsI:
  "(\<And>sh w r sh' w'. m (sh, w) = Some (r, sh', w') \<Longrightarrow> shape sh = x \<Longrightarrow> r \<noteq> Inl panicked \<Longrightarrow>
      shape sh' = (case r of Inr v \<Rightarrow> y | Inl e \<Rightarrow> z)) \<Longrightarrow> leads x m y z"
  unfolding leads_def by blast

lemma leadsD:
  "leads x m y z \<Longrightarrow> m (sh, w) = Some (r, sh', w') \<Longrightarrow> shape sh = x \<Longrightarrow> r \<noteq> Inl panicked \<Longrightarrow>
     shape sh' = (case r of Inr v \<Rightarrow> y | Inl e \<Rightarrow> z)"
  unfolding leads_def by blast

lemma andthen_cases:
  assumes "andthen m k (sh, w) = Some (r, sh', w')"
  obtains e where "m (sh, w) = Some (Inl e, sh', w')" and "r = Inl e"
    | v sh1 w1 where "m (sh, w) = Some (Inr v, sh1, w1)" and "k v (sh1, w1) = Some (r, sh', w')"
  using assms unfolding andthen_def by (auto split: option.splits sum.splits)

lemma attempted_cases:
  assumes "attempted m (sh, w) = Some (r, sh', w')" and "r \<noteq> Inl panicked"
  obtains q where "m (sh, w) = Some (q, sh', w')" and "r = Inr q" and "q \<noteq> Inl panicked"
  using assms unfolding attempted_def by (auto split: option.splits if_splits)

lemma leads_andthen:
  assumes "leads x m y z" and "\<And>v. leads y (k v) y' z"
  shows "leads x (andthen m k) y' z"
proof (rule leadsI)
  fix sh w r sh' w'
  assume a: "andthen m k (sh, w) = Some (r, sh', w')" "shape sh = x" "r \<noteq> Inl panicked"
  from a(1) show "shape sh' = (case r of Inr v \<Rightarrow> y' | Inl e \<Rightarrow> z)"
  proof (cases rule: andthen_cases)
    case (1 e)
    with leadsD [OF assms(1) 1(1) a(2)] a(3) show ?thesis by simp
  next
    case (2 v sh1 w1)
    from leadsD [OF assms(1) 2(1) a(2)] have "shape sh1 = y" by simp
    from leadsD [OF assms(2) 2(2) this a(3)] show ?thesis .
  qed
qed

lemma leads_keeps: "keeps m \<Longrightarrow> leads x m x x"
  unfolding keeps_def by blast

lemma leads_pure [simp]: "leads x (pure v) x z"
  by (simp add: leads_def pure_def)

lemma leads_raise [simp]: "leads x (raise e) y x"
  by (simp add: leads_def raise_def)

lemma leads_modifies: "(\<And>sh. shape sh = x \<Longrightarrow> shape (g sh) = y) \<Longrightarrow> leads x (modifies g) y z"
  by (simp add: leads_def modifies_def)

lemma leads_attempted:
  assumes "leads x m y y"
  shows "leads x (attempted m) y z"
proof (rule leadsI)
  fix sh w r sh' w'
  assume a: "attempted m (sh, w) = Some (r, sh', w')" "shape sh = x" "r \<noteq> Inl panicked"
  from a(1,3) obtain q where q: "m (sh, w) = Some (q, sh', w')" "r = Inr q" "q \<noteq> Inl panicked"
    by (rule attempted_cases)
  from leadsD [OF assms q(1) a(2) q(3)] q(2) show "shape sh' = (case r of Inr v \<Rightarrow> y | Inl e \<Rightarrow> z)"
    by (cases q) simp_all
qed

lemma leads_ignoring: "leads x m y y \<Longrightarrow> leads x (ignoring m) y z"
  unfolding ignoring_def by (rule leads_andthen [OF leads_attempted leads_pure])

lemma leads_caught:
  assumes "leads x m y y'" and "\<And>e. leads y' (h e) y z"
  shows "leads x (caught m h) y z"
proof (rule leadsI)
  fix sh w r sh' w'
  assume a: "caught m h (sh, w) = Some (r, sh', w')" "shape sh = x" "r \<noteq> Inl panicked"
  from a(1) show "shape sh' = (case r of Inr v \<Rightarrow> y | Inl e \<Rightarrow> z)"
    unfolding caught_def
  proof (cases rule: andthen_cases)
    case (1 e)
    with a(3) show ?thesis by (auto simp: attempted_def split: option.splits if_splits)
  next
    case (2 v sh1 w1)
    from 2(1) have q: "m (sh, w) = Some (v, sh1, w1)" "v \<noteq> Inl panicked"
      by (auto simp: attempted_def split: option.splits if_splits)
    from leadsD [OF assms(1) q(1) a(2) q(2)] have s: "shape sh1 = (case v of Inr v \<Rightarrow> y | Inl e \<Rightarrow> y')" .
    show ?thesis
    proof (cases v)
      case (Inl e)
      with s 2(2) have "h e (sh1, w1) = Some (r, sh', w')" "shape sh1 = y'" by simp_all
      from leadsD [OF assms(2) this a(3)] show ?thesis .
    next
      case (Inr u)
      with s 2(2) show ?thesis by (auto simp: pure_def)
    qed
  qed
qed

lemma leads_asks:
  assumes "\<And>sh. shape sh = x \<Longrightarrow> leads x (k (g sh)) y z"
  shows "leads x (andthen (asks_shell g) k) y z"
proof (rule leadsI)
  fix sh w r sh' w'
  assume a: "andthen (asks_shell g) k (sh, w) = Some (r, sh', w')" "shape sh = x" "r \<noteq> Inl panicked"
  from a(1) have "k (g sh) (sh, w) = Some (r, sh', w')" by (simp add: andthen_def asks_shell_def)
  from leadsD [OF assms [OF a(2)] this a(2,3)] show "shape sh' = (case r of Inr v \<Rightarrow> y | Inl e \<Rightarrow> z)" .
qed

lemma keepsI:
  "(\<And>sh w r sh' w'. m (sh, w) = Some (r, sh', w') \<Longrightarrow> r \<noteq> Inl panicked \<Longrightarrow> shape sh' = shape sh) \<Longrightarrow> keeps m"
  unfolding keeps_def by (intro allI leadsI) (simp split: sum.split)

lemma keepsD: "keeps m \<Longrightarrow> m (sh, w) = Some (r, sh', w') \<Longrightarrow> r \<noteq> Inl panicked \<Longrightarrow> shape sh' = shape sh"
  using leadsD [OF leads_keeps, of m sh w r sh' w' "shape sh"] by (simp split: sum.splits)

lemma keeps_andthen [keeping]: "keeps m \<Longrightarrow> (\<And>v. keeps (k v)) \<Longrightarrow> keeps (andthen m k)"
  unfolding keeps_def by (blast intro: leads_andthen)

lemma keeps_basic [keeping]:
  "keeps (pure v)" "keeps (raise e)" "keeps (of_result q)" "keeps (asks_shell g)" "keeps (failing k)"
  by (rule keepsI; simp add: run_defs)+

lemma keeps_performs [keeping]: "keeps (performs h)"
  by (rule keepsI) (auto simp: performs_def split: prod.splits)

lemma keeps_attempted [keeping]: "keeps m \<Longrightarrow> keeps (attempted m)"
  unfolding keeps_def by (blast intro: leads_attempted)

lemma keeps_ignoring [keeping]: "keeps m \<Longrightarrow> keeps (ignoring m)"
  unfolding keeps_def by (blast intro: leads_ignoring)

lemma keeps_caught [keeping]: "keeps m \<Longrightarrow> (\<And>e. keeps (h e)) \<Longrightarrow> keeps (caught m h)"
  unfolding keeps_def by (blast intro: leads_caught)

lemma keeps_modifies [keeping]: "(\<And>sh. shape (g sh) = shape sh) \<Longrightarrow> keeps (modifies g)"
  by (rule keepsI) (auto simp: modifies_def)

lemma keeps_updates [keeping]: "(\<And>sh. shape (fst (g sh)) = shape sh) \<Longrightarrow> keeps (updates g)"
  by (rule keepsI) (auto simp: updates_def split: prod.splits; metis fst_conv)

lemma keeps_collected [keeping]: "(\<And>x. keeps (f x)) \<Longrightarrow> keeps (collected_each f xs)"
  by (induction xs) (simp_all add: keeping)

lemma shape_env: "shape (sh\<lparr>sh_env := e\<rparr>) = (map fst (e_scopes e), stack_shape (sh_stack sh))"
  by (simp add: shape_def)

lemma keeps_env_update [keeping]:
  assumes "\<And>e. map fst (e_scopes (fst (f e))) = map fst (e_scopes e)"
  shows "keeps (env_update f)"
  unfolding env_update_def
proof (rule keeps_updates)
  fix sh
  show "shape (fst (case f (sh_env sh) of (e, r) \<Rightarrow>
      (sh\<lparr>sh_env := e\<rparr>, map_sum (\<lambda>e. failure_of (ShellFailure e)) id r))) = shape sh"
    using assms [of "sh_env sh"] by (cases "f (sh_env sh)") (simp add: shape_env shape_def)
qed

lemma keeps_in_clone [keeping]: "keeps (in_clone g m)"
  by (rule keepsI) (auto simp: in_clone_def split: option.splits if_splits)

lemma extends_refl [simp, extending]: "extends m m"
  by (simp add: extends_def)

lemma extendsI: "(\<And>t r. m t = Some r \<Longrightarrow> m' t = Some r) \<Longrightarrow> extends m m'"
  unfolding extends_def by auto

lemma extendsD: "extends m m' \<Longrightarrow> m t = Some r \<Longrightarrow> m' t = Some r"
  unfolding extends_def by auto

lemma extends_andthen [extending]:
  assumes "extends m m'" and "\<And>v. extends (k v) (k' v)"
  shows "extends (andthen m k) (andthen m' k')"
proof (rule extendsI)
  fix t r
  assume a: "andthen m k t = Some r"
  then obtain q t1 where m: "m t = Some (q, t1)" by (auto simp: andthen_def split: option.splits)
  from extendsD [OF assms(1) m] a m show "andthen m' k' t = Some r"
    by (cases q) (auto simp: andthen_def intro: extendsD [OF assms(2)])
qed

lemma extends_attempted [extending]: "extends m m' \<Longrightarrow> extends (attempted m) (attempted m')"
  by (rule extendsI) (auto simp: attempted_def dest: extendsD split: option.splits)

lemma extends_ignoring [extending]: "extends m m' \<Longrightarrow> extends (ignoring m) (ignoring m')"
  unfolding ignoring_def by (intro extending)

lemma extends_caught [extending]:
  "extends m m' \<Longrightarrow> (\<And>e. extends (h e) (h' e)) \<Longrightarrow> extends (caught m h) (caught m' h')"
  unfolding caught_def by (rule extends_andthen [OF extends_attempted]) (auto split: sum.split)

lemma extends_in_clone [extending]: "extends m m' \<Longrightarrow> extends (in_clone g m) (in_clone g m')"
proof (rule extendsI)
  fix t r
  assume e: "extends m m'" and a: "in_clone g m t = Some r"
  obtain sh w where t: "t = (sh, w)" by (cases t)
  from a obtain q where m: "m (g (clone sh), w) = Some q"
    by (auto simp: in_clone_def t split: option.splits)
  from extendsD [OF e m] a m show "in_clone g m' t = Some r" by (simp add: in_clone_def t)
qed

lemma extends_None [extending]: "extends (\<lambda>t. None) m"
  by (simp add: extends_def)

lemma keeps_cases [keeping]:
  "\<And>b. keeps m \<Longrightarrow> keeps m' \<Longrightarrow> keeps (if b then m else m')"
  "\<And>q. (\<And>a b. keeps (f a b)) \<Longrightarrow> keeps (case q of (a, b) \<Rightarrow> f a b)"
  "\<And>q. keeps m \<Longrightarrow> (\<And>a. keeps (g a)) \<Longrightarrow> keeps (case q of None \<Rightarrow> m | Some a \<Rightarrow> g a)"
  "\<And>q. (\<And>a. keeps (h a)) \<Longrightarrow> (\<And>b. keeps (k b)) \<Longrightarrow> keeps (case q of Inl a \<Rightarrow> h a | Inr b \<Rightarrow> k b)"
  "\<And>q. (\<And>a. keeps (l a)) \<Longrightarrow> keeps (Let q l)"
  by (auto split: prod.split option.split sum.split)

lemma extends_cases [extending]:
  "\<And>b. extends m n \<Longrightarrow> extends m' n' \<Longrightarrow> extends (if b then m else m') (if b then n else n')"
  "\<And>q. (\<And>a b. extends (f a b) (f' a b)) \<Longrightarrow> extends (case q of (a, b) \<Rightarrow> f a b) (case q of (a, b) \<Rightarrow> f' a b)"
  "\<And>q. extends m n \<Longrightarrow> (\<And>a. extends (g a) (g' a)) \<Longrightarrow>
     extends (case q of None \<Rightarrow> m | Some a \<Rightarrow> g a) (case q of None \<Rightarrow> n | Some a \<Rightarrow> g' a)"
  "\<And>q. (\<And>a. extends (h a) (h' a)) \<Longrightarrow> (\<And>b. extends (k b) (k' b)) \<Longrightarrow>
     extends (case q of Inl a \<Rightarrow> h a | Inr b \<Rightarrow> k b) (case q of Inl a \<Rightarrow> h' a | Inr b \<Rightarrow> k' b)"
  "\<And>q. (\<And>a. extends (l a) (l' a)) \<Longrightarrow> extends (Let q l) (Let q l')"
  by (auto split: prod.split option.split sum.split)

subsection \<open>The interface\<close>

text \<open>What the interpreter calls may do anything to a shell but open a bracket without closing it.\<close>

definition interface_keeps :: "('s, 'w) interface \<Rightarrow> bool" where
  "interface_keeps I \<longleftrightarrow>
     (\<forall>w p. keeps (x_fields I w p) \<and> keeps (x_word I w p) \<and> keeps (x_assignment_word I w p) \<and>
        keeps (x_heredoc_word I w p)) \<and>
     (\<forall>w s p. keeps (x_pattern_matches I w s p)) \<and> (\<forall>e b p. keeps (x_arith I e b p)) \<and>
     (\<forall>e p. keeps (x_test I e p) \<and> keeps (x_trace I e p)) \<and>
     (\<forall>b name args p. keeps (x_builtin I b name args p)) \<and>
     (\<forall>name sh w. shape (fst (snd (x_find_executable I name (sh, w)))) = shape sh)"

lemma interface_keepsD [keeping]:
  assumes "interface_keeps I"
  shows "keeps (x_fields I w p)" "keeps (x_word I w p)" "keeps (x_assignment_word I w p)"
    "keeps (x_heredoc_word I w p)" "keeps (x_pattern_matches I w s p)" "keeps (x_arith I e b p)"
    "keeps (x_test I e p)" "keeps (x_trace I e p)" "keeps (x_builtin I i name args p)"
  using assms unfolding interface_keeps_def by blast+

lemma keeps_find_executable [keeping]:
  assumes "interface_keeps I"
  shows "keeps (\<lambda>t. case x_find_executable I name t of (path, t') \<Rightarrow> Some (Inr path, t'))"
proof (rule keepsI)
  fix sh w r sh' w'
  assume a: "(case x_find_executable I name (sh, w) of (path, t') \<Rightarrow> Some (Inr path, t')) = Some (r, sh', w')"
  have "shape (fst (snd (x_find_executable I name (sh, w)))) = shape sh"
    using assms unfolding interface_keeps_def by blast
  with a show "shape sh' = shape sh" by (auto split: prod.splits)
qed

subsection \<open>Shapes\<close>

lemma agree_but_kinds:
  assumes "agree_but name e e'"
  shows "map fst (e_scopes e') = map fst (e_scopes e)"
proof -
  from assms have "list_all2 (\<lambda>x y. fst y = fst x) (e_scopes e) (e_scopes e')"
    by (auto simp: agree_but_def elim!: list_all2_mono)
  then show ?thesis by (induction rule: list_all2_induct) simp_all
qed

lemma set_global_kinds [simp]: "map fst (e_scopes (fst (set_global e name v))) = map fst (e_scopes e)"
  by (simp add: set_global_def agree_but_kinds [OF agree_but_add])

lemma shape_simps [simp]:
  "\<And>x. shape (sh\<lparr>sh_jobs := x\<rparr>) = shape sh" "\<And>x. shape (sh\<lparr>sh_files := x\<rparr>) = shape sh"
  "\<And>x. shape (sh\<lparr>sh_pipeline_statuses := x\<rparr>) = shape sh" "\<And>x. shape (sh\<lparr>sh_funcs := x\<rparr>) = shape sh"
  "\<And>x. shape (sh\<lparr>sh_status := x\<rparr>) = shape sh" "\<And>x. shape (sh\<lparr>sh_status_changes := x\<rparr>) = shape sh"
  by (simp_all add: shape_def)

lemma shape_status [simp]: "shape (set_last_exit_status n sh) = shape sh"
  by (simp add: set_last_exit_status_def)

lemma shape_last_arg [simp]: "shape (update_last_arg_variable a sh) = shape sh"
  by (simp add: update_last_arg_variable_def shape_env split: option.split) (simp add: shape_def)

lemma shape_position [simp]: "shape (sh\<lparr>sh_stack := set_current_pos (sh_stack sh) pos\<rparr>) = shape sh"
  by (simp add: shape_def stack_shape_def set_current_pos_def split: list.split)

subsection \<open>Lists\<close>

lemma list_of_pairs_induct:
  "P [] \<Longrightarrow> (\<And>a b rest. P rest \<Longrightarrow> P ((a, b) # rest)) \<Longrightarrow> P xs"
  by (induction xs) auto


lemma keeps_tracing [keeping]: "interface_keeps I \<Longrightarrow> keeps (tracing_commands I s p)"
  unfolding tracing_commands_def by (intro keeping)

lemma keeps_reported [keeping]: "keeps (reported I f e)" "keeps (reported_now I p e)"
  unfolding reported_now_def reported_def by (intro keeping)+

lemma keeps_noting [keeping]: "keeps (noting_status r)"
  unfolding noting_status_def by (intro keeping shape_status)

lemma keeps_additional [keeping]:
  "(\<And>pl p. keeps (run pl p)) \<Longrightarrow> keeps (additional_execute run p r rest)"
  by (induction rest arbitrary: r) (simp_all add: keeping)

lemma keeps_and_or [keeping]: "(\<And>pl p. keeps (run pl p)) \<Longrightarrow> keeps (and_or_execute run l p)"
  unfolding and_or_execute_def by (cases l) (auto intro!: keeping)

lemma keeps_spawn_async [keeping]: "keeps (spawn_async I l p)"
  unfolding spawn_async_def by (intro keeping shape_simps)

lemma keeps_items [keeping]:
  "(\<And>pl p. keeps (run pl p)) \<Longrightarrow> keeps (items_execute I run p r items)"
  by (induction items arbitrary: r rule: list_of_pairs_induct) (simp_all add: keeping)

lemma keeps_list [keeping]: "(\<And>pl p. keeps (run pl p)) \<Longrightarrow> keeps (list_execute I run l p)"
  unfolding list_execute_def by (cases l) (auto intro!: keeping)

lemma keeps_commands [keeping]:
  "(\<And>pl p. keeps (run pl p)) \<Longrightarrow> keeps (commands_execute I run p r cs)"
  by (induction cs arbitrary: r) (simp_all add: keeping)

lemma keeps_run_string [keeping]: "(\<And>pl p. keeps (run pl p)) \<Longrightarrow> keeps (run_string I run s p)"
  unfolding run_string_def program_execute_def by (intro keeping)

lemma shape_trap:
  assumes "signal \<notin> cs_active (sh_stack sh)"
    and "shape sh' = shape (sh\<lparr>sh_stack := push_trap_handler (sh_stack sh) signal i\<rparr>)"
  shows "shape (sh'\<lparr>sh_stack := fst (stack_pop (sh_stack sh')), sh_status := n\<rparr>) = shape sh"
  using assms by (cases "cs_frames (sh_stack sh')")
    (auto simp: shape_def stack_shape_def stack_op_defs stack_pop_def is_function_frame_def is_sourced_frame_def)

lemma keeps_trap [keeping]:
  assumes run: "\<And>pl p. keeps (run pl p)"
  shows "keeps (invoke_trap_handler I run signal p)"
proof -
  have "leads x (invoke_trap_handler I run signal p) x x" for x
    unfolding invoke_trap_handler_def
  proof (rule leads_asks)
    fix sh :: "'a shell"
    assume x: "shape sh = x"
    show "leads x (case (deliverable sh signal, sh_status sh) of (handler, status) \<Rightarrow>
        (case handler of
          None \<Rightarrow> pure result_success
        | Some h \<Rightarrow>
            andthen (modifies (\<lambda>sh. sh\<lparr>sh_stack := push_trap_handler (sh_stack sh) signal (Some (th_source h))\<rparr>))
              (\<lambda>u. andthen (attempted (run_string I run (th_command h) (p\<lparr>pa_policy := SameProcessGroup\<rparr>)))
                (\<lambda>r. andthen (modifies (\<lambda>sh. sh\<lparr>sh_stack := fst (stack_pop (sh_stack sh)), sh_status := status\<rparr>))
                  (\<lambda>u. of_result r))))) x x"
    proof (cases "deliverable sh signal")
      case (Some h)
      then have fresh: "signal \<notin> cs_active (sh_stack sh)"
        by (auto simp: deliverable_def is_trap_signal_active_def split: if_splits)
      let ?y = "shape (sh\<lparr>sh_stack := push_trap_handler (sh_stack sh) signal (Some (th_source h))\<rparr>)"
      have push: "shape (s\<lparr>sh_stack := push_trap_handler (sh_stack s) signal (Some (th_source h))\<rparr>) = ?y"
        if "shape s = x" for s :: "'a shell"
        using that x by (auto simp: shape_def stack_shape_def stack_op_defs)
      have pop: "shape (s\<lparr>sh_stack := fst (stack_pop (sh_stack s)), sh_status := n\<rparr>) = x"
        if "shape s = ?y" for s :: "'a shell" and n
        using shape_trap [OF fresh that] x by simp
      have "keeps (run_string I run (th_command h) (p\<lparr>pa_policy := SameProcessGroup\<rparr>))"
        by (intro keeping run)
      then have body: "leads ?y (attempted (run_string I run (th_command h) (p\<lparr>pa_policy := SameProcessGroup\<rparr>))) ?y x"
        by (intro leads_attempted leads_keeps)
      have ends: "leads ?y (modifies (\<lambda>sh :: 'a shell. sh\<lparr>sh_stack := fst (stack_pop (sh_stack sh)), sh_status := n\<rparr>)) x x" for n
        by (rule leads_modifies) (rule pop)
      show ?thesis
        unfolding Some prod.case option.case
        by (rule leads_andthen [OF leads_modifies leads_andthen [OF body leads_andthen [OF ends leads_keeps]]])
           (simp_all add: push keeps_basic)
    qed simp
  qed
  then show ?thesis unfolding keeps_def by blast
qed

lemma extends_additional [extending]:
  "(\<And>pl p. extends (run pl p) (run' pl p)) \<Longrightarrow>
     extends (additional_execute run p r rest) (additional_execute run' p r rest)"
  by (induction rest arbitrary: r) (simp_all add: extending)

lemma extends_and_or [extending]:
  "(\<And>pl p. extends (run pl p) (run' pl p)) \<Longrightarrow> extends (and_or_execute run l p) (and_or_execute run' l p)"
  unfolding and_or_execute_def by (cases l) (auto intro!: extending)

lemma extends_items [extending]:
  "(\<And>pl p. extends (run pl p) (run' pl p)) \<Longrightarrow>
     extends (items_execute I run p r items) (items_execute I run' p r items)"
  by (induction items arbitrary: r rule: list_of_pairs_induct) (simp_all add: extending)

lemma extends_list [extending]:
  "(\<And>pl p. extends (run pl p) (run' pl p)) \<Longrightarrow> extends (list_execute I run l p) (list_execute I run' l p)"
  unfolding list_execute_def by (cases l) (auto intro!: extending)

lemma extends_commands [extending]:
  "(\<And>pl p. extends (run pl p) (run' pl p)) \<Longrightarrow>
     extends (commands_execute I run p r cs) (commands_execute I run' p r cs)"
  by (induction cs arbitrary: r) (simp_all add: extending)

lemma extends_run_string [extending]:
  "(\<And>pl p. extends (run pl p) (run' pl p)) \<Longrightarrow> extends (run_string I run s p) (run_string I run' s p)"
  unfolding run_string_def program_execute_def by (intro extending)

lemma extends_trap [extending]:
  "(\<And>pl p. extends (run pl p) (run' pl p)) \<Longrightarrow>
     extends (invoke_trap_handler I run signal p) (invoke_trap_handler I run' signal p)"
  unfolding invoke_trap_handler_def by (intro extending)

end
