(* ===== verification/Redirection.thy ===== *)
theory Redirection
  imports Execution
begin

text \<open>
  Redirections (\<^verbatim>\<open>setup_redirect\<close> of \<^verbatim>\<open>brush-core/src/interp.rs\<close> and its helpers): how the open files of
  a command's parameters change before it runs.
\<close>

section \<open>Redirections\<close>

definition INVALID_KIND :: failure_kind where
  "INVALID_KIND = ShellFailure (Unimplemented ''unexpected redirect kind'')"

definition BAD_FD :: "int \<Rightarrow> failure_kind" where
  "BAD_FD fd = OtherFailure (''bad file descriptor: '' @ show_int fd)"

text \<open>The descriptor of a process substitution: from 63 down, the first with no entry; zero is never
  tried.\<close>

fun substitution_fd :: "open_files \<Rightarrow> nat \<Rightarrow> int option" where
  "substitution_fd fs 0 = None"
| "substitution_fd fs (Suc n) =
     (if fs (int (Suc n)) = None then Some (int (Suc n)) else substitution_fd fs n)"

definition setup_process_substitution ::
  "('s, 'w) interface \<Rightarrow> process_substitution_kind \<Rightarrow> shell_list \<Rightarrow> exec_params \<Rightarrow>
   ('s, 'w, int \<times> nat) sh" where
  "setup_process_substitution I k l p =
     andthen (performs (\<lambda>sh. x_pipe I))
       (\<lambda>(reader, writer).
          let child = p\<lparr>pa_policy := SameProcessGroup\<rparr>;
              (child, target) =
                (case k of
                   ReadSubstitution \<Rightarrow> (params_set_fd 1 writer child, reader)
                 | WriteSubstitution \<Rightarrow> (params_set_fd 0 reader child, writer))
          in andthen (performs (\<lambda>sh w. case x_spawn I (SpawnCompoundList l) (clone sh) child w of
                 (h, w') \<Rightarrow> (Inr (), w')))
               (\<lambda>u. case substitution_fd (pa_files p) 63 of
                  None \<Rightarrow> failing (ShellFailure (Unimplemented ''no available file descriptors''))
                | Some fd \<Rightarrow> pure (fd, target)))"

definition default_fd :: "io_file_redirect_kind \<Rightarrow> int" where
  "default_fd k = (if k \<in> {ReadFile, ReadAndWriteFile, DuplicateInput} then 0 else 1)"

definition fd_or :: "int option \<Rightarrow> int \<Rightarrow> int" where
  "fd_or fd d = (case fd of None \<Rightarrow> d | Some n \<Rightarrow> n)"

text \<open>How a file is opened for a redirection; \<open>guarded\<close> is \<^verbatim>\<open>noclobber\<close>, \<open>exists_as_file\<close> what the
  namespace says of the target.\<close>

definition redirect_mode :: "io_file_redirect_kind \<Rightarrow> bool \<Rightarrow> bool \<Rightarrow> open_mode" where
  "redirect_mode k guarded exists_as_file =
     (case k of
        ReadFile \<Rightarrow> mode_default\<lparr>om_read := True\<rparr>
      | WriteFile \<Rightarrow>
          (if guarded
           then (if exists_as_file then mode_default\<lparr>om_create_new := True, om_write := True\<rparr>
                 else mode_default\<lparr>om_create := True, om_write := True\<rparr>)
           else mode_default\<lparr>om_create := True, om_write := True, om_truncate := True\<rparr>)
      | AppendFile \<Rightarrow> mode_default\<lparr>om_create := True, om_append := True\<rparr>
      | ReadAndWriteFile \<Rightarrow> mode_default\<lparr>om_create := True, om_read := True, om_write := True\<rparr>
      | ClobberFile \<Rightarrow> mode_default\<lparr>om_create := True, om_write := True, om_truncate := True\<rparr>
      | DuplicateInput \<Rightarrow> mode_default\<lparr>om_read := True\<rparr>
      | DuplicateOutput \<Rightarrow> mode_default\<lparr>om_create := True, om_write := True\<rparr>)"

definition opened_for ::
  "('s, 'w) interface \<Rightarrow> open_mode \<Rightarrow> string \<Rightarrow> exec_params \<Rightarrow> ('s, 'w, nat) sh" where
  "opened_for I mode file p =
     performs (\<lambda>sh w. case x_open I mode file sh p w of
       (r, w') \<Rightarrow>
         (map_sum (\<lambda>e. failure_of (OtherFailure (file @ '': '' @ x_error_text I e))) id r, w'))"

definition output_and_error_to ::
  "('s, 'w) interface \<Rightarrow> string \<Rightarrow> bool \<Rightarrow> exec_params \<Rightarrow> ('s, 'w, exec_params) sh" where
  "output_and_error_to I file appends p =
     andthen (asks_shell (\<lambda>sh. x_absolute I sh file))
       (\<lambda>file. andthen (opened_for I (mode_default\<lparr>om_create := True, om_write := True,
              om_truncate := \<not> appends, om_append := appends\<rparr>) file p)
          (\<lambda>f. pure (params_set_fd 2 f (params_set_fd 1 f p))))"

definition one_field ::
  "('s, 'w) interface \<Rightarrow> word_text \<Rightarrow> exec_params \<Rightarrow> ('s, 'w, string) sh" where
  "one_field I word p =
     andthen (x_fields I word p)
       (\<lambda>fields. case fields of [s] \<Rightarrow> pure s | _ \<Rightarrow> failing InvalidRedirection)"

definition parse_fd :: "string \<Rightarrow> int option" where
  "parse_fd s = (case parse_digits s of
     None \<Rightarrow> None | Some n \<Rightarrow> if int n < 2 ^ 31 then Some (int n) else None)"

definition duplicate_default :: "io_file_redirect_kind \<Rightarrow> int option" where
  "duplicate_default k =
     (case k of DuplicateInput \<Rightarrow> Some 0 | DuplicateOutput \<Rightarrow> Some 1 | _ \<Rightarrow> None)"

definition from_fd :: "int \<Rightarrow> int \<Rightarrow> exec_params \<Rightarrow> ('s, 'w, exec_params) sh" where
  "from_fd target source p =
     andthen (asks_shell (\<lambda>sh. params_try_fd sh p source))
       (\<lambda>f. case f of
          Some f \<Rightarrow> pure (params_set_fd target f p)
        | None \<Rightarrow> failing (BAD_FD source))"

text \<open>The text after \<^verbatim>\<open>>&\<close>: digits name a descriptor, a trailing dash closes, any other text after
  \<^verbatim>\<open>>&\<close> on descriptor 1 is a file for both streams.\<close>

definition duplicate_text ::
  "('s, 'w) interface \<Rightarrow> int \<Rightarrow> string \<Rightarrow> exec_params \<Rightarrow> ('s, 'w, exec_params) sh" where
  "duplicate_text I fd text p =
     (let dash = (text \<noteq> [] \<and> last text = CHR ''-'');
          s = (if dash then butlast text else text)
      in andthen
           (if s = [] then pure p
            else if list_all is_digit s
            then (case parse_fd s of
                    None \<Rightarrow> failing InvalidRedirection
                  | Some source \<Rightarrow> from_fd fd source p)
            else if fd = 1 \<and> \<not> dash then output_and_error_to I s False p
            else failing InvalidRedirection)
           (\<lambda>p. pure (if dash then p\<lparr>pa_files := files_remove_fd (pa_files p) fd\<rparr> else p)))"

definition setup_redirect ::
  "('s, 'w) interface \<Rightarrow> command io_redirect \<Rightarrow> exec_params \<Rightarrow> ('s, 'w, exec_params) sh" where
  "setup_redirect I r p =
     (case r of
        OutputAndError word appends \<Rightarrow>
          andthen (one_field I word p) (\<lambda>file. output_and_error_to I file appends p)
      | FileRedirect fd k target \<Rightarrow>
          (case target of
             Filename word \<Rightarrow>
               andthen (one_field I word p)
                 (\<lambda>text. andthen (asks_shell (\<lambda>sh. (x_absolute I sh text, op_noclobber (sh_options sh))))
                    (\<lambda>(file, guarded). andthen
                       (if k = WriteFile \<and> guarded
                        then performs (\<lambda>sh w. case x_regular I file sh w of (b, w') \<Rightarrow> (Inr b, w'))
                        else pure False)
                       (\<lambda>b. andthen (opened_for I (redirect_mode k guarded b) file p)
                          (\<lambda>f. pure (params_set_fd (fd_or fd (default_fd k)) f p)))))
           | Fd source \<Rightarrow>
               (case duplicate_default k of
                  None \<Rightarrow> failing INVALID_KIND
                | Some d \<Rightarrow> from_fd (fd_or fd d) source p)
           | Duplicate word \<Rightarrow>
               (case duplicate_default k of
                  None \<Rightarrow> failing INVALID_KIND
                | Some d \<Rightarrow> andthen (one_field I word p) (\<lambda>text. duplicate_text I (fd_or fd d) text p))
           | ProcessSubstitutionTarget sk l \<Rightarrow>
               if k = DuplicateInput \<or> k = DuplicateOutput
               then failing (ShellFailure (Unimplemented ''invalid process substitution''))
               else andthen (setup_process_substitution I sk l p)
                      (\<lambda>(n, f). pure (params_set_fd (fd_or fd (default_fd k)) f (params_set_fd n f p))))
      | HereDocument fd tabs expands doc \<Rightarrow>
          andthen (if expands then x_heredoc_word I doc p else pure doc)
            (\<lambda>text. andthen (performs (\<lambda>sh. x_temp_file I text))
               (\<lambda>f. pure (params_set_fd (fd_or fd 0) f p)))
      | HereString fd word \<Rightarrow>
          andthen (x_word I word p)
            (\<lambda>text. andthen (performs (\<lambda>sh. x_temp_file I (text @ [CHR 0x0A])))
               (\<lambda>f. pure (params_set_fd (fd_or fd 0) f p))))"

fun setup_redirects ::
  "('s, 'w) interface \<Rightarrow> command io_redirect list \<Rightarrow> exec_params \<Rightarrow> ('s, 'w, exec_params) sh" where
  "setup_redirects I [] p = pure p"
| "setup_redirects I (r # rs) p = andthen (setup_redirect I r p) (\<lambda>p. setup_redirects I rs p)"

section \<open>Lemmas\<close>

lemma keeps_substitution [keeping]: "keeps (setup_process_substitution I k l p)"
  unfolding setup_process_substitution_def by (intro keeping)

lemma keeps_opened [keeping]: "keeps (opened_for I mode file p)"
  unfolding opened_for_def by (intro keeping)

lemma keeps_both [keeping]: "keeps (output_and_error_to I file b p)"
  unfolding output_and_error_to_def by (intro keeping)

lemma keeps_one_field [keeping]: "interface_keeps I \<Longrightarrow> keeps (one_field I word p)"
  unfolding one_field_def by (intro keeping) (auto split: list.split intro: keeping)

lemma keeps_from_fd [keeping]: "keeps (from_fd n m p)"
  unfolding from_fd_def by (intro keeping)

lemma keeps_duplicate [keeping]: "keeps (duplicate_text I fd s p)"
  unfolding duplicate_text_def by (intro keeping)

lemma keeps_redirect [keeping]: "interface_keeps I \<Longrightarrow> keeps (setup_redirect I r p)"
  unfolding setup_redirect_def
  by (cases r) (auto intro!: keeping split: redirect_target.split)

lemma keeps_redirects [keeping]: "interface_keeps I \<Longrightarrow> keeps (setup_redirects I rs p)"
  by (induction rs arbitrary: p) (simp_all add: keeping)

end
