(* ===== verification/Simple_Command.thy ===== *)
theory Simple_Command
  imports Redirection
begin

text \<open>
  Simple commands (\<^verbatim>\<open>brush-core/src/interp.rs\<close> and the dispatch of \<^verbatim>\<open>commands.rs\<close>): the expansion of words
  and assignments, the scope of a command's own assignments, and what a name runs.
\<close>

section \<open>Assignments\<close>

definition expand_name ::
  "('s, 'w) interface \<Rightarrow> assignment_name \<Rightarrow> exec_params \<Rightarrow> ('s, 'w, assignment_name) sh" where
  "expand_name I n p =
     (case n of
        VariableName n \<Rightarrow> andthen (x_word I n p) (\<lambda>n. pure (VariableName n))
      | ArrayElementName n i \<Rightarrow>
          andthen (x_word I n p)
            (\<lambda>n. andthen (x_word I i p) (\<lambda>i. pure (ArrayElementName n i))))"

text \<open>Elements with a key are expanded like assignments, the others like words.\<close>

definition expand_element ::
  "('s, 'w) interface \<Rightarrow> exec_params \<Rightarrow> word_text option \<times> word_text \<Rightarrow>
   ('s, 'w, (string option \<times> string) list) sh" where
  "expand_element I p = (\<lambda>(key, value).
     (case key of
        Some k \<Rightarrow>
          andthen (x_assignment_word I k p)
            (\<lambda>k. andthen (x_assignment_word I value p) (\<lambda>v. pure [(Some k, v)]))
      | None \<Rightarrow> andthen (x_fields I value p) (\<lambda>vs. pure (map (Pair None) vs))))"

definition expand_assignment ::
  "('s, 'w) interface \<Rightarrow> assignment \<Rightarrow> exec_params \<Rightarrow> ('s, 'w, assignment) sh" where
  "expand_assignment I a p =
     andthen
       (case as_value a of
          ScalarWord w \<Rightarrow> andthen (x_assignment_word I w p) (\<lambda>s. pure (ScalarWord s))
        | ArrayWords es \<Rightarrow>
            andthen (collected_each (expand_element I p) es) (\<lambda>es. pure (ArrayWords es)))
       (\<lambda>v. andthen (expand_name I (as_name a) p)
          (\<lambda>n. pure \<lparr> as_name = n, as_value = v, as_append = as_append a \<rparr>))"

text \<open>A value as a trace shows it.\<close>

primrec literal_text :: "(string \<Rightarrow> string) \<Rightarrow> value_literal \<Rightarrow> string" where
  "literal_text q (Scalar s) = q s"
| "literal_text q (Array es) =
     ''('' @ array_words_text (map (\<lambda>(k, v). (map_option q k, q v)) es) @ '')''"

definition apply_assignment ::
  "('s, 'w) interface \<Rightarrow> assignment \<Rightarrow> exec_params \<Rightarrow> bool \<Rightarrow> env_scope option \<Rightarrow> env_scope \<Rightarrow>
   ('s, 'w, unit) sh" where
  "apply_assignment I a p export required creation =
     andthen
       (case as_name a of
          VariableName n \<Rightarrow> pure (n, None)
        | ArrayElementName n i \<Rightarrow> andthen (x_word I i p) (\<lambda>i. pure (n, Some i)))
       (\<lambda>(name, index). andthen
          (case as_value a of
             ScalarWord w \<Rightarrow> andthen (x_assignment_word I w p) (\<lambda>s. pure (Scalar s))
           | ArrayWords es \<Rightarrow> andthen (collected_each (expand_element I p) es) (\<lambda>es. pure (Array es)))
          (\<lambda>lit. andthen (tracing_commands I (assignment_name_text (as_name a) @
                  (if as_append a then ''+='' else ''='') @ literal_text (x_quote I) lit) p)
             (\<lambda>u. andthen
                (case index of
                   None \<Rightarrow> pure None
                 | Some i \<Rightarrow>
                     andthen (asks_shell (\<lambda>sh. will_be_indexed (sh_env sh) name))
                       (\<lambda>ix. if ix then andthen (x_arith I i False p) (\<lambda>n. pure (Some (show_int n)))
                             else pure (Some i)))
                (\<lambda>index. andthen (asks_shell (\<lambda>sh. op_allexport (sh_options sh)))
                   (\<lambda>allexport. env_update (\<lambda>e. assign_in_env (x_casing I) allexport e name index lit
                      (as_append a) export required creation))))))"

section \<open>Functions\<close>

type_synonym ('s, 'w) compound_runner =
  "compound_command \<Rightarrow> exec_params \<Rightarrow> ('s, 'w, exec_result) sh"

text \<open>The flow a function call hands on.\<close>

definition function_flow :: "exec_result \<Rightarrow> failure + exec_result" where
  "function_flow r =
     (case er_flow r of
        BreakLoop n \<Rightarrow>
          Inl (failure_of (ShellFailure (Unimplemented ''break or continue returned from function invocation'')))
      | ContinueLoop n \<Rightarrow>
          Inl (failure_of (ShellFailure (Unimplemented ''break or continue returned from function invocation'')))
      | ReturnFromFunctionOrScript \<Rightarrow> Inr (r\<lparr>er_flow := NormalFlow\<rparr>)
      | _ \<Rightarrow> Inr r)"

definition invoke_shell_function ::
  "('s, 'w) interface \<Rightarrow> ('s, 'w) compound_runner \<Rightarrow> string \<Rightarrow> function_registration \<Rightarrow>
   string list \<Rightarrow> exec_params \<Rightarrow> ('s, 'w, exec_result) sh" where
  "invoke_shell_function I body_run name reg args p =
     (case fr_body reg of
        FunctionBody body redirects \<Rightarrow>
          andthen (setup_redirects I redirects p)
            (\<lambda>p. andthen (updates (enter_function name reg args))
               (\<lambda>u. andthen (attempted (body_run body p))
                  (\<lambda>r. andthen (updates leave_function)
                     (\<lambda>u. andthen (of_result r) (\<lambda>r. of_result (function_flow r)))))))"

section \<open>Dispatch\<close>

text \<open>Which of the shell's commands a name is.\<close>

datatype target =
    BuiltinTarget "nat registration"
  | FunctionTarget function_registration
  | ExternalPath
  | ExternalName

definition enabled_builtin :: "'s shell \<Rightarrow> string \<Rightarrow> nat registration option" where
  "enabled_builtin sh name =
     (case sh_builtins sh name of
        Some b \<Rightarrow> if r_disabled b then None else Some b
      | None \<Rightarrow> None)"

definition command_target :: "'s shell \<Rightarrow> string \<Rightarrow> target" where
  "command_target sh name =
     (let external = (if CHR ''/'' \<in> set name then ExternalPath else ExternalName);
          other =
            (case sh_funcs sh name of
               Some f \<Rightarrow> FunctionTarget f
             | None \<Rightarrow> (case enabled_builtin sh name of Some b \<Rightarrow> BuiltinTarget b | None \<Rightarrow> external))
      in if op_posix (sh_options sh)
         then (case enabled_builtin sh name of
                 Some b \<Rightarrow> if r_special b then BuiltinTarget b else other
               | None \<Rightarrow> other)
         else other)"

definition last_arg :: "command_arg list \<Rightarrow> string option" where
  "last_arg args = (if args = [] then None else Some (arg_text (last args)))"

fun string_args :: "command_arg list \<Rightarrow> string list" where
  "string_args [] = []"
| "string_args (StringArg s # args) = s # string_args args"
| "string_args (AssignmentArg a # args) = string_args args"

text \<open>\<^verbatim>\<open>execute_builtin_command\<close>: a broken pipe is an exit code, and in POSIX mode the errors of special
  builtins are fatal.\<close>

definition execute_builtin ::
  "('s, 'w) interface \<Rightarrow> nat registration \<Rightarrow> string \<Rightarrow> command_arg list \<Rightarrow> exec_params \<Rightarrow>
   ('s, 'w, exec_result) sh" where
  "execute_builtin I b name args p =
     andthen (asks_shell (\<lambda>sh. r_special b \<and> op_posix (sh_options sh)))
       (\<lambda>fatal. caught (x_builtin I (r_execute b) name args p)
          (\<lambda>e. case as_io_error (fl_kind e) of
             Some io \<Rightarrow>
               if kind io = BrokenPipe then pure (result_of_code (code_of_io_error io))
               else raise (if fatal then into_fatal e else e)
           | None \<Rightarrow> raise (if fatal then into_fatal e else e)))"

text \<open>What every way of running a command ends with: \<^verbatim>\<open>$_\<close>, and the scope of the command's assignments.\<close>

definition concluded :: "command_arg list \<Rightarrow> ('s, 'w, 'a) sh \<Rightarrow> ('s, 'w, 'a) sh" where
  "concluded args m =
     andthen (attempted m)
       (\<lambda>r. andthen (modifies (\<lambda>sh. fst (popped_scope Command (update_last_arg_variable (last_arg args) sh))))
          (\<lambda>u. of_result r))"

definition run_external ::
  "('s, 'w) interface \<Rightarrow> string \<Rightarrow> string \<Rightarrow> int option \<Rightarrow> command_arg list \<Rightarrow> exec_params \<Rightarrow>
   ('s, 'w, spawn_result) sh" where
  "run_external I name path pgid args p =
     concluded args (performs (\<lambda>sh w. case x_external I sh p name path pgid (string_args (tl args)) w of
       (r, w') \<Rightarrow> (map_sum id StartedProcess r, w')))"

definition not_found :: "string \<Rightarrow> command_arg list \<Rightarrow> ('s, 'w, spawn_result) sh" where
  "not_found name args = concluded args (failing (ShellFailure (CommandNotFound name)))"

text \<open>\<^verbatim>\<open>SimpleCommand::execute\<close>. \<open>owned\<close>: the command has a shell of its own, a clone, that nobody
  looks at afterwards.\<close>

definition dispatch ::
  "('s, 'w) interface \<Rightarrow> ('s, 'w) compound_runner \<Rightarrow> bool \<Rightarrow> int option \<Rightarrow> string \<Rightarrow>
   command_arg list \<Rightarrow> exec_params \<Rightarrow> ('s, 'w, spawn_result) sh" where
  "dispatch I body_run owned pgid name args p =
     andthen (asks_shell (\<lambda>sh. (command_target sh name, names_launcher (sh_execution sh) name)))
       (\<lambda>(target, launcher). case target of
          BuiltinTarget b \<Rightarrow>
            if owned
            then performs (\<lambda>sh w. case x_spawn I (SpawnBuiltin b name args) sh p w of
                   (h, w') \<Rightarrow> (Inr (StartedTask h), w'))
            else concluded args (andthen (execute_builtin I b name args p) (\<lambda>r. pure (SpawnCompleted r)))
        | FunctionTarget f \<Rightarrow>
            concluded args (andthen (invoke_shell_function I body_run name f (map arg_text (tl args)) p)
              (\<lambda>r. pure (SpawnCompleted r)))
        | ExternalPath \<Rightarrow>
            andthen (performs (\<lambda>sh w. case x_executable I name sh w of (b, w') \<Rightarrow> (Inr b, w')))
              (\<lambda>b. if \<not> b \<and> \<not> launcher then not_found name args
                   else run_external I name name pgid args p)
        | ExternalName \<Rightarrow>
            andthen (\<lambda>t. case x_find_executable I name t of (path, t') \<Rightarrow> Some (Inr path, t'))
              (\<lambda>path. case path of
                 Some path \<Rightarrow> run_external I name path pgid args p
               | None \<Rightarrow> not_found name args))"

section \<open>Simple commands\<close>

record collected =
  co_assignments :: "assignment list"
  co_args :: "command_arg list"
  co_declares :: bool
  co_params :: exec_params

definition is_white :: "char \<Rightarrow> bool" where
  "is_white c \<longleftrightarrow> c \<in> {CHR '' '', CHR 0x09, CHR 0x0A, CHR 0x0C, CHR 0x0D}"

text \<open>\<^verbatim>\<open>split_ascii_whitespace\<close>.\<close>

fun white_pieces :: "string \<Rightarrow> string \<Rightarrow> string list" where
  "white_pieces piece [] = (if piece = [] then [] else [piece])"
| "white_pieces piece (c # s) =
     (if is_white c then (if piece = [] then [] else [piece]) @ white_pieces [] s
      else white_pieces (piece @ [c]) s)"

text \<open>The first word of a command: an alias's pieces take its place. Indexing the pieces panics when
  there are none.\<close>

definition command_word ::
  "'s shell \<Rightarrow> string list \<Rightarrow> failure + string list \<times> bool" where
  "command_word sh next =
     (case next of
        [] \<Rightarrow> Inr ([], False)
      | name # rest \<Rightarrow>
          (let next = (case sh_aliases sh name of Some v \<Rightarrow> white_pieces [] v @ rest | None \<Rightarrow> next) in
           case next of
             [] \<Rightarrow> Inl panicked
           | first # others \<Rightarrow>
               Inr (next, case enabled_builtin sh first of Some b \<Rightarrow> r_declaration b | None \<Rightarrow> False)))"

definition collect_word ::
  "('s, 'w) interface \<Rightarrow> word_text \<Rightarrow> collected \<Rightarrow> ('s, 'w, collected) sh" where
  "collect_word I word c =
     andthen (x_fields I word (co_params c))
       (\<lambda>next. if co_args c = []
               then andthen (updates (\<lambda>sh. (sh, command_word sh next)))
                      (\<lambda>(next, declares). pure (c\<lparr>co_args := map StringArg next,
                         co_declares := (co_declares c \<or> declares)\<rparr>))
               else pure (c\<lparr>co_args := co_args c @ map StringArg next\<rparr>))"

text \<open>A redirection that fails ends the command with its message and status 1: \<open>None\<close>.\<close>

definition collect_item ::
  "('s, 'w) interface \<Rightarrow> command prefix_or_suffix_item \<Rightarrow> collected \<Rightarrow>
   ('s, 'w, collected option) sh" where
  "collect_item I item c =
     (case item of
        IoRedirect r \<Rightarrow>
          andthen (attempted (setup_redirect I r (co_params c)))
            (\<lambda>p. case p of
               Inr p \<Rightarrow> pure (Some (c\<lparr>co_params := p\<rparr>))
             | Inl e \<Rightarrow>
                 andthen (performs (\<lambda>sh. x_write_stderr I (''error: '' @ x_error_text I e @ [CHR 0x0A]) sh (co_params c)))
                   (\<lambda>u. pure None))
      | ProcessSubstitution k l \<Rightarrow>
          andthen (setup_process_substitution I k l (co_params c))
            (\<lambda>(fd, f). pure (Some (c\<lparr>co_params := params_set_fd fd f (co_params c),
               co_args := co_args c @ [StringArg (''/dev/fd/'' @ show_int fd)]\<rparr>)))
      | AssignmentWord a word \<Rightarrow>
          (if co_args c = [] then pure (Some (c\<lparr>co_assignments := co_assignments c @ [a]\<rparr>))
           else if co_declares c
           then andthen (expand_assignment I a (co_params c))
                  (\<lambda>a. pure (Some (c\<lparr>co_args := co_args c @ [AssignmentArg a]\<rparr>)))
           else andthen (x_fields I word (co_params c))
                  (\<lambda>next. pure (Some (c\<lparr>co_args := co_args c @ map StringArg next\<rparr>))))
      | ItemWord word \<Rightarrow> andthen (collect_word I word c) (\<lambda>c. pure (Some c)))"

fun collect_items ::
  "('s, 'w) interface \<Rightarrow> command prefix_or_suffix_item list \<Rightarrow> collected \<Rightarrow>
   ('s, 'w, collected option) sh" where
  "collect_items I [] c = pure (Some c)"
| "collect_items I (item # items) c =
     andthen (collect_item I item c)
       (\<lambda>c. case c of None \<Rightarrow> pure None | Some c \<Rightarrow> collect_items I items c)"

fun apply_command_assignments ::
  "('s, 'w) interface \<Rightarrow> assignment list \<Rightarrow> exec_params \<Rightarrow> ('s, 'w, unit) sh" where
  "apply_command_assignments I [] p = pure ()"
| "apply_command_assignments I (a # as) p =
     andthen (apply_assignment I a p True (Some Command) Command)
       (\<lambda>u. apply_command_assignments I as p)"

text \<open>How an argument is shown in a trace.\<close>

definition traced_arg :: "('s, 'w) interface \<Rightarrow> command_arg \<Rightarrow> string" where
  "traced_arg I a =
     (case a of
        StringArg s \<Rightarrow> x_quote I s
      | AssignmentArg x \<Rightarrow> assignment_name_text (as_name x) @
          (if as_append x then ''+='' else ''='') @ x_quote I (assignment_value_text (as_value x)))"

text \<open>\<^verbatim>\<open>on_preexecute\<close>, best effort.\<close>

definition on_preexecute ::
  "('s, 'w) interface \<Rightarrow> ('s, 'w) runner \<Rightarrow> command_arg list \<Rightarrow> exec_params \<Rightarrow> ('s, 'w, unit) sh" where
  "on_preexecute I run args p =
     andthen (env_update (\<lambda>e. update_or_add (x_casing I) e ''BASH_COMMAND''
         (Scalar (join_with '' '' (map arg_text args))) (\<lambda>v. (v, Inr ())) Anywhere Global))
       (\<lambda>u. andthen (asks_shell (\<lambda>sh. sh_traps sh DebugTrap \<noteq> None))
          (\<lambda>h. if h then andthen (invoke_trap_handler I run DebugTrap p) (\<lambda>r. pure ()) else pure ()))"

section \<open>Running one\<close>

text \<open>\<^verbatim>\<open>execute_command\<close>: a scope for the command's assignments, which every way out pops: the guard when
  an assignment fails, \<open>concluded\<close> otherwise.\<close>

definition execute_command ::
  "('s, 'w) interface \<Rightarrow> ('s, 'w) runner \<Rightarrow> ('s, 'w) compound_runner \<Rightarrow> bool \<Rightarrow> int option \<Rightarrow>
   string \<Rightarrow> assignment list \<Rightarrow> command_arg list \<Rightarrow> exec_params \<Rightarrow> ('s, 'w, spawn_result) sh" where
  "execute_command I run body_run owned pgid name assignments args p =
     andthen (modifies (pushed_scope Command))
       (\<lambda>u. andthen
          (caught (apply_command_assignments I assignments p)
             (\<lambda>e. andthen (modifies (\<lambda>sh. fst (popped_scope Command sh))) (\<lambda>u. raise e)))
          (\<lambda>u. andthen (tracing_commands I (join_with '' '' (map (traced_arg I) args)) p)
             (\<lambda>u. andthen (ignoring (on_preexecute I run args p))
                (\<lambda>u. dispatch I body_run owned pgid name args p))))"

text \<open>Errors of a command are shown on the standard error it had, by the shell that asked for it: its
  own, or the parent of the clone it runs in.\<close>

definition reported_by ::
  "('s, 'w) interface \<Rightarrow> 's shell option \<Rightarrow> nat option \<Rightarrow> failure \<Rightarrow> ('s, 'w, exec_result) sh" where
  "reported_by I asker stderr e =
     (case asker of
        None \<Rightarrow> reported I stderr e
      | Some sh \<Rightarrow>
          andthen (ignoring (performs (\<lambda>_. x_display I e stderr sh)))
            (\<lambda>u. pure (into_result (op_interactive (sh_options sh)) e)))"

fun apply_assignments ::
  "('s, 'w) interface \<Rightarrow> assignment list \<Rightarrow> exec_params \<Rightarrow> ('s, 'w, unit) sh" where
  "apply_assignments I [] p = pure ()"
| "apply_assignments I (a # as) p =
     andthen (apply_assignment I a p False None Global) (\<lambda>u. apply_assignments I as p)"

text \<open>No command: the assignments are the shell's, and the status is 0 unless an expansion has set one.\<close>

definition assign_only ::
  "('s, 'w) interface \<Rightarrow> nat \<Rightarrow> assignment list \<Rightarrow> exec_params \<Rightarrow> ('s, 'w, spawn_result) sh" where
  "assign_only I before assignments p =
     andthen (apply_assignments I assignments p)
       (\<lambda>u. andthen (modifies (update_last_arg_variable None))
          (\<lambda>u. andthen
             (modifies (\<lambda>sh. if sh_status_changes sh = before then set_last_exit_status 0 sh else sh))
             (\<lambda>u. asks_shell (\<lambda>sh. SpawnCompleted (result_new (sh_status sh))))))"

definition command_items :: "command simple_command \<Rightarrow> command prefix_or_suffix_item list" where
  "command_items c =
     (case c of SimpleCommand before name after \<Rightarrow>
        before @ (case name of None \<Rightarrow> [] | Some w \<Rightarrow> [ItemWord w]) @ after)"

definition simple_execute ::
  "('s, 'w) interface \<Rightarrow> ('s, 'w) runner \<Rightarrow> ('s, 'w) compound_runner \<Rightarrow> 's shell option \<Rightarrow>
   int option \<Rightarrow> command simple_command \<Rightarrow> exec_params \<Rightarrow> ('s, 'w, spawn_result) sh" where
  "simple_execute I run body_run asker pgid c p =
     andthen (asks_shell sh_status_changes)
       (\<lambda>before. andthen
          (collect_items I (command_items c)
             \<lparr> co_assignments = [], co_args = [], co_declares = False, co_params = p \<rparr>)
          (\<lambda>c. case c of
             None \<Rightarrow> pure (SpawnCompleted result_general_error)
           | Some c \<Rightarrow>
               (case co_args c of
                  StringArg name # args \<Rightarrow>
                    andthen (asks_shell (\<lambda>sh. params_try_fd sh (co_params c) 2))
                      (\<lambda>stderr. caught
                         (execute_command I run body_run (asker \<noteq> None) pgid name (co_assignments c)
                            (co_args c) (co_params c))
                         (\<lambda>e. andthen (reported_by I asker stderr e) (\<lambda>r. pure (SpawnCompleted r))))
                | _ \<Rightarrow> assign_only I before (co_assignments c) (co_params c))))"

section \<open>Lemmas\<close>

subsection \<open>Brackets\<close>

lemma keeps_expand_name [keeping]: "interface_keeps I \<Longrightarrow> keeps (expand_name I n p)"
  unfolding expand_name_def by (cases n) (auto intro!: keeping)

lemma keeps_element [keeping]: "interface_keeps I \<Longrightarrow> keeps (expand_element I p kv)"
  unfolding expand_element_def by (intro keeping)

lemma keeps_expand [keeping]: "interface_keeps I \<Longrightarrow> keeps (expand_assignment I a p)"
  unfolding expand_assignment_def by (intro keeping) (auto intro!: keeping split: assignment_value.split)

lemma assign_in_env_kinds [simp]:
  "map fst (e_scopes (fst (assign_in_env k allexport e name index lit add export required creation))) =
     map fst (e_scopes e)"
  by (rule agree_but_kinds [OF assign_in_env_agree])

lemma keeps_apply [keeping]: "interface_keeps I \<Longrightarrow> keeps (apply_assignment I a p export required creation)"
  unfolding apply_assignment_def
  by (intro keeping assign_in_env_kinds)
     (auto intro!: keeping split: assignment_value.split assignment_name.split)

lemma keeps_apply_all [keeping]:
  "interface_keeps I \<Longrightarrow> keeps (apply_command_assignments I as p)"
  "interface_keeps I \<Longrightarrow> keeps (apply_assignments I as p)"
  by (induction as) (simp_all add: keeping)

lemma keeps_builtin [keeping]: "interface_keeps I \<Longrightarrow> keeps (execute_builtin I b name args p)"
  unfolding execute_builtin_def by (intro keeping)

lemma shape_pushed: "shape (pushed_scope sc sh) = (sc # fst (shape sh), snd (shape sh))"
  by (simp add: shape_def pushed_scope_def push_scope_def)

lemma shape_popped:
  "shape sh = (sc # ss, y) \<Longrightarrow> shape (fst (popped_scope sc sh)) = (ss, y)"
  by (auto simp: shape_def popped_scope_def pop_scope_def split: list.splits)

lemma leads_concluded:
  assumes "keeps m"
  shows "leads (Command # ss, y) (concluded args m) (ss, y) (ss, y)"
  unfolding concluded_def
  by (rule leads_andthen [OF leads_attempted [OF leads_keeps [OF assms]]
        leads_andthen [OF leads_modifies leads_keeps]])
     (simp_all add: shape_popped keeping)

text \<open>Entering a function opens a scope and a frame, or fails and opens neither; leaving closes both.\<close>

lemma shape_enter:
  assumes "enter_function name reg args sh = (sh', r)"
  shows "shape sh' = (case r of
     Inr u \<Rightarrow> (Local # fst (shape sh), FunctionFrame name reg # fst (stack_shape (sh_stack sh)),
       cs_func_depth (sh_stack sh) + 1, cs_source_depth (sh_stack sh), cs_active (sh_stack sh))
   | Inl e \<Rightarrow> shape sh)"
  using assms
  by (auto simp: enter_function_def Let_def shape_def stack_shape_def pushed_scope_def push_scope_def
      stack_op_defs split: option.splits if_splits)

lemma shape_leave:
  assumes "leave_function sh = (sh', r)"
    and "shape sh = (Local # ss, FunctionFrame name reg # fs, d + 1, sd, active)"
  shows "shape sh' = (ss, fs, d, sd, active)"
  using assms
  by (cases "cs_frames (sh_stack sh)")
     (auto simp: leave_function_def popped_scope_def pop_scope_def stack_pop_def shape_def stack_shape_def
        is_function_frame_def is_sourced_frame_def split: list.splits if_splits)

lemma leads_updates:
  "(\<And>sh sh' r. shape sh = x \<Longrightarrow> g sh = (sh', r) \<Longrightarrow> shape sh' = (case r of Inr u \<Rightarrow> y | Inl e \<Rightarrow> z)) \<Longrightarrow>
     leads x (updates g) y z"
  by (rule leadsI) (auto simp: updates_def split: prod.splits)

lemma keeps_function [keeping]:
  assumes I: "interface_keeps I" and run: "\<And>k p. keeps (body_run k p)"
  shows "keeps (invoke_shell_function I body_run name reg args p)"
proof -
  obtain body redirects where b: "fr_body reg = FunctionBody body redirects" by (cases "fr_body reg")
  have "leads (ss, fs, d, sd, active) (andthen (updates (enter_function name reg args))
      (\<lambda>u. andthen (attempted (body_run body q))
        (\<lambda>r. andthen (updates leave_function)
          (\<lambda>u. andthen (of_result r) (\<lambda>r. of_result (function_flow r))))))
      (ss, fs, d, sd, active) (ss, fs, d, sd, active)" for q ss fs d sd active
  proof (rule leads_andthen [OF leads_updates leads_andthen [OF leads_attempted [OF leads_keeps [OF run]]
        leads_andthen [OF leads_updates leads_keeps]]])
    fix sh sh' :: "'a shell" and r
    assume "shape sh = (ss, fs, d, sd, active)" "enter_function name reg args sh = (sh', r)"
    then show "shape sh' = (case r of Inr u \<Rightarrow> (Local # ss, FunctionFrame name reg # fs, d + 1, sd, active)
        | Inl e \<Rightarrow> (ss, fs, d, sd, active))"
      by (auto dest!: shape_enter simp: shape_def stack_shape_def split: sum.splits)
  next
    fix sh sh' :: "'a shell" and r
    assume "shape sh = (Local # ss, FunctionFrame name reg # fs, d + 1, sd, active)"
      and "leave_function sh = (sh', r)"
    then show "shape sh' = (case r of Inr u \<Rightarrow> (ss, fs, d, sd, active) | Inl e \<Rightarrow> (ss, fs, d, sd, active))"
      by (simp add: shape_leave split: sum.split)
  qed (intro keeping)
  then have "keeps (andthen (updates (enter_function name reg args))
      (\<lambda>u. andthen (attempted (body_run body q))
        (\<lambda>r. andthen (updates leave_function)
          (\<lambda>u. andthen (of_result r) (\<lambda>r. of_result (function_flow r))))))" for q
    by (auto simp: keeps_def)
  then show ?thesis
    unfolding invoke_shell_function_def b function_body.case
    by (rule keeps_andthen [OF keeps_redirects [OF I]])
qed

lemma leads_dispatch:
  assumes I: "interface_keeps I" and run: "\<And>k p. keeps (body_run k p)"
  shows "leads (Command # ss, y) (dispatch I body_run False pgid name args p) (ss, y) (ss, y)"
proof -
  let ?C = "(Command # ss, y)"
  have external: "leads ?C (run_external I name path pgid args p) (ss, y) (ss, y)" for path
    unfolding run_external_def by (intro leads_concluded keeping)
  have missing: "leads ?C (not_found name args) (ss, y) (ss, y)"
    unfolding not_found_def by (intro leads_concluded keeping)
  have "leads ?C (performs f) ?C (ss, y)" if "\<And>sh w. \<exists>v w'. f sh w = (Inr v, w')"
    for f :: "'a shell \<Rightarrow> 'b \<Rightarrow> (failure + bool) \<times> 'b"
  proof (rule leadsI)
    fix sh sh' w w' r
    assume "performs f (sh, w) = Some (r, sh', w')" "shape sh = ?C"
    with that [of sh w] show "shape sh' = (case r of Inr v \<Rightarrow> ?C | Inl e \<Rightarrow> (ss, y))"
      by (auto simp: performs_def)
  qed
  then have checked: "leads ?C (performs (\<lambda>sh w. case x_executable I name sh w of (b, w') \<Rightarrow> (Inr b, w'))) ?C (ss, y)"
    by (metis (no_types, lifting) case_prod_beta)
  have found: "leads ?C (\<lambda>t. case x_find_executable I name t of (path, t') \<Rightarrow> Some (Inr path, t')) ?C (ss, y)"
    by (rule leadsI) (use keepsD [OF keeps_find_executable [OF I]] in \<open>fastforce split: prod.splits\<close>)
  show ?thesis
    unfolding dispatch_def
  proof (rule leads_asks)
    fix sh :: "'a shell"
    show "leads ?C (case (command_target sh name, names_launcher (sh_execution sh) name) of (target, launcher) \<Rightarrow>
        (case target of
          BuiltinTarget b \<Rightarrow>
            if False
            then performs (\<lambda>sh w. case x_spawn I (SpawnBuiltin b name args) sh p w of
                   (h, w') \<Rightarrow> (Inr (StartedTask h), w'))
            else concluded args (andthen (execute_builtin I b name args p) (\<lambda>r. pure (SpawnCompleted r)))
        | FunctionTarget f \<Rightarrow>
            concluded args (andthen (invoke_shell_function I body_run name f (map arg_text (tl args)) p)
              (\<lambda>r. pure (SpawnCompleted r)))
        | ExternalPath \<Rightarrow>
            andthen (performs (\<lambda>sh w. case x_executable I name sh w of (b, w') \<Rightarrow> (Inr b, w')))
              (\<lambda>b. if \<not> b \<and> \<not> launcher then not_found name args
                   else run_external I name name pgid args p)
        | ExternalName \<Rightarrow>
            andthen (\<lambda>t. case x_find_executable I name t of (path, t') \<Rightarrow> Some (Inr path, t'))
              (\<lambda>path. case path of
                 Some path \<Rightarrow> run_external I name path pgid args p
               | None \<Rightarrow> not_found name args))) (ss, y) (ss, y)"
    proof (cases "command_target sh name")
      case (BuiltinTarget b)
      then show ?thesis by (auto intro!: leads_concluded keeping I)
    next
      case (FunctionTarget f)
      then show ?thesis by (auto intro!: leads_concluded keeping I run)
    next
      case ExternalPath
      then show ?thesis by (auto intro!: leads_andthen [OF checked] missing external)
    next
      case ExternalName
      then show ?thesis
        by (auto intro!: leads_andthen [OF found] missing external split: option.split)
    qed
  qed
qed

lemma leads_no_fail: "keeps m \<Longrightarrow> leads x (ignoring m) x z"
  by (intro leads_ignoring leads_keeps)

lemma leads_tracing: "interface_keeps I \<Longrightarrow> leads x (tracing_commands I s p) x z"
  unfolding tracing_commands_def by (rule leads_asks) (auto intro: leads_no_fail keeping)

lemma update_or_add_kinds [simp]:
  "map fst (e_scopes (fst (update_or_add k e name lit f policy creation))) = map fst (e_scopes e)"
  by (rule agree_but_kinds [OF agree_but_update_or_add])

lemma keeps_preexecute [keeping]:
  "(\<And>pl p. keeps (run pl p)) \<Longrightarrow> keeps (on_preexecute I run args p)"
  unfolding on_preexecute_def by (intro keeping update_or_add_kinds)

lemma keeps_execute_command [keeping]:
  assumes I: "interface_keeps I" and run: "\<And>pl p. keeps (run pl p)" and body: "\<And>k p. keeps (body_run k p)"
  shows "keeps (execute_command I run body_run False pgid name assignments args p)"
proof -
  have "leads (ss, y) (execute_command I run body_run False pgid name assignments args p) (ss, y) (ss, y)" for ss y
    unfolding execute_command_def
  proof (rule leads_andthen [OF leads_modifies leads_andthen [OF leads_caught leads_andthen [OF
          leads_tracing [OF I] leads_andthen [OF leads_no_fail leads_dispatch [OF I body]]]]])
    show "shape (pushed_scope Command sh) = (Command # ss, y)" if "shape sh = (ss, y)" for sh :: "'a shell"
      using that by (simp add: shape_pushed)
    show "leads (Command # ss, y) (apply_command_assignments I assignments p) (Command # ss, y) (Command # ss, y)"
      by (intro leads_keeps keeping I)
    show "leads (Command # ss, y) (andthen (modifies (\<lambda>sh. fst (popped_scope Command sh))) (\<lambda>u. raise e))
        (Command # ss, y) (ss, y)" for e
      by (rule leads_andthen [OF leads_modifies leads_raise]) (rule shape_popped)
  qed (intro keeping run)
  then show ?thesis by (auto simp: keeps_def)
qed

lemma keeps_collect_item [keeping]: "interface_keeps I \<Longrightarrow> keeps (collect_item I item c)"
  unfolding collect_item_def collect_word_def
  by (cases item) (auto intro!: keeping)

lemma keeps_collect [keeping]: "interface_keeps I \<Longrightarrow> keeps (collect_items I items c)"
  by (induction items arbitrary: c) (simp_all add: keeping)

lemma keeps_assign_only [keeping]: "interface_keeps I \<Longrightarrow> keeps (assign_only I n as p)"
  unfolding assign_only_def by (intro keeping) simp_all

lemma keeps_reported_by [keeping]: "keeps (reported_by I None f e)"
  unfolding reported_by_def option.case by (intro keeping)

lemma keeps_simple [keeping]:
  assumes I: "interface_keeps I" and run: "\<And>pl p. keeps (run pl p)" and body: "\<And>k p. keeps (body_run k p)"
  shows "keeps (simple_execute I run body_run None pgid c p)"
  unfolding simple_execute_def
  by (intro keeping I) (auto intro!: keeping I run body split: list.split command_arg.split)

subsection \<open>Fuel\<close>

lemma extends_function [extending]:
  assumes "\<And>k p. extends (body_run k p) (body_run' k p)"
  shows "extends (invoke_shell_function I body_run name reg args p) (invoke_shell_function I body_run' name reg args p)"
  unfolding invoke_shell_function_def by (cases "fr_body reg") (auto intro!: extending assms)

lemma extends_concluded [extending]: "extends m m' \<Longrightarrow> extends (concluded args m) (concluded args m')"
  unfolding concluded_def by (intro extending)

lemma extends_dispatch [extending]:
  assumes "\<And>k p. extends (body_run k p) (body_run' k p)"
  shows "extends (dispatch I body_run owned pgid name args p) (dispatch I body_run' owned pgid name args p)"
  unfolding dispatch_def
  by (intro extending) (auto intro!: extending assms split: target.split)

lemma extends_preexecute [extending]:
  "(\<And>pl p. extends (run pl p) (run' pl p)) \<Longrightarrow> extends (on_preexecute I run args p) (on_preexecute I run' args p)"
  unfolding on_preexecute_def by (intro extending)

lemma extends_simple [extending]:
  assumes run: "\<And>pl p. extends (run pl p) (run' pl p)" and body: "\<And>k p. extends (body_run k p) (body_run' k p)"
  shows "extends (simple_execute I run body_run asker pgid c p) (simple_execute I run' body_run' asker pgid c p)"
proof -
  have "extends (execute_command I run body_run owned pgid name as args q)
      (execute_command I run' body_run' owned pgid name as args q)" for owned name as args q
    unfolding execute_command_def by (intro extending run body)
  then show ?thesis
    unfolding simple_execute_def
    by (intro extending) (auto intro!: extending split: list.split command_arg.split)
qed

end
