(* ===== verification/Interp.thy ===== *)
theory Interp
  imports Simple_Command
begin

text \<open>
  Compound commands, pipelines and the interpreter as a whole (\<^verbatim>\<open>brush-core/src/interp.rs\<close>). Every
  \<^verbatim>\<open>Execute\<close> of the code is a definition over the one that runs pipelines; \<open>exec_pipeline\<close> ties the
  knot with a fuel that bounds the nesting of commands, the depth of calls and the turns of a loop.
  More fuel never changes what a run has returned.
\<close>

section \<open>Loops and branches\<close>

text \<open>What the body of a loop asks for: whether the loop ends, and the result it then has.\<close>

definition after_body :: "exec_result \<Rightarrow> bool \<times> exec_result" where
  "after_body r =
     (if is_return_or_exit r then (True, r)
      else (is_break r \<or> is_continue (decremented r), decremented r))"

definition assign_loop_variable :: "('s, 'w) interface \<Rightarrow> string \<Rightarrow> string \<Rightarrow> ('s, 'w, unit) sh" where
  "assign_loop_variable I name v =
     env_update (\<lambda>e. update_or_add (x_casing I) e name (Scalar v) (\<lambda>v. (v, Inr ())) Anywhere Global)"

fun for_each ::
  "('s, 'w) interface \<Rightarrow> ('s, 'w) runner \<Rightarrow> string \<Rightarrow> string \<Rightarrow> shell_list \<Rightarrow> exec_params \<Rightarrow>
   exec_result \<Rightarrow> string list \<Rightarrow> ('s, 'w, exec_result) sh" where
  "for_each I run header name body p r [] = pure r"
| "for_each I run header name body p r (v # vs) =
     andthen (tracing_commands I header p)
       (\<lambda>u. andthen (assign_loop_variable I name v)
          (\<lambda>u. andthen (list_execute I run body p)
             (\<lambda>r. case after_body r of
                (stop, r) \<Rightarrow> if stop then pure r else for_each I run header name body p r vs)))"

definition for_execute ::
  "('s, 'w) interface \<Rightarrow> ('s, 'w) runner \<Rightarrow> string \<Rightarrow> word_text list option \<Rightarrow> shell_list \<Rightarrow>
   exec_params \<Rightarrow> ('s, 'w, exec_result) sh" where
  "for_execute I run name ws body p =
     andthen
       (case ws of
          Some ws \<Rightarrow> collected_each (\<lambda>w. x_fields I w p) ws
        | None \<Rightarrow> asks_shell current_shell_args)
       (\<lambda>vs. andthen
          (for_each I run
             (''for '' @ name @ (case ws of Some ws \<Rightarrow> '' in '' @ join_with '' '' ws | None \<Rightarrow> []))
             name body p result_success vs)
          noting_status)"

fun any_pattern ::
  "('s, 'w) interface \<Rightarrow> word_text list \<Rightarrow> string \<Rightarrow> exec_params \<Rightarrow> ('s, 'w, bool) sh" where
  "any_pattern I [] v p = pure False"
| "any_pattern I (pat # pats) v p =
     andthen (x_pattern_matches I pat v p) (\<lambda>b. if b then pure True else any_pattern I pats v p)"

fun cases_execute ::
  "('s, 'w) interface \<Rightarrow> ('s, 'w) runner \<Rightarrow> string \<Rightarrow> exec_params \<Rightarrow> bool \<Rightarrow> exec_result \<Rightarrow>
   command case_item list \<Rightarrow> ('s, 'w, exec_result) sh" where
  "cases_execute I run v p forced r [] = pure r"
| "cases_execute I run v p forced r (CaseItem pats body post # rest) =
     andthen (if forced then pure True else any_pattern I pats v p)
       (\<lambda>b. if \<not> b then cases_execute I run v p False r rest
            else andthen (case body of None \<Rightarrow> pure result_success | Some l \<Rightarrow> list_execute I run l p)
              (\<lambda>r. if \<not> is_normal_flow r then pure r
                   else (case post of
                           ExitCase \<Rightarrow> pure r
                         | UnconditionallyExecuteNextCaseItem \<Rightarrow> cases_execute I run v p True r rest
                         | ContinueEvaluatingCases \<Rightarrow> cases_execute I run v p False r rest)))"

definition case_execute ::
  "('s, 'w) interface \<Rightarrow> ('s, 'w) runner \<Rightarrow> word_text \<Rightarrow> command case_item list \<Rightarrow> exec_params \<Rightarrow>
   ('s, 'w, exec_result) sh" where
  "case_execute I run word cases p =
     andthen (tracing_commands I (''case '' @ word @ '' in'') p)
       (\<lambda>u. andthen (x_word I word p)
          (\<lambda>v. andthen (cases_execute I run v p False result_success cases) noting_status))"

fun elses_execute ::
  "('s, 'w) interface \<Rightarrow> ('s, 'w) runner \<Rightarrow> exec_params \<Rightarrow> command else_clause list \<Rightarrow>
   ('s, 'w, exec_result) sh" where
  "elses_execute I run p [] = noting_status result_success"
| "elses_execute I run p (ElseClause condition body # rest) =
     (case condition of
        None \<Rightarrow> list_execute I run body p
      | Some c \<Rightarrow>
          andthen (list_execute I run c (suppressing p))
            (\<lambda>r. if \<not> is_normal_flow r then pure r
                 else if succeeded r then list_execute I run body p
                 else elses_execute I run p rest))"

definition if_execute ::
  "('s, 'w) interface \<Rightarrow> ('s, 'w) runner \<Rightarrow> shell_list \<Rightarrow> shell_list \<Rightarrow> command else_clause list \<Rightarrow>
   exec_params \<Rightarrow> ('s, 'w, exec_result) sh" where
  "if_execute I run condition body elses p =
     andthen (list_execute I run condition (suppressing p))
       (\<lambda>r. if \<not> is_normal_flow r then pure r
            else if succeeded r then list_execute I run body p
            else elses_execute I run p elses)"

fun while_loop ::
  "('s, 'w) interface \<Rightarrow> ('s, 'w) runner \<Rightarrow> bool \<Rightarrow> shell_list \<Rightarrow> shell_list \<Rightarrow> exec_params \<Rightarrow> nat \<Rightarrow>
   exec_result \<Rightarrow> ('s, 'w, exec_result) sh" where
  "while_loop I run is_while condition body p 0 r = (\<lambda>t. None)"
| "while_loop I run is_while condition body p (Suc n) r =
     andthen (andthen (list_execute I run condition (suppressing p)) noting_status)
       (\<lambda>c. if \<not> is_normal_flow c then pure (decremented c)
            else if succeeded c \<noteq> is_while then pure r
            else andthen (list_execute I run body p)
              (\<lambda>r. case after_body r of
                 (stop, r) \<Rightarrow> if stop then pure r
                   else while_loop I run is_while condition body p n r))"

definition while_execute ::
  "('s, 'w) interface \<Rightarrow> nat \<Rightarrow> ('s, 'w) runner \<Rightarrow> bool \<Rightarrow> shell_list \<Rightarrow> shell_list \<Rightarrow> exec_params \<Rightarrow>
   ('s, 'w, exec_result) sh" where
  "while_execute I n run is_while condition body p =
     andthen (while_loop I run is_while condition body p n result_success) noting_status"

definition arith_execute ::
  "('s, 'w) interface \<Rightarrow> string \<Rightarrow> exec_params \<Rightarrow> ('s, 'w, exec_result) sh" where
  "arith_execute I e p =
     andthen (x_arith I e True p)
       (\<lambda>n. noting_status (if n \<noteq> 0 then result_success else result_general_error))"

definition arith_part ::
  "('s, 'w) interface \<Rightarrow> string option \<Rightarrow> exec_params \<Rightarrow> ('s, 'w, unit) sh" where
  "arith_part I e p =
     (case e of None \<Rightarrow> pure () | Some e \<Rightarrow> andthen (x_arith I e True p) (\<lambda>n. pure ()))"

fun arith_for_loop ::
  "('s, 'w) interface \<Rightarrow> ('s, 'w) runner \<Rightarrow> string option \<Rightarrow> string option \<Rightarrow> shell_list \<Rightarrow>
   exec_params \<Rightarrow> nat \<Rightarrow> exec_result \<Rightarrow> ('s, 'w, exec_result) sh" where
  "arith_for_loop I run condition updater body p 0 r = (\<lambda>t. None)"
| "arith_for_loop I run condition updater body p (Suc n) r =
     andthen
       (case condition of
          None \<Rightarrow> pure True
        | Some c \<Rightarrow> if c = [] then pure True else andthen (x_arith I c True p) (\<lambda>n. pure (n \<noteq> 0)))
       (\<lambda>goes_on. if \<not> goes_on then pure r
          else andthen (list_execute I run body p)
            (\<lambda>r. case after_body r of
               (stop, r) \<Rightarrow> if stop then pure r
                 else andthen (arith_part I updater p)
                   (\<lambda>u. arith_for_loop I run condition updater body p n r)))"

definition arith_for_execute ::
  "('s, 'w) interface \<Rightarrow> nat \<Rightarrow> ('s, 'w) runner \<Rightarrow> string option \<Rightarrow> string option \<Rightarrow>
   string option \<Rightarrow> shell_list \<Rightarrow> exec_params \<Rightarrow> ('s, 'w, exec_result) sh" where
  "arith_for_execute I n run initializer condition updater body p =
     andthen (arith_part I initializer p)
       (\<lambda>u. andthen (arith_for_loop I run condition updater body p n result_success) noting_status)"

section \<open>Subshells and coprocesses\<close>

text \<open>Whatever the subshell asks of the flow is dropped, only its exit code is kept.\<close>

definition subshell_execute ::
  "('s, 'w) interface \<Rightarrow> ('s, 'w) runner \<Rightarrow> shell_list \<Rightarrow> exec_params \<Rightarrow> ('s, 'w, exec_result) sh" where
  "subshell_execute I run l p =
     andthen (in_clone id (list_execute I run l p))
       (\<lambda>(r, sub). case r of
          Inr r \<Rightarrow> pure (result_of_code (er_code r))
        | Inl e \<Rightarrow>
            andthen (asks_shell (\<lambda>sh. params_try_fd sh p 2))
              (\<lambda>f. andthen (ignoring (performs (x_display I e f)))
                 (\<lambda>u. pure (result_of_code
                    (er_code (into_result (op_interactive (sh_options sub)) e))))))"

definition adds_file :: "nat \<Rightarrow> ('s, 'w, int) sh" where
  "adds_file f = updates (\<lambda>sh. case files_add (sh_files sh) f of (fs, r) \<Rightarrow> (sh\<lparr>sh_files := fs\<rparr>, r))"

definition coproc_execute ::
  "('s, 'w) interface \<Rightarrow> word_text option \<Rightarrow> command \<Rightarrow> exec_params \<Rightarrow> ('s, 'w, exec_result) sh" where
  "coproc_execute I given body p =
     (let name = (case given of None \<Rightarrow> ''COPROC'' | Some n \<Rightarrow> n) in
      andthen (asks_shell (\<lambda>sh. op_noexec (sh_options sh)))
        (\<lambda>noexec. if noexec then pure result_success
         else if \<not> valid_variable_name name
         then andthen (performs (\<lambda>sh. x_write_stderr I
                  (''coproc '' @ name @ '': not a valid identifier'' @ [CHR 0x0A]) sh p))
                (\<lambda>u. pure (result_of_code GeneralErrorCode))
         else andthen (performs (\<lambda>sh. x_pipe I))
           (\<lambda>(in_reader, in_writer). andthen (performs (\<lambda>sh. x_pipe I))
              (\<lambda>(out_reader, out_writer). andthen (adds_file out_reader)
                 (\<lambda>out_fd. andthen (adds_file in_writer)
                    (\<lambda>in_fd. andthen
                       (performs (\<lambda>sh w. case x_spawn I (SpawnCommand body)
                            ((clone sh)\<lparr>sh_options := (sh_options sh)\<lparr>op_interactive := False\<rparr>\<rparr>)
                            (params_set_fd 1 out_writer (params_set_fd 0 in_reader p)) w of
                          (h, w') \<Rightarrow> (Inr h, w')))
                       (\<lambda>h. andthen
                          (modifies (\<lambda>sh. sh\<lparr>sh_jobs := add_as_current (sh_jobs sh)
                             (job_new [InternalTask h] (''coproc '' @ name) RunningState)\<rparr>))
                          (\<lambda>u. andthen (asks_shell (\<lambda>sh. jb_id (last (sh_jobs sh))))
                             (\<lambda>job_id. andthen
                                (env_update (\<lambda>e. set_global e name (variable_new
                                   (indexed_array_from_literals
                                      [(None, show_int out_fd), (None, show_int in_fd)]))))
                                (\<lambda>u. andthen
                                   (env_update (\<lambda>e. set_global e (name @ ''_PID'')
                                      (variable_new (Scalar_Value (decimal job_id)))))
                                   (\<lambda>u. pure result_success)))))))))))"

section \<open>Function definitions\<close>

definition define_function ::
  "('s, 'w) interface \<Rightarrow> word_text \<Rightarrow> shell_function_body \<Rightarrow> 's shell \<Rightarrow>
   's shell \<times> (failure + exec_result)" where
  "define_function I name body sh =
     (if op_posix (sh_options sh) \<and>
         (case sh_builtins sh name of Some b \<Rightarrow> r_special b | None \<Rightarrow> False)
      then (sh, Inl (into_fatal (failure_of (FunctionNameShadowsSpecialBuiltin name))))
      else
        (let source = (case current_frame (sh_stack sh) of
               Some f \<Rightarrow> adjusted_source_info f
             | None \<Rightarrow> source_named []);
             reg = \<lparr> fr_name = name, fr_body = body, fr_span_start = x_location I (FunctionCmd name body),
                     fr_source = source, fr_exported = False \<rparr>
         in (set_last_exit_status 0 (sh\<lparr>sh_funcs := (sh_funcs sh)(name \<mapsto> reg)\<rparr>),
             Inr result_success)))"

section \<open>Commands\<close>

primrec compound_execute ::
  "('s, 'w) interface \<Rightarrow> nat \<Rightarrow> ('s, 'w) runner \<Rightarrow> compound_command \<Rightarrow> exec_params \<Rightarrow>
   ('s, 'w, exec_result) sh" where
  "compound_execute I n run (BraceGroup l) p = list_execute I run l p"
| "compound_execute I n run (Subshell l) p = subshell_execute I run l p"
| "compound_execute I n run (ForClause name ws body) p = for_execute I run name ws body p"
| "compound_execute I n run (CaseClause word cases) p = case_execute I run word cases p"
| "compound_execute I n run (IfClause condition body elses) p =
     if_execute I run condition body elses p"
| "compound_execute I n run (WhileClause condition body) p =
     while_execute I n run True condition body p"
| "compound_execute I n run (UntilClause condition body) p =
     while_execute I n run False condition body p"
| "compound_execute I n run (ArithmeticCommand e) p = arith_execute I e p"
| "compound_execute I n run (ArithmeticForClause i c u body) p =
     arith_for_execute I n run i c u body p"
| "compound_execute I n run (Coprocess name body) p = coproc_execute I name body p"

definition command_in_pipeline ::
  "('s, 'w) interface \<Rightarrow> nat \<Rightarrow> ('s, 'w) runner \<Rightarrow> 's shell option \<Rightarrow> int option \<Rightarrow> command \<Rightarrow>
   exec_params \<Rightarrow> ('s, 'w, spawn_result) sh" where
  "command_in_pipeline I n run asker pgid c p =
     andthen (asks_shell (\<lambda>sh. op_noexec (sh_options sh)))
       (\<lambda>noexec. if noexec then pure (SpawnCompleted result_success)
        else andthen (modifies (\<lambda>sh. sh\<lparr>sh_stack := set_current_pos (sh_stack sh) (x_location I c)\<rparr>))
          (\<lambda>u. case c of
             SimpleCmd s \<Rightarrow> simple_execute I run (compound_execute I n run) asker pgid s p
           | CompoundCmd k rs \<Rightarrow>
               andthen (setup_redirects I rs p)
                 (\<lambda>p. andthen (compound_execute I n run k p) (\<lambda>r. pure (SpawnCompleted r)))
           | FunctionCmd name body \<Rightarrow>
               andthen (updates (define_function I name body)) (\<lambda>r. pure (SpawnCompleted r))
           | ExtendedTestCmd e rs \<Rightarrow>
               andthen (setup_redirects I rs p)
                 (\<lambda>p. andthen (x_test I e p)
                    (\<lambda>b. pure (SpawnCompleted (result_new (if b then 0 else 1)))))))"

section \<open>Pipelines\<close>

text \<open>Readers and writers are popped from the back, so the last pipe made joins the first two
  commands.\<close>

fun make_pipes :: "('s, 'w) interface \<Rightarrow> nat \<Rightarrow> ('s, 'w, (nat \<times> nat) list) sh" where
  "make_pipes I 0 = pure []"
| "make_pipes I (Suc n) =
     andthen (performs (\<lambda>sh. x_pipe I))
       (\<lambda>pipe. andthen (make_pipes I n) (\<lambda>pipes. pure (pipe # pipes)))"

definition with_file :: "int \<Rightarrow> nat option \<Rightarrow> exec_params \<Rightarrow> exec_params" where
  "with_file fd f p = (case f of None \<Rightarrow> p | Some f \<Rightarrow> params_set_fd fd f p)"

fun popped :: "'a list \<Rightarrow> 'a option" where
  "popped [] = None"
| "popped (x # xs) = Some x"

definition in_current_shell :: "nat \<Rightarrow> nat \<Rightarrow> runtime_options \<Rightarrow> bool" where
  "in_current_shell len i opts \<longleftrightarrow>
     len = 1 \<or> (i = len - 1 \<and> op_lastpipe opts \<and> \<not> op_job_control opts)"

definition group_after :: "int option \<Rightarrow> spawn_result \<Rightarrow> int option" where
  "group_after pgid s =
     (case s of
        StartedProcess c \<Rightarrow> (case pgid of None \<Rightarrow> cp_pgid c | Some g \<Rightarrow> Some g)
      | _ \<Rightarrow> pgid)"

text \<open>A stage in a shell of its own: the clone is dropped, its result is not.\<close>

definition stage_execute ::
  "('s, 'w) interface \<Rightarrow> nat \<Rightarrow> ('s, 'w) runner \<Rightarrow> bool \<Rightarrow> nat \<Rightarrow> int option \<Rightarrow> command \<Rightarrow>
   exec_params \<Rightarrow> ('s, 'w, spawn_result) sh" where
  "stage_execute I n run in_current i pgid c p =
     (if in_current then command_in_pipeline I n run None pgid c p
      else andthen (asks_shell id)
        (\<lambda>sh. andthen
           (in_clone id (command_in_pipeline I n run (Some sh) pgid c
              (if 0 < i then p\<lparr>pa_policy := SameProcessGroup\<rparr> else p)))
           (\<lambda>(r, sub). of_result r)))"

fun spawn_stages ::
  "('s, 'w) interface \<Rightarrow> nat \<Rightarrow> ('s, 'w) runner \<Rightarrow> exec_params \<Rightarrow> nat \<Rightarrow> nat \<Rightarrow>
   nat option list \<Rightarrow> nat list \<Rightarrow> int option \<Rightarrow> command list \<Rightarrow> ('s, 'w, spawn_result list) sh" where
  "spawn_stages I n run p len i readers writers pgid [] = pure []"
| "spawn_stages I n run p len i readers writers pgid (c # cs) =
     andthen (asks_shell (\<lambda>sh. in_current_shell len i (sh_options sh)))
       (\<lambda>in_current. andthen
          (stage_execute I n run in_current i pgid c
             (with_file 1 (popped writers) (with_file 0 (Option.bind (popped readers) id) p)))
          (\<lambda>s. andthen
             (spawn_stages I n run p len (i + 1) (tl readers) (tl writers) (group_after pgid s) cs)
             (\<lambda>ss. pure (s # ss))))"

definition spawn_pipeline ::
  "('s, 'w) interface \<Rightarrow> nat \<Rightarrow> ('s, 'w) runner \<Rightarrow> command list \<Rightarrow> exec_params \<Rightarrow>
   ('s, 'w, spawn_result list) sh" where
  "spawn_pipeline I n run cs p =
     andthen (make_pipes I (length cs - 1))
       (\<lambda>pipes. spawn_stages I n run p (length cs) 0
          (if 1 < length cs then None # rev (map (Some \<circ> fst) pipes) else [])
          (rev (map snd pipes)) None cs)"

definition stage_wait ::
  "'w runtime \<Rightarrow> bool \<Rightarrow> spawn_result \<Rightarrow> 'w \<Rightarrow> (failure + wait_result) \<times> 'w" where
  "stage_wait R polling s w =
     (case s of
        SpawnCompleted r \<Rightarrow> (Inr (WaitCompleted r), w)
      | StartedProcess c \<Rightarrow>
          (if polling then (Inr (WaitStopped c), w)
           else (case rt_wait_child R c w of
                   (Inl e, w) \<Rightarrow> (Inl e, w)
                 | (Inr (ProcessCompleted out), w) \<Rightarrow> (Inr (WaitCompleted (result_of_output out)), w)
                 | (Inr ProcessStopped, w) \<Rightarrow> (Inr (WaitStopped c), w)))
      | StartedTask h \<Rightarrow>
          (case rt_join R h w of (Inl e, w) \<Rightarrow> (Inl e, w) | (Inr r, w) \<Rightarrow> (Inr (WaitCompleted r), w)))"

definition pushed_status :: "exec_result \<Rightarrow> 's shell \<Rightarrow> 's shell" where
  "pushed_status r sh =
     (let n = u8_of_code (er_code r) in
      (set_last_exit_status n sh)\<lparr>sh_pipeline_statuses := sh_pipeline_statuses sh @ [n]\<rparr>)"

fun wait_stages ::
  "'w runtime \<Rightarrow> job_task list \<Rightarrow> exec_result \<Rightarrow> exit_code option \<Rightarrow> spawn_result list \<Rightarrow>
   ('s, 'w, exec_result \<times> exit_code option \<times> job_task list) sh" where
  "wait_stages R stopped r failed [] = pure (r, failed, stopped)"
| "wait_stages R stopped r failed (s # ss) =
     andthen (performs (\<lambda>sh. stage_wait R (stopped \<noteq> []) s))
       (\<lambda>w. case w of
          WaitCompleted r \<Rightarrow>
            andthen (modifies (pushed_status r))
              (\<lambda>u. wait_stages R stopped r (if succeeded r then failed else Some (er_code r)) ss)
        | WaitStopped c \<Rightarrow>
            andthen (modifies (pushed_status result_stopped))
              (\<lambda>u. wait_stages R (stopped @ [ExternalTask c]) result_stopped failed ss))"

definition wait_pipeline ::
  "('s, 'w) interface \<Rightarrow> shell_pipeline \<Rightarrow> spawn_result list \<Rightarrow> exec_params \<Rightarrow>
   ('s, 'w, exec_result) sh" where
  "wait_pipeline I pl ss p =
     andthen (modifies (\<lambda>sh. sh\<lparr>sh_pipeline_statuses := []\<rparr>))
       (\<lambda>u. andthen (wait_stages (x_runtime I) [] result_success None ss)
          (\<lambda>(r, failed, stopped). andthen (asks_shell sh_options)
             (\<lambda>opts. let r = (case failed of
                                Some c \<Rightarrow> if op_pipefail opts then r\<lparr>er_code := c\<rparr> else r
                              | None \<Rightarrow> r) in
                andthen (if op_interactive opts then performs (\<lambda>sh. x_foreground I) else pure ())
                  (\<lambda>u. andthen
                     (if stopped = [] then pure ()
                      else andthen (modifies (\<lambda>sh. sh\<lparr>sh_jobs := add_as_current (sh_jobs sh)
                               (job_new stopped (x_pipeline_text I pl) StoppedState)\<rparr>))
                             (\<lambda>u. performs (\<lambda>sh. x_write_stderr I
                                ([CHR 0x0D] @ job_text (last (sh_jobs sh)) @ [CHR 0x0A]) sh p)))
                     (\<lambda>u. pure r)))))"

text \<open>The \<^verbatim>\<open>ERR\<close> trap of a failure that counts; what the handler asks for is not looked at.\<close>

definition err_trap ::
  "('s, 'w) interface \<Rightarrow> ('s, 'w) runner \<Rightarrow> exec_result \<Rightarrow> exec_params \<Rightarrow> ('s, 'w, unit) sh" where
  "err_trap I run r p =
     andthen (asks_shell (\<lambda>sh. sh_traps sh ErrTrap \<noteq> None))
       (\<lambda>h. if \<not> succeeded r \<and> \<not> pa_suppress p \<and> h
            then andthen (invoke_trap_handler I run ErrTrap p) (\<lambda>r. pure ()) else pure ())"

definition report_timing ::
  "('s, 'w) interface \<Rightarrow> (pipeline_timed \<times> nat) option \<Rightarrow> exec_params \<Rightarrow> ('s, 'w, unit) sh" where
  "report_timing I watch p =
     (case watch of
        None \<Rightarrow> pure ()
      | Some (timed, since) \<Rightarrow>
          andthen (asks_shell (\<lambda>sh. params_try_fd sh p 2))
            (\<lambda>f. case f of
               None \<Rightarrow> pure ()
             | Some f \<Rightarrow> performs (\<lambda>sh. x_report_timing I timed since f)))"

definition negated :: "exec_result \<Rightarrow> exec_result" where
  "negated r = r\<lparr>er_code := code_of_u8 (if succeeded r then 1 else 0)\<rparr>"

definition pipeline_execute ::
  "('s, 'w) interface \<Rightarrow> nat \<Rightarrow> ('s, 'w) runner \<Rightarrow> shell_pipeline \<Rightarrow> exec_params \<Rightarrow>
   ('s, 'w, exec_result) sh" where
  "pipeline_execute I n run pl p =
     (case pl of Pipeline timed bang cs \<Rightarrow>
        andthen
          (case timed of
             None \<Rightarrow> pure None
           | Some t \<Rightarrow> andthen (performs (\<lambda>sh. x_start_timing I)) (\<lambda>s. pure (Some (t, s))))
          (\<lambda>watch. let p = (if bang then suppressing p else p) in
             andthen (spawn_pipeline I n run cs p)
               (\<lambda>ss. andthen (wait_pipeline I pl ss p)
                  (\<lambda>r. andthen (noting_status (if bang then negated r else r))
                     (\<lambda>r. andthen (err_trap I run r p)
                        (\<lambda>u. andthen
                           (if pa_suppress p then pure r else asks_shell (\<lambda>sh. apply_errexit sh r))
                           (\<lambda>r. andthen (report_timing I watch p) (\<lambda>u. pure r))))))))"

primrec exec_pipeline :: "('s, 'w) interface \<Rightarrow> nat \<Rightarrow> ('s, 'w) runner" where
  "exec_pipeline I 0 = (\<lambda>pl p t. None)"
| "exec_pipeline I (Suc n) = pipeline_execute I n (exec_pipeline I n)"

definition exec_program ::
  "('s, 'w) interface \<Rightarrow> nat \<Rightarrow> program \<Rightarrow> exec_params \<Rightarrow> ('s, 'w, exec_result) sh" where
  "exec_program I n prog p = program_execute I (exec_pipeline I n) prog p"

section \<open>Lemmas\<close>

subsection \<open>Brackets\<close>

lemma keeps_loop_variable [keeping]: "keeps (assign_loop_variable I name v)"
  unfolding assign_loop_variable_def by (intro keeping update_or_add_kinds)

lemma keeps_for [keeping]:
  assumes I: "interface_keeps I" and run: "\<And>pl p. keeps (run pl p)"
  shows "keeps (for_execute I run name ws body p)"
proof -
  have "keeps (for_each I run header name body p r vs)" for header r vs
    by (induction vs arbitrary: r) (simp_all add: keeping I run)
  then show ?thesis
    unfolding for_execute_def by (intro keeping I) (auto intro!: keeping I)
qed

lemma keeps_case [keeping]:
  assumes I: "interface_keeps I" and run: "\<And>pl p. keeps (run pl p)"
  shows "keeps (case_execute I run word cases p)"
proof -
  have pats: "keeps (any_pattern I pats v p)" for pats v
    by (induction pats) (simp_all add: keeping I)
  have "keeps (cases_execute I run v p forced r cases)" for v forced r
  proof (induction cases arbitrary: forced r)
    case (Cons c cases)
    obtain pats body post where c: "c = CaseItem pats body post" by (cases c)
    show ?case
      unfolding c cases_execute.simps
      by (intro keeping pats Cons.IH run) (cases post; simp add: Cons.IH keeping)
  qed (simp add: keeping)
  then show ?thesis unfolding case_execute_def by (intro keeping I)
qed

lemma keeps_elses [keeping]:
  assumes run: "\<And>pl p. keeps (run pl p)"
  shows "keeps (elses_execute I run p elses)"
proof (induction elses)
  case (Cons c elses)
  obtain condition body where c: "c = ElseClause condition body" by (cases c)
  show ?case unfolding c elses_execute.simps by (intro keeping run Cons.IH)
qed (simp add: keeping)

lemma keeps_if [keeping]: "(\<And>pl p. keeps (run pl p)) \<Longrightarrow> keeps (if_execute I run condition body elses p)"
  unfolding if_execute_def by (intro keeping)

lemma keeps_nothing [keeping]: "keeps (\<lambda>t. None)"
  by (rule keepsI) simp

lemma keeps_while [keeping]:
  assumes run: "\<And>pl p. keeps (run pl p)"
  shows "keeps (while_execute I n run is_while condition body p)"
proof -
  have "keeps (while_loop I run is_while condition body p n r)" for r
    by (induction n arbitrary: r) (simp_all add: keeping run)
  then show ?thesis unfolding while_execute_def by (intro keeping)
qed

lemma keeps_arith [keeping]: "interface_keeps I \<Longrightarrow> keeps (arith_execute I e p)"
  unfolding arith_execute_def by (intro keeping)

lemma keeps_arith_part [keeping]: "interface_keeps I \<Longrightarrow> keeps (arith_part I e p)"
  unfolding arith_part_def by (intro keeping)

lemma keeps_arith_for [keeping]:
  assumes I: "interface_keeps I" and run: "\<And>pl p. keeps (run pl p)"
  shows "keeps (arith_for_execute I n run initializer condition updater body p)"
proof -
  have "keeps (arith_for_loop I run condition updater body p n r)" for r
  proof (induction n arbitrary: r)
    case (Suc n)
    then show ?case unfolding arith_for_loop.simps by (intro keeping I run)
  qed (simp add: keeping)
  then show ?thesis unfolding arith_for_execute_def by (intro keeping I)
qed

lemma keeps_subshell [keeping]: "keeps (subshell_execute I run l p)"
  unfolding subshell_execute_def by (intro keeping)

lemma keeps_adds_file [keeping]: "keeps (adds_file f)"
  unfolding adds_file_def by (rule keeps_updates) (simp split: prod.split)

lemma keeps_coproc [keeping]: "keeps (coproc_execute I name body p)"
  unfolding coproc_execute_def Let_def by (intro keeping shape_simps set_global_kinds)

lemma shape_define [simp]: "shape (fst (define_function I name body sh)) = shape sh"
  by (simp add: define_function_def Let_def)

lemma keeps_compound [keeping]:
  assumes "interface_keeps I" and "\<And>pl p. keeps (run pl p)"
  shows "keeps (compound_execute I n run k p)"
  using assms by (cases k) (auto intro!: keeping)

lemma keeps_command [keeping]:
  assumes I: "interface_keeps I" and run: "\<And>pl p. keeps (run pl p)"
  shows "keeps (command_in_pipeline I n run None pgid c p)"
  unfolding command_in_pipeline_def
  by (intro keeping shape_position) (cases c; auto intro!: keeping I run)

lemma keeps_stages [keeping]:
  assumes I: "interface_keeps I" and run: "\<And>pl p. keeps (run pl p)"
  shows "keeps (spawn_stages I n run p len i readers writers pgid cs)"
proof (induction cs arbitrary: i readers writers pgid)
  case (Cons c cs)
  have "keeps (stage_execute I n run b j g c q)" for b j g q
    unfolding stage_execute_def by (intro keeping I run)
  with Cons.IH show ?case unfolding spawn_stages.simps by (intro keeping)
qed (simp add: keeping)

lemma keeps_pipes [keeping]: "keeps (make_pipes I n)"
  by (induction n) (simp_all add: keeping)

lemma shape_pushed_status [simp]: "shape (pushed_status r sh) = shape sh"
  by (simp add: pushed_status_def Let_def)

lemma keeps_wait_stages [keeping]: "keeps (wait_stages R stopped r failed ss)"
proof (induction ss arbitrary: stopped r failed)
  case (Cons s ss)
  show ?case
    unfolding wait_stages.simps
    by (intro keeping) (auto intro!: keeping Cons.IH split: wait_result.split)
qed (simp add: keeping)

lemma keeps_wait_pipeline [keeping]: "keeps (wait_pipeline I pl ss p)"
  unfolding wait_pipeline_def by (intro keeping shape_simps)

lemma keeps_err_trap [keeping]: "(\<And>pl p. keeps (run pl p)) \<Longrightarrow> keeps (err_trap I run r p)"
  unfolding err_trap_def by (intro keeping)

lemma keeps_timing [keeping]: "keeps (report_timing I watch p)"
  unfolding report_timing_def by (intro keeping)

lemma keeps_exec_pipeline: "interface_keeps I \<Longrightarrow> keeps (exec_pipeline I n pl p)"
proof (induction n arbitrary: pl p)
  case (Suc n)
  then have run: "keeps (exec_pipeline I n pl p)" for pl p by blast
  show ?case
    unfolding exec_pipeline.simps pipeline_execute_def spawn_pipeline_def
    by (cases pl) (auto intro!: keeping run Suc.prems)
qed (simp add: keeping)

subsection \<open>Fuel\<close>

lemma extends_for [extending]:
  assumes run: "\<And>pl p. extends (run pl p) (run' pl p)"
  shows "extends (for_execute I run name ws body p) (for_execute I run' name ws body p)"
proof -
  have "extends (for_each I run header name body p r vs) (for_each I run' header name body p r vs)" for header r vs
    by (induction vs arbitrary: r) (simp_all add: extending run)
  then show ?thesis unfolding for_execute_def by (intro extending)
qed

lemma extends_case [extending]:
  assumes run: "\<And>pl p. extends (run pl p) (run' pl p)"
  shows "extends (case_execute I run word cases p) (case_execute I run' word cases p)"
proof -
  have "extends (cases_execute I run v p forced r cases) (cases_execute I run' v p forced r cases)" for v forced r
  proof (induction cases arbitrary: forced r)
    case (Cons c cases)
    obtain pats body post where c: "c = CaseItem pats body post" by (cases c)
    show ?case
      unfolding c cases_execute.simps
      by (intro extending run Cons.IH) (cases post; simp add: Cons.IH)
  qed simp
  then show ?thesis unfolding case_execute_def by (intro extending)
qed

lemma extends_if [extending]:
  assumes run: "\<And>pl p. extends (run pl p) (run' pl p)"
  shows "extends (if_execute I run condition body elses p) (if_execute I run' condition body elses p)"
proof -
  have "extends (elses_execute I run p elses) (elses_execute I run' p elses)"
  proof (induction elses)
    case (Cons c elses)
    obtain condition body where c: "c = ElseClause condition body" by (cases c)
    show ?case unfolding c elses_execute.simps by (intro extending run Cons.IH)
  qed simp
  then show ?thesis unfolding if_execute_def by (intro extending run)
qed

lemma extends_while [extending]:
  assumes run: "\<And>pl p. extends (run pl p) (run' pl p)" and "n \<le> m"
  shows "extends (while_execute I n run is_while condition body p) (while_execute I m run' is_while condition body p)"
proof -
  have "extends (while_loop I run is_while condition body p n r) (while_loop I run' is_while condition body p m r)"
    if "n \<le> m" for n m r
    using that
  proof (induction n arbitrary: m r)
    case (Suc n)
    then obtain m' where m: "m = Suc m'" "n \<le> m'" by (cases m) auto
    show ?case unfolding m(1) while_loop.simps by (intro extending run Suc.IH m(2))
  qed (simp add: extending)
  with assms(2) show ?thesis unfolding while_execute_def by (intro extending)
qed

lemma extends_arith_for [extending]:
  assumes run: "\<And>pl p. extends (run pl p) (run' pl p)" and "n \<le> m"
  shows "extends (arith_for_execute I n run i c u body p) (arith_for_execute I m run' i c u body p)"
proof -
  have "extends (arith_for_loop I run c u body p n r) (arith_for_loop I run' c u body p m r)"
    if "n \<le> m" for n m r
    using that
  proof (induction n arbitrary: m r)
    case (Suc n)
    then obtain m' where m: "m = Suc m'" "n \<le> m'" by (cases m) auto
    show ?case unfolding m(1) arith_for_loop.simps by (intro extending run Suc.IH m(2))
  qed (simp add: extending)
  with assms(2) show ?thesis unfolding arith_for_execute_def by (intro extending)
qed

lemma extends_subshell [extending]:
  "(\<And>pl p. extends (run pl p) (run' pl p)) \<Longrightarrow> extends (subshell_execute I run l p) (subshell_execute I run' l p)"
  unfolding subshell_execute_def by (intro extending)

lemma extends_compound [extending]:
  assumes "\<And>pl p. extends (run pl p) (run' pl p)" and "n \<le> m"
  shows "extends (compound_execute I n run k p) (compound_execute I m run' k p)"
  using assms by (cases k) (auto intro!: extending)

lemma extends_command [extending]:
  assumes run: "\<And>pl p. extends (run pl p) (run' pl p)" and le: "n \<le> m"
  shows "extends (command_in_pipeline I n run asker pgid c p) (command_in_pipeline I m run' asker pgid c p)"
  unfolding command_in_pipeline_def by (cases c) (auto intro!: extending run le)

lemma extends_stages [extending]:
  assumes run: "\<And>pl p. extends (run pl p) (run' pl p)" and le: "n \<le> m"
  shows "extends (spawn_stages I n run p len i readers writers pgid cs)
    (spawn_stages I m run' p len i readers writers pgid cs)"
proof (induction cs arbitrary: i readers writers pgid)
  case (Cons c cs)
  show ?case
    unfolding spawn_stages.simps stage_execute_def by (intro extending run le Cons.IH)
qed simp

lemma extends_err_trap [extending]:
  "(\<And>pl p. extends (run pl p) (run' pl p)) \<Longrightarrow> extends (err_trap I run r p) (err_trap I run' r p)"
  unfolding err_trap_def by (intro extending)

lemma exec_pipeline_extends: "n \<le> m \<Longrightarrow> extends (exec_pipeline I n pl p) (exec_pipeline I m pl p)"
proof (induction n arbitrary: m pl p)
  case (Suc n)
  then obtain m' where m: "m = Suc m'" "n \<le> m'" by (cases m) auto
  have run: "extends (exec_pipeline I n pl p) (exec_pipeline I m' pl p)" for pl p by (rule Suc.IH [OF m(2)])
  show ?case
    unfolding m(1) exec_pipeline.simps pipeline_execute_def spawn_pipeline_def
    by (cases pl) (auto intro!: extending run m(2))
qed (simp add: extending)

end
