(* ===== verification/Interp_Properties.thy ===== *)
theory Interp_Properties
  imports Interp
begin

text \<open>
  What holds of the interpreter as a whole, and of a concrete one: a shell with four builtins, words
  that expand to themselves and a world that counts, on which the witnesses run.
\<close>

section \<open>A concrete interpreter\<close>

definition demo_builtin :: "nat \<Rightarrow> exec_result" where
  "demo_builtin b =
     (if b = 0 then result_success
      else if b = 1 then result_general_error
      else if b = 2 then result_success\<lparr>er_flow := ExitShell\<rparr>
      else result_success\<lparr>er_flow := BreakLoop 0\<rparr>)"

definition demo_runtime :: "nat runtime" where
  "demo_runtime = \<lparr> rt_wait_child = \<lambda>c w. (Inr (ProcessCompleted \<lparr> po_code = Some 0, po_signal = None \<rparr>), w),
     rt_join = \<lambda>h w. (Inr result_success, w), rt_poll_child = \<lambda>c w. (None, w), rt_poll_task = \<lambda>h w. (None, w),
     rt_continue = \<lambda>n w. (Inr (), w), rt_foreground = \<lambda>n w. (Inr (), w), rt_kill = \<lambda>n s w. (Inr (), w) \<rparr>"

definition demo_interface :: "(unit, nat) interface" where
  "demo_interface = \<lparr>
     x_fields = \<lambda>w p. pure [w], x_word = \<lambda>w p. pure w, x_assignment_word = \<lambda>w p. pure w,
     x_heredoc_word = \<lambda>w p. pure w, x_pattern_matches = \<lambda>w s p. pure (w = s),
     x_arith = \<lambda>e b p. pure 1, x_test = \<lambda>e p. pure True,
     x_builtin = \<lambda>b name args p. pure (demo_builtin b), x_trace = \<lambda>s p. pure (),
     x_parse = \<lambda>s sh. Inl (failure_of ParseFailure), x_open = \<lambda>mode file sh p w. (Inr w, w + 1),
     x_regular = \<lambda>file sh w. (False, w), x_temp_file = \<lambda>text w. (Inr w, w + 1),
     x_pipe = \<lambda>w. (Inr (w, w + 1), w + 2), x_null = \<lambda>w. (Inr w, w + 1),
     x_write_stderr = \<lambda>s sh p w. (Inr (), w), x_display = \<lambda>e f sh w. (Inr (), w),
     x_quote = id, x_error_text = \<lambda>e. [], x_spawn = \<lambda>t sh p w. (w, w + 1),
     x_external = \<lambda>sh p name path pgid args w. (Inl (failure_of (ShellFailure (CommandNotFound name))), w),
     x_executable = \<lambda>name sh w. (False, w), x_find_executable = \<lambda>name t. (None, t),
     x_foreground = \<lambda>w. (Inr (), w), x_start_timing = \<lambda>w. (Inr w, w), x_report_timing = \<lambda>t n f w. (Inr (), w),
     x_runtime = demo_runtime, x_casing = ascii_casing, x_absolute = \<lambda>sh s. s,
     x_location = \<lambda>c. None, x_pipeline_text = \<lambda>pl. [], x_and_or_text = \<lambda>l. [] \<rparr>"

definition demo_registration :: "nat \<Rightarrow> nat registration" where
  "demo_registration b =
     \<lparr> r_execute = b, r_disabled = False, r_special = False, r_declaration = False \<rparr>"

definition demo_shell :: "unit shell" where
  "demo_shell = \<lparr> sh_options = demo_options, sh_status = 0, sh_status_changes = 0,
     sh_pipeline_statuses = [], sh_env = env_new, sh_funcs = Map.empty, sh_aliases = Map.empty,
     sh_builtins = map_of [(''t'', demo_registration 0), (''f'', demo_registration 1),
       (''x'', demo_registration 2), (''b'', demo_registration 3)],
     sh_traps = Map.empty, sh_stack = stack_new, sh_args = [], sh_depth = 0, sh_jobs = [],
     sh_files = Map.empty, sh_execution = Sealed, sh_builtin_policy = OpenBuiltins, sh_rest = () \<rparr>"

definition simply :: "string \<Rightarrow> command" where
  "simply name = SimpleCmd (SimpleCommand [] (Some name) [])"

definition piped :: "command list \<Rightarrow> shell_pipeline" where
  "piped cs = Pipeline None False cs"

definition sequence :: "command list list \<Rightarrow> shell_list" where
  "sequence pls = CompoundList (map (\<lambda>cs. (AndOrList (piped cs) [], SequenceSep)) pls)"

text \<open>Define a function, call it with an assignment of its own, and run a loop that the body leaves.\<close>

definition demo_program :: program where
  "demo_program = \<lparr> complete_commands =
     [sequence [[FunctionCmd ''g'' (FunctionBody (BraceGroup (sequence [[simply ''f'']])) [])],
        [SimpleCmd (SimpleCommand
           [AssignmentWord \<lparr> as_name = VariableName ''A'', as_value = ScalarWord ''1'', as_append = False \<rparr> ''A=1'']
           (Some ''g'') [])],
        [CompoundCmd (ForClause ''i'' (Some [''1'', ''2'']) (sequence [[simply ''b'']])) []]]] \<rparr>"

lemma demo_interface_keeps: "interface_keeps demo_interface"
  by (auto simp: interface_keeps_def demo_interface_def intro: keeping)

lemma demo_program_runs:
  "map_option fst (exec_program demo_interface 4 demo_program params_default (demo_shell, 0)) =
     Some (Inr result_success)"
  by code_simp


section \<open>Lemmas\<close>

subsection \<open>Errors\<close>




subsection \<open>What a pipeline leaves\<close>

text \<open>A shell without what running a pipeline writes down: statuses and jobs.\<close>

definition unbooked :: "'s shell \<Rightarrow> 's shell" where
  "unbooked sh = sh\<lparr>sh_status := 0, sh_status_changes := 0, sh_pipeline_statuses := [], sh_jobs := []\<rparr>"

definition only_books :: "'s shell \<Rightarrow> ('s, 'w, 'a) sh \<Rightarrow> bool" where
  "only_books b m \<longleftrightarrow>
     (\<forall>sh w r sh' w'. m (sh, w) = Some (r, sh', w') \<longrightarrow> unbooked sh = b \<longrightarrow> unbooked sh' = b)"

named_theorems booking

lemma only_booksI:
  "(\<And>sh w r sh' w'. m (sh, w) = Some (r, sh', w') \<Longrightarrow> unbooked sh = b \<Longrightarrow> unbooked sh' = b) \<Longrightarrow> only_books b m"
  unfolding only_books_def by blast

lemma only_booksD: "only_books b m \<Longrightarrow> m (sh, w) = Some (r, sh', w') \<Longrightarrow> unbooked sh = b \<Longrightarrow> unbooked sh' = b"
  unfolding only_books_def by blast

lemma books_andthen [booking]:
  assumes "only_books b m" and "\<And>v. only_books b (k v)"
  shows "only_books b (andthen m k)"
proof (rule only_booksI)
  fix sh w r sh' w'
  assume a: "andthen m k (sh, w) = Some (r, sh', w')" and b: "unbooked sh = b"
  from a show "unbooked sh' = b"
    by (cases rule: andthen_cases) (auto dest: only_booksD [OF assms(1)] only_booksD [OF assms(2)] simp: b)
qed


lemma books_basic [booking]:
  "only_books b (pure v)" "only_books b (of_result q)" "only_books b (asks_shell g)"
  by (rule only_booksI; simp add: run_defs)+

lemma books_performs [booking]: "only_books b (performs h)"
  by (rule only_booksI) (auto simp: performs_def split: prod.splits)

lemma books_clone [booking]: "only_books b (in_clone g m)"
  by (rule only_booksI) (auto simp: in_clone_def split: option.splits if_splits)

lemma books_modifies [booking]: "(\<And>sh. unbooked (g sh) = unbooked sh) \<Longrightarrow> only_books b (modifies g)"
  by (rule only_booksI) (auto simp: modifies_def)

lemma books_cases [booking]:
  "\<And>c. only_books b m \<Longrightarrow> only_books b m' \<Longrightarrow> only_books b (if c then m else m')"
  "\<And>q. (\<And>x y. only_books b (f x y)) \<Longrightarrow> only_books b (case q of (x, y) \<Rightarrow> f x y)"
  "\<And>q. (\<And>x. only_books b (l x)) \<Longrightarrow> only_books b (Let q l)"
  by (auto split: prod.split)

lemma unbooked_simps [simp]:
  "\<And>x. unbooked (sh\<lparr>sh_jobs := x\<rparr>) = unbooked sh" "\<And>x. unbooked (sh\<lparr>sh_pipeline_statuses := x\<rparr>) = unbooked sh"
  "unbooked (set_last_exit_status n sh) = unbooked sh" "unbooked (pushed_status r sh) = unbooked sh"
  by (simp_all add: unbooked_def set_last_exit_status_def pushed_status_def Let_def)


lemma books_wait_stages [booking]: "only_books b (wait_stages R stopped r failed ss)"
proof (induction ss arbitrary: stopped r failed)
  case (Cons s ss)
  show ?case
    unfolding wait_stages.simps
    by (intro booking) (auto intro!: booking Cons.IH split: wait_result.split)
qed (simp add: booking)

lemma books_wait_pipeline [booking]: "only_books b (wait_pipeline I pl ss p)"
  unfolding wait_pipeline_def by (intro booking unbooked_simps)

lemma books_pipes [booking]: "only_books b (make_pipes I n)"
  by (induction n) (simp_all add: booking)

lemma books_noting [booking]: "only_books b (noting_status r)"
  unfolding noting_status_def by (intro booking unbooked_simps)



subsection \<open>Statuses\<close>




section \<open>Properties\<close>

text \<open>C20. Every run closes what it opens. Whatever program runs, however it ends short of a panic and
  whatever it calls, so long as no builtin or expansion leaves a scope or a frame open: the scopes of
  the environment, the frames of the stack, their counters and the traps being handled are after it
  what they were before it, errors, breaks, returns and exits included.\<close>

theorem interpreter_balanced:
  assumes "interface_keeps I" and "exec_program I n prog p (sh, w) = Some (r, sh', w')" and "r \<noteq> Inl panicked"
  shows "map fst (e_scopes (sh_env sh')) = map fst (e_scopes (sh_env sh)) \<and>
    map fm_type (cs_frames (sh_stack sh')) = map fm_type (cs_frames (sh_stack sh)) \<and>
    cs_func_depth (sh_stack sh') = cs_func_depth (sh_stack sh) \<and>
    cs_active (sh_stack sh') = cs_active (sh_stack sh)"
proof -
  have "keeps (exec_program I n prog p)"
    unfolding exec_program_def program_execute_def by (intro keeping keeps_exec_pipeline assms(1))
  from keepsD [OF this assms(2,3)] show ?thesis by (simp add: shape_def stack_shape_def)
qed



text \<open>C23. A subshell changes nothing of the shell that runs it but the world around, and asks nothing of
  it: no exit, no return and no break of its body gets out, only the exit code.\<close>

theorem subshell_isolated:
  assumes "compound_execute I n run (Subshell l) p (sh, w) = Some (r, sh', w')" and "r \<noteq> Inl panicked"
  shows "sh' = sh \<and> (\<exists>c. r = Inr (result_of_code c))"
  using assms
  by (auto simp: subshell_execute_def in_clone_def andthen_def pure_def asks_shell_def ignoring_def
      attempted_def performs_def split: option.splits sum.splits prod.splits if_splits)




section \<open>Witnesses\<close>

lemma run_value:
  assumes "map_option fst m = Some v"
  obtains sh w where "m = Some (v, sh, w)"
  using assms by (cases m) auto

lemma demo_program_result:
  obtains sh' w' where
    "exec_program demo_interface 4 demo_program params_default (demo_shell, 0) = Some (Inr result_success, sh', w')"
  using demo_program_runs by (rule run_value)

theorem interpreter_balanced_witness:
  "\<exists>sh' w'. exec_program demo_interface 4 demo_program params_default (demo_shell, 0) =
      Some (Inr result_success, sh', w') \<and>
    map fst (e_scopes (sh_env sh')) = [Global] \<and> cs_func_depth (sh_stack sh') = 0"
proof (rule demo_program_result)
  fix sh' w'
  assume run: "exec_program demo_interface 4 demo_program params_default (demo_shell, 0) = Some (Inr result_success, sh', w')"
  from interpreter_balanced [OF demo_interface_keeps run] run show ?thesis
    by (auto simp: demo_shell_def env_new_def stack_new_def)
qed



text \<open>A subshell that exits.\<close>

definition leaving :: compound_command where
  "leaving = Subshell (sequence [[simply ''x'']])"

lemma leaving_run:
  "map_option fst (compound_execute demo_interface 2 (exec_pipeline demo_interface 2) leaving params_default
     (demo_shell, 0)) = Some (Inr result_success)"
  by code_simp

theorem subshell_isolated_witness:
  "\<exists>w'. compound_execute demo_interface 2 (exec_pipeline demo_interface 2) leaving params_default (demo_shell, 0) =
     Some (Inr result_success, demo_shell, w')"
proof -
  from leaving_run obtain sh' w' where run: "compound_execute demo_interface 2 (exec_pipeline demo_interface 2) leaving
      params_default (demo_shell, 0) = Some (Inr result_success, sh', w')"
    by (rule run_value)
  from subshell_isolated [OF run [unfolded leaving_def]] run show ?thesis by auto
qed





section \<open>Divergences\<close>

text \<open>An alias that is blank makes the shell panic: the pieces of its text are indexed without a look
  at how many there are.\<close>

lemma white_pieces_blank: "list_all is_white s \<Longrightarrow> white_pieces [] s = []"
  by (induction s) simp_all

theorem blank_alias_panics:
  assumes "sh_aliases sh name = Some v" and "list_all is_white v"
  shows "command_word sh [name] = Inl panicked"
  using assms by (simp add: command_word_def white_pieces_blank)

text \<open>A descriptor moved with a trailing dash ends up closed itself, whatever it was made to refer to.\<close>

theorem moved_descriptor_closed:
  assumes "duplicate_text I fd (s @ ''-'') p t = Some (Inr p', t')"
  shows "fd_entry (pa_files p') fd = NotPresentEntry"
  using assms
  by (auto simp: duplicate_text_def andthen_def pure_def fd_entry_def files_remove_fd_def Let_def
      split: option.splits sum.splits)

text \<open>A redirection of both streams truncates its file whatever \<^verbatim>\<open>noclobber\<close> says.\<close>

theorem both_streams_clobber:
  "output_and_error_to I file False p (sh, w) =
     andthen (opened_for I (mode_default\<lparr>om_create := True, om_write := True, om_truncate := True\<rparr>)
         (x_absolute I sh file) p)
       (\<lambda>f. pure (params_set_fd 2 f (params_set_fd 1 f p))) (sh, w)"
  by (simp add: output_and_error_to_def andthen_def asks_shell_def mode_default_def)

end
