(* ===== verification/Shell_Namespace.thy ===== *)
theory Shell_Namespace
  imports Shell_State Vfs_Session Platform_Io
begin

text \<open>
  Between a shell's paths and its namespace (\<^verbatim>\<open>brush-core/src/namespace.rs\<close>, \<^verbatim>\<open>shell/fs.rs\<close>,
  \<^verbatim>\<open>pathcache.rs\<close>): how text becomes a virtual path, what an open of a file may reach, where a program
  is found, and that the working directory of the shell and of its session move together. On Unix.
\<close>

section \<open>Paths as text\<close>

definition is_absolute :: "string \<Rightarrow> bool" where
  "is_absolute s \<longleftrightarrow> s \<noteq> [] \<and> hd s = CHR ''/''"

text \<open>\<^verbatim>\<open>PathBuf::join\<close>.\<close>

definition path_join :: "string \<Rightarrow> string \<Rightarrow> string" where
  "path_join dir s =
     (if is_absolute s then s
      else if dir = [] \<or> last dir = CHR ''/'' then dir @ s
      else dir @ CHR ''/'' # s)"

definition absolute_path :: "string \<Rightarrow> string \<Rightarrow> string" where
  "absolute_path working_dir s = (if s = [] \<or> is_absolute s then s else path_join working_dir s)"

definition slashes :: "string \<Rightarrow> string" where
  "slashes s = map (\<lambda>c. if c = CHR 0x5C then CHR ''/'' else c) s"

text \<open>A drive letter, one byte before the first \<^verbatim>\<open>:/\<close>, is dropped.\<close>

fun drop_drive :: "string \<Rightarrow> string" where
  "drop_drive (c # d # e # rest) =
     (if d = CHR '':'' \<and> e = CHR ''/'' then CHR ''/'' # rest else c # d # e # rest)"
| "drop_drive s = s"

definition to_virtual_path :: "unicode \<Rightarrow> session \<Rightarrow> string \<Rightarrow> io_error + virtual_path" where
  "to_virtual_path u s path =
     map_err invalid_path (session_resolve u s (drop_drive (slashes (utf8_lossy path))))"

section \<open>Asking the namespace\<close>

definition x_ok_modes :: access_modes where
  "x_ok_modes = \<lparr> readable = False, writable = False, executable = True \<rparr>"

definition is_executable :: "'w host \<Rightarrow> unicode \<Rightarrow> session \<Rightarrow> string \<Rightarrow> ('w, bool) io" where
  "is_executable H u s path =
     (case to_virtual_path u s path of
        Inl e \<Rightarrow> ok False
      | Inr p \<Rightarrow> vfs_access H u (s_vfs s) p x_ok_modes)"

definition namespace_is_dir :: "'w host \<Rightarrow> unicode \<Rightarrow> session \<Rightarrow> string \<Rightarrow> ('w, bool) io" where
  "namespace_is_dir H u s path =
     (case to_virtual_path u s path of
        Inl e \<Rightarrow> ok False
      | Inr p \<Rightarrow> try_then (vfs_facts H u (s_vfs s) p True)
          (\<lambda>f. ok (case f of None \<Rightarrow> False | Some f \<Rightarrow> ff_is_dir f)))"

definition namespace_exists :: "'w host \<Rightarrow> unicode \<Rightarrow> session \<Rightarrow> string \<Rightarrow> ('w, bool) io" where
  "namespace_exists H u s path =
     (case to_virtual_path u s path of
        Inl e \<Rightarrow> ok False
      | Inr p \<Rightarrow> vfs_exists H u (s_vfs s) p)"

section \<open>The shell's place\<close>

text \<open>The fields of \<^verbatim>\<open>Shell\<close> that say where it is. The working directory mirrors the session's.\<close>

record place =
  pc_session :: session
  pc_working_dir :: string
  pc_cache :: "string \<rightharpoonup> string"

definition is_executable_in_namespace ::
  "'w host \<Rightarrow> unicode \<Rightarrow> place \<Rightarrow> string \<Rightarrow> ('w, bool) io" where
  "is_executable_in_namespace H u pl path =
     is_executable H u (pc_session pl) (absolute_path (pc_working_dir pl) path)"

definition host_path_for_execution ::
  "'w host \<Rightarrow> unicode \<Rightarrow> place \<Rightarrow> string \<Rightarrow> ('w, host_path) io" where
  "host_path_for_execution H u pl path =
     (case to_virtual_path u (pc_session pl) (absolute_path (pc_working_dir pl) path) of
        Inl e \<Rightarrow> fail e
      | Inr p \<Rightarrow> vfs_host_path H u (s_vfs (pc_session pl)) p)"

definition exists_in_namespace :: "'w host \<Rightarrow> unicode \<Rightarrow> place \<Rightarrow> string \<Rightarrow> ('w, bool) io" where
  "exists_in_namespace H u pl path =
     namespace_exists H u (pc_session pl) (absolute_path (pc_working_dir pl) path)"

definition canonicalize_in_namespace ::
  "'w host \<Rightarrow> unicode \<Rightarrow> place \<Rightarrow> string \<Rightarrow> ('w, string) io" where
  "canonicalize_in_namespace H u pl path =
     (let t = s_vfs (pc_session pl); cwd = s_cwd (pc_session pl) in
      try_then (attempt (vfs_canonicalize H u t cwd)) (\<lambda>b.
      let base = (case b of Inr b \<Rightarrow> b | Inl e \<Rightarrow> cwd) in
      try_then (lift_result (map_err invalid_path (resolve u base (utf8_lossy path)))) (\<lambda>target.
      try_then (vfs_canonicalize H u t target) (\<lambda>p. ok (inner p)))))"

text \<open>\<^verbatim>\<open>set_working_dir\<close>: what it has changed when it fails stays changed.\<close>

definition not_a_directory :: "string \<Rightarrow> failure" where
  "not_a_directory path = failure_of (OtherFailure (''not a directory: '' @ path))"

definition set_variable :: "casing \<Rightarrow> environment \<Rightarrow> string \<Rightarrow> string \<Rightarrow> environment \<times> (failure + unit)" where
  "set_variable k e name v =
     (case update_or_add k e name (Scalar v) (\<lambda>v. (v, Inr ())) Anywhere Global of
        (e, r) \<Rightarrow> (e, map_sum (\<lambda>e. failure_of (ShellFailure e)) id r))"

definition directory_noted ::
  "casing \<Rightarrow> place \<Rightarrow> environment \<Rightarrow> session \<Rightarrow> string \<Rightarrow> (place \<times> environment) \<times> (failure + unit)" where
  "directory_noted k pl e s dir =
     (case set_variable k e ''PWD'' dir of
        (e, Inl err) \<Rightarrow> ((pl\<lparr>pc_session := s\<rparr>, e), Inl err)
      | (e, Inr _) \<Rightarrow>
          (case set_variable k e ''OLDPWD'' (pc_working_dir pl) of
             (e, r) \<Rightarrow> ((pl\<lparr>pc_session := s, pc_working_dir := dir\<rparr>, e), r)))"

definition set_working_dir ::
  "'w host \<Rightarrow> unicode \<Rightarrow> casing \<Rightarrow> place \<Rightarrow> environment \<Rightarrow> string \<Rightarrow>
   ('w, (place \<times> environment) \<times> (failure + unit)) io" where
  "set_working_dir H u k pl e target =
     (let abs = absolute_path (pc_working_dir pl) target;
          failed = (\<lambda>err. ((pl, e), Inl (failure_of (ShellFailure (ShellIo err)))))
      in case to_virtual_path u (pc_session pl) abs of
           Inl err \<Rightarrow> ok (failed err)
         | Inr p \<Rightarrow>
             try_then (vfs_facts H u (s_vfs (pc_session pl)) p True) (\<lambda>f.
               case f of
                 None \<Rightarrow> ok (failed (Custom NotFound (TextPath ''no such file or directory: '' p)))
               | Some f \<Rightarrow>
                   if \<not> ff_is_dir f then ok ((pl, e), Inl (not_a_directory abs))
                   else try_then (attempt (set_cwd H u (pc_session pl) (inner p))) (\<lambda>r.
                     ok (case r of
                           Inl err \<Rightarrow> failed err
                         | Inr s \<Rightarrow> directory_noted k pl e s (inner p)))))"

section \<open>Opening files\<close>

definition parse_i32 :: "string \<Rightarrow> int option" where
  "parse_i32 s =
     (let n = (case s of
                 [] \<Rightarrow> None
               | c # ds \<Rightarrow>
                   if c = CHR ''-'' then map_option (\<lambda>n. - int n) (parse_digits ds)
                   else if c = CHR ''+'' then map_option int (parse_digits ds)
                   else map_option int (parse_digits s))
      in case n of None \<Rightarrow> None | Some n \<Rightarrow> if - (2 ^ 31) \<le> n \<and> n < 2 ^ 31 then Some n else None)"

definition shell_fd_path_to_fd :: "string \<Rightarrow> int option" where
  "shell_fd_path_to_fd path =
     (if \<not> valid_utf8 path then None
      else if path = ''/dev/stdin'' then Some 0
      else if path = ''/dev/stdout'' then Some 1
      else if path = ''/dev/stderr'' then Some 2
      else (case path_parts path of
              (absolute, parts) \<Rightarrow>
                if absolute \<and> length parts = 3 \<and> take 2 parts = [''dev'', ''fd''] \<and> last parts \<noteq> ''..''
                then parse_i32 (last parts) else None))"

datatype opened_file = SharedFile nat | NamedFile file_handle

text \<open>\<open>null\<close> is the null device, opened at startup.\<close>

definition open_file ::
  "'w host \<Rightarrow> unicode \<Rightarrow> io_error + nat \<Rightarrow> 's shell \<Rightarrow> place \<Rightarrow> open_mode \<Rightarrow> string \<Rightarrow> exec_params \<Rightarrow>
   ('w, opened_file) io" where
  "open_file H u null sh pl mode path p =
     (if same_path path ''/dev/null'' then lift_result (map_sum id SharedFile null)
      else
        (let abs = absolute_path (pc_working_dir pl) path in
         case shell_fd_path_to_fd abs of
           Some fd \<Rightarrow>
             (case params_try_fd sh p fd of
                Some f \<Rightarrow> ok (SharedFile f)
              | None \<Rightarrow> fail (Custom NotFound (Text (''no such file or directory: '' @ abs))))
         | None \<Rightarrow>
             (case to_virtual_path u (pc_session pl) abs of
                Inl e \<Rightarrow> fail e
              | Inr v \<Rightarrow>
                  try_then (vfs_open_with H u (s_vfs (pc_session pl)) v mode) (\<lambda>f. ok (NamedFile f)))))"

section \<open>Finding programs\<close>

fun search_path ::
  "'w host \<Rightarrow> unicode \<Rightarrow> place \<Rightarrow> string \<Rightarrow> string list \<Rightarrow> ('w, string option) io" where
  "search_path H u pl name [] = ok None"
| "search_path H u pl name (dir # dirs) =
     try_then (is_executable_in_namespace H u pl (path_join dir name)) (\<lambda>b.
       if b then ok (Some (path_join dir name)) else search_path H u pl name dirs)"

definition find_first_executable_in_path ::
  "'w host \<Rightarrow> unicode \<Rightarrow> place \<Rightarrow> string option \<Rightarrow> string \<Rightarrow> ('w, string option) io" where
  "find_first_executable_in_path H u pl path_var name =
     search_path H u pl name (split_on CHR '':'' (case path_var of None \<Rightarrow> [] | Some s \<Rightarrow> s))"

definition find_first_executable_in_path_using_cache ::
  "'w host \<Rightarrow> unicode \<Rightarrow> place \<Rightarrow> string option \<Rightarrow> string \<Rightarrow> ('w, string option \<times> place) io" where
  "find_first_executable_in_path_using_cache H u pl path_var name =
     (case pc_cache pl name of
        Some path \<Rightarrow> ok (Some path, pl)
      | None \<Rightarrow>
          try_then (find_first_executable_in_path H u pl path_var name) (\<lambda>found.
            case found of
              Some path \<Rightarrow> ok (Some path, pl\<lparr>pc_cache := (pc_cache pl)(name \<mapsto> path)\<rparr>)
            | None \<Rightarrow> ok (None, pl)))"

section \<open>Searching a list of directories\<close>

text \<open>The iterators of \<^verbatim>\<open>pathsearch.rs\<close>: what is left to search is the state. Directories are skipped.\<close>

fun executable_search_next ::
  "'w host \<Rightarrow> unicode \<Rightarrow> session \<Rightarrow> string \<Rightarrow> string list \<Rightarrow> ('w, string option \<times> string list) io" where
  "executable_search_next H u s name [] = ok (None, [])"
| "executable_search_next H u s name (dir # dirs) =
     (let path = path_join dir name in
      try_then (namespace_is_dir H u s path) (\<lambda>d.
        if d then executable_search_next H u s name dirs
        else try_then (is_executable H u s path) (\<lambda>x.
          if x then ok (Some path, dirs) else executable_search_next H u s name dirs)))"

fun executable_entries ::
  "'w host \<Rightarrow> unicode \<Rightarrow> session \<Rightarrow> string \<Rightarrow> bool \<Rightarrow> string \<Rightarrow> string list \<Rightarrow> ('w, string list) io" where
  "executable_entries H u s dir case_insensitive given [] = ok []"
| "executable_entries H u s dir case_insensitive given (name # names) =
     (let comparable = (if case_insensitive then map lower_char name else name);
          entry = path_join dir name;
          rest = executable_entries H u s dir case_insensitive given names
      in if take (length given) comparable \<noteq> given then rest
         else try_then
           (case to_virtual_path u s entry of
              Inl e \<Rightarrow> ok False
            | Inr p \<Rightarrow> try_then (vfs_facts H u (s_vfs s) p False)
                (\<lambda>f. ok (case f of None \<Rightarrow> False | Some f \<Rightarrow> ff_is_dir f))) (\<lambda>d.
           if d then rest
           else try_then (is_executable H u s entry) (\<lambda>x.
             try_then rest (\<lambda>es. ok (if x then entry # es else es)))))"

definition directory_names :: "'w host \<Rightarrow> unicode \<Rightarrow> session \<Rightarrow> string \<Rightarrow> ('w, string list) io" where
  "directory_names H u s dir =
     try_then (attempt (case to_virtual_path u s dir of
                          Inl e \<Rightarrow> fail e
                        | Inr p \<Rightarrow> vfs_read_dir_names H u (s_vfs s) p))
       (\<lambda>r. ok (case r of Inl e \<Rightarrow> [] | Inr names \<Rightarrow> names))"

fun prefix_search_next ::
  "'w host \<Rightarrow> unicode \<Rightarrow> session \<Rightarrow> bool \<Rightarrow> string \<Rightarrow> string list \<Rightarrow> string list \<Rightarrow>
   ('w, string option \<times> string list \<times> string list) io" where
  "prefix_search_next H u s case_insensitive given (item # queued) dirs = ok (Some item, queued, dirs)"
| "prefix_search_next H u s case_insensitive given [] [] = ok (None, [], [])"
| "prefix_search_next H u s case_insensitive given [] (dir # dirs) =
     try_then (directory_names H u s dir) (\<lambda>names.
     try_then (executable_entries H u s dir case_insensitive given names) (\<lambda>entries.
       case entries of
         [] \<Rightarrow> prefix_search_next H u s case_insensitive given [] dirs
       | item # queued \<Rightarrow> ok (Some item, queued, dirs)))"

definition stored_prefix :: "bool \<Rightarrow> string \<Rightarrow> string" where
  "stored_prefix case_insensitive given = (if case_insensitive then map lower_char given else given)"

section \<open>What is asked of the host\<close>

lemma to_virtual_path_wf:
  "nfc_ok u \<Longrightarrow> session_ok u s \<Longrightarrow> to_virtual_path u s path = Inr p \<Longrightarrow> wf_path u p"
  by (auto simp: to_virtual_path_def intro: session_resolve_wf)

lemma emits_at_virtual:
  assumes "nfc_ok u" and "session_ok u s"
    and "\<And>e. emits P (f e) Q" and "\<And>p. wf_path u p \<Longrightarrow> emits P (g p) Q"
  shows "emits P (case to_virtual_path u s path of Inl e \<Rightarrow> f e | Inr p \<Rightarrow> g p) Q"
  using assms to_virtual_path_wf [OF assms(1,2)] by (auto split: sum.split)

lemma is_executable_confined:
  assumes "nfc_ok u" and "session_ok u s"
  shows "emits (request_confined (s_vfs s)) (is_executable H u s path) (\<lambda>_. True)"
  unfolding is_executable_def
  by (intro emits_at_virtual assms emits_ok vfs_access_confined TrueI)

lemma namespace_is_dir_confined:
  assumes "nfc_ok u" and "session_ok u s"
  shows "emits (request_confined (s_vfs s)) (namespace_is_dir H u s path) (\<lambda>_. True)"
  unfolding namespace_is_dir_def
  by (intro emits_at_virtual assms emits_ok emits_try_then [OF vfs_facts_confined] TrueI)

lemma namespace_exists_confined:
  assumes "nfc_ok u" and "session_ok u s"
  shows "emits (request_confined (s_vfs s)) (namespace_exists H u s path) (\<lambda>_. True)"
  unfolding namespace_exists_def
  by (intro emits_at_virtual assms emits_ok vfs_exists_confined TrueI)

text \<open>A host path names something beneath a mounted directory.\<close>

definition beneath_mounts :: "mount_table \<Rightarrow> host_path \<Rightarrow> bool" where
  "beneath_mounts t p \<longleftrightarrow>
     (\<exists>m \<in> set (mounts t). \<exists>c r. m_canonical m = Some c \<and> p = c @ r \<and> list_all plain_component r)"

lemma host_path_for_execution_confined:
  assumes "nfc_ok u" and "session_ok u (pc_session pl)"
  shows "emits (request_confined (s_vfs (pc_session pl))) (host_path_for_execution H u pl path)
    (beneath_mounts (s_vfs (pc_session pl)))"
  unfolding host_path_for_execution_def beneath_mounts_def
  by (intro emits_at_virtual assms emits_fail vfs_host_path_confined)

lemma search_path_confined:
  assumes "nfc_ok u" and "session_ok u (pc_session pl)"
  shows "emits (request_confined (s_vfs (pc_session pl))) (search_path H u pl name dirs)
    (\<lambda>r. \<forall>path. r = Some path \<longrightarrow> (\<exists>dir \<in> set dirs. path = path_join dir name))"
proof (induction dirs)
  case (Cons dir dirs)
  show ?case
    unfolding search_path.simps is_executable_in_namespace_def
    by (intro emits_try_then [OF is_executable_confined [OF assms]] emits_if emits_ok
        emits_mono [OF Cons.IH]) auto
qed (simp add: emits_ok)

section \<open>Properties\<close>

text \<open>Opening a file by name. The null device and the shell's own descriptors are answered without a
  request; anything else is opened in the session's namespace: whatever the host answers, its requests
  stay beneath the mounted directories, and a file opened for writing comes from a writable mount.\<close>

theorem file_opening_confined:
  assumes "nfc_ok u" and "session_ok u (pc_session pl)"
  shows "list_all (request_confined (s_vfs (pc_session pl)))
      (requests (open_file H u null sh pl mode path p w)) \<and>
    (\<forall>f. result (open_file H u null sh pl mode path p w) = Inr (NamedFile f) \<longrightarrow>
       handle_ok (s_vfs (pc_session pl)) (is_write mode) f) \<and>
    (same_path path ''/dev/null'' \<or>
       shell_fd_path_to_fd (absolute_path (pc_working_dir pl) path) \<noteq> None \<longrightarrow>
       requests (open_file H u null sh pl mode path p w) = [])"
proof -
  let ?t = "s_vfs (pc_session pl)"
  have "emits (request_confined ?t) (open_file H u null sh pl mode path p)
      (\<lambda>f. case f of SharedFile n \<Rightarrow> True | NamedFile f \<Rightarrow> handle_ok ?t (is_write mode) f)"
    unfolding open_file_def Let_def
    by (auto intro!: emits_if emits_lift_result emits_ok emits_fail emits_at_virtual assms
        emits_try_then [OF vfs_open_with_confined] split: option.split opened_file.split) (cases null; simp)+
  then have "list_all (request_confined ?t) (requests (open_file H u null sh pl mode path p w)) \<and>
    (\<forall>f. result (open_file H u null sh pl mode path p w) = Inr (NamedFile f) \<longrightarrow>
       handle_ok ?t (is_write mode) f)"
    by (auto simp: emits_def dest: spec [of _ w])
  moreover have "same_path path ''/dev/null'' \<or>
       shell_fd_path_to_fd (absolute_path (pc_working_dir pl) path) \<noteq> None \<longrightarrow>
       requests (open_file H u null sh pl mode path p w) = []"
    by (auto simp: open_file_def Let_def run_simps split: option.split)
  ultimately show ?thesis by blast
qed

text \<open>The mirror of the session's working directory.\<close>

definition in_step :: "place \<Rightarrow> bool" where
  "in_step pl \<longleftrightarrow> pc_working_dir pl = inner (s_cwd (pc_session pl))"

text \<open>C26. \<^verbatim>\<open>cd\<close>. Every request is confined. When it succeeds, the session is the same namespace at the path the
  text resolves to, and the shell's directory is the same path; when it fails, both directories are as
  before, unless it was \<^verbatim>\<open>PWD\<close> that could not be set.\<close>

theorem working_dir_in_step:
  assumes "nfc_ok u" and "session_ok u (pc_session pl)" and "in_step pl"
  shows "list_all (request_confined (s_vfs (pc_session pl))) (requests (set_working_dir H u k pl e target w)) \<and>
    (\<forall>pl' e' r. result (set_working_dir H u k pl e target w) = Inr ((pl', e'), r) \<longrightarrow>
       s_vfs (pc_session pl') = s_vfs (pc_session pl) \<and> session_ok u (pc_session pl') \<and>
       (r = Inr () \<longrightarrow> in_step pl' \<and>
          to_virtual_path u (pc_session pl) (absolute_path (pc_working_dir pl) target) =
            Inr (s_cwd (pc_session pl'))) \<and>
       (in_step pl' \<or> (\<exists>p err. snd (set_variable k e ''PWD'' (inner p)) = Inl err \<and> r = Inl err)))"
proof -
  let ?s = "pc_session pl"
  let ?Q = "\<lambda>((pl', e'), r).
       s_vfs (pc_session pl') = s_vfs ?s \<and> session_ok u (pc_session pl') \<and>
       (r = Inr () \<longrightarrow> in_step pl' \<and>
          to_virtual_path u ?s (absolute_path (pc_working_dir pl) target) = Inr (s_cwd (pc_session pl'))) \<and>
       (in_step pl' \<or> (\<exists>p err. snd (set_variable k e ''PWD'' (inner p)) = Inl err \<and> r = Inl err))"
  have unchanged: "?Q ((pl, e), Inl err)" for err using assms(2,3) by simp
  have "emits (request_confined (s_vfs ?s)) (set_working_dir H u k pl e target) ?Q"
  proof (cases "to_virtual_path u ?s (absolute_path (pc_working_dir pl) target)")
    case (Inl err)
    then have run: "set_working_dir H u k pl e target = ok ((pl, e), Inl (failure_of (ShellFailure (ShellIo err))))"
      by (simp add: set_working_dir_def Let_def)
    show ?thesis unfolding run by (rule emits_ok, rule unchanged)
  next
    case (Inr p)
    have wf: "wf_path u p" by (rule to_virtual_path_wf [OF assms(1,2) Inr])
    have moved: "session_ok u s' \<and> s' = ?s\<lparr>s_cwd := p\<rparr>"
      if "session_ok u s' \<and> (\<exists>q. session_resolve u ?s (inner p) = Inr q \<and> s' = ?s\<lparr>s_cwd := q\<rparr>)" for s'
      using that resolve_inner [OF wf] by (auto simp: session_resolve_def)
    have noted: "?Q (directory_noted k pl e s' (inner p))" if "session_ok u s' \<and> s' = ?s\<lparr>s_cwd := p\<rparr>" for s'
    proof (cases "set_variable k e ''PWD'' (inner p)")
      case (Pair e' q)
      show ?thesis
      proof (cases q)
        case (Inl err)
        have "snd (set_variable k e ''PWD'' (inner p)) = Inl err" by (simp add: Pair Inl)
        then have "\<exists>p. snd (set_variable k e ''PWD'' (inner p)) = Inl err" by blast
        then show ?thesis using that by (auto simp: directory_noted_def Pair Inl)
      next
        case (Inr v)
        show ?thesis
          using that \<open>to_virtual_path u ?s (absolute_path (pc_working_dir pl) target) = _\<close>
          by (auto simp: directory_noted_def Pair Inr in_step_def split: prod.split)
      qed
    qed
    have changed: "emits (request_confined (s_vfs ?s))
        (try_then (attempt (set_cwd H u ?s (inner p))) (\<lambda>r. ok (case r of
            Inl err \<Rightarrow> ((pl, e), Inl (failure_of (ShellFailure (ShellIo err))))
          | Inr s \<Rightarrow> directory_noted k pl e s (inner p)))) ?Q"
      by (rule emits_try_attempt [OF set_cwd_emits [OF assms(1,2)]])
         (rule emits_ok, use unchanged noted [OF moved] in simp)+
    let ?after = "\<lambda>f. case f of
          None \<Rightarrow> ok ((pl, e), Inl (failure_of (ShellFailure (ShellIo
            (Custom NotFound (TextPath ''no such file or directory: '' p))))))
        | Some f \<Rightarrow> if \<not> ff_is_dir f then ok ((pl, e),
              Inl (not_a_directory (absolute_path (pc_working_dir pl) target)))
            else try_then (attempt (set_cwd H u ?s (inner p))) (\<lambda>r. ok (case r of
              Inl err \<Rightarrow> ((pl, e), Inl (failure_of (ShellFailure (ShellIo err))))
            | Inr s \<Rightarrow> directory_noted k pl e s (inner p)))"
    have run: "set_working_dir H u k pl e target = try_then (vfs_facts H u (s_vfs ?s) p True) ?after"
      by (simp add: set_working_dir_def Let_def Inr)
    show ?thesis
      unfolding run
    proof (rule emits_try_then [OF vfs_facts_confined [OF assms(1) wf]])
      show "emits (request_confined (s_vfs ?s)) (?after f) ?Q" for f
        using assms(2,3) by (cases f) (auto intro!: emits_if emits_ok changed)
    qed
  qed
  then show ?thesis by (auto simp: emits_def dest!: spec [of _ w])
qed

text \<open>The session moves before \<^verbatim>\<open>PWD\<close> is set. Where \<^verbatim>\<open>PWD\<close> is readonly, \<^verbatim>\<open>cd\<close> fails with the session in
  the new directory and the shell in the old: relative names then resolve from two places.\<close>

theorem readonly_pwd_splits_directories:
  assumes "set_variable k e ''PWD'' dir = (e', Inl err)" and "dir \<noteq> pc_working_dir pl"
    and "inner (s_cwd s) = dir"
  shows "directory_noted k pl e s dir = ((pl\<lparr>pc_session := s\<rparr>, e'), Inl err) \<and>
    \<not> in_step (pl\<lparr>pc_session := s\<rparr>)"
  using assms by (auto simp: directory_noted_def in_step_def)

definition demo_place :: place where
  "demo_place = \<lparr> pc_session = session_new demo_table, pc_working_dir = ''/'', pc_cache = Map.empty \<rparr>"

lemma demo_place_ok: "session_ok u (pc_session demo_place) \<and> in_step demo_place"
  by (simp add: demo_place_def in_step_def) (simp add: session_new_def root_def)

theorem file_opening_confined_witness:
  "\<exists>f. result (open_file still_host ascii_unicode (Inr 3) (blank_shell Sealed OpenBuiltins ()) demo_place
      mode_write ''work/a'' params_default ()) = Inr (NamedFile f) \<and> handle_ok demo_table True f"
proof -
  let ?r = "result (open_file still_host ascii_unicode (Inr 3) (blank_shell Sealed OpenBuiltins ()) demo_place
      mode_write ''work/a'' params_default ())"
  have t: "s_vfs (pc_session demo_place) = demo_table" by (simp add: demo_place_def session_new_def)
  have w: "is_write mode_write = True" by code_simp
  have "case ?r of Inr (NamedFile f) \<Rightarrow> True | _ \<Rightarrow> False" by code_simp
  then obtain f where f: "?r = Inr (NamedFile f)" by (auto split: sum.splits opened_file.splits)
  have "handle_ok demo_table (is_write mode_write) f"
    using file_opening_confined [OF nfc_ok_ascii demo_place_ok [THEN conjunct1], of still_host "Inr 3"
      "blank_shell Sealed OpenBuiltins ()" mode_write "''work/a''" params_default "()"] f
    unfolding t by blast
  then have "handle_ok demo_table True f" by (simp only: w)
  with f show ?thesis by blast
qed

theorem working_dir_in_step_witness:
  "\<exists>pl' e'. result (set_working_dir still_host ascii_unicode ascii_casing demo_place env_new ''work'' ()) =
      Inr ((pl', e'), Inr ()) \<and> in_step pl' \<and> s_cwd (pc_session pl') = VirtualPath ''/work''"
proof -
  let ?r = "result (set_working_dir still_host ascii_unicode ascii_casing demo_place env_new ''work'' ())"
  have "case ?r of Inr (x, Inr u) \<Rightarrow> True | _ \<Rightarrow> False" by code_simp
  then obtain pl' e' where r: "?r = Inr ((pl', e'), Inr ())" by (cases ?r) (auto split: sum.splits)
  have "to_virtual_path ascii_unicode (pc_session demo_place)
      (absolute_path (pc_working_dir demo_place) ''work'') = Inr (VirtualPath ''/work'')" by code_simp
  with working_dir_in_step [OF nfc_ok_ascii demo_place_ok [THEN conjunct1] demo_place_ok [THEN conjunct2],
      of still_host ascii_casing env_new "''work''" "()"] r
  show ?thesis by auto
qed

text \<open>The search of the path takes a directory for a program where the iterators skip it.\<close>

theorem path_search_takes_directories:
  "result (find_first_executable_in_path still_host ascii_unicode demo_place (Some ''/work'') ''sub'' ()) =
      Inr (Some ''/work/sub'') \<and>
   result (namespace_is_dir still_host ascii_unicode (pc_session demo_place) ''/work/sub'' ()) = Inr True \<and>
   result (executable_search_next still_host ascii_unicode (pc_session demo_place) ''sub'' [''/work''] ()) =
      Inr (None, [])"
  by (intro conjI; code_simp)

end
