(* ===== verification/External_Command.thy ===== *)
theory External_Command
  imports Shell_Namespace Child_Exec
begin

text \<open>
  Starting an external command (\<^verbatim>\<open>compose_std_command\<close> and \<^verbatim>\<open>execute_external_command\<close> of
  \<^verbatim>\<open>brush-core/src/commands.rs\<close>): what the policy lets run, under which host path, directory,
  environment, descriptors and process group, and the session a bundled dispatch is served. What a
  process is made of is a record, \<open>composed\<close>; making one of it is the operating system's business.
\<close>

section \<open>What is asked of the system\<close>

datatype process_group = LeadSession | OwnGroup bool | JoinGroup int | ParentGroup

datatype disposition = SpawnIt | ReplaceIt

record composed =
  cx_program :: string
  cx_argv0 :: string
  cx_args :: "string list"
  cx_cwd :: "string option"
  cx_env :: "string \<rightharpoonup> string"
  cx_streams :: "int \<rightharpoonup> nat"
  cx_fds :: "int \<rightharpoonup> nat"

text \<open>\<open>mc_own_stream\<close>: the standard stream of the process itself that an open file is. \<open>mc_spawn\<close>
  answers with a handle and the identifier of the process.\<close>

record 'w machine =
  mc_host :: "'w host"
  mc_unicode :: unicode
  mc_temp_dir :: string
  mc_own_pid :: nat
  mc_counter :: "'w \<Rightarrow> u64 \<times> 'w"
  mc_fuel :: nat
  mc_value_text :: "shell_value \<Rightarrow> string"
  mc_body_text :: "shell_function_body \<Rightarrow> string"
  mc_own_stream :: "nat \<Rightarrow> int option"
  mc_terminal :: "nat \<Rightarrow> bool"
  mc_stdio :: "nat \<Rightarrow> failure + unit"
  mc_inject :: "(int \<rightharpoonup> nat) \<Rightarrow> failure + unit"
  mc_spawn :: "composed \<Rightarrow> process_group \<Rightarrow> bool \<Rightarrow> 'w \<Rightarrow> (io_error + nat \<times> int option) \<times> 'w"
  mc_foreground :: "'w \<Rightarrow> (failure + unit) \<times> 'w"

text \<open>The shell of a context carries its place.\<close>

record execution_context =
  ec_shell :: "place shell"
  ec_name :: string
  ec_params :: exec_params

definition ec_place :: "execution_context \<Rightarrow> place" where
  "ec_place c = sh_rest (ec_shell c)"

text \<open>What a shell does outside itself, in order: it asks the host, and it starts processes.\<close>

datatype event = Asked request | Spawned composed process_group

type_synonym ('w, 'a) act = "'w \<Rightarrow> (failure + 'a) \<times> event list \<times> 'w"

definition act_return :: "'a \<Rightarrow> ('w, 'a) act" where
  "act_return x = (\<lambda>w. (Inr x, [], w))"

definition act_of :: "failure + 'a \<Rightarrow> ('w, 'a) act" where
  "act_of r = (\<lambda>w. (r, [], w))"

definition act_then :: "('w, 'a) act \<Rightarrow> ('a \<Rightarrow> ('w, 'b) act) \<Rightarrow> ('w, 'b) act" where
  "act_then m f =
     (\<lambda>w. case m w of
            (Inl e, es, w') \<Rightarrow> (Inl e, es, w')
          | (Inr x, es, w') \<Rightarrow> (case f x w' of (r, es', w'') \<Rightarrow> (r, es @ es', w'')))"

definition asking :: "(io_error \<Rightarrow> failure) \<Rightarrow> ('w, 'a) io \<Rightarrow> ('w, 'a) act" where
  "asking f m = (\<lambda>w. case m w of (r, qs, w') \<Rightarrow> (map_sum f id r, map Asked qs, w'))"

definition outside :: "('w \<Rightarrow> 'a \<times> 'w) \<Rightarrow> ('w, 'a) act" where
  "outside f = (\<lambda>w. case f w of (x, w') \<Rightarrow> (Inr x, [], w'))"

definition io_failure :: "io_error \<Rightarrow> failure" where
  "io_failure e = failure_of (ShellFailure (ShellIo e))"

definition spawning ::
  "'w machine \<Rightarrow> composed \<Rightarrow> process_group \<Rightarrow> bool \<Rightarrow> ('w, io_error + nat \<times> int option) act" where
  "spawning M k g kill = (\<lambda>w. case mc_spawn M k g kill w of (r, w') \<Rightarrow> (Inr r, [Spawned k g], w'))"

section \<open>Composing a command\<close>

text \<open>An absolute host path as text.\<close>

definition host_text :: "host_path \<Rightarrow> string" where
  "host_text p = CHR ''/'' # join_with ''/'' p"

definition not_executable :: "string \<Rightarrow> failure" where
  "not_executable name = failure_of (ShellFailure (CommandNotFound name))"

definition refused :: "string \<Rightarrow> failure" where
  "refused name = failure_of (ShellFailure (ExternalExecutionRefused name))"

text \<open>The program to run on the host, and whether it is a bundled dispatch.\<close>

definition host_command ::
  "'w machine \<Rightarrow> execution_context \<Rightarrow> string \<Rightarrow> string list \<Rightarrow> disposition \<Rightarrow>
   ('w, string \<times> bool) act" where
  "host_command M c name args d =
     (let argv = (\<lambda>n. if n < length args then Some (args ! n) else None) in
      case permit (sh_execution (ec_shell c)) name (argv 0) (argv 1) (sh_builtin_policy (ec_shell c)) of
        Some ViaNamespace \<Rightarrow>
          asking (\<lambda>e. not_executable name)
            (try_then (host_path_for_execution (mc_host M) (mc_unicode M) (ec_place c) name)
               (\<lambda>p. ok (host_text p, False)))
      | Some (TrustedLauncher host) \<Rightarrow>
          if d = ReplaceIt then act_of (Inl (refused name)) else act_return (host, True)
      | None \<Rightarrow> act_of (Inl (refused name)))"

text \<open>The environment: what is exported and set, the command's own path, and the functions that are
  exported, whose names are wrapped.\<close>

definition set_exports :: "'w machine \<Rightarrow> Environment.environment \<Rightarrow> string \<rightharpoonup> string" where
  "set_exports M e =
     (\<lambda>k. case iter_exported e k of
            None \<Rightarrow> None
          | Some v \<Rightarrow> (case v_value v of Unset t \<Rightarrow> None | value \<Rightarrow> Some (mc_value_text M value)))"

definition FUNC_PREFIX :: string where
  "FUNC_PREFIX = ''BASH_FUNC_''"

definition FUNC_SUFFIX :: string where
  "FUNC_SUFFIX = ''%%''"

definition wrapped :: "string \<Rightarrow> string" where
  "wrapped name = FUNC_PREFIX @ name @ FUNC_SUFFIX"

definition unwrapped :: "string \<Rightarrow> string option" where
  "unwrapped k =
     (let name = take (length k - length FUNC_PREFIX - length FUNC_SUFFIX) (drop (length FUNC_PREFIX) k)
      in if k = wrapped name then Some name else None)"

definition exported_functions ::
  "'w machine \<Rightarrow> (string \<rightharpoonup> function_registration) \<Rightarrow> string \<rightharpoonup> string" where
  "exported_functions M funcs =
     (\<lambda>k. case unwrapped k of
            None \<Rightarrow> None
          | Some name \<Rightarrow>
              (case funcs name of
                 None \<Rightarrow> None
               | Some r \<Rightarrow> if fr_exported r then Some (''() '' @ mc_body_text M (fr_body r)) else None))"

definition child_env :: "'w machine \<Rightarrow> execution_context \<Rightarrow> string \<Rightarrow> bool \<Rightarrow> string \<rightharpoonup> string" where
  "child_env M c name empty_env =
     (if empty_env then Map.empty
      else (set_exports M (sh_env (ec_shell c)))(''_'' \<mapsto> name) ++
           exported_functions M (sh_funcs (ec_shell c)))"

text \<open>A standard stream that is not the shell process's own is handed over.\<close>

definition stream_for :: "'w machine \<Rightarrow> execution_context \<Rightarrow> int \<Rightarrow> failure + nat option" where
  "stream_for M c fd =
     (case params_try_fd (ec_shell c) (ec_params c) fd of
        None \<Rightarrow> Inr None
      | Some f \<Rightarrow>
          if mc_own_stream M f = Some fd then Inr None
          else map_sum id (\<lambda>_. Some f) (mc_stdio M f))"

definition other_fds :: "execution_context \<Rightarrow> int \<rightharpoonup> nat" where
  "other_fds c = (\<lambda>fd. if fd \<in> {0, 1, 2} then None else params_try_fd (ec_shell c) (ec_params c) fd)"

definition streams_of :: "nat option \<Rightarrow> nat option \<Rightarrow> nat option \<Rightarrow> int \<rightharpoonup> nat" where
  "streams_of i out err = (\<lambda>fd. if fd = 0 then i else if fd = 1 then out else if fd = 2 then err else None)"

definition host_directory :: "'w machine \<Rightarrow> execution_context \<Rightarrow> bool \<Rightarrow> ('w, string option) act" where
  "host_directory M c bundled =
     (if bundled then act_return None
      else asking io_failure
        (try_then (host_path_for_execution (mc_host M) (mc_unicode M) (ec_place c)
                     (pc_working_dir (ec_place c)))
           (\<lambda>p. ok (Some (host_text p)))))"

text \<open>The standard streams, then the other descriptors.\<close>

definition descriptors :: "'w machine \<Rightarrow> execution_context \<Rightarrow> failure + (int \<rightharpoonup> nat)" where
  "descriptors M c =
     (case stream_for M c 0 of
        Inl e \<Rightarrow> Inl e
      | Inr i \<Rightarrow>
          (case stream_for M c 1 of
             Inl e \<Rightarrow> Inl e
           | Inr out \<Rightarrow>
               (case stream_for M c 2 of
                  Inl e \<Rightarrow> Inl e
                | Inr err \<Rightarrow> map_sum id (\<lambda>_. streams_of i out err) (mc_inject M (other_fds c)))))"

definition with_rendezvous ::
  "'w machine \<Rightarrow> bool \<Rightarrow> composed \<Rightarrow> ('w, composed \<times> rendezvous option) act" where
  "with_rendezvous M bundled k =
     (if bundled
      then act_then (outside (mc_counter M)) (\<lambda>counter.
           act_then (asking io_failure
               (rendezvous_create (mc_host M) (mc_temp_dir M) (mc_own_pid M) counter)) (\<lambda>(rv, _).
           act_return (k\<lparr>cx_env := (cx_env k)(RENDEZVOUS_ENV \<mapsto> rv_path rv)\<rparr>, Some rv)))
      else act_return (k, None))"

definition compose_std_command ::
  "'w machine \<Rightarrow> execution_context \<Rightarrow> string \<Rightarrow> string \<Rightarrow> string list \<Rightarrow> bool \<Rightarrow> disposition \<Rightarrow>
   ('w, composed \<times> rendezvous option) act" where
  "compose_std_command M c name argv0 args empty_env d =
     act_then (host_command M c name args d) (\<lambda>(program, bundled).
     act_then (host_directory M c bundled) (\<lambda>cwd.
     act_then (act_of (descriptors M c)) (\<lambda>streams.
       with_rendezvous M bundled
         \<lparr> cx_program = program, cx_argv0 = argv0, cx_args = args, cx_cwd = cwd,
           cx_env = child_env M c name empty_env, cx_streams = streams, cx_fds = other_fds c \<rparr>)))"

section \<open>Starting it\<close>

definition group_for ::
  "'w machine \<Rightarrow> execution_context \<Rightarrow> int option \<Rightarrow> process_group" where
  "group_for M c pgid =
     (let terminal = (case params_try_fd (ec_shell c) (ec_params c) 0 of
                        None \<Rightarrow> False | Some f \<Rightarrow> mc_terminal M f)
      in if pa_policy (ec_params c) = NewProcessGroup
         then (if terminal \<and> op_leads_session (sh_options (ec_shell c)) then LeadSession
               else OwnGroup terminal)
         else (case pgid of Some g \<Rightarrow> JoinGroup g | None \<Rightarrow> ParentGroup))"

definition started_child :: "bool \<Rightarrow> int option \<Rightarrow> nat \<Rightarrow> int option \<Rightarrow> child_process" where
  "started_child new_group pgid h pid =
     \<lparr> cp_handle = h, cp_pid = pid,
       cp_pgid = (case pid of Some p \<Rightarrow> if new_group then Some p else pgid | None \<Rightarrow> pgid) \<rparr>"

text \<open>Where spawning fails: a missing working directory is told from a missing program.\<close>

definition spawn_failure :: "'w machine \<Rightarrow> execution_context \<Rightarrow> io_error \<Rightarrow> ('w, child_process) act" where
  "spawn_failure M c e =
     act_then
       (if op_interactive (sh_options (ec_shell c))
        then act_then (outside (mc_foreground M)) act_of else act_return ()) (\<lambda>_.
     if kind e = NotFound
     then act_then
       (asking io_failure (namespace_exists (mc_host M) (mc_unicode M) (pc_session (ec_place c))
          (pc_working_dir (ec_place c))))
       (\<lambda>b. act_of (Inl (if b then not_executable (ec_name c)
                         else failure_of (WorkingDirMissing (pc_working_dir (ec_place c))))))
     else act_of (Inl (failure_of (FailedToExecuteCommand (ec_name c) e))))"

text \<open>The child is handed the session; when that fails the child will.\<close>

definition serve_child ::
  "'w machine \<Rightarrow> execution_context \<Rightarrow> rendezvous option \<Rightarrow> int option \<Rightarrow> ('w, unit) act" where
  "serve_child M c rv pid =
     (case rv of
        None \<Rightarrow> act_return ()
      | Some rv \<Rightarrow> asking io_failure
          (try_then (attempt (broker_serve (mc_host M) (mc_fuel M) rv pid (pc_session (ec_place c))))
            (\<lambda>_. ok ())))"

definition drop_rendezvous :: "'w machine \<Rightarrow> rendezvous option \<Rightarrow> ('w, unit) act" where
  "drop_rendezvous M rv =
     (case rv of None \<Rightarrow> act_return () | Some rv \<Rightarrow> asking io_failure (rendezvous_drop (mc_host M) rv))"

text \<open>An action after another that failed or not.\<close>

definition act_finally :: "('w, 'a) act \<Rightarrow> ('w, unit) act \<Rightarrow> ('w, 'a) act" where
  "act_finally m f =
     (\<lambda>w. case m w of (r, es, w') \<Rightarrow> (case f w' of (u, es', w'') \<Rightarrow> (r, es @ es', w'')))"

definition execute_external_command ::
  "'w machine \<Rightarrow> execution_context \<Rightarrow> string \<Rightarrow> int option \<Rightarrow> string option \<Rightarrow> string list \<Rightarrow>
   ('w, child_process) act" where
  "execute_external_command M c path pgid argv0 args =
     act_then
       (compose_std_command M c path (case argv0 of None \<Rightarrow> ec_name c | Some a \<Rightarrow> a) args False SpawnIt)
       (\<lambda>(k, rv).
     act_then (spawning M k (group_for M c pgid) (op_kill_on_drop (sh_options (ec_shell c)))) (\<lambda>spawned.
       case spawned of
         Inr (h, pid) \<Rightarrow>
           act_then (serve_child M c rv pid) (\<lambda>_.
             act_return (started_child (pa_policy (ec_params c) = NewProcessGroup) pgid h pid))
       | Inl e \<Rightarrow> act_finally (spawn_failure M c e) (drop_rendezvous M rv)))"

section \<open>What is done outside\<close>

definition acts :: "(event \<Rightarrow> bool) \<Rightarrow> ('w, 'a) act \<Rightarrow> ('a \<Rightarrow> bool) \<Rightarrow> bool" where
  "acts P m Q \<longleftrightarrow> (\<forall>w. case m w of (r, es, w') \<Rightarrow> list_all P es \<and> (\<forall>x. r = Inr x \<longrightarrow> Q x))"

named_theorems acting

lemma acts_at: "acts P m Q \<Longrightarrow> m w = (r, es, w') \<Longrightarrow> list_all P es \<and> (\<forall>x. r = Inr x \<longrightarrow> Q x)"
  unfolding acts_def by (drule spec [of _ w]) simp

lemma acts_return [acting]: "Q x \<Longrightarrow> acts P (act_return x) Q"
  by (simp add: acts_def act_return_def)

lemma acts_of [acting]: "(\<And>x. r = Inr x \<Longrightarrow> Q x) \<Longrightarrow> acts P (act_of r) Q"
  by (simp add: acts_def act_of_def)

lemma acts_then:
  assumes "acts P m R" and "\<And>x. R x \<Longrightarrow> acts P (f x) Q"
  shows "acts P (act_then m f) Q"
  unfolding acts_def
proof
  fix w
  obtain r es w' where m: "m w = (r, es, w')" by (cases "m w")
  have a: "list_all P es" "\<And>x. r = Inr x \<Longrightarrow> R x" using acts_at [OF assms(1) m] by auto
  show "case act_then m f w of (r, es, w') \<Rightarrow> list_all P es \<and> (\<forall>x. r = Inr x \<longrightarrow> Q x)"
  proof (cases r)
    case (Inr x)
    obtain r' es' w'' where f: "f x w' = (r', es', w'')" by (cases "f x w'")
    show ?thesis using acts_at [OF assms(2) [OF a(2) [OF Inr]] f] a(1) by (simp add: act_then_def m Inr f)
  qed (use a in \<open>simp add: act_then_def m\<close>)
qed

lemma acts_asking:
  assumes "emits P m Q" and "\<And>q. P q \<Longrightarrow> P' (Asked q)"
  shows "acts P' (asking f m) Q"
  unfolding acts_def
proof
  fix w
  obtain r qs w' where m: "m w = (r, qs, w')" by (cases "m w")
  have "list_all P qs" and r: "\<And>x. r = Inr x \<Longrightarrow> Q x"
    using assms(1) [unfolded emits_def, rule_format, of w] by (simp_all add: m)
  then have "list_all P' (map Asked qs)" using assms(2) by (simp add: list_all_iff)
  moreover have "\<forall>x. map_sum f id r = Inr x \<longrightarrow> Q x" using r by (cases r) simp_all
  ultimately show "case asking f m w of (r, es, w') \<Rightarrow> list_all P' es \<and> (\<forall>x. r = Inr x \<longrightarrow> Q x)"
    by (simp add: asking_def m)
qed

lemma acts_outside [acting]: "acts P (outside f) (\<lambda>_. True)"
  by (simp add: acts_def outside_def split: prod.split)

lemma acts_spawning: "P (Spawned k g) \<Longrightarrow> acts P (spawning M k g kill) (\<lambda>_. True)"
  by (simp add: acts_def spawning_def split: prod.split)

lemma acts_finally: "acts P m Q \<Longrightarrow> acts P f R \<Longrightarrow> acts P (act_finally m f) Q"
  unfolding acts_def act_finally_def by (fastforce split: prod.splits)

lemma acts_weaken: "acts P m Q \<Longrightarrow> (\<And>x. Q x \<Longrightarrow> Q' x) \<Longrightarrow> acts P m Q'"
  unfolding acts_def by (fastforce split: prod.splits)

text \<open>What may be started: under a closed world, the launcher for a bundled utility that the policy
  admits, told where to fetch its session; under an open one, a program of the namespace in a
  directory of it.\<close>

definition dispatches :: "string \<Rightarrow> nat \<Rightarrow> trusted_launcher \<Rightarrow> builtin_policy \<Rightarrow> composed \<Rightarrow> bool" where
  "dispatches temp_dir own_pid l policy k \<longleftrightarrow>
     cx_program k = tl_path l \<and>
     (\<exists>name args. cx_args k = tl_dispatch_flag l # name # args \<and> admits policy name) \<and>
     cx_cwd k = None \<and>
     (\<exists>i. cx_env k RENDEZVOUS_ENV = Some (rendezvous_socket temp_dir own_pid i))"

definition from_namespace :: "mount_table \<Rightarrow> composed \<Rightarrow> bool" where
  "from_namespace t k \<longleftrightarrow>
     (\<exists>p. cx_program k = host_text p \<and> beneath_mounts t p) \<and>
     (\<exists>p. cx_cwd k = Some (host_text p) \<and> beneath_mounts t p)"

definition may_start ::
  "string \<Rightarrow> nat \<Rightarrow> external_execution \<Rightarrow> builtin_policy \<Rightarrow> mount_table \<Rightarrow> composed \<Rightarrow> bool" where
  "may_start temp_dir own_pid ex policy t k \<longleftrightarrow>
     (case ex of
        Sealed \<Rightarrow> False
      | Open \<Rightarrow> from_namespace t k
      | Bundled l \<Rightarrow> dispatches temp_dir own_pid l policy k)"

definition event_ok ::
  "string \<Rightarrow> nat \<Rightarrow> external_execution \<Rightarrow> builtin_policy \<Rightarrow> session \<Rightarrow> event \<Rightarrow> bool" where
  "event_ok temp_dir own_pid ex policy s e \<longleftrightarrow>
     (case e of
        Asked q \<Rightarrow> request_confined (s_vfs s) q \<or>
          (\<exists>l. ex = Bundled l) \<and> handover_asks temp_dir own_pid s q
      | Spawned k g \<Rightarrow> may_start temp_dir own_pid ex policy (s_vfs s) k)"

definition obeys :: "'w machine \<Rightarrow> execution_context \<Rightarrow> event \<Rightarrow> bool" where
  "obeys M c =
     event_ok (mc_temp_dir M) (mc_own_pid M) (sh_execution (ec_shell c)) (sh_builtin_policy (ec_shell c))
       (pc_session (ec_place c))"

lemma acts_confined:
  "emits (request_confined (s_vfs (pc_session (ec_place c)))) m Q \<Longrightarrow> acts (obeys M c) (asking f m) Q"
  by (erule acts_asking) (simp add: obeys_def event_ok_def)

lemma acts_handover:
  "emits (handover_asks (mc_temp_dir M) (mc_own_pid M) (pc_session (ec_place c))) m Q \<Longrightarrow>
     sh_execution (ec_shell c) = Bundled l \<Longrightarrow> acts (obeys M c) (asking f m) Q"
  by (erule acts_asking) (simp add: obeys_def event_ok_def)

text \<open>The program found: which one, by the policy of the shell.\<close>

definition program_ok :: "execution_context \<Rightarrow> string list \<Rightarrow> string \<times> bool \<Rightarrow> bool" where
  "program_ok c args = (\<lambda>(program, bundled).
     case sh_execution (ec_shell c) of
       Sealed \<Rightarrow> False
     | Open \<Rightarrow> \<not> bundled \<and>
         (\<exists>p. program = host_text p \<and> beneath_mounts (s_vfs (pc_session (ec_place c))) p)
     | Bundled l \<Rightarrow> bundled \<and> program = tl_path l \<and>
         (\<exists>name rest. args = tl_dispatch_flag l # name # rest \<and> admits (sh_builtin_policy (ec_shell c)) name))"

lemma host_command_acts:
  assumes "nfc_ok (mc_unicode M)" and "session_ok (mc_unicode M) (pc_session (ec_place c))"
  shows "acts (obeys M c) (host_command M c name args d) (program_ok c args)"
proof (cases "sh_execution (ec_shell c)")
  case Open
  show ?thesis
    unfolding host_command_def Let_def Open permit.simps option.case exec_permit.case
    by (intro acts_confined emits_try_then [OF host_path_for_execution_confined [OF assms]] emits_ok)
       (auto simp: program_ok_def Open)
next
  case (Bundled l)
  have args: "\<exists>name. (\<exists>rest. args = tl_dispatch_flag l # name # rest) \<and> admits policy name"
    if "args ! 0 = tl_dispatch_flag l" "Suc 0 < length args" "admits policy (args ! Suc 0)" for policy
    using that by (cases args; cases "tl args") auto
  show ?thesis
    unfolding host_command_def Let_def Bundled permit.simps
    by (auto simp: program_ok_def Bundled intro!: acting args split: if_splits option.split)
qed (auto simp: host_command_def intro!: acting)

lemma host_directory_acts:
  assumes "nfc_ok (mc_unicode M)" and "session_ok (mc_unicode M) (pc_session (ec_place c))"
  shows "acts (obeys M c) (host_directory M c bundled)
    (\<lambda>d. if bundled then d = None
         else \<exists>p. d = Some (host_text p) \<and> beneath_mounts (s_vfs (pc_session (ec_place c))) p)"
  unfolding host_directory_def
  by (auto intro!: acting acts_confined emits_try_then [OF host_path_for_execution_confined [OF assms]] emits_ok)

text \<open>A composed command may be started, and its rendezvous is this process's own.\<close>

definition composed_ok :: "'w machine \<Rightarrow> execution_context \<Rightarrow> composed \<times> rendezvous option \<Rightarrow> bool" where
  "composed_ok M c = (\<lambda>(k, rv).
     may_start (mc_temp_dir M) (mc_own_pid M) (sh_execution (ec_shell c)) (sh_builtin_policy (ec_shell c))
       (s_vfs (pc_session (ec_place c))) k \<and>
     (case rv of
        None \<Rightarrow> True
      | Some rv \<Rightarrow> (\<exists>l. sh_execution (ec_shell c) = Bundled l) \<and>
          rv_dir rv = rendezvous_dir (mc_temp_dir M) (mc_own_pid M) \<and>
          (\<exists>i. rv_path rv = rendezvous_socket (mc_temp_dir M) (mc_own_pid M) i)))"

lemma compose_acts:
  assumes "nfc_ok (mc_unicode M)" and "session_ok (mc_unicode M) (pc_session (ec_place c))"
  shows "acts (obeys M c) (compose_std_command M c name argv0 args empty_env d) (composed_ok M c)"
  unfolding compose_std_command_def
proof (rule acts_then [OF host_command_acts [OF assms]], clarify)
  fix program bundled
  assume p: "program_ok c args (program, bundled)"
  show "acts (obeys M c)
     (act_then (host_directory M c bundled) (\<lambda>cwd. act_then (act_of (descriptors M c)) (\<lambda>streams.
       with_rendezvous M bundled
         \<lparr> cx_program = program, cx_argv0 = argv0, cx_args = args, cx_cwd = cwd,
           cx_env = child_env M c name empty_env, cx_streams = streams, cx_fds = other_fds c \<rparr>)))
     (composed_ok M c)"
  proof (rule acts_then [OF host_directory_acts [OF assms]], rule acts_then [OF acts_of [OF TrueI]])
    fix cwd streams
    assume d: "if bundled then cwd = None
      else \<exists>p. cwd = Some (host_text p) \<and> beneath_mounts (s_vfs (pc_session (ec_place c))) p"
    let ?k = "\<lparr> cx_program = program, cx_argv0 = argv0, cx_args = args, cx_cwd = cwd,
       cx_env = child_env M c name empty_env, cx_streams = streams, cx_fds = other_fds c \<rparr>"
    show "acts (obeys M c) (with_rendezvous M bundled ?k) (composed_ok M c)"
    proof (cases bundled)
      case True
      with p obtain l where l: "sh_execution (ec_shell c) = Bundled l"
        by (auto simp: program_ok_def split: external_execution.splits)
      show ?thesis
        unfolding with_rendezvous_def if_P [OF True]
        by (rule acts_then [OF acts_outside], rule acts_then [OF acts_handover [OF create_handover l]])
           (use p d True in \<open>auto intro!: acting simp: composed_ok_def may_start_def l program_ok_def dispatches_def\<close>)
    next
      case False
      with p d show ?thesis
        by (auto intro!: acting simp: with_rendezvous_def composed_ok_def program_ok_def may_start_def
            from_namespace_def split: external_execution.splits)
    qed
  qed
qed

lemma spawn_failure_acts:
  assumes "nfc_ok (mc_unicode M)" and "session_ok (mc_unicode M) (pc_session (ec_place c))"
  shows "acts (obeys M c) (spawn_failure M c e) (\<lambda>_. True)"
  unfolding spawn_failure_def
proof (rule acts_then [where R = "\<lambda>_. True"])
  show "acts (obeys M c) (if op_interactive (sh_options (ec_shell c))
      then act_then (outside (mc_foreground M)) act_of else act_return ()) (\<lambda>_. True)"
    by (auto intro!: acting acts_then [OF acts_outside])
  show "acts (obeys M c) (if kind e = NotFound
     then act_then
       (asking io_failure (namespace_exists (mc_host M) (mc_unicode M) (pc_session (ec_place c))
          (pc_working_dir (ec_place c))))
       (\<lambda>b. act_of (Inl (if b then not_executable (ec_name c)
                         else failure_of (WorkingDirMissing (pc_working_dir (ec_place c))))))
     else act_of (Inl (failure_of (FailedToExecuteCommand (ec_name c) e)))) (\<lambda>_. True)"
    by (auto intro!: acting acts_then [OF acts_confined [OF namespace_exists_confined [OF assms]]])
qed

lemma execute_acts:
  assumes "nfc_ok (mc_unicode M)" and "session_ok (mc_unicode M) (pc_session (ec_place c))"
  shows "acts (obeys M c) (execute_external_command M c path pgid argv0 args) (\<lambda>_. True)"
  unfolding execute_external_command_def
proof (rule acts_then [OF compose_acts [OF assms(1,2)]], clarify)
  fix k rv
  assume k: "composed_ok M c (k, rv)"
  then have start: "obeys M c (Spawned k g)" for g by (simp add: composed_ok_def obeys_def event_ok_def)
  have serve: "acts (obeys M c) (serve_child M c rv pid) (\<lambda>_. True)" for pid
    using k by (auto simp: serve_child_def composed_ok_def intro!: acting acts_handover
        emits_try_then [OF emits_attempt [OF serve_handover]] emits_ok split: option.splits)
  have drop: "acts (obeys M c) (drop_rendezvous M rv) (\<lambda>_. True)"
    using k by (auto simp: drop_rendezvous_def composed_ok_def intro!: acting acts_handover [OF drop_handover]
        split: option.splits)
  show "acts (obeys M c) (act_then
     (spawning M k (group_for M c pgid) (op_kill_on_drop (sh_options (ec_shell c)))) (\<lambda>spawned.
       case spawned of
         Inr (h, pid) \<Rightarrow>
           act_then (serve_child M c rv pid) (\<lambda>_.
             act_return (started_child (pa_policy (ec_params c) = NewProcessGroup) pgid h pid))
       | Inl e \<Rightarrow> act_finally (spawn_failure M c e) (drop_rendezvous M rv))) (\<lambda>_. True)"
    by (rule acts_then [OF acts_spawning], rule start)
       (auto intro!: acts_then [OF serve] acting acts_finally [OF spawn_failure_acts [OF assms(1,2)] drop]
         split: sum.split)
qed

text \<open>C8. An external command, end to end. Whatever the host and the runtime answer: nothing starts that the
  policy does not let start, and every request of the host is confined to the session's namespace or
  belongs to handing the session to the bundled utility that was started.\<close>

theorem external_command_obeys:
  assumes "nfc_ok (mc_unicode M)" and "session_ok (mc_unicode M) (pc_session (ec_place c))"
    and "execute_external_command M c path pgid argv0 args w = (r, es, w')"
  shows "list_all (event_ok (mc_temp_dir M) (mc_own_pid M) (sh_execution (ec_shell c))
    (sh_builtin_policy (ec_shell c)) (pc_session (ec_place c))) es"
  using acts_at [OF execute_acts [OF assms(1,2)] assms(3)] by (simp add: obeys_def)

text \<open>A process that is to be replaced never becomes a bundled utility, which nobody could hand a session:
  the refusal comes before anything is asked.\<close>

theorem replace_never_dispatches:
  "sh_execution (ec_shell c) \<noteq> Open \<Longrightarrow>
     compose_std_command M c name argv0 args empty_env ReplaceIt w = (Inl (refused name), [], w)"
  by (cases "sh_execution (ec_shell c)")
     (auto simp: compose_std_command_def host_command_def act_then_def act_of_def Let_def split: option.split)

definition demo_machine :: "unit machine" where
  "demo_machine =
     \<lparr> mc_host = still_host, mc_unicode = ascii_unicode, mc_temp_dir = ''/tmp'', mc_own_pid = 5,
       mc_counter = (\<lambda>w. (0, w)), mc_fuel = 1, mc_value_text = (\<lambda>v. []), mc_body_text = (\<lambda>b. []),
       mc_own_stream = (\<lambda>f. None), mc_terminal = (\<lambda>f. False), mc_stdio = (\<lambda>f. Inr ()),
       mc_inject = (\<lambda>fds. Inr ()), mc_spawn = (\<lambda>k g kill w. (Inr (9, Some 8), w)),
       mc_foreground = (\<lambda>w. (Inr (), w)) \<rparr>"

definition demo_closed_world :: external_execution where
  "demo_closed_world = Bundled \<lparr> tl_path = ''/bin/app'', tl_dispatch_flag = ''--invoke-bundled'' \<rparr>"

definition demo_context :: execution_context where
  "demo_context =
     \<lparr> ec_shell = blank_shell demo_closed_world (allowlist [''ls'']) demo_place, ec_name = ''ls'',
       ec_params = params_default \<rparr>"

definition is_spawned :: "event \<Rightarrow> bool" where
  "is_spawned e \<longleftrightarrow> (case e of Spawned k g \<Rightarrow> True | Asked q \<Rightarrow> False)"

theorem external_command_obeys_witness:
  "\<exists>r es w'. execute_external_command demo_machine demo_context ''/bin/app'' None None
      [''--invoke-bundled'', ''ls''] () = (r, es, w') \<and> list_ex is_spawned es \<and>
    list_all (event_ok ''/tmp'' 5 demo_closed_world (allowlist [''ls'']) (session_new demo_table)) es"
proof -
  let ?run = "execute_external_command demo_machine demo_context ''/bin/app'' None None
      [''--invoke-bundled'', ''ls''] ()"
  have m: "mc_unicode demo_machine = ascii_unicode" "mc_temp_dir demo_machine = ''/tmp''"
    "mc_own_pid demo_machine = 5" by (simp_all add: demo_machine_def)
  have c: "pc_session (ec_place demo_context) = session_new demo_table"
    "sh_execution (ec_shell demo_context) = demo_closed_world"
    "sh_builtin_policy (ec_shell demo_context) = allowlist [''ls'']"
    by (simp_all add: demo_context_def ec_place_def blank_shell_def demo_place_def)
  obtain r es w' where run: "?run = (r, es, w')" by (cases ?run)
  have "list_ex is_spawned (fst (snd ?run))" by code_simp
  with run have spawned: "list_ex is_spawned es" by simp
  have "nfc_ok (mc_unicode demo_machine)" unfolding m by (rule nfc_ok_ascii)
  moreover have "session_ok (mc_unicode demo_machine) (pc_session (ec_place demo_context))"
    unfolding c by (rule session_ok_new)
  ultimately have "list_all (event_ok ''/tmp'' 5 demo_closed_world (allowlist [''ls''])
      (session_new demo_table)) es"
    using external_command_obeys [OF _ _ run] unfolding m c by blast
  with run spawned show ?thesis by blast
qed

end
