(* ===== verification/Interp_Policy.thy ===== *)
theory Interp_Policy
  imports Interp External_Command
begin

text \<open>
  The interpreter over its namespace. A shell's policies are fixed while it runs, so what its external
  commands may do is fixed too: \<open>guards\<close> says of a run that it keeps a property of the shell's standing
  and a property of the world. The locale \<open>guarded\<close> states what that takes of the functions the
  interpreter calls; \<open>namespaced\<close> is an interface whose programs are found and started by
  \<open>Shell_Namespace\<close> and \<open>External_Command\<close>.
\<close>

section \<open>What a run keeps of the shell and the world\<close>

type_synonym 's standing = "external_execution \<times> builtin_policy \<times> 's"

definition standing :: "'s shell \<Rightarrow> 's standing" where
  "standing sh = (sh_execution sh, sh_builtin_policy sh, sh_rest sh)"

definition guards :: "('s standing \<Rightarrow> bool) \<Rightarrow> ('w \<Rightarrow> bool) \<Rightarrow> ('s, 'w, 'a) sh \<Rightarrow> bool" where
  "guards S V m \<longleftrightarrow>
     (\<forall>sh w r sh' w'. m (sh, w) = Some (r, sh', w') \<longrightarrow> S (standing sh) \<longrightarrow> V w \<longrightarrow>
        S (standing sh') \<and> V w')"

named_theorems guarding

lemma guardsI:
  "(\<And>sh w r sh' w'. m (sh, w) = Some (r, sh', w') \<Longrightarrow> S (standing sh) \<Longrightarrow> V w \<Longrightarrow>
      S (standing sh') \<and> V w') \<Longrightarrow> guards S V m"
  unfolding guards_def by blast

lemma guardsD:
  "guards S V m \<Longrightarrow> m (sh, w) = Some (r, sh', w') \<Longrightarrow> S (standing sh) \<Longrightarrow> V w \<Longrightarrow>
     S (standing sh') \<and> V w'"
  unfolding guards_def by blast

lemma guards_basic [guarding]:
  "guards S V (pure v)" "guards S V (raise e)" "guards S V (of_result q)" "guards S V (asks_shell g)"
  "guards S V (failing k)" "guards S V (\<lambda>t. None)"
  by (rule guardsI; simp add: run_defs)+

lemma guards_andthen [guarding]:
  assumes "guards S V m" and "\<And>v. guards S V (k v)"
  shows "guards S V (andthen m k)"
proof (rule guardsI)
  fix sh w r sh' w'
  assume a: "andthen m k (sh, w) = Some (r, sh', w')" "S (standing sh)" "V w"
  from a(1) show "S (standing sh') \<and> V w'"
  proof (cases rule: andthen_cases)
    case (1 e)
    from guardsD [OF assms(1) this(1) a(2,3)] show ?thesis .
  next
    case (2 v sh1 w1)
    from guardsD [OF assms(1) 2(1) a(2,3)] guardsD [OF assms(2) 2(2)] show ?thesis by blast
  qed
qed

lemma guards_attempted [guarding]: "guards S V m \<Longrightarrow> guards S V (attempted m)"
  by (rule guardsI) (auto simp: attempted_def dest: guardsD split: option.splits if_splits)

lemma guards_ignoring [guarding]: "guards S V m \<Longrightarrow> guards S V (ignoring m)"
  unfolding ignoring_def by (intro guarding)

lemma guards_caught [guarding]:
  "guards S V m \<Longrightarrow> (\<And>e. guards S V (h e)) \<Longrightarrow> guards S V (caught m h)"
  unfolding caught_def by (rule guards_andthen [OF guards_attempted]) (auto intro: guarding split: sum.split)

lemma guards_modifies [guarding]: "(\<And>sh. standing (g sh) = standing sh) \<Longrightarrow> guards S V (modifies g)"
  by (rule guardsI) (auto simp: modifies_def)

lemma guards_updates [guarding]: "(\<And>sh. standing (fst (g sh)) = standing sh) \<Longrightarrow> guards S V (updates g)"
  by (rule guardsI) (auto simp: updates_def split: prod.splits; metis fst_conv)

lemma guards_env_update [guarding]: "guards S V (env_update f)"
  unfolding env_update_def by (rule guards_updates) (simp add: standing_def split: prod.split)

lemma guards_performs [guarding]:
  "(\<And>sh w. S (standing sh) \<Longrightarrow> V w \<Longrightarrow> V (snd (h sh w))) \<Longrightarrow> guards S V (performs h)"
  by (rule guardsI) (auto simp: performs_def split: prod.splits; metis snd_conv)

lemma guards_in_clone [guarding]:
  assumes "guards S V m" and "\<And>sh. standing (g (clone sh)) = standing sh"
  shows "guards S V (in_clone g m)"
proof (rule guardsI)
  fix sh w r sh' w'
  assume a: "in_clone g m (sh, w) = Some (r, sh', w')" "S (standing sh)" "V w"
  then obtain q sub where m: "m (g (clone sh), w) = Some (q, sub, w')" and "sh' = sh"
    by (auto simp: in_clone_def split: option.splits if_splits)
  with guardsD [OF assms(1) m] assms(2) a(2,3) show "S (standing sh') \<and> V w'" by simp
qed

lemma guards_collected [guarding]: "(\<And>x. guards S V (f x)) \<Longrightarrow> guards S V (collected_each f xs)"
  by (induction xs) (simp_all add: guarding)

lemma guards_cases [guarding]:
  "\<And>b. guards S V m \<Longrightarrow> guards S V m' \<Longrightarrow> guards S V (if b then m else m')"
  "\<And>q. (\<And>a b. guards S V (f a b)) \<Longrightarrow> guards S V (case q of (a, b) \<Rightarrow> f a b)"
  "\<And>q. guards S V m \<Longrightarrow> (\<And>a. guards S V (g a)) \<Longrightarrow> guards S V (case q of None \<Rightarrow> m | Some a \<Rightarrow> g a)"
  "\<And>q. (\<And>a. guards S V (h a)) \<Longrightarrow> (\<And>b. guards S V (k b)) \<Longrightarrow>
     guards S V (case q of Inl a \<Rightarrow> h a | Inr b \<Rightarrow> k b)"
  "\<And>q. (\<And>a. guards S V (l a)) \<Longrightarrow> guards S V (Let q l)"
  by (auto split: prod.split option.split sum.split)

lemma snd_of_case [simp]: "snd (case q of (a, b) \<Rightarrow> (f a b, g a b)) = (case q of (a, b) \<Rightarrow> g a b)"
  by (simp split: prod.split)

lemma standing_simps [simp]:
  "\<And>x. standing (sh\<lparr>sh_jobs := x\<rparr>) = standing sh" "\<And>x. standing (sh\<lparr>sh_files := x\<rparr>) = standing sh"
  "\<And>x. standing (sh\<lparr>sh_pipeline_statuses := x\<rparr>) = standing sh"
  "\<And>x. standing (sh\<lparr>sh_funcs := x\<rparr>) = standing sh" "\<And>x. standing (sh\<lparr>sh_status := x\<rparr>) = standing sh"
  "\<And>x. standing (sh\<lparr>sh_status_changes := x\<rparr>) = standing sh"
  "\<And>x. standing (sh\<lparr>sh_env := x\<rparr>) = standing sh" "\<And>x. standing (sh\<lparr>sh_stack := x\<rparr>) = standing sh"
  "\<And>x. standing (sh\<lparr>sh_options := x\<rparr>) = standing sh" "standing (clone sh) = standing sh"
  "standing (set_last_exit_status n sh) = standing sh" "standing (pushed_scope sc sh) = standing sh"
  "standing (fst (popped_scope sc sh)) = standing sh" "standing (pushed_status q sh) = standing sh"
  "standing (update_last_arg_variable a sh) = standing sh"
  "standing (fst (enter_function name reg args sh)) = standing sh"
  "standing (fst (define_function I word body sh)) = standing sh"
  by (simp_all add: standing_def clone_def set_last_exit_status_def pushed_scope_def popped_scope_def
      pushed_status_def update_last_arg_variable_def enter_function_def
      define_function_def Let_def split: option.split prod.split)

lemma standing_leave [simp]: "standing (fst (leave_function sh)) = standing sh"
  by (auto simp: leave_function_def popped_scope_def standing_def split: prod.split sum.split option.split)

section \<open>The interpreter keeps it\<close>

text \<open>What the functions the interpreter calls have to keep. A task that is spawned runs on its own: \<open>tasks\<close>
  is about starting it.\<close>

locale guarded_services =
  fixes I :: "('s, 'w) interface" and S :: "'s standing \<Rightarrow> bool" and V :: "'w \<Rightarrow> bool"
  assumes words: "guards S V (x_fields I w p)" "guards S V (x_word I w p)"
      "guards S V (x_assignment_word I w p)" "guards S V (x_heredoc_word I w p)"
    and tests: "guards S V (x_pattern_matches I w s p)" "guards S V (x_arith I s b p)"
      "guards S V (x_test I s p)"
    and builtins: "guards S V (x_builtin I n s args p)"
    and traces: "guards S V (x_trace I s p)"
    and temporaries: "V w' \<Longrightarrow> V (snd (x_temp_file I s w'))" "V w' \<Longrightarrow> V (snd (x_pipe I w'))"
      "V w' \<Longrightarrow> V (snd (x_null I w'))"
    and display: "V w' \<Longrightarrow> V (snd (x_write_stderr I s sh p w'))" "V w' \<Longrightarrow> V (snd (x_display I e f sh w'))"
    and tasks: "V w' \<Longrightarrow> S (standing sh) \<Longrightarrow> V (snd (x_spawn I c sh p w'))"
    and terminal: "V w' \<Longrightarrow> V (snd (x_foreground I w'))" "V w' \<Longrightarrow> V (snd (x_start_timing I w'))"
      "V w' \<Longrightarrow> V (snd (x_report_timing I timed since out w'))"
    and runtime: "V w' \<Longrightarrow> V (snd (rt_wait_child (x_runtime I) child w'))"
      "V w' \<Longrightarrow> V (snd (rt_join (x_runtime I) n w'))"

text \<open>And of those that reach the namespace.\<close>

locale guarded = guarded_services I S V
  for I :: "('s, 'w) interface" and S :: "'s standing \<Rightarrow> bool" and V :: "'w \<Rightarrow> bool" +
  assumes files: "V w' \<Longrightarrow> S (standing sh) \<Longrightarrow> V (snd (x_open I mode s sh p w'))"
      "V w' \<Longrightarrow> S (standing sh) \<Longrightarrow> V (snd (x_regular I s sh w'))"
    and externals: "V w' \<Longrightarrow> S (standing sh) \<Longrightarrow> V (snd (x_external I sh p s path pgid strings w'))"
      "V w' \<Longrightarrow> S (standing sh) \<Longrightarrow> V (snd (x_executable I s sh w'))"
      "V w' \<Longrightarrow> S (standing sh) \<Longrightarrow>
         S (standing (fst (snd (x_find_executable I s (sh, w'))))) \<and>
         V (snd (snd (x_find_executable I s (sh, w'))))"
begin

lemmas [guarding] = words tests builtins traces

lemma performs_simply: "(\<And>sh w. S (standing sh) \<Longrightarrow> V w \<Longrightarrow> V (snd (h sh w))) \<Longrightarrow>
    guards S V (performs (\<lambda>sh w. case h sh w of (r, w') \<Rightarrow> (f r, w')))"
  by (rule guards_performs) (simp split: prod.split, metis snd_conv)

lemma guards_tracing [guarding]: "guards S V (tracing_commands I s p)"
  unfolding tracing_commands_def by (intro guarding)

lemma guards_display [guarding]: "guards S V (performs (x_display I e f))"
  "guards S V (performs (\<lambda>sh'. x_display I e f sh))"
  by (rule guards_performs, simp add: display)+

lemma guards_stderr [guarding]: "guards S V (performs (\<lambda>sh. x_write_stderr I (text sh) sh p))"
  by (rule guards_performs) (simp add: display)

lemma guards_pipe [guarding]: "guards S V (performs (\<lambda>sh. x_pipe I))" "guards S V (performs (\<lambda>sh. x_null I))"
  "guards S V (performs (\<lambda>sh. x_temp_file I s))" "guards S V (performs (\<lambda>sh. x_foreground I))"
  "guards S V (performs (\<lambda>sh. x_start_timing I))" "guards S V (performs (\<lambda>sh. x_report_timing I timed since out))"
  by (rule guards_performs, simp add: temporaries terminal)+

lemma guards_spawn [guarding]:
  "(\<And>sh. standing (g sh) = standing sh) \<Longrightarrow>
     guards S V (performs (\<lambda>sh w. case x_spawn I c (g sh) p w of (h, w') \<Rightarrow> (k h, w')))"
  by (rule performs_simply) (simp add: tasks)

lemma guards_reported [guarding]: "guards S V (reported I f e)" "guards S V (reported_now I p e)"
  unfolding reported_now_def reported_def by (intro guarding)+

lemma guards_noting [guarding]: "guards S V (noting_status r)"
  unfolding noting_status_def by (intro guarding standing_simps)

lemma guards_additional [guarding]:
  "(\<And>pl p. guards S V (run pl p)) \<Longrightarrow> guards S V (additional_execute run p r rest)"
  by (induction rest arbitrary: r) (simp_all add: guarding)

lemma guards_and_or [guarding]: "(\<And>pl p. guards S V (run pl p)) \<Longrightarrow> guards S V (and_or_execute run l p)"
  unfolding and_or_execute_def by (cases l) (auto intro!: guarding)

lemma guards_spawn_async [guarding]: "guards S V (spawn_async I l p)"
  unfolding spawn_async_def by (intro guarding standing_simps) simp

lemma guards_items [guarding]:
  "(\<And>pl p. guards S V (run pl p)) \<Longrightarrow> guards S V (items_execute I run p r items)"
  by (induction items arbitrary: r rule: list_of_pairs_induct) (simp_all add: guarding)

lemma guards_list [guarding]: "(\<And>pl p. guards S V (run pl p)) \<Longrightarrow> guards S V (list_execute I run l p)"
  unfolding list_execute_def by (cases l) (auto intro!: guarding)

lemma guards_commands [guarding]:
  "(\<And>pl p. guards S V (run pl p)) \<Longrightarrow> guards S V (commands_execute I run p r cs)"
  by (induction cs arbitrary: r) (simp_all add: guarding)

lemma guards_run_string [guarding]:
  "(\<And>pl p. guards S V (run pl p)) \<Longrightarrow> guards S V (run_string I run s p)"
  unfolding run_string_def program_execute_def by (intro guarding)

lemma guards_trap [guarding]:
  "(\<And>pl p. guards S V (run pl p)) \<Longrightarrow> guards S V (invoke_trap_handler I run signal p)"
  unfolding invoke_trap_handler_def by (intro guarding) simp_all

end

context guarded
begin

lemma guards_substitution [guarding]: "guards S V (setup_process_substitution I k l p)"
  unfolding setup_process_substitution_def by (intro guarding) simp

lemma guards_opened [guarding]: "guards S V (opened_for I mode file p)"
  unfolding opened_for_def by (rule performs_simply) (simp add: files)

lemma guards_regular [guarding]: "guards S V (performs (\<lambda>sh w. case x_regular I file sh w of (b, w') \<Rightarrow> (k b, w')))"
  by (rule performs_simply) (simp add: files)

lemma guards_both [guarding]: "guards S V (output_and_error_to I file b p)"
  unfolding output_and_error_to_def by (intro guarding)

lemma guards_one_field [guarding]: "guards S V (one_field I word p)"
  unfolding one_field_def by (intro guarding) (auto split: list.split intro: guarding)

lemma guards_from_fd [guarding]: "guards S V (from_fd n m p)"
  unfolding from_fd_def by (intro guarding)

lemma guards_duplicate [guarding]: "guards S V (duplicate_text I fd s p)"
  unfolding duplicate_text_def by (intro guarding)

lemma guards_redirect [guarding]: "guards S V (setup_redirect I r p)"
  unfolding setup_redirect_def
  by (cases r) (auto intro!: guarding split: redirect_target.split)

lemma guards_redirects [guarding]: "guards S V (setup_redirects I rs p)"
  by (induction rs arbitrary: p) (simp_all add: guarding)

lemma guards_expand_name [guarding]: "guards S V (expand_name I n p)"
  unfolding expand_name_def by (cases n) (auto intro!: guarding)

lemma guards_element [guarding]: "guards S V (expand_element I p kv)"
  unfolding expand_element_def by (intro guarding)

lemma guards_expand [guarding]: "guards S V (expand_assignment I a p)"
  unfolding expand_assignment_def by (intro guarding) (auto intro!: guarding split: assignment_value.split)

lemma guards_apply [guarding]: "guards S V (apply_assignment I a p export required creation)"
  unfolding apply_assignment_def
  by (intro guarding) (auto intro!: guarding split: assignment_value.split assignment_name.split)

lemma guards_apply_all [guarding]:
  "guards S V (apply_command_assignments I as p)" "guards S V (apply_assignments I as p)"
  by (induction as) (simp_all add: guarding)

lemma guards_builtin [guarding]: "guards S V (execute_builtin I b name args p)"
  unfolding execute_builtin_def by (intro guarding)

lemma guards_concluded [guarding]: "guards S V m \<Longrightarrow> guards S V (concluded args m)"
  unfolding concluded_def by (intro guarding) simp_all

lemma guards_function [guarding]:
  "(\<And>k p. guards S V (body_run k p)) \<Longrightarrow> guards S V (invoke_shell_function I body_run name reg args p)"
  unfolding invoke_shell_function_def
  by (cases "fr_body reg") (auto intro!: guarding)

lemma guards_external [guarding]: "guards S V (run_external I name path pgid args p)"
  unfolding run_external_def by (intro guarding performs_simply) (simp add: externals)

lemma guards_executable [guarding]:
  "guards S V (performs (\<lambda>sh w. case x_executable I name sh w of (b, w') \<Rightarrow> (k b, w')))"
  by (rule performs_simply) (simp add: externals)

lemma guards_find [guarding]:
  "guards S V (\<lambda>t. case x_find_executable I name t of (path, t') \<Rightarrow> Some (Inr path, t'))"
proof (rule guardsI)
  fix sh w r sh' w'
  assume a: "(case x_find_executable I name (sh, w) of (path, t') \<Rightarrow> Some (Inr path, t')) = Some (r, sh', w')"
    and "S (standing sh)" and "V w"
  with externals(3) [of w sh name] show "S (standing sh') \<and> V w'" by (auto split: prod.splits)
qed

lemma guards_dispatch [guarding]:
  "(\<And>k p. guards S V (body_run k p)) \<Longrightarrow> guards S V (dispatch I body_run owned pgid name args p)"
  unfolding dispatch_def not_found_def
  by (intro guarding) (auto intro!: guarding split: target.split)

lemma guards_preexecute [guarding]:
  "(\<And>pl p. guards S V (run pl p)) \<Longrightarrow> guards S V (on_preexecute I run args p)"
  unfolding on_preexecute_def by (intro guarding)

lemma guards_execute_command [guarding]:
  "(\<And>pl p. guards S V (run pl p)) \<Longrightarrow> (\<And>k p. guards S V (body_run k p)) \<Longrightarrow>
     guards S V (execute_command I run body_run owned pgid name assignments args p)"
  unfolding execute_command_def by (intro guarding) simp_all

lemma guards_collect_item [guarding]: "guards S V (collect_item I item c)"
  unfolding collect_item_def collect_word_def
  by (cases item) (auto intro!: guarding)

lemma guards_collect [guarding]: "guards S V (collect_items I items c)"
  by (induction items arbitrary: c) (simp_all add: guarding)

lemma guards_assign_only [guarding]: "guards S V (assign_only I n as p)"
  unfolding assign_only_def by (intro guarding) simp_all

lemma guards_reported_by [guarding]: "guards S V (reported_by I asker f e)"
  unfolding reported_by_def by (cases asker) (auto intro!: guarding)

lemma guards_simple [guarding]:
  "(\<And>pl p. guards S V (run pl p)) \<Longrightarrow> (\<And>k p. guards S V (body_run k p)) \<Longrightarrow>
     guards S V (simple_execute I run body_run asker pgid c p)"
  unfolding simple_execute_def
  by (intro guarding) (auto intro!: guarding split: list.split command_arg.split)

end

context guarded
begin

lemma guards_loop_variable [guarding]: "guards S V (assign_loop_variable I name v)"
  unfolding assign_loop_variable_def by (intro guarding)

lemma guards_for [guarding]:
  assumes run: "\<And>pl p. guards S V (run pl p)"
  shows "guards S V (for_execute I run name ws body p)"
proof -
  have "guards S V (for_each I run header name body p r vs)" for header r vs
    by (induction vs arbitrary: r) (simp_all add: guarding run)
  then show ?thesis
    unfolding for_execute_def by (intro guarding) (auto intro!: guarding)
qed

lemma guards_case [guarding]:
  assumes run: "\<And>pl p. guards S V (run pl p)"
  shows "guards S V (case_execute I run word cases p)"
proof -
  have pats: "guards S V (any_pattern I pats v p)" for pats v
    by (induction pats) (simp_all add: guarding)
  have "guards S V (cases_execute I run v p forced r cases)" for v forced r
  proof (induction cases arbitrary: forced r)
    case (Cons c cases)
    obtain pats body post where c: "c = CaseItem pats body post" by (cases c)
    show ?case
      unfolding c cases_execute.simps
      by (intro guarding pats Cons.IH run) (cases post; simp add: Cons.IH guarding)
  qed (simp add: guarding)
  then show ?thesis unfolding case_execute_def by (intro guarding)
qed

lemma guards_elses [guarding]:
  assumes run: "\<And>pl p. guards S V (run pl p)"
  shows "guards S V (elses_execute I run p elses)"
proof (induction elses)
  case (Cons c elses)
  obtain condition body where c: "c = ElseClause condition body" by (cases c)
  show ?case unfolding c elses_execute.simps by (intro guarding run Cons.IH)
qed (simp add: guarding)

lemma guards_if [guarding]:
  "(\<And>pl p. guards S V (run pl p)) \<Longrightarrow> guards S V (if_execute I run condition body elses p)"
  unfolding if_execute_def by (intro guarding)

lemma guards_while [guarding]:
  assumes run: "\<And>pl p. guards S V (run pl p)"
  shows "guards S V (while_execute I n run is_while condition body p)"
proof -
  have "guards S V (while_loop I run is_while condition body p n r)" for r
    by (induction n arbitrary: r) (simp_all add: guarding run)
  then show ?thesis unfolding while_execute_def by (intro guarding)
qed

lemma guards_arith [guarding]: "guards S V (arith_execute I e p)" "guards S V (arith_part I opt p)"
  unfolding arith_execute_def arith_part_def by (intro guarding)+

lemma guards_arith_for [guarding]:
  assumes run: "\<And>pl p. guards S V (run pl p)"
  shows "guards S V (arith_for_execute I n run initializer condition updater body p)"
proof -
  have "guards S V (arith_for_loop I run condition updater body p n r)" for r
  proof (induction n arbitrary: r)
    case (Suc n)
    then show ?case unfolding arith_for_loop.simps by (intro guarding run)
  qed (simp add: guarding)
  then show ?thesis unfolding arith_for_execute_def by (intro guarding)
qed

lemma guards_subshell [guarding]:
  "(\<And>pl p. guards S V (run pl p)) \<Longrightarrow> guards S V (subshell_execute I run l p)"
  unfolding subshell_execute_def by (intro guarding) simp_all

lemma guards_adds_file [guarding]: "guards S V (adds_file f)"
  unfolding adds_file_def by (rule guards_updates) (simp split: prod.split)

lemma guards_coproc [guarding]: "guards S V (coproc_execute I name body p)"
  unfolding coproc_execute_def Let_def by (intro guarding) simp_all

lemma guards_compound [guarding]:
  "(\<And>pl p. guards S V (run pl p)) \<Longrightarrow> guards S V (compound_execute I n run k p)"
  by (cases k) (auto intro!: guarding)

lemma guards_command [guarding]:
  "(\<And>pl p. guards S V (run pl p)) \<Longrightarrow> guards S V (command_in_pipeline I n run asker pgid c p)"
  unfolding command_in_pipeline_def
  by (intro guarding standing_simps) (cases c; auto intro!: guarding)

lemma guards_stages [guarding]:
  assumes run: "\<And>pl p. guards S V (run pl p)"
  shows "guards S V (spawn_stages I n run p len i readers writers pgid cs)"
proof (induction cs arbitrary: i readers writers pgid)
  case (Cons c cs)
  have "guards S V (stage_execute I n run b j g c q)" for b j g q
    unfolding stage_execute_def by (intro guarding run) simp_all
  with Cons.IH show ?case unfolding spawn_stages.simps by (intro guarding)
qed (simp add: guarding)

lemma guards_pipes [guarding]: "guards S V (make_pipes I n)"
  by (induction n) (simp_all add: guarding)

lemma guards_wait_stages [guarding]: "guards S V (wait_stages (x_runtime I) stopped r failed ss)"
proof (induction ss arbitrary: stopped r failed)
  case (Cons s ss)
  have "V (snd (stage_wait (x_runtime I) b s w))" if "V w" for b w
  proof (cases s)
    case (StartedProcess c)
    with that runtime(1) [OF that, of c] show ?thesis
      by (auto simp: stage_wait_def split: prod.splits sum.splits process_wait.splits)
  next
    case (StartedTask h)
    with runtime(2) [OF that, of h] show ?thesis by (auto simp: stage_wait_def split: prod.splits sum.splits)
  qed (simp add: stage_wait_def that)
  then have wait: "guards S V (performs (\<lambda>sh. stage_wait (x_runtime I) b s))" for b
    by (intro guards_performs)
  show ?case
    unfolding wait_stages.simps
    by (intro guarding wait) (auto intro!: guarding Cons.IH split: wait_result.split)
qed (simp add: guarding)

lemma guards_wait_pipeline [guarding]: "guards S V (wait_pipeline I pl ss p)"
  unfolding wait_pipeline_def by (intro guarding) simp_all

lemma guards_err_trap [guarding]: "(\<And>pl p. guards S V (run pl p)) \<Longrightarrow> guards S V (err_trap I run r p)"
  unfolding err_trap_def by (intro guarding)

lemma guards_timing [guarding]: "guards S V (report_timing I watch p)"
  unfolding report_timing_def by (intro guarding)

lemma guards_exec_pipeline: "guards S V (exec_pipeline I n pl p)"
proof (induction n arbitrary: pl p)
  case (Suc n)
  then have run: "guards S V (exec_pipeline I n pl p)" for pl p by blast
  show ?case
    unfolding exec_pipeline.simps pipeline_execute_def spawn_pipeline_def
    by (cases pl) (auto intro!: guarding run)
qed (simp add: guarding)

lemma guards_exec_program: "guards S V (exec_program I n prog p)"
  unfolding exec_program_def program_execute_def by (intro guarding guards_exec_pipeline)

end

section \<open>An interface over the namespace\<close>

text \<open>The world of such an interface comes with what has been done outside so far.\<close>

definition logged :: "('w, 'a) act \<Rightarrow> 'w \<times> event list \<Rightarrow> (failure + 'a) \<times> 'w \<times> event list" where
  "logged m = (\<lambda>(w, es). case m w of (r, es', w') \<Rightarrow> (r, w', es @ es'))"

text \<open>A question that fails has the answer no.\<close>

definition affirmed :: "('w, bool) io \<Rightarrow> 'w \<times> event list \<Rightarrow> bool \<times> 'w \<times> event list" where
  "affirmed m t = (case logged (asking io_failure m) t of (r, t') \<Rightarrow> (r = Inr True, t'))"

definition context_of :: "place shell \<Rightarrow> exec_params \<Rightarrow> string \<Rightarrow> execution_context" where
  "context_of sh p name = \<lparr> ec_shell = sh, ec_name = name, ec_params = p \<rparr>"

definition regular_file :: "'w host \<Rightarrow> unicode \<Rightarrow> place \<Rightarrow> string \<Rightarrow> ('w, bool) io" where
  "regular_file H u pl path =
     (case to_virtual_path u (pc_session pl) path of
        Inl e \<Rightarrow> ok False
      | Inr v \<Rightarrow> try_then (vfs_facts H u (s_vfs (pc_session pl)) v True)
          (\<lambda>f. ok (case f of None \<Rightarrow> False | Some f \<Rightarrow> ff_is_file f)))"

text \<open>Opened files get numbers from \<open>number\<close>; \<open>dyn\<close> gives the values of dynamic variables.\<close>

definition namespaced ::
  "'w machine \<Rightarrow> (nat \<Rightarrow> shell_value) \<Rightarrow> (file_handle \<Rightarrow> nat) \<Rightarrow> io_error + nat \<Rightarrow>
   (place, 'w \<times> event list) interface \<Rightarrow> (place, 'w \<times> event list) interface" where
  "namespaced M dyn number null I =
     I\<lparr>x_open := (\<lambda>mode path sh p.
         logged (asking io_failure (try_then
           (open_file (mc_host M) (mc_unicode M) null sh (sh_rest sh) mode path p)
           (\<lambda>f. ok (case f of SharedFile n \<Rightarrow> n | NamedFile h \<Rightarrow> number h))))),
       x_regular := (\<lambda>path sh. affirmed (regular_file (mc_host M) (mc_unicode M) (sh_rest sh) path)),
       x_external := (\<lambda>sh p name path pgid args.
         logged (execute_external_command M (context_of sh p name) path pgid None args)),
       x_executable := (\<lambda>path sh.
         affirmed (is_executable_in_namespace (mc_host M) (mc_unicode M) (sh_rest sh) path)),
       x_find_executable := (\<lambda>name (sh, t).
         case logged (asking io_failure (find_first_executable_in_path_using_cache (mc_host M) (mc_unicode M)
                (sh_rest sh) (env_get_str dyn (sh_env sh) ''PATH'') name)) t of
           (Inl e, t') \<Rightarrow> (None, sh, t')
         | (Inr (found, pl), t') \<Rightarrow> (found, sh\<lparr>sh_rest := pl\<rparr>, t')),
       x_absolute := (\<lambda>sh. absolute_path (pc_working_dir (sh_rest sh)))\<rparr>"

text \<open>The policies and the namespace stay; the events are those the policies allow.\<close>

definition confined_to ::
  "unicode \<Rightarrow> external_execution \<Rightarrow> builtin_policy \<Rightarrow> mount_table \<Rightarrow> place standing \<Rightarrow> bool" where
  "confined_to u ex policy t = (\<lambda>(ex', policy', pl).
     ex' = ex \<and> policy' = policy \<and> s_vfs (pc_session pl) = t \<and> session_ok u (pc_session pl))"

definition allowed_log ::
  "'w machine \<Rightarrow> external_execution \<Rightarrow> builtin_policy \<Rightarrow> mount_table \<Rightarrow> 'w \<times> event list \<Rightarrow> bool" where
  "allowed_log M ex policy t = (\<lambda>(w, es).
     list_all (event_ok (mc_temp_dir M) (mc_own_pid M) ex policy (session_new t)) es)"

lemma event_ok_table:
  "s_vfs s = t \<Longrightarrow> event_ok temp_dir own_pid ex policy s = event_ok temp_dir own_pid ex policy (session_new t)"
  by (rule ext) (simp add: event_ok_def handover_asks_def session_new_def split: event.split request.split)

lemma logged_allowed:
  assumes "acts (event_ok (mc_temp_dir M) (mc_own_pid M) ex policy (session_new t)) m Q"
    and "allowed_log M ex policy t x"
  shows "allowed_log M ex policy t (snd (logged m x))"
proof -
  obtain w es where x: "x = (w, es)" by (cases x)
  obtain r es' w' where m: "m w = (r, es', w')" by (cases "m w")
  from acts_at [OF assms(1) m] assms(2) show ?thesis by (simp add: logged_def x m allowed_log_def)
qed

lemma logged_result: "acts P m Q \<Longrightarrow> logged m x = (Inr v, x') \<Longrightarrow> Q v"
  by (auto simp: logged_def split: prod.splits dest: acts_at)

lemma asking_allowed:
  assumes "emits (request_confined t) m Q" and "allowed_log M ex policy t x"
  shows "allowed_log M ex policy t (snd (logged (asking f m) x))"
  by (rule logged_allowed [OF acts_asking [OF assms(1)] assms(2)]) (simp add: event_ok_def session_new_def)

lemma affirmed_allowed:
  "emits (request_confined t) m Q \<Longrightarrow> allowed_log M ex policy t x \<Longrightarrow>
     allowed_log M ex policy t (snd (affirmed m x))"
  using asking_allowed [of t m Q M ex policy x io_failure] by (auto simp: affirmed_def split: prod.split)

lemma confined_standing:
  "confined_to u ex policy t (standing sh) \<longleftrightarrow>
     sh_execution sh = ex \<and> sh_builtin_policy sh = policy \<and> s_vfs (pc_session (sh_rest sh)) = t \<and>
     session_ok u (pc_session (sh_rest sh))"
  by (simp add: confined_to_def standing_def)

lemma search_cached_confined:
  assumes "nfc_ok u" and "session_ok u (pc_session pl)"
  shows "emits (request_confined (s_vfs (pc_session pl)))
    (find_first_executable_in_path_using_cache H u pl path_var name)
    (\<lambda>(found, pl'). pc_session pl' = pc_session pl)"
proof (cases "pc_cache pl name")
  case None
  show ?thesis
    unfolding find_first_executable_in_path_using_cache_def find_first_executable_in_path_def None option.case
    by (rule emits_try_then [OF search_path_confined [OF assms]]) (auto intro!: emits_ok split: option.split)
qed (simp add: find_first_executable_in_path_using_cache_def emits_ok)

lemma file_opening_emits:
  assumes "nfc_ok u" and "session_ok u (pc_session pl)"
  shows "emits (request_confined (s_vfs (pc_session pl))) (open_file H u null sh pl mode path p) (\<lambda>_. True)"
  unfolding open_file_def Let_def
  by (auto intro!: emits_if emits_lift_result emits_ok emits_fail emits_at_virtual assms
      emits_try_then [OF vfs_open_with_confined] split: option.split)

lemma regular_file_confined:
  assumes "nfc_ok u" and "session_ok u (pc_session pl)"
  shows "emits (request_confined (s_vfs (pc_session pl))) (regular_file H u pl path) (\<lambda>_. True)"
  unfolding regular_file_def
  by (intro emits_at_virtual assms emits_ok emits_try_then [OF vfs_facts_confined] TrueI)

lemma external_acts:
  assumes "nfc_ok (mc_unicode M)" and "confined_to (mc_unicode M) ex policy t (standing sh)"
  shows "acts (event_ok (mc_temp_dir M) (mc_own_pid M) ex policy (session_new t))
    (execute_external_command M (context_of sh p name) path pgid argv0 args) (\<lambda>_. True)"
proof -
  let ?c = "context_of sh p name"
  have c: "sh_execution (ec_shell ?c) = ex" "sh_builtin_policy (ec_shell ?c) = policy"
    "s_vfs (pc_session (ec_place ?c)) = t" "session_ok (mc_unicode M) (pc_session (ec_place ?c))"
    using assms(2) by (simp_all add: confined_standing context_of_def ec_place_def)
  from execute_acts [OF assms(1) c(4)] show ?thesis
    unfolding obeys_def c(1,2) event_ok_table [OF c(3)] .
qed

lemma find_keeps:
  assumes nfc: "nfc_ok (mc_unicode M)" and x: "allowed_log M ex policy t x"
    and sh: "confined_to (mc_unicode M) ex policy t (standing sh)"
    and found: "x_find_executable (namespaced M dyn number null I) name (sh, x) = (path, sh', x')"
  shows "confined_to (mc_unicode M) ex policy t (standing sh') \<and> allowed_log M ex policy t x'"
proof -
  from sh have s: "s_vfs (pc_session (sh_rest sh)) = t" "session_ok (mc_unicode M) (pc_session (sh_rest sh))"
    by (simp_all add: confined_standing)
  define m where "m = asking io_failure (find_first_executable_in_path_using_cache (mc_host M) (mc_unicode M)
          (sh_rest sh) (env_get_str dyn (sh_env sh) ''PATH'') name)"
  note search = search_cached_confined [OF nfc s(2), unfolded s(1)]
  obtain r x1 where run: "logged m x = (r, x1)" by (cases "logged m x")
  have "allowed_log M ex policy t (snd (logged m x))" unfolding m_def by (rule asking_allowed [OF search x])
  then have log: "allowed_log M ex policy t x1" by (simp add: run)
  have acts: "acts (\<lambda>e. True) m (\<lambda>(found, pl'). pc_session pl' = pc_session (sh_rest sh))"
    unfolding m_def by (rule acts_asking [OF search TrueI])
  have eq: "x_find_executable (namespaced M dyn number null I) name (sh, x) =
      (case logged m x of
         (Inl e, t') \<Rightarrow> (None, sh, t')
       | (Inr (found, pl), t') \<Rightarrow> (found, sh\<lparr>sh_rest := pl\<rparr>, t'))"
    by (simp add: namespaced_def m_def)
  show ?thesis
  proof (cases r)
    case (Inl e)
    with found sh log show ?thesis by (simp add: eq run)
  next
    case (Inr q)
    obtain f pl where q: "q = (f, pl)" by (cases q)
    from logged_result [OF acts, of x q x1] run Inr q have "pc_session pl = pc_session (sh_rest sh)" by simp
    with found sh log Inr q show ?thesis by (auto simp: eq run confined_standing)
  qed
qed

lemma namespaced_guarded:
  assumes I: "guarded_services I (confined_to (mc_unicode M) ex policy t) (allowed_log M ex policy t)"
    and nfc: "nfc_ok (mc_unicode M)"
  shows "guarded (namespaced M dyn number null I) (confined_to (mc_unicode M) ex policy t) (allowed_log M ex policy t)"
proof (rule guarded.intro)
  let ?S = "confined_to (mc_unicode M) ex policy t" and ?V = "allowed_log M ex policy t"
  show "guarded_services (namespaced M dyn number null I) ?S ?V"
    using I unfolding guarded_services_def by (simp add: namespaced_def)
  show "guarded_axioms (namespaced M dyn number null I) ?S ?V"
  proof (rule guarded_axioms.intro)
    fix x :: "'a \<times> event list" and sh :: "place shell"
    assume x: "?V x" and sh: "?S (standing sh)"
    then have s: "s_vfs (pc_session (sh_rest sh)) = t" "session_ok (mc_unicode M) (pc_session (sh_rest sh))"
      by (simp_all add: confined_standing)
    note asked = asking_allowed [OF _ x] and affirm = affirmed_allowed [OF _ x]
    show "?V (snd (x_open (namespaced M dyn number null I) mode path sh p x))" for mode path p
      by (simp add: namespaced_def, rule asked, rule emits_try_then
          [OF file_opening_emits [OF nfc s(2), unfolded s(1)]]) (rule emits_ok, rule TrueI)
    show "?V (snd (x_regular (namespaced M dyn number null I) path sh x))" for path
      by (simp add: namespaced_def, rule affirm, rule regular_file_confined [OF nfc s(2), unfolded s(1)])
    show "?V (snd (x_external (namespaced M dyn number null I) sh p name path pgid args x))"
      for p name path pgid args
      by (simp add: namespaced_def, rule logged_allowed [OF external_acts [OF nfc sh] x])
    show "?V (snd (x_executable (namespaced M dyn number null I) path sh x))" for path
      unfolding is_executable_in_namespace_def
      by (simp add: namespaced_def is_executable_in_namespace_def, rule affirm,
          rule is_executable_confined [OF nfc s(2), unfolded s(1)])
    show "?S (standing (fst (snd (x_find_executable (namespaced M dyn number null I) name (sh, x))))) \<and>
        ?V (snd (snd (x_find_executable (namespaced M dyn number null I) name (sh, x))))" for name
      using find_keeps [OF nfc x sh, of dyn number null I name]
      by (cases "x_find_executable (namespaced M dyn number null I) name (sh, x)") auto
  qed
qed

text \<open>A shell over its namespace: services that keep the policies and the log make an interpreter that
  does.\<close>

locale confined_shell =
  guarded_services I "confined_to (mc_unicode M) ex policy t" "allowed_log M ex policy t"
  for I :: "(place, 'w \<times> event list) interface" and M :: "'w machine" and ex policy t +
  assumes unicode: "nfc_ok (mc_unicode M)"

sublocale confined_shell \<subseteq> namespaced: guarded "namespaced M dyn number null I"
    "confined_to (mc_unicode M) ex policy t" "allowed_log M ex policy t" for dyn number null
  by (rule namespaced_guarded [OF guarded_services_axioms unicode])

text \<open>Services that answer at once: words stand for themselves, builtins succeed.\<close>

definition calm_interface :: "('s, 'w) interface" where
  "calm_interface = \<lparr>
     x_fields = \<lambda>w p. pure [w], x_word = \<lambda>w p. pure w, x_assignment_word = \<lambda>w p. pure w,
     x_heredoc_word = \<lambda>w p. pure w, x_pattern_matches = \<lambda>w s p. pure (w = s),
     x_arith = \<lambda>e b p. pure 1, x_test = \<lambda>e p. pure True,
     x_builtin = \<lambda>b name args p. pure result_success, x_trace = \<lambda>s p. pure (),
     x_parse = \<lambda>s sh. Inl (failure_of ParseFailure), x_open = \<lambda>mode file sh p w. (Inr 3, w),
     x_regular = \<lambda>file sh w. (False, w), x_temp_file = \<lambda>text w. (Inr 3, w), x_pipe = \<lambda>w. (Inr (3, 4), w),
     x_null = \<lambda>w. (Inr 3, w), x_write_stderr = \<lambda>s sh p w. (Inr (), w), x_display = \<lambda>e f sh w. (Inr (), w),
     x_quote = id, x_error_text = \<lambda>e. [], x_spawn = \<lambda>c sh p w. (0, w),
     x_external = \<lambda>sh p name path pgid args w. (Inl (not_executable name), w),
     x_executable = \<lambda>name sh w. (False, w), x_find_executable = \<lambda>name t. (None, t),
     x_foreground = \<lambda>w. (Inr (), w), x_start_timing = \<lambda>w. (Inr 0, w), x_report_timing = \<lambda>q n f w. (Inr (), w),
     x_runtime = \<lparr> rt_wait_child = \<lambda>c w. (Inr (ProcessCompleted \<lparr> po_code = Some 0, po_signal = None \<rparr>), w),
       rt_join = \<lambda>h w. (Inr result_success, w), rt_poll_child = \<lambda>c w. (None, w), rt_poll_task = \<lambda>h w. (None, w),
       rt_continue = \<lambda>n w. (Inr (), w), rt_foreground = \<lambda>n w. (Inr (), w), rt_kill = \<lambda>n s w. (Inr (), w) \<rparr>,
     x_casing = ascii_casing, x_absolute = \<lambda>sh s. s, x_location = \<lambda>c. None, x_pipeline_text = \<lambda>pl. [],
     x_and_or_text = \<lambda>l. [] \<rparr>"

lemma calm_services: "guarded_services calm_interface S V"
  by (rule guarded_services.intro) (simp_all add: calm_interface_def guards_basic)

interpretation demo: confined_shell calm_interface demo_machine ex policy t for ex policy t
  by (intro confined_shell.intro calm_services confined_shell_axioms.intro) (simp add: demo_machine_def nfc_ok_ascii)

section \<open>A program starts only what the policies allow\<close>




end
