(* ===== verification/Spec2Isabelle.thy ===== *)
theory Spec2Isabelle
  imports Broker Discovery Trust Grant Exec_Policy Brace Escape Arithmetic Walk_Tree Child_Exec Interp_Properties Interp_Policy
begin

text \<open>
  A verification development for seahaven: a shell whose filesystem, child processes and
  bundled utilities are confined to a virtual namespace.

  \<^bold>\<open>The program.\<close> A script names files by virtual paths (\<^verbatim>\<open>brush-vfs/src/path.rs\<close>). A mount table
  (\<^verbatim>\<open>mount.rs\<close>) maps prefixes of them to directory capabilities of the host; the filesystem
  (\<^verbatim>\<open>fs.rs\<close>) locates a path, symbolic links included, and performs each operation beneath the
  capability that governs it; \<^verbatim>\<open>dir.rs\<close> hands out directory capabilities, \<^verbatim>\<open>walk.rs\<close> iterates over
  a tree through them; \<^verbatim>\<open>session.rs\<close> adds a working directory, \<^verbatim>\<open>ambient.rs\<close> the process-wide facade
  that bundled utilities call; the broker (\<^verbatim>\<open>brush-core/src/broker\<close>) hands a session to a child
  process over a socket. Before any of it, \<^verbatim>\<open>brush-shell/src\<close> finds the project (\<^verbatim>\<open>discovery.rs\<close>),
  asks for consent (\<^verbatim>\<open>trust.rs\<close>) and derives the namespace (\<^verbatim>\<open>grant.rs\<close>). Above it runs the
  interpreter (\<^verbatim>\<open>brush-core\<close>, with the grammar in \<^verbatim>\<open>brush-parser\<close>): its policies for external
  programs and builtins, its variables, and its expansions.

  \<^bold>\<open>The theories: the namespace.\<close>
  \<^item> \<open>Prelude\<close>: strings as UTF-8 bytes, splitting and joining, UTF-8 validity.
  \<^item> \<open>Virtual_Path\<close> (\<^verbatim>\<open>path.rs\<close>): the grammar; resolution against a second reading of it, round trips.
  \<^item> \<open>Host_Interface\<close>: the boundary to cap-std and the kernel, none of which is in the repository. A
    host is a record of functions that answer requests on an arbitrary world; effectful code
    returns its result, its requests in order, and the world after. \<open>emits\<close> is the logic of what
    a piece of code may ask, and the safety theorems hold for every host and every world.
  \<^item> \<open>Mount_Table\<close> (\<^verbatim>\<open>mount.rs\<close>): longest-match lookup, construction, lending to a child. The locale
    \<open>namespace_resolver\<close> states what a lookup promises, interpreted by the table's own.
  \<^item> \<open>Vfs\<close> (\<^verbatim>\<open>fs.rs\<close>): every operation of the filesystem and its confinement.
  \<^item> \<open>Dir_Cap\<close> (\<^verbatim>\<open>dir.rs\<close>): directory capabilities, and that their authority never grows.
  \<^item> \<open>Vfs_Session\<close>, \<open>Ambient\<close> (\<^verbatim>\<open>session.rs\<close>, \<^verbatim>\<open>ambient.rs\<close>): sessions, policies, the facade and its
    failing closed.
  \<^item> \<open>Walk\<close>, \<open>Walk_Tree\<close> (\<^verbatim>\<open>walk.rs\<close>): the iterator as a state machine, its confinement at every
    reachable state, and, on a host that serves a finite tree (locale \<open>steady_tree\<close>), that every
    call returns and the items are the tree's listing.
  \<^item> \<open>Broker\<close> (\<^verbatim>\<open>broker/mod.rs\<close>, \<^verbatim>\<open>broker/unix.rs\<close>): the wire format, the handshake, and that a child
    gets its parent's namespace.

  \<^bold>\<open>The theories: granting it.\<close>
  \<^item> \<open>Discovery\<close> (\<^verbatim>\<open>discovery.rs\<close>): the upward search for the project and where it stops.
  \<^item> \<open>Trust\<close> (\<^verbatim>\<open>trust.rs\<close>): what a recorded consent covers.
  \<^item> \<open>Grant\<close> (\<^verbatim>\<open>grant.rs\<close>): the mount table of a project, its marker shadowed.
  \<^item> \<open>Exec_Policy\<close> (\<^verbatim>\<open>execpolicy.rs\<close>, \<^verbatim>\<open>builtinpolicy.rs\<close>): which programs run, which builtins exist.

  \<^bold>\<open>The theories: the interpreter.\<close>
  \<^item> \<open>Ordered_Map\<close>: the ordered maps of array elements, as sorted association lists.
  \<^item> \<open>Variables\<close>, \<open>Environment\<close> (\<^verbatim>\<open>variables.rs\<close>, \<^verbatim>\<open>env.rs\<close>): values, attributes and assignment with
    an abstract map per value; scopes, lookup policies and that locals do not leak.
  \<^item> \<open>Brace\<close> (\<^verbatim>\<open>braceexpansion.rs\<close>): the expansion against the fields an expression denotes.
  \<^item> \<open>Escape\<close> (\<^verbatim>\<open>escape.rs\<close>): backslash escapes and quoting, and that what is quoted reads back.
  \<^item> \<open>Arithmetic\<close> (\<^verbatim>\<open>arithmetic.rs\<close>): the evaluator against the mathematical meaning, assignments,
    references through variables and their recursion limit.

  \<^bold>\<open>The theories: running a program.\<close>
  \<^item> \<open>Exec_Result\<close> (\<^verbatim>\<open>results.rs\<close>): exit codes as bytes, control flow of one result, conversions.
  \<^item> \<open>Jobs\<close> (\<^verbatim>\<open>jobs.rs\<close>): the job table, its numbering, annotations, polling and job specifications.
  \<^item> \<open>Command_Ast\<close> (\<^verbatim>\<open>brush-parser/src/ast.rs\<close>): the syntax tree, one datatype per node.
  \<^item> \<open>Call_Stack\<close> (\<^verbatim>\<open>callstack.rs\<close>): frames, function and script depth, trap frames.
  \<^item> \<open>Shell_State\<close> (\<^verbatim>\<open>shell.rs\<close>, \<^verbatim>\<open>shell/*.rs\<close>, \<^verbatim>\<open>openfiles.rs\<close>, \<^verbatim>\<open>traps.rs\<close>, \<^verbatim>\<open>error.rs\<close>): the shell as one
    record, parameters with their persistent and per-command descriptors, errors as a datatype.
  \<^item> \<open>Assignments\<close>, \<open>Execution\<close>, \<open>Redirection\<close>, \<open>Simple_Command\<close>, \<open>Interp\<close> (\<^verbatim>\<open>interp.rs\<close>, \<^verbatim>\<open>commands.rs\<close>):
    one function per \<^verbatim>\<open>execute\<close> method, from assignments to pipelines. \<open>Execution\<close> holds the record of
    what the interpreter calls and the repository keeps elsewhere (word expansion, builtins, the
    parser, conditionals, external programs), and the two logics of the proofs: \<open>keeps\<close>, that scopes
    and call frames are as before however the run ended, and \<open>extends\<close>, that a run which ended
    within some fuel is the same under more.
  \<^item> \<open>Interp_Properties\<close>: those logics on whole programs, the isolation of subshells and pipeline
    stages, the status of a pipeline, and a concrete interface on which programs are run.
  \<^item> \<open>Shell_Namespace\<close> (\<^verbatim>\<open>namespace.rs\<close>, \<^verbatim>\<open>shell/fs.rs\<close>, \<^verbatim>\<open>pathsearch.rs\<close>): from text to virtual paths, the working
    directory and its mirror in the session, opening files, finding programs; all confined.
  \<^item> \<open>External_Command\<close> (\<^verbatim>\<open>commands.rs\<close>): what a process is composed of under each policy, how it is started and
    handed its session. Its effects are events, requests and starts, under the logic \<open>acts\<close>.
  \<^item> \<open>Interp_Policy\<close>: the locale \<open>guarded\<close>, what the interpreter's services have to keep for every program to keep
    it, and the interpreter over those two theories (\<open>namespaced\<close>): a program starts only what the
    policies allow.

  \<^bold>\<open>The theories: the guest's platform.\<close>
  \<^item> \<open>Platform_Io\<close> (\<^verbatim>\<open>brush-platform/src/stdio.rs\<close>, \<^verbatim>\<open>runtime.rs\<close>): the output log, the input source with
    lossy decoding, the signal queue.
  \<^item> \<open>Platform\<close> (\<^verbatim>\<open>vfs_host.rs\<close>, \<^verbatim>\<open>cmd.rs\<close>, \<^verbatim>\<open>facts.rs\<close>, \<^verbatim>\<open>error.rs\<close>): every effect a guest performs, on a
    platform record; \<open>asks\<close> is the request logic of effects that always answer. Job handles are
    related to those given out and taken back.
  \<^item> \<open>Child_Exec\<close> (\<^verbatim>\<open>brush-broker-exec/src/lib.rs\<close>): the executor that runs only the launcher, the order
    of its requests, and that the child it spawned is served this session.

  This theory joins them: \<open>granted_project_confined\<close> takes the table of a grant through every
  operation of the filesystem, \<open>brokered_guest_confined\<close> any sequence of a guest's effects, commands
  included, to the requests of the host.

  \<^bold>\<open>Conventions.\<close> A Rust \<^verbatim>\<open>Result\<close> is a sum with the error on the left, \<^verbatim>\<open>?\<close> is \<open>try_then\<close>; a method
  on \<^verbatim>\<open>&mut self\<close> returns the new state. References to mounts, which the code compares by
  address, are indices in the table. Directory handles carry their provenance, so that acting
  beneath a mount is a property of a request. Unicode tables are a parameter with the facts of
  the standard the grammar relies on (\<open>nfc_ok\<close>). Arithmetic of the shell is on 64-bit words.

  \<^bold>\<open>Bounds.\<close> Locating a path ends by its own hop limit (a termination measure of hops left and
  components pending), arithmetic by the limit on dereferences and the size of the expression. The
  broker's polling loops take fuel; ten thousand and one polls of a millisecond suffice for the
  ten-second deadlines. Loops that the code does not bound, the walk's \<^verbatim>\<open>next\<close> and a descending
  brace sequence, are partial functions, with theorems on when they return; a bounded copy of the
  walk's loop, proved to agree, evaluates the concrete runs. The interpreter runs programs that need
  not end, so \<open>exec_pipeline\<close> takes fuel for its nesting of calls and its loops' rounds, and running
  out is a value, \<open>None\<close>; more fuel never changes a run that ended.

  \<^bold>\<open>Not modelled.\<close> Windows branches; the raw descriptor \<^verbatim>\<open>Dir\<close> surrenders is the handle itself; the
  generated grammars, word expansion, patterns, extended tests and the bodies of the builtins,
  which are arguments of the code that calls them; concurrency between the stages of a pipeline,
  which run one after another; diagnostics and tracing; the utilities under \<^verbatim>\<open>forks\<close>, the
  interactive front end and the generated glue. What cap-std does with a request is left open, so the theorems bound
  what is asked of it, not what it does.
\<close>

section \<open>A granted project, end to end\<close>

text \<open>C5. From discovery to the last request. In the namespace a grant makes, whatever the host answers
  and whatever operation is run on well-formed paths: no request names a host path, every request
  acts on a handle that comes from the project, its home or the empty shadow, and every request
  that writes, on one that comes from the project or its home.\<close>

theorem granted_project_confined:
  assumes "nfc_ok u" and "list_all plain_component (g_marker g)"
    and "result (grant_table H u g w) = Inr (Inr t)"
    and "\<forall>p \<in> set (op_paths c). wf_path u p" and "q \<in> set (requests (vfs_exec H' u t c w'))"
  shows "\<not> names_host_path q \<and>
    (\<forall>(d, r) \<in> set (writes_at q). \<exists>m \<in> set (mounts t). dir_origin d = dir_origin (m_dir m) \<and>
       m_host_path m \<in> {Some (g_root g), Some (g_home g)} \<and> m_access m = ReadWrite) \<and>
    (\<forall>(d, r) \<in> set (reads_at q). \<exists>m \<in> set (mounts t). dir_origin d = dir_origin (m_dir m) \<and>
       m_host_path m \<in> {Some (g_root g), Some (g_home g), Some (g_shadow g)})"
proof -
  have conf: "request_confined t q"
    by (rule emits_requests [OF vfs_exec_confined [OF assms(1,4)] assms(5)])
  obtain rest work shadow home where pts:
    "points t = {(work, Some (g_root g), ReadWrite), (shadow, Some (g_shadow g), ReadOnly),
       (home, Some (g_home g), ReadWrite)}"
    using grant_points [OF assms(1-3)] by metis
  have mount: "(m_access m = ReadWrite \<and> m_host_path m \<in> {Some (g_root g), Some (g_home g)}) \<or>
      (m_access m = ReadOnly \<and> m_host_path m = Some (g_shadow g))" if "m \<in> set (mounts t)" for m
    using that pts by (auto simp: points_def image_iff set_eq_iff)
  have w: "\<exists>m \<in> set (mounts t). dir_origin d = dir_origin (m_dir m) \<and>
       m_host_path m \<in> {Some (g_root g), Some (g_home g)} \<and> m_access m = ReadWrite"
    if "governed t True d" for d
    using that mount by (auto simp: governed_def is_writable_def split: access.splits)
  have r: "\<exists>m \<in> set (mounts t). dir_origin d = dir_origin (m_dir m) \<and>
       m_host_path m \<in> {Some (g_root g), Some (g_home g), Some (g_shadow g)}"
    if "governed t False d" for d
    using that mount by (auto simp: governed_def)
  from conf w r show ?thesis by (auto simp: request_confined_def split: prod.splits)
qed

theorem granted_project_confined_witness:
  "\<not> names_host_path (RemoveFile (MountDir 7) [''a'']) \<and>
   list_all (\<lambda>(d, r). \<exists>m \<in> set (mounts granted_table). dir_origin d = dir_origin (m_dir m) \<and>
       m_host_path m \<in> {Some [''src'', ''p''], Some [''state'', ''h'']} \<and> m_access m = ReadWrite)
     (writes_at (RemoveFile (MountDir 7) [''a'']))"
proof -
  have g: "g_root demo_grant = [''src'', ''p'']" "g_home demo_grant = [''state'', ''h'']"
    by code_simp+
  have a: "list_all plain_component (g_marker demo_grant)" by code_simp
  have b: "\<forall>p \<in> set (op_paths (OpRemoveFile (VirtualPath ''/work/a''))). wf_path ascii_unicode p"
    by code_simp
  have c: "RemoveFile (MountDir 7) [''a''] \<in> set (requests
      (vfs_exec still_host ascii_unicode granted_table (OpRemoveFile (VirtualPath ''/work/a'')) ()))"
    by code_simp
  from granted_project_confined [OF nfc_ok_ascii a granted_table_is b c] show ?thesis
    unfolding g list_all_iff by (elim conjE) (intro conjI)
qed

section \<open>A guest application, end to end\<close>

text \<open>C6. A guest application end to end. Whatever effects it performs in whatever order, on a
  platform over one session whose commands run through the broker: every request of the host is
  confined to the session's namespace, reads the clock or randomness, or belongs to the run of a
  command, where the only program that starts is the launcher with the dispatch flag.\<close>

theorem brokered_guest_confined:
  assumes "nfc_ok u" and "session_ok u s"
    and "platform_run H u ops
      (with_executor (brokered H fuel temp_dir own_pid draw (executor_new s launcher flag))
        (platform_new H s facts)) w = ((p', as), qs, w')"
  shows "list_all (\<lambda>q. request_confined (s_vfs s) q \<or>
      host_side temp_dir own_pid (executor_new s launcher flag) q) qs \<and>
    list_all (\<lambda>q. case q of
        SpawnChild l args cleared envs \<Rightarrow> l = launcher \<and> hd args = flag
      | _ \<Rightarrow> True) qs"
proof
  let ?ex = "executor_new s launcher flag"
  let ?p = "with_executor (brokered H fuel temp_dir own_pid draw ?ex) (platform_new H s facts)"
  have p: "pf_session ?p = s" by (simp add: with_executor_def platform_new_def)
  have ok: "session_ok u (pf_session ?p)" unfolding p by (rule assms(2))
  have "list_all (allowed (s_vfs (pf_session ?p)) (host_side temp_dir own_pid ?ex)) qs"
    using asks_at [OF platform_run_asks [OF assms(1) ok system_sources_ask] assms(3)] by blast
  then show all: "list_all (\<lambda>q. request_confined (s_vfs s) q \<or> host_side temp_dir own_pid ?ex q) qs"
    by (simp add: allowed_def [abs_def] p)
  have "case q of SpawnChild l args cleared envs \<Rightarrow> l = launcher \<and> hd args = flag | _ \<Rightarrow> True"
    if a: "request_confined (s_vfs s) q \<or> host_side temp_dir own_pid ?ex q" for q
  proof (cases q)
    case (SpawnChild l args cleared envs)
    have "\<not> request_confined (s_vfs s) q" by (simp add: SpawnChild request_confined_def)
    then obtain c stdin where "run_asks temp_dir own_pid ?ex c stdin q"
      using a by (auto simp: host_side_def SpawnChild)
    then have "setup_asks temp_dir own_pid ?ex c q" by (simp add: run_asks_def SpawnChild)
    then show ?thesis by (auto simp: SpawnChild launches_def executor_new_def)
  qed simp_all
  with all show "list_all (\<lambda>q. case q of
        SpawnChild l args cleared envs \<Rightarrow> l = launcher \<and> hd args = flag | _ \<Rightarrow> True) qs"
    by (simp add: list_all_iff)
qed

theorem brokered_guest_confined_witness:
  "\<exists>p' as qs w'. platform_run still_host ascii_unicode [UtcNow, Spawn demo_cmd (plan_capture NullStdin)]
      (with_executor (brokered still_host 1 ''/tmp'' 5 (\<lambda>w. (0, w)) demo_executor)
        (platform_new still_host (session_new demo_table) facts_neutral)) () = ((p', as), qs, w') \<and>
    list_all (\<lambda>q. request_confined demo_table q \<or> host_side ''/tmp'' 5 demo_executor q) qs"
proof -
  let ?p = "with_executor (brokered still_host 1 ''/tmp'' 5 (\<lambda>w. (0, w))
      (executor_new (session_new demo_table) ''/bin/app'' ''--invoke-bundled''))
    (platform_new still_host (session_new demo_table) facts_neutral)"
  let ?ops = "[UtcNow, Spawn demo_cmd (plan_capture NullStdin)]"
  obtain p' as qs w' where r: "platform_run still_host ascii_unicode ?ops ?p () = ((p', as), qs, w')"
    by (metis prod.exhaust)
  from brokered_guest_confined [OF nfc_ok_ascii session_ok_new r] r show ?thesis
    unfolding demo_executor_def by (auto simp: session_new_def)
qed

end
